(* ===== verification/Prelude.thy ===== *)
theory Prelude
  imports Main "HOL-Library.Word"
begin

unbundle bit_operations_syntax

text \<open>
  Shared vocabulary of the development: the machine integers of the C sources, the
  \<^verbatim>\<open>errno\<close> values the library returns, the faults a C statement can run into
  (a failed \<^verbatim>\<open>RTE_VERIFY\<close>, an access outside an array, a dereference of a pointer
  that does not point to an object), list lemmas about searching an array for a free
  slot, word lemmas, and two interfaces used by several components:
  \<^item> \<open>invariant_system\<close>: a step relation with an invariant, for reachability arguments;
  \<^item> \<open>slot_table\<close>: a table whose free slots are marked by a reserved value and whose
    insertion takes the first free slot (port groups, port queue groups, feature arcs).
\<close>

section \<open>Machine integers and return codes\<close>

type_synonym u8 = "8 word"
type_synonym u16 = "16 word"
type_synonym u32 = "32 word"
type_synonym u64 = "64 word"

abbreviation (input) ENOENT :: int where "ENOENT \<equiv> 2"
abbreviation (input) EIO :: int where "EIO \<equiv> 5"
abbreviation (input) ENOMEM :: int where "ENOMEM \<equiv> 12"
abbreviation (input) EFAULT :: int where "EFAULT \<equiv> 14"
abbreviation (input) EINVAL :: int where "EINVAL \<equiv> 22"
abbreviation (input) ENOSPC :: int where "ENOSPC \<equiv> 28"
abbreviation (input) ENOTSUP :: int where "ENOTSUP \<equiv> 95"

text \<open>\<^verbatim>\<open>RTE_BIT64(n)\<close> and \<^verbatim>\<open>DAO_BIT_ULL(n)\<close>: the word with bit \<open>n\<close> set.\<close>

definition RTE_BIT64 :: "nat \<Rightarrow> u64" where
  "RTE_BIT64 n = push_bit n 1"

text \<open>What a C statement does when it leaves the defined behaviour of the library.\<close>

datatype fault = VerifyPanic | OutOfBounds | WildPointer | AssertFailed | DivideByZero | BadShift

definition rbind :: "'e + 'a \<Rightarrow> ('a \<Rightarrow> 'e + 'b) \<Rightarrow> 'e + 'b" where
  "rbind m f = (case m of Inl e \<Rightarrow> Inl e | Inr a \<Rightarrow> f a)"

lemma rbind_simps [simp]:
  "rbind (Inl e) f = Inl e"
  "rbind (Inr a) f = f a"
  by (simp_all add: rbind_def)

lemma rbind_Inr_iff: "rbind m f = Inr b \<longleftrightarrow> (\<exists>a. m = Inr a \<and> f a = Inr b)"
  by (cases m) auto

section \<open>Searching for a free slot\<close>

text \<open>
  The loop \<^verbatim>\<open>for (i = 0; i < n; i++) if (free(a[i])) break;\<close>: the index of the first
  element that satisfies the predicate, and the length of the array if there is none.
\<close>

primrec first_free :: "('a \<Rightarrow> bool) \<Rightarrow> 'a list \<Rightarrow> nat" where
  "first_free P [] = 0"
| "first_free P (x # xs) = (if P x then 0 else Suc (first_free P xs))"

definition occupied :: "('a \<Rightarrow> bool) \<Rightarrow> 'a list \<Rightarrow> nat" where
  "occupied P xs = length (filter (\<lambda>x. \<not> P x) xs)"

lemma first_free_le: "first_free P xs \<le> length xs"
  by (induction xs) auto

lemma first_free_less_iff: "first_free P xs < length xs \<longleftrightarrow> (\<exists>x \<in> set xs. P x)"
  by (induction xs) auto

lemma nth_first_free: "first_free P xs < length xs \<Longrightarrow> P (xs ! first_free P xs)"
  by (induction xs) auto

lemma first_free_least: "i < first_free P xs \<Longrightarrow> \<not> P (xs ! i)"
  by (induction xs arbitrary: i) (auto simp: nth_Cons split: if_splits nat.splits)

lemma first_free_append:
  "first_free P (xs @ ys) = (if first_free P xs < length xs then first_free P xs else length xs + first_free P ys)"
  by (induction xs) auto

lemma first_free_map: "first_free P (map f xs) = first_free (\<lambda>x. P (f x)) xs"
  by (induction xs) auto

lemma first_free_unique:
  assumes "i < length xs" "P (xs ! i)" "\<And>k. k < i \<Longrightarrow> \<not> P (xs ! k)"
  shows "first_free P xs = i"
proof (rule antisym)
  show "first_free P xs \<le> i" using assms(2) first_free_least [of i P xs] by (meson not_le)
  have "first_free P xs < length xs" using assms(1,2) by (auto simp: first_free_less_iff)
  then show "i \<le> first_free P xs" using assms(3) nth_first_free by (meson not_le)
qed

lemma occupied_Nil [simp]: "occupied P [] = 0"
  by (simp add: occupied_def)

lemma occupied_Cons [simp]:
  "occupied P (x # xs) = (if P x then occupied P xs else Suc (occupied P xs))"
  by (simp add: occupied_def)

lemma occupied_le: "occupied P xs \<le> length xs"
  by (simp add: occupied_def)

lemma occupied_less_iff: "occupied P xs < length xs \<longleftrightarrow> (\<exists>x \<in> set xs. P x)"
proof (induction xs)
  case (Cons x xs)
  then show ?case using occupied_le [of P xs] by auto
qed simp

lemma occupied_replicate: "P v \<Longrightarrow> occupied P (replicate n v) = 0"
  by (induction n) auto

lemma occupied_fill:
  "i < length xs \<Longrightarrow> P (xs ! i) \<Longrightarrow> \<not> P v \<Longrightarrow> occupied P (xs[i := v]) = Suc (occupied P xs)"
  by (induction xs arbitrary: i) (auto simp: nth_Cons split: nat.splits)

lemma occupied_clear:
  "i < length xs \<Longrightarrow> \<not> P (xs ! i) \<Longrightarrow> P v \<Longrightarrow> occupied P xs = Suc (occupied P (xs[i := v]))"
  by (induction xs arbitrary: i) (auto simp: nth_Cons split: nat.splits)

lemma occupied_keep:
  "i < length xs \<Longrightarrow> P (xs ! i) = P v \<Longrightarrow> occupied P (xs[i := v]) = occupied P xs"
  by (induction xs arbitrary: i) (auto simp: nth_Cons split: nat.splits)

text \<open>
  The interface of such a table: a free value, the slots of a table, and the write of
  one slot.  The laws say that the write changes that slot only.
\<close>

locale slot_table =
  fixes free :: "'a \<Rightarrow> bool"
    and slots :: "'s \<Rightarrow> 'a list"
    and put :: "nat \<Rightarrow> 'a \<Rightarrow> 's \<Rightarrow> 's"
  assumes slots_put: "i < length (slots s) \<Longrightarrow> slots (put i v s) = (slots s)[i := v]"
begin

definition used :: "'s \<Rightarrow> nat" where
  "used s = occupied free (slots s)"

definition slot :: "'s \<Rightarrow> nat" where
  "slot s = first_free free (slots s)"

lemma has_slot: "used s < length (slots s) \<longleftrightarrow> slot s < length (slots s)"
  by (simp add: used_def slot_def occupied_less_iff first_free_less_iff)

lemma slot_free: "slot s < length (slots s) \<Longrightarrow> free (slots s ! slot s)"
  by (simp add: slot_def nth_first_free)

lemma put_used: "slot s < length (slots s) \<Longrightarrow> \<not> free v \<Longrightarrow> used (put (slot s) v s) = Suc (used s)"
  by (simp add: used_def slots_put slot_free occupied_fill)

lemma put_lookup: "slot s < length (slots s) \<Longrightarrow> slots (put (slot s) v s) ! slot s = v"
  by (simp add: slots_put)

lemma put_frame:
  "slot s < length (slots s) \<Longrightarrow> j \<noteq> slot s \<Longrightarrow> slots (put (slot s) v s) ! j = slots s ! j"
  by (simp add: slots_put)

lemma put_keeps:
  assumes "slot s < length (slots s)" and "\<not> free (slots s ! j)"
  shows "slots (put (slot s) v s) ! j = slots s ! j"
  using assms slot_free [of s] by (cases "j = slot s") (auto simp: put_frame)

lemma clear_used:
  "i < length (slots s) \<Longrightarrow> \<not> free (slots s ! i) \<Longrightarrow> free v \<Longrightarrow> used s = Suc (used (put i v s))"
  by (simp add: used_def slots_put occupied_clear)

end

section \<open>Words\<close>

lemma unat_less_length: "unat (w :: 'a::len word) < 2 ^ LENGTH('a)"
  by (rule unsigned_less)

lemma unat_of_nat_small: "n < 2 ^ LENGTH('a) \<Longrightarrow> unat (of_nat n :: 'a::len word) = n"
  by (simp add: unsigned_of_nat take_bit_nat_eq_self)

lemma uint_of_nat_small: "n < 2 ^ LENGTH('a) \<Longrightarrow> uint (of_nat n :: 'a::len word) = int n"
  by (simp add: unsigned_of_nat take_bit_nat_eq_self)

lemma of_nat_eq_small:
  "m < 2 ^ LENGTH('a) \<Longrightarrow> n < 2 ^ LENGTH('a) \<Longrightarrow> (of_nat m :: 'a::len word) = of_nat n \<longleftrightarrow> m = n"
  by (metis unat_of_nat_small)

lemma ucast_of_nat_32_16: "ucast (of_nat n :: u32) = (of_nat n :: u16)"
  by transfer (simp add: take_bit_of_nat)

lemma ucast_of_nat_16_32: "n < 65536 \<Longrightarrow> ucast (of_nat n :: u16) = (of_nat n :: u32)"
  by (simp add: unsigned_of_nat take_bit_nat_eq_self)

lemma push_bit_or_add:
  assumes "0 \<le> y" "y < 2 ^ n"
  shows "push_bit n x OR y = push_bit n x + (y::int)"
proof -
  have "\<not> bit y k" if "n \<le> k" for k
  proof -
    have "y < 2 ^ k" using assms(2) that by (meson less_le_trans one_le_numeral power_increasing)
    then show ?thesis using assms(1) by (simp add: bit_iff_odd)
  qed
  then have "push_bit n x AND y = 0"
    by (intro bit_eqI) (auto simp: bit_simps not_le)
  then show ?thesis by (simp add: disjunctive_add_eq_or)
qed

lemma unat_ucast_up: "LENGTH('a) \<le> LENGTH('b) \<Longrightarrow> unat (ucast (x :: 'a::len word) :: 'b::len word) = unat x"
  by (simp add: unsigned_ucast_eq take_bit_nat_eq_self unat_less_length less_le_trans [OF unat_less_length])

lemma unat_half_less: "w \<noteq> 0 \<Longrightarrow> unat (drop_bit 1 (w :: 'a::len word)) < unat w"
proof -
  assume "w \<noteq> 0"
  then have "0 < unat w" by (simp add: unat_gt_0)
  moreover have "unat (drop_bit 1 w) = unat w div 2" using unat_drop_bit_eq [of 1 w] by (metis drop_bit_eq_div power_one_right)
  ultimately show ?thesis by simp
qed

lemma bit_BIT64: "n < 64 \<Longrightarrow> k < 64 \<Longrightarrow> bit (RTE_BIT64 n) k \<longleftrightarrow> k = n"
  by (auto simp: RTE_BIT64_def bit_simps)

lemma unat_mult_small: "unat x * unat y < 2 ^ LENGTH('a) \<Longrightarrow> unat (x * y :: 'a::len word) = unat x * unat y"
  by (simp add: unat_word_ariths)

lemma unat_add_small: "unat x + unat y < 2 ^ LENGTH('a) \<Longrightarrow> unat (x + y :: 'a::len word) = unat x + unat y"
  by (simp add: unat_word_ariths)

lemma replicate_two: "replicate 2 x = [x, x]"
  by (simp add: numeral_2_eq_2)

lemma sint_small: "i < 2 ^ 31 \<Longrightarrow> sint (of_nat i :: u32) = int i"
  by (simp add: signed_of_nat take_bit_nat_eq_self signed_take_bit_eq_if_positive bit_nat_iff take_bit_int_eq_self
      signed_take_bit_int_eq_self)

section \<open>Invariants of step relations\<close>

locale invariant_system =
  fixes start :: "'s \<Rightarrow> bool"
    and step :: "'s \<Rightarrow> 's \<Rightarrow> bool"
    and inv :: "'s \<Rightarrow> bool"
  assumes start_inv: "start s \<Longrightarrow> inv s"
    and step_inv: "step s t \<Longrightarrow> inv s \<Longrightarrow> inv t"
begin

lemma steps_inv: "step\<^sup>*\<^sup>* s t \<Longrightarrow> inv s \<Longrightarrow> inv t"
  by (induction rule: rtranclp_induct) (auto intro: step_inv)

lemma reachable_inv: "start s \<Longrightarrow> step\<^sup>*\<^sup>* s t \<Longrightarrow> inv t"
  using start_inv steps_inv by blast

end

end
