(* ===== verification/Util.thy ===== *)
theory Util
  imports Prelude
begin

text \<open>
  The helpers of \<^verbatim>\<open>lib/common\<close>: the PCI address parser and the hardware function
  number of \<^verbatim>\<open>dao_util.c\<close>, the volatile memory helpers of \<^verbatim>\<open>dao_util.h\<close>, and the IPv4-mapped
  IPv6 conversions of \<^verbatim>\<open>dao_net.h\<close>.

  C strings are lists of characters without the terminating NUL: the character a pointer
  shows is the head of the list, and NUL at the end of it.  Of the C library the code uses
  \<^verbatim>\<open>strtoul\<close> with base 16, which is modelled with its white space, sign, prefix and range
  rules.
\<close>

section \<open>PCI addresses\<close>

definition is_space :: "char \<Rightarrow> bool" where
  "is_space c \<longleftrightarrow> c = CHR '' '' \<or> (9 \<le> (of_char c :: int) \<and> (of_char c :: int) \<le> 13)"

definition hex_digit :: "char \<Rightarrow> int option" where
  "hex_digit c =
     (let n = (of_char c :: int)
      in if 48 \<le> n \<and> n \<le> 57 then Some (n - 48)
         else if 65 \<le> n \<and> n \<le> 70 then Some (n - 55)
         else if 97 \<le> n \<and> n \<le> 102 then Some (n - 87)
         else None)"

fun hex_run :: "int \<Rightarrow> string \<Rightarrow> int \<times> string" where
  "hex_run acc [] = (acc, [])"
| "hex_run acc (c # cs) =
     (case hex_digit c of None \<Rightarrow> (acc, c # cs) | Some d \<Rightarrow> hex_run (16 * acc + d) cs)"

definition starts_hex :: "string \<Rightarrow> bool" where
  "starts_hex s = (case s of [] \<Rightarrow> False | c # _ \<Rightarrow> hex_digit c \<noteq> None)"

definition skip_sign :: "string \<Rightarrow> bool \<times> string" where
  "skip_sign s = (case s of
     [] \<Rightarrow> (False, [])
   | c # cs \<Rightarrow> if c = CHR ''-'' then (True, cs) else if c = CHR ''+'' then (False, cs)
               else (False, s))"

definition skip_0x :: "string \<Rightarrow> string" where
  "skip_0x s = (case s of
     a # b # cs \<Rightarrow>
       if a = CHR ''0'' \<and> (b = CHR ''x'' \<or> b = CHR ''X'') \<and> starts_hex cs then cs else s
   | _ \<Rightarrow> s)"

text \<open>
  \<open>strtoul16 s = (value, end, range_error)\<close>: the value of type \<^verbatim>\<open>unsigned long\<close>, the
  rest of the string after the number, and whether \<^verbatim>\<open>errno\<close> was set to \<^verbatim>\<open>ERANGE\<close>.
\<close>

definition strtoul16 :: "string \<Rightarrow> int \<times> string \<times> bool" where
  "strtoul16 s =
     (case skip_sign (dropWhile is_space s) of (neg, s1) \<Rightarrow>
        let s2 = skip_0x s1
        in if \<not> starts_hex s2 then (0, s, False)
           else (case hex_run 0 s2 of (v, rest) \<Rightarrow>
                   if v > 2 ^ 64 - 1 then (2 ^ 64 - 1, rest, True)
                   else (if neg then uint (- (of_int v :: u64)) else v, rest, False)))"

definition char_at :: "string \<Rightarrow> char" where
  "char_at s = (case s of [] \<Rightarrow> CHR 0x00 | c # _ \<Rightarrow> c)"

record pci_addr =
  domain :: u32
  bus :: u8
  devid :: u8
  function_nr :: u8

function oct_to_dec_loop :: "nat \<Rightarrow> nat \<Rightarrow> nat \<Rightarrow> nat" where
  "oct_to_dec_loop temp dec_value base =
     (if temp = 0 then dec_value
      else oct_to_dec_loop (temp div 10) (dec_value + temp mod 10 * base) (base * 8))"
  by pat_completeness auto
termination
  by (relation "measure (\<lambda>(temp, dec_value, base). temp)") auto

definition oct_to_dec :: "nat \<Rightarrow> nat" where
  "oct_to_dec n = oct_to_dec_loop n 0 1"

declare oct_to_dec_loop.simps [simp del]

definition pciadd_field_u8_get :: "string \<Rightarrow> char \<Rightarrow> (u8 \<times> string) option" where
  "pciadd_field_u8_get input dlm =
     (if input = [] then None
      else case strtoul16 input of (val, rest, erange) \<Rightarrow>
        if erange \<or> char_at rest \<noteq> dlm \<or> val > 255 then None
        else Some (of_int val, drop 1 rest))"

definition pci_dbdf_parse :: "string \<Rightarrow> int + pci_addr" where
  "pci_dbdf_parse pci_bdf =
     (case strtoul16 pci_bdf of (val, rest, erange) \<Rightarrow>
        if erange \<or> char_at rest \<noteq> CHR '':'' \<or> val > 65535 then Inl (- EINVAL)
        else (case pciadd_field_u8_get (drop 1 rest) (CHR '':'') of
                None \<Rightarrow> Inl (- EINVAL)
              | Some (b, in1) \<Rightarrow>
                  (case pciadd_field_u8_get in1 (CHR ''.'') of
                     None \<Rightarrow> Inl (- EINVAL)
                   | Some (d, in2) \<Rightarrow>
                       (case pciadd_field_u8_get in2 (CHR 0x00) of
                          None \<Rightarrow> Inl (- EINVAL)
                        | Some (f, _) \<Rightarrow>
                            Inr \<lparr>domain = of_int val, bus = b, devid = d, function_nr = f\<rparr>))))"

text \<open>
  The result is a C \<^verbatim>\<open>int\<close>: a negative error code, or \<^verbatim>\<open>(pf - 1) << HW_PF_SHIFT | func\<close>, in
  which \<^verbatim>\<open>pf - 1\<close> is computed as an \<^verbatim>\<open>int\<close> and is \<open>- 1\<close> for bus number 0.
\<close>

definition dao_pci_bdf_to_hw_func :: "string \<Rightarrow> int" where
  "dao_pci_bdf_to_hw_func pci_bdf =
     (case pci_dbdf_parse pci_bdf of
        Inl rc \<Rightarrow> rc
      | Inr addr \<Rightarrow>
          let pf = uint (bus addr);
              func = (of_nat (oct_to_dec (unat (devid addr) * 10 + unat (function_nr addr))) :: u16)
          in push_bit 10 (pf - 1) OR uint func)"

section \<open>Volatile memory helpers\<close>

text \<open>Byte addressed memory; address 0 is the null pointer.\<close>

type_synonym memory = "u64 \<Rightarrow> u8"

primrec copy_bytes :: "memory \<Rightarrow> u64 \<Rightarrow> u64 \<Rightarrow> nat \<Rightarrow> memory" where
  "copy_bytes m d s 0 = m"
| "copy_bytes m d s (Suc l) =
     (let m1 = copy_bytes m d s l in m1(d + of_nat l := m1 (s + of_nat l)))"

definition dao_dev_memcpy :: "memory \<Rightarrow> u64 \<Rightarrow> u64 \<Rightarrow> nat \<Rightarrow> memory \<times> u64" where
  "dao_dev_memcpy m d s l =
     (if d = 0 \<or> s = 0 then (m, 0) else (copy_bytes m d s l, d))"

primrec set_bytes :: "memory \<Rightarrow> u64 \<Rightarrow> u8 \<Rightarrow> nat \<Rightarrow> memory" where
  "set_bytes m d v 0 = m"
| "set_bytes m d v (Suc l) = (set_bytes m d v l)(d + of_nat l := v)"

definition dao_dev_memset :: "memory \<Rightarrow> u64 \<Rightarrow> u8 \<Rightarrow> nat \<Rightarrow> memory" where
  "dao_dev_memset m d v l = (if d = 0 \<or> l = 0 then m else set_bytes m d v l)"

text \<open>The store \<^verbatim>\<open>db[i] = 0\<close> through a \<^verbatim>\<open>uint64_t\<close> pointer writes the eight bytes at \<open>8 * i\<close>.\<close>

primrec zero_words :: "memory \<Rightarrow> u64 \<Rightarrow> nat \<Rightarrow> memory" where
  "zero_words m d 0 = m"
| "zero_words m d (Suc i) = set_bytes (zero_words m d i) (d + of_nat (8 * i)) 0 8"

definition dao_dev_memzero :: "memory \<Rightarrow> u64 \<Rightarrow> nat \<Rightarrow> memory" where
  "dao_dev_memzero m d l = (if d = 0 \<or> l = 0 \<or> l mod 8 \<noteq> 0 then m else zero_words m d l)"

definition dao_check_bit_is_set :: "u32 \<Rightarrow> nat \<Rightarrow> bool" where
  "dao_check_bit_is_set n pos \<longleftrightarrow> n AND push_bit (pos - 1) 1 \<noteq> 0"

section \<open>IPv4-mapped IPv6 addresses\<close>

text \<open>
  \<open>be\<close> says whether the target is big endian (\<^verbatim>\<open>RTE_BYTE_ORDER\<close>).  An IPv6 address is the list
  of its 16 bytes; an IPv4 address of type \<^verbatim>\<open>rte_be32_t\<close> is the 32-bit value whose bytes in
  memory are the address.
\<close>

definition bytes_of_u32 :: "bool \<Rightarrow> u32 \<Rightarrow> u8 list" where
  "bytes_of_u32 be w =
     (let le = [ucast w, ucast (drop_bit 8 w), ucast (drop_bit 16 w), ucast (drop_bit 24 w)]
      in if be then rev le else le)"

definition u16_at :: "bool \<Rightarrow> u8 list \<Rightarrow> nat \<Rightarrow> u16" where
  "u16_at be bs i =
     (if be then push_bit 8 (ucast (bs ! i)) OR ucast (bs ! (i + 1))
      else push_bit 8 (ucast (bs ! (i + 1))) OR ucast (bs ! i))"

definition dao_get_16aligned_be32 :: "bool \<Rightarrow> u16 \<Rightarrow> u16 \<Rightarrow> u32" where
  "dao_get_16aligned_be32 be hi lo =
     (if be then push_bit 16 (ucast hi) OR ucast lo else push_bit 16 (ucast lo) OR ucast hi)"

definition dao_in6_addr_mapped_ipv4 :: "bool \<Rightarrow> u32 \<Rightarrow> u8 list" where
  "dao_in6_addr_mapped_ipv4 be ip4 =
     (let ip6 = replicate 16 0 in
      let ip6 = ip6[10 := 0xff] in
      let ip6 = ip6[11 := 0xff]
      in take 12 ip6 @ bytes_of_u32 be ip4)"

definition in6_is_v4mapped :: "u8 list \<Rightarrow> bool" where
  "in6_is_v4mapped a \<longleftrightarrow> take 12 a = replicate 10 0 @ [0xff, 0xff]"

definition dao_in6_addr_get_mapped_ipv4 :: "bool \<Rightarrow> u8 list \<Rightarrow> u32" where
  "dao_in6_addr_get_mapped_ipv4 be addr =
     (if in6_is_v4mapped addr then dao_get_16aligned_be32 be (u16_at be addr 12) (u16_at be addr 14)
      else 0)"

section \<open>Parsing what is printed\<close>

text \<open>
  The printer is the specification of the parser: \<open>print_bdf d b v f\<close> is the address in the form
  \<^verbatim>\<open>dddd:bb:vv.f\<close>.
\<close>

definition hexc :: "nat \<Rightarrow> char" where
  "hexc n = ''0123456789abcdef'' ! n"

definition hex2 :: "nat \<Rightarrow> string" where
  "hex2 n = [hexc (n div 16), hexc (n mod 16)]"

definition hex4 :: "nat \<Rightarrow> string" where
  "hex4 n = hex2 (n div 256) @ hex2 (n mod 256)"

definition print_bdf :: "nat \<Rightarrow> nat \<Rightarrow> nat \<Rightarrow> nat \<Rightarrow> string" where
  "print_bdf d b v f = hex4 d @ '':'' @ hex2 b @ '':'' @ hex2 v @ ''.'' @ [hexc f]"

lemma hexc_table:
  "list_all (\<lambda>n. hex_digit (hexc n) = Some (int n) \<and> \<not> is_space (hexc n) \<and>
     hexc n \<notin> {CHR ''-'', CHR ''+'', CHR ''x'', CHR ''X''}) [0..<16]"
  by code_simp

lemma hexc_facts:
  assumes "n < 16"
  shows "hex_digit (hexc n) = Some (int n)" "\<not> is_space (hexc n)"
    "hexc n \<noteq> CHR ''-''" "hexc n \<noteq> CHR ''+''" "hexc n \<noteq> CHR ''x''" "hexc n \<noteq> CHR ''X''"
  using hexc_table assms by (auto simp: list_all_iff)

definition hex_value :: "nat list \<Rightarrow> nat" where
  "hex_value ds = foldl (\<lambda>a d. 16 * a + d) 0 ds"

lemma hex_run_digits:
  "(\<forall>d \<in> set ds. d < 16) \<Longrightarrow> \<not> starts_hex rest \<Longrightarrow>
   hex_run (int acc) (map hexc ds @ rest) = (int (foldl (\<lambda>a d. 16 * a + d) acc ds), rest)"
proof (induction ds arbitrary: acc)
  case Nil
  then show ?case by (cases rest) (auto simp: starts_hex_def)
next
  case (Cons d ds)
  then show ?case using Cons.IH [of "16 * acc + d"] by (simp add: hexc_facts(1))
qed

lemma strtoul16_digits:
  assumes "\<forall>d \<in> set ds. d < 16" "ds \<noteq> []" "\<not> starts_hex rest"
    and "char_at rest \<noteq> CHR ''x''" "char_at rest \<noteq> CHR ''X''"
    and small: "hex_value ds < 2 ^ 64"
  shows "strtoul16 (map hexc ds @ rest) = (int (hex_value ds), rest, False)"
proof -
  obtain d ds' where ds: "ds = d # ds'" using assms(2) by (cases ds) auto
  have d: "d < 16" using assms(1) ds by simp
  have skip: "skip_0x (map hexc ds @ rest) = map hexc ds @ rest"
  proof (cases ds')
    case Nil
    then show ?thesis using ds assms(4,5)
      by (auto simp: skip_0x_def char_at_def split: list.splits)
  next
    case (Cons e es)
    then have "e < 16" using assms(1) ds by simp
    then show ?thesis using ds Cons by (simp add: skip_0x_def hexc_facts)
  qed
  have run: "hex_run 0 (map hexc ds @ rest) = (int (hex_value ds), rest)"
    using hex_run_digits [OF assms(1,3), of 0] by (simp add: hex_value_def)
  have le: "\<not> int (hex_value ds) > 2 ^ 64 - 1" using small by simp
  have "dropWhile is_space (map hexc ds @ rest) = map hexc ds @ rest"
    using ds d by (simp add: hexc_facts)
  moreover have "skip_sign (map hexc ds @ rest) = (False, map hexc ds @ rest)"
    using ds d by (simp add: skip_sign_def hexc_facts)
  moreover have "starts_hex (map hexc ds @ rest)"
    using ds d by (simp add: starts_hex_def hexc_facts)
  ultimately show ?thesis
    using le by (simp add: strtoul16_def skip run Let_def)
qed

lemma strtoul16_hex4:
  assumes "n < 65536" "\<not> starts_hex rest" "char_at rest \<noteq> CHR ''x''" "char_at rest \<noteq> CHR ''X''"
  shows "strtoul16 (hex4 n @ rest) = (int n, rest, False)"
proof -
  let ?a = "n div 256" and ?b = "n mod 256"
  let ?ds = "[?a div 16, ?a mod 16, ?b div 16, ?b mod 16]"
  have ab: "16 * (?a div 16) + ?a mod 16 = ?a" "16 * (?b div 16) + ?b mod 16 = ?b" "256 * ?a + ?b = n"
    by simp_all
  have "hex_value ?ds = 256 * (16 * (?a div 16) + ?a mod 16) + (16 * (?b div 16) + ?b mod 16)"
    by (simp add: hex_value_def)
  then have v: "hex_value ?ds = n" by (simp only: ab)
  have "?a div 16 < 16" "?b div 16 < 16" using assms(1) by (simp_all add: less_mult_imp_div_less)
  then have "\<forall>d \<in> set ?ds. d < 16" by simp
  then have "strtoul16 (map hexc ?ds @ rest) = (int (hex_value ?ds), rest, False)"
    using assms by (intro strtoul16_digits) (simp_all only: v, simp_all)
  then show ?thesis by (simp only: v) (simp add: hex4_def hex2_def)
qed

lemma strtoul16_hex2:
  assumes "n < 256" "\<not> starts_hex rest" "char_at rest \<noteq> CHR ''x''" "char_at rest \<noteq> CHR ''X''"
  shows "strtoul16 (hex2 n @ rest) = (int n, rest, False)"
proof -
  let ?ds = "[n div 16, n mod 16]"
  have v: "hex_value ?ds = n" by (simp add: hex_value_def)
  have "strtoul16 (map hexc ?ds @ rest) = (int (hex_value ?ds), rest, False)"
    using assms by (intro strtoul16_digits) (auto simp: v)
  then show ?thesis by (simp add: hex2_def v)
qed

lemma strtoul16_hexc:
  "n < 16 \<Longrightarrow> strtoul16 [hexc n] = (int n, [], False)"
  using strtoul16_digits [of "[n]" "[]"] by (simp add: starts_hex_def char_at_def hex_value_def)

lemma pciadd_field_hex2:
  assumes "n < 256" "dlm = CHR '':'' \<or> dlm = CHR ''.''"
  shows "pciadd_field_u8_get (hex2 n @ dlm # rest) dlm = Some (of_nat n, rest)"
proof -
  have "\<not> starts_hex (dlm # rest)" "char_at (dlm # rest) \<noteq> CHR ''x''" "char_at (dlm # rest) \<noteq> CHR ''X''"
    using assms(2) by (auto simp: starts_hex_def hex_digit_def of_char_def char_at_def)
  with assms(1) have "strtoul16 (hex2 n @ dlm # rest) = (int n, dlm # rest, False)"
    by (rule strtoul16_hex2)
  then show ?thesis using assms(1)
    by (simp add: pciadd_field_u8_get_def hex2_def char_at_def)
qed

lemma pci_dbdf_parse_print:
  assumes "d < 65536" "b < 256" "v < 256" "f < 16"
  shows "pci_dbdf_parse (print_bdf d b v f) =
           Inr \<lparr>domain = of_nat d, bus = of_nat b, devid = of_nat v, function_nr = of_nat f\<rparr>"
proof -
  let ?r = "hex2 b @ CHR '':'' # hex2 v @ CHR ''.'' # [hexc f]"
  have "strtoul16 (hex4 d @ CHR '':'' # ?r) = (int d, CHR '':'' # ?r, False)"
    using assms(1) by (rule strtoul16_hex4)
      (auto simp: starts_hex_def hex_digit_def of_char_def char_at_def)
  moreover have "pciadd_field_u8_get [hexc f] (CHR 0x00) = Some (of_nat f, [])"
    using assms(4) by (simp add: pciadd_field_u8_get_def strtoul16_hexc char_at_def)
  ultimately show ?thesis
    using assms by (simp add: pci_dbdf_parse_def print_bdf_def pciadd_field_hex2 char_at_def)
qed

lemma oct_to_dec_loop_digit: "t < 10 \<Longrightarrow> oct_to_dec_loop t acc base = acc + t * base"
proof (cases "t = 0")
  case False
  assume "t < 10"
  with False have "oct_to_dec_loop t acc base = oct_to_dec_loop 0 (acc + t * base) (base * 8)"
    by (subst oct_to_dec_loop.simps) simp
  then show ?thesis by (simp add: oct_to_dec_loop.simps [of 0])
qed (simp add: oct_to_dec_loop.simps [of 0])

lemma oct_to_dec_loop_step:
  "0 < v \<Longrightarrow> f < 10 \<Longrightarrow>
   oct_to_dec_loop (v * 10 + f) acc base = oct_to_dec_loop v (acc + f * base) (base * 8)"
  by (subst oct_to_dec_loop.simps) simp

lemma oct_to_dec_two: "v < 10 \<Longrightarrow> f < 10 \<Longrightarrow> oct_to_dec (v * 10 + f) = 8 * v + f"
  by (cases "v = 0") (simp_all add: oct_to_dec_def oct_to_dec_loop_step oct_to_dec_loop_digit)

lemma oct_to_dec_three:
  assumes "w < 10" "f < 10"
  shows "oct_to_dec (100 + w * 10 + f) = 64 + 8 * w + f"
proof -
  have "oct_to_dec (100 + w * 10 + f) = oct_to_dec_loop ((10 + w) * 10 + f) 0 1"
    by (simp add: oct_to_dec_def)
  also have "\<dots> = oct_to_dec_loop (1 * 10 + w) f 8"
    using assms by (subst oct_to_dec_loop_step) simp_all
  also have "\<dots> = 64 + 8 * w + f"
    using assms by (subst oct_to_dec_loop_step) (simp_all add: oct_to_dec_loop_digit)
  finally show ?thesis .
qed

lemma hw_func_parsed:
  assumes "d < 65536" "1 \<le> b" "b < 256" "v < 256" "f < 16"
    and o: "oct_to_dec (v * 10 + f) = n" and "n < 1024"
  shows "dao_pci_bdf_to_hw_func (print_bdf d b v f) = int ((b - 1) * 1024 + n)"
proof -
  have n: "uint (of_nat n :: u16) = int n" "uint (of_nat b :: u8) = int b"
    "unat (of_nat v :: u8) = v" "unat (of_nat f :: u8) = f"
    using assms by (simp_all add: unsigned_of_nat take_bit_nat_eq_self take_bit_int_eq_self)
  have "dao_pci_bdf_to_hw_func (print_bdf d b v f) = push_bit 10 (int b - 1) OR int n"
    using assms(1-5) by (simp add: dao_pci_bdf_to_hw_func_def pci_dbdf_parse_print n o Let_def)
  also have "\<dots> = push_bit 10 (int b - 1) + int n"
    using assms by (intro push_bit_or_add) auto
  finally show ?thesis using assms by (simp add: push_bit_eq_mult of_nat_diff)
qed

text \<open>for an address \<^verbatim>\<open>dddd:bb:vv.f\<close> printed with a device number below 10 and a function
  below 8, \<^verbatim>\<open>dao_pci_bdf_to_hw_func\<close> returns the PF number \<open>b - 1\<close> above bit 10 and the function
  number \<open>8 * v + f\<close> below it.\<close>

theorem hw_func_print:
  assumes "d < 65536" "1 \<le> b" "b < 256" "v < 10" "f < 8"
  shows "dao_pci_bdf_to_hw_func (print_bdf d b v f) = int ((b - 1) * 1024 + (8 * v + f))"
proof -
  have "oct_to_dec (v * 10 + f) = 8 * v + f" using assms by (intro oct_to_dec_two) simp_all
  then show ?thesis using assms by (intro hw_func_parsed) simp_all
qed

theorem hw_func_print_witness: "dao_pci_bdf_to_hw_func (print_bdf 2 3 1 4) = 2060"
  using hw_func_print [of 2 3 1 4] by simp

text \<open>the function number is computed from the decimal reading of device and function, so that the
  devices 10 and 11 get the hardware functions of the devices 8 and 9.\<close>

theorem hw_func_collision:
  assumes "d < 65536" "1 \<le> b" "b < 256" "w < 2" "f < 8"
  shows "dao_pci_bdf_to_hw_func (print_bdf d b (10 + w) f) =
         dao_pci_bdf_to_hw_func (print_bdf d b (8 + w) f)"
proof -
  have "oct_to_dec (100 + w * 10 + f) = 64 + 8 * w + f" "oct_to_dec ((8 + w) * 10 + f) = 8 * (8 + w) + f"
    using assms by (intro oct_to_dec_three oct_to_dec_two; simp)+
  then have "dao_pci_bdf_to_hw_func (print_bdf d b (10 + w) f) = int ((b - 1) * 1024 + (64 + 8 * w + f))"
    "dao_pci_bdf_to_hw_func (print_bdf d b (8 + w) f) = int ((b - 1) * 1024 + (64 + 8 * w + f))"
    using assms by (intro hw_func_parsed; simp)+
  then show ?thesis by simp
qed

theorem hw_func_collision_witness:
  "dao_pci_bdf_to_hw_func (print_bdf 2 3 10 4) = dao_pci_bdf_to_hw_func (print_bdf 2 3 8 4)"
  using hw_func_collision [of 2 3 0 4] by simp

section \<open>Memory helpers\<close>

lemma set_bytes_apply:
  "set_bytes m d v l a = (if \<exists>i < l. a = d + of_nat i then v else m a)"
  by (induction l) (auto simp: less_Suc_eq)

lemma set_bytes_append:
  "set_bytes (set_bytes m d v k) (d + of_nat k) v l = set_bytes m d v (k + l)"
  by (induction l) (simp_all add: add.assoc)

lemma zero_words_set: "zero_words m d l = set_bytes m d 0 (8 * l)"
proof (induction l)
  case (Suc l)
  then show ?case using set_bytes_append [of m d 0 "8 * l" 8] by (simp add: add.commute del: set_bytes.simps)
qed simp

lemma copy_bytes_apply:
  assumes "\<forall>i < l. \<forall>j < l. d + of_nat i \<noteq> s + of_nat j" and "l \<le> 2 ^ 64"
  shows "copy_bytes m d s l a = (if \<exists>i < l. a = d + of_nat i then m (s + (a - d)) else m a)"
  using assms
proof (induction l arbitrary: a)
  case (Suc l)
  then have IH: "copy_bytes m d s l a = (if \<exists>i < l. a = d + of_nat i then m (s + (a - d)) else m a)" for a
    by simp
  have "\<not> (\<exists>i < l. s + of_nat l = d + of_nat i)" using Suc.prems(1) by (metis less_Suc_eq)
  then have "copy_bytes m d s l (s + of_nat l) = m (s + of_nat l)" unfolding IH by (rule if_not_P)
  then show ?case by (auto simp: Let_def IH less_Suc_eq)
qed simp


text \<open>\<^verbatim>\<open>dao_dev_memzero\<close> with a length \<open>l\<close> that passes its guard clears exactly the \<open>8 * l\<close> bytes from
  \<open>d\<close> on, the effect of \<^verbatim>\<open>dao_dev_memset\<close> with the value 0 and eight times the length.\<close>

theorem memzero_memset:
  assumes "l mod 8 = 0"
  shows "dao_dev_memzero m d l = dao_dev_memset m d 0 (8 * l)"
  using assms by (simp add: dao_dev_memzero_def dao_dev_memset_def zero_words_set)

theorem memzero_memset_witness:
  "dao_dev_memzero (\<lambda>_. 7) 16 8 = dao_dev_memset (\<lambda>_. 7) 16 0 64"
  using memzero_memset [of 8 "\<lambda>_. 7" 16] by simp

text \<open>\<^verbatim>\<open>dao_dev_memcpy\<close> between two ranges that do not overlap puts byte \<open>i\<close> of the source at byte \<open>i\<close>
  of the destination, changes no other byte, and returns the destination.\<close>

theorem memcpy_copies:
  assumes "\<forall>i < l. \<forall>j < l. d + of_nat i \<noteq> s + of_nat j" and "l \<le> 2 ^ 64" and "d \<noteq> 0" and "s \<noteq> 0"
    and "dao_dev_memcpy m d s l = (m', r)"
  shows "r = d \<and> (\<forall>a. m' a = (if \<exists>i < l. a = d + of_nat i then m (s + (a - d)) else m a))"
  using assms copy_bytes_apply [OF assms(1,2)] by (auto simp: dao_dev_memcpy_def)

theorem memcpy_copies_witness: "fst (dao_dev_memcpy (\<lambda>a. ucast a) 16 8 2) 17 = 9"
proof -
  have "\<forall>i < 2. \<forall>j < 2. (16 :: u64) + of_nat i \<noteq> 8 + of_nat j" by (auto simp: less_2_cases_iff)
  moreover have "dao_dev_memcpy (\<lambda>a. ucast a) 16 8 2 = (fst (dao_dev_memcpy (\<lambda>a. ucast a) 16 8 2), 16)"
    by (simp add: dao_dev_memcpy_def)
  ultimately have "\<forall>a. fst (dao_dev_memcpy (\<lambda>a. ucast a) 16 8 2) a =
      (if \<exists>i < 2. a = 16 + of_nat i then ucast (8 + (a - 16)) else ucast a)"
    using memcpy_copies [of 2 16 8 "\<lambda>a. ucast a"] by simp
  moreover have "\<exists>i < 2. (17 :: u64) = 16 + of_nat i" by (rule exI [of _ 1]) simp
  ultimately show ?thesis by simp
qed

section \<open>Address conversions\<close>

lemma u32_bytes_join:
  "push_bit 16 (ucast (push_bit 8 (ucast (ucast (drop_bit 24 w) :: u8)) OR
      ucast (ucast (drop_bit 16 w) :: u8) :: u16)) OR
   ucast (push_bit 8 (ucast (ucast (drop_bit 8 w) :: u8)) OR ucast (ucast w :: u8) :: u16) = (w :: u32)"
  (is "?x = w")
proof (rule bit_word_eqI)
  fix n assume "n < LENGTH(32)"
  then consider "n < 8" | "8 \<le> n" "n < 16" | "16 \<le> n" "n < 24" | "24 \<le> n" "n < 32" by force
  then show "bit ?x n = bit w n"
   by cases (auto simp: bit_simps)
qed

text \<open>taking the IPv4 address out of an IPv4-mapped IPv6 address gives back the address it was
  built from, on a target of either byte order.\<close>

theorem mapped_rt: "dao_in6_addr_get_mapped_ipv4 be (dao_in6_addr_mapped_ipv4 be ip4) = ip4"
proof -
  have "in6_is_v4mapped (dao_in6_addr_mapped_ipv4 be ip4)"
    by (simp add: in6_is_v4mapped_def dao_in6_addr_mapped_ipv4_def numeral_eq_Suc)
  then show ?thesis using u32_bytes_join [of ip4]
    by (simp add: dao_in6_addr_get_mapped_ipv4_def dao_in6_addr_mapped_ipv4_def u16_at_def
        dao_get_16aligned_be32_def bytes_of_u32_def nth_append Let_def)
qed

section \<open>Rounding up\<close>

text \<open>\<^verbatim>\<open>DAO_ROUNDUP\<close> on \<^verbatim>\<open>size_t\<close>.\<close>

definition DAO_ROUNDUP :: "u64 \<Rightarrow> u64 \<Rightarrow> u64" where
  "DAO_ROUNDUP x y = ((x + (y - 1)) div y) * y"

lemma roundup_unat:
  assumes "c = 64 \<or> c = (128 :: u64)" and "unat x < 2 ^ 56"
  shows "unat (DAO_ROUNDUP x c) = (unat x + (unat c - 1)) div unat c * unat c"
proof -
  have c: "unat c = 64 \<or> unat c = 128" using assms(1) by auto
  have c1: "unat (c - 1) = unat c - 1" using assms(1) by (elim disjE) simp_all
  have "unat x + unat (c - 1) < 2 ^ LENGTH(64)" using assms(2) c unfolding c1 by (elim disjE) simp_all
  then have a: "unat (x + (c - 1)) = unat x + (unat c - 1)" using unat_add_small [of x "c - 1"] c1 by simp
  have le: "(unat x + (unat c - 1)) div unat c * unat c \<le> unat x + (unat c - 1)" by (rule div_times_less_eq_dividend)
  have q: "unat ((x + (c - 1)) div c) = (unat x + (unat c - 1)) div unat c" unfolding unat_div a ..
  have "unat x + (unat c - 1) < 2 ^ LENGTH(64)" using assms(2) c by (elim disjE) simp_all
  with le have "unat ((x + (c - 1)) div c) * unat c < 2 ^ LENGTH(64)" unfolding q by (rule le_less_trans)
  then have "unat ((x + (c - 1)) div c * c) = unat ((x + (c - 1)) div c) * unat c" by (rule unat_mult_small)
  then show ?thesis unfolding DAO_ROUNDUP_def q .
qed

lemma roundup_bounds:
  assumes "c = 64 \<or> c = (128 :: u64)" and "unat x < 2 ^ 56"
  shows "unat x \<le> unat (DAO_ROUNDUP x c)" and "unat (DAO_ROUNDUP x c) < unat x + unat c"
proof -
  have c: "0 < unat c" using assms(1) by auto
  note r = roundup_unat [OF assms]
  have "(unat x + (unat c - 1)) div unat c * unat c + (unat x + (unat c - 1)) mod unat c = unat x + (unat c - 1)" by simp
  moreover have "(unat x + (unat c - 1)) mod unat c < unat c" using c by simp
  ultimately show "unat x \<le> unat (DAO_ROUNDUP x c)" and "unat (DAO_ROUNDUP x c) < unat x + unat c"
    unfolding r using c by linarith+
qed

end
