(* ===== verification/Bitmap.thy ===== *)
theory Bitmap
  imports Prelude
begin

text \<open>
  The index allocator of \<^verbatim>\<open>lib/common/dao_bitmap.c\<close>.  A set bit of the bitmap is an index that
  may be handed out.  The bitmap itself is DPDK's \<^verbatim>\<open>rte_bitmap\<close> and is a parameter: the record
  \<open>bitmap_ops\<close> holds the operations the code calls, and \<open>bitmap_laws\<close> what their documentation
  promises for a bitmap of \<open>n\<close> bits.  The allocator is shown to refine a set of available indexes.
\<close>

section \<open>The code\<close>

record ('b, 'm) bitmap_ops =
  bm_get :: "'b \<Rightarrow> u32 \<Rightarrow> bool"
  bm_set :: "'b \<Rightarrow> u32 \<Rightarrow> 'b"
  bm_clear :: "'b \<Rightarrow> u32 \<Rightarrow> 'b"
  bm_scan_init :: "'b \<Rightarrow> 'b"
  bm_scan :: "'b \<Rightarrow> bool \<times> u32 \<times> u64 \<times> 'b"
  bm_footprint :: "u32 \<Rightarrow> u32"
  bm_zmalloc :: "u32 \<Rightarrow> 'm option"
  bm_init :: "u32 \<Rightarrow> 'm \<Rightarrow> u32 \<Rightarrow> 'b option"

text \<open>\<^verbatim>\<open>__builtin_ctzll\<close>: the index of the lowest set bit (64 for the word 0).\<close>

definition ctz64 :: "u64 \<Rightarrow> nat" where
  "ctz64 w = first_free (bit w) [0..<64]"

definition bitmap_ctzll :: "u64 \<Rightarrow> nat" where
  "bitmap_ctzll slab = (if slab = 0 then 0 else ctz64 slab)"

definition dao_bmap_index_free :: "('b, 'm) bitmap_ops \<Rightarrow> 'b option \<Rightarrow> u16 \<Rightarrow> int \<times> 'b option" where
  "dao_bmap_index_free ops bmp index =
     (case bmp of
        None \<Rightarrow> (- EINVAL, None)
      | Some b \<Rightarrow>
          if bm_get ops b (ucast index) then (- EINVAL, Some b)
          else (0, Some (bm_set ops b (ucast index))))"

definition dao_bmap_index_alloc :: "('b, 'm) bitmap_ops \<Rightarrow> 'b option \<Rightarrow> int \<times> 'b option" where
  "dao_bmap_index_alloc ops bmp =
     (case bmp of
        None \<Rightarrow> (- EINVAL, None)
      | Some b \<Rightarrow>
          (case bm_scan ops (bm_scan_init ops b) of (found, pos, slab, b1) \<Rightarrow>
             if \<not> found then (- EINVAL, Some b1)
             else let idx = (ucast (pos + of_nat (bitmap_ctzll slab)) :: u16)
                  in (uint idx, Some (bm_clear ops b1 (ucast idx)))))"

definition dao_bmap_index_map_setup :: "('b, 'm) bitmap_ops \<Rightarrow> u32 \<Rightarrow> 'b option" where
  "dao_bmap_index_map_setup ops bmap_max_sz =
     (if bmap_max_sz = 0 then None
      else let bmap_sz = bm_footprint ops bmap_max_sz
           in case bm_zmalloc ops bmap_sz of
                None \<Rightarrow> None
              | Some bmap_mem \<Rightarrow>
                  (case bm_init ops bmap_max_sz bmap_mem bmap_sz of
                     None \<Rightarrow> None
                   | Some bmp \<Rightarrow>
                       Some (fold (\<lambda>id b. bm_set ops b (of_nat id)) [1..<unat bmap_max_sz] bmp)))"

section \<open>What the bitmap library promises\<close>

definition scan_laws :: "('b, 'm) bitmap_ops \<Rightarrow> nat \<Rightarrow> bool" where
  "scan_laws ops n \<longleftrightarrow>
     (\<forall>b found pos slab b'. bm_scan ops b = (found, pos, slab, b') \<longrightarrow>
        (\<forall>i. bm_get ops b' i = bm_get ops b i) \<and>
        (found \<longleftrightarrow> (\<exists>i. bm_get ops b i)) \<and>
        (found \<longrightarrow> slab \<noteq> 0 \<and> (\<forall>j < 64. bit slab j \<longrightarrow>
            unat pos + j < n \<and> bm_get ops b (pos + of_nat j))))"

definition bitmap_laws :: "('b, 'm) bitmap_ops \<Rightarrow> nat \<Rightarrow> bool" where
  "bitmap_laws ops n \<longleftrightarrow>
     (\<forall>b i j. unat i < n \<longrightarrow> bm_get ops (bm_set ops b i) j = (i = j \<or> bm_get ops b j)) \<and>
     (\<forall>b i j. unat i < n \<longrightarrow> bm_get ops (bm_clear ops b i) j = (i \<noteq> j \<and> bm_get ops b j)) \<and>
     (\<forall>b i. bm_get ops (bm_scan_init ops b) i = bm_get ops b i) \<and>
     (\<forall>m sz b i. bm_init ops (of_nat n) m sz = Some b \<longrightarrow> \<not> bm_get ops b i) \<and>
     scan_laws ops n"

section \<open>Refinement to a set of available indexes\<close>

definition avail :: "('b, 'm) bitmap_ops \<Rightarrow> 'b \<Rightarrow> nat set" where
  "avail ops b = {i. i < 2 ^ 32 \<and> bm_get ops b (of_nat i)}"

lemma avail_iff: "unat i \<in> avail ops b \<longleftrightarrow> bm_get ops b i"
  using unat_less_length [of i] by (simp add: avail_def)

lemma avail_bm_set:
  assumes "bitmap_laws ops n" "n \<le> 65536" "k < n"
  shows "avail ops (bm_set ops b (of_nat k)) = insert k (avail ops b)"
proof -
  have "bm_get ops (bm_set ops b (of_nat k)) j = (of_nat k = j \<or> bm_get ops b j)" for j
    using assms by (simp add: bitmap_laws_def unat_of_nat_small)
  then show ?thesis using assms by (auto simp: avail_def of_nat_eq_small)
qed

lemma avail_bm_clear:
  assumes "bitmap_laws ops n" "n \<le> 65536" "k < n"
  shows "avail ops (bm_clear ops b (of_nat k)) = avail ops b - {k}"
proof -
  have "bm_get ops (bm_clear ops b (of_nat k)) j = (of_nat k \<noteq> j \<and> bm_get ops b j)" for j
    using assms by (simp add: bitmap_laws_def unat_of_nat_small)
  moreover have "(of_nat k :: u32) = of_nat i \<longleftrightarrow> k = i" if "i < 2 ^ 32" for i
    using that assms by (intro of_nat_eq_small) simp_all
  ultimately show ?thesis unfolding avail_def by blast
qed

lemma ctz64_set:
  assumes "w \<noteq> 0"
  shows "ctz64 w < 64" "bit w (ctz64 w)"
proof -
  obtain i where "bit w i" using assms bit_word_eqI [of w 0] by auto
  then have "\<exists>i < 64. bit w i" using bit_imp_le_length by fastforce
  then have lt: "first_free (bit w) [0..<64] < length [0..<64]"
    by (subst first_free_less_iff) auto
  then show "ctz64 w < 64" by (simp add: ctz64_def)
  show "bit w (ctz64 w)" using nth_first_free [OF lt] lt by (simp add: ctz64_def)
qed

lemma alloc_index:
  assumes laws: "bitmap_laws ops n" and n: "n \<le> 65536"
    and scan: "bm_scan ops (bm_scan_init ops b) = (True, pos, slab, b1)"
  defines "i \<equiv> unat pos + bitmap_ctzll slab"
  shows "i < n" "ucast (pos + of_nat (bitmap_ctzll slab)) = (of_nat i :: u16)" "i \<in> avail ops b"
    "avail ops b1 = avail ops b"
proof -
  let ?j = "bitmap_ctzll slab"
  have keep: "bm_get ops b1 k = bm_get ops b k" for k
    using laws scan unfolding bitmap_laws_def scan_laws_def by (metis (no_types, lifting))
  have found: "slab \<noteq> 0" "\<forall>j < 64. bit slab j \<longrightarrow>
            unat pos + j < n \<and> bm_get ops (bm_scan_init ops b) (pos + of_nat j)"
    using laws scan unfolding bitmap_laws_def scan_laws_def by blast+
  then have "?j < 64" "bit slab ?j" by (simp_all add: bitmap_ctzll_def ctz64_set)
  with found(2) have lt: "i < n" and get: "bm_get ops (bm_scan_init ops b) (pos + of_nat ?j)"
    by (auto simp: i_def)
  have eq: "pos + of_nat ?j = (of_nat i :: u32)" by (simp add: i_def)
  show "i < n" by (fact lt)
  show "ucast (pos + of_nat ?j) = (of_nat i :: u16)" unfolding eq by (rule ucast_of_nat_32_16)
  show "i \<in> avail ops b" using get lt n laws eq by (simp add: avail_def bitmap_laws_def)
  show "avail ops b1 = avail ops b" by (simp add: avail_def keep)
qed

lemma alloc_refines:
  assumes laws: "bitmap_laws ops n" and n: "n \<le> 65536"
    and alloc: "dao_bmap_index_alloc ops (Some b) = (rc, b')"
  shows "\<exists>c. b' = Some c \<and>
     (if avail ops b = {} then rc = - EINVAL \<and> avail ops c = {}
      else \<exists>i \<in> avail ops b. i < n \<and> rc = int i \<and> avail ops c = avail ops b - {i})"
proof -
  obtain found pos slab b1 where scan: "bm_scan ops (bm_scan_init ops b) = (found, pos, slab, b1)"
    by (metis prod_cases4)
  have init: "avail ops (bm_scan_init ops b) = avail ops b"
    using laws by (simp add: bitmap_laws_def avail_def)
  show ?thesis
  proof (cases found)
    case False
    then have "\<forall>i. \<not> bm_get ops (bm_scan_init ops b) i" "\<forall>i. bm_get ops b1 i = bm_get ops (bm_scan_init ops b) i"
      using laws scan unfolding bitmap_laws_def scan_laws_def by (metis (no_types, lifting))+
    then have "avail ops b = {}" "avail ops b1 = {}" using init by (simp_all add: avail_def)
    with alloc scan False show ?thesis by (auto simp: dao_bmap_index_alloc_def)
  next
    case True
    let ?i = "unat pos + bitmap_ctzll slab"
    note i = alloc_index [OF laws n scan [unfolded True [THEN iffD2 [OF eq_True]]]]
    have "?i < 65536" using i(1) n by simp
    then have u: "uint (of_nat ?i :: u16) = int ?i" "ucast (of_nat ?i :: u16) = (of_nat ?i :: u32)"
      by (intro uint_of_nat_small ucast_of_nat_16_32; simp)+
    have clear: "avail ops (bm_clear ops b1 (of_nat ?i)) = avail ops b1 - {?i}"
      by (rule avail_bm_clear [OF laws n i(1)])
    have "rc = int ?i" "b' = Some (bm_clear ops b1 (of_nat ?i))"
      using alloc scan True by (simp_all only: dao_bmap_index_alloc_def option.case prod.case i(2) Let_def u) simp_all
    moreover have "\<exists>k \<in> avail ops b. k < n \<and> int ?i = int k \<and>
        avail ops (bm_clear ops b1 (of_nat ?i)) = avail ops b - {k}"
      using i(1,3) clear i(4) by (intro bexI [of _ ?i]) simp_all
    ultimately show ?thesis by (simp only: option.inject) (metis empty_iff)
  qed
qed

lemma free_refines:
  assumes laws: "bitmap_laws ops n" and n: "n \<le> 65536" and i: "unat index < n"
    and free: "dao_bmap_index_free ops (Some b) index = (rc, b')"
  shows "\<exists>c. b' = Some c \<and>
     (if unat index \<in> avail ops b then rc = - EINVAL \<and> avail ops c = avail ops b
      else rc = 0 \<and> avail ops c = insert (unat index) (avail ops b))"
proof (cases "unat index \<in> avail ops b")
  case True
  then have "bm_get ops b (ucast index)" by (simp add: avail_def)
  with free have "rc = - EINVAL" "b' = Some b" by (simp_all add: dao_bmap_index_free_def)
  with True show ?thesis by simp
next
  case False
  then have "\<not> bm_get ops b (ucast index)" using i n by (simp add: avail_def)
  with free have "rc = 0" "b' = Some (bm_set ops b (of_nat (unat index)))"
    by (simp_all add: dao_bmap_index_free_def)
  then show ?thesis using False avail_bm_set [OF laws n i, of b] by (simp only: if_False simp_thms) blast
qed

lemma setup_sets:
  assumes "bitmap_laws ops n" "n \<le> 65536" "0 < m" "m \<le> n"
  shows "avail ops (fold (\<lambda>id b. bm_set ops b (of_nat id)) [1..<m] b) = avail ops b \<union> {1..<m}"
  using assms(3,4)
proof (induction m rule: nat_induct_non_zero)
  case (Suc m)
  then show ?case using avail_bm_set [OF assms(1,2), of m] by auto
qed simp

lemma setup_refines:
  assumes laws: "bitmap_laws ops n" and n: "n \<le> 65536"
    and ret: "dao_bmap_index_map_setup ops (of_nat n) = Some b"
  shows "avail ops b = {1..<n}"
proof -
  have un: "unat (of_nat n :: u32) = n" using n by (simp add: unat_of_nat_small)
  have "0 < n" using ret by (cases n) (simp_all add: dao_bmap_index_map_setup_def)
  obtain mem sz b0 where b0: "bm_init ops (of_nat n) mem sz = Some b0"
    and fold: "b = fold (\<lambda>id b. bm_set ops b (of_nat id)) [1..<n] b0"
    using ret un by (auto simp: dao_bmap_index_map_setup_def Let_def split: if_splits option.splits)
  have "avail ops b0 = {}" using laws b0 by (auto simp: bitmap_laws_def avail_def)
  then show ?thesis using setup_sets [OF laws n \<open>0 < n\<close> order_refl] fold by simp
qed

primrec bmap_allocs :: "('b, 'm) bitmap_ops \<Rightarrow> nat \<Rightarrow> 'b \<Rightarrow> int list" where
  "bmap_allocs ops 0 b = []"
| "bmap_allocs ops (Suc k) b =
     (case dao_bmap_index_alloc ops (Some b) of
        (rc, Some c) \<Rightarrow> rc # bmap_allocs ops k c
      | (rc, None) \<Rightarrow> [rc])"

lemma allocs_from_avail:
  assumes "bitmap_laws ops n" "n \<le> 65536" "finite (avail ops b)"
  shows "distinct (filter (\<lambda>r. 0 \<le> r) (bmap_allocs ops k b)) \<and>
    set (filter (\<lambda>r. 0 \<le> r) (bmap_allocs ops k b)) \<subseteq> int ` avail ops b \<and>
    length (filter (\<lambda>r. 0 \<le> r) (bmap_allocs ops k b)) = min k (card (avail ops b))"
  using assms(3)
proof (induction k arbitrary: b)
  case (Suc k)
  obtain rc b' where alloc: "dao_bmap_index_alloc ops (Some b) = (rc, b')" by fastforce
  from alloc_refines [OF assms(1,2) alloc] obtain c where c: "b' = Some c"
    "if avail ops b = {} then rc = - EINVAL \<and> avail ops c = {}
     else \<exists>i \<in> avail ops b. i < n \<and> rc = int i \<and> avail ops c = avail ops b - {i}" by blast
  show ?case
  proof (cases "avail ops b = {}")
    case True
    with c Suc.IH [of c] alloc show ?thesis by simp
  next
    case False
    with c obtain i where i: "i \<in> avail ops b" "rc = int i" "avail ops c = avail ops b - {i}" by auto
    have "card (avail ops b) = Suc (card (avail ops c))"
      using i Suc.prems by (metis card_Suc_Diff1)
    have fin: "finite (avail ops c)" using i(3) Suc.prems by simp
    have eq: "bmap_allocs ops (Suc k) b = int i # bmap_allocs ops k c" using alloc c(1) i(2) by simp
    have notin: "int i \<notin> int ` avail ops c" using i(3) by (simp add: image_iff)
    have sub: "int ` avail ops c \<subseteq> int ` avail ops b" using i(3) by (intro image_mono) simp
    have "int i \<in> int ` avail ops b" using i(1) by (rule imageI)
    moreover note IH = Suc.IH [OF fin]
    ultimately have "set (int i # filter (\<lambda>r. 0 \<le> r) (bmap_allocs ops k c)) \<subseteq> int ` avail ops b"
      using sub by (simp only: list.set insert_subset simp_thms) (metis subset_trans)
    moreover have "int i \<notin> set (filter (\<lambda>r. 0 \<le> r) (bmap_allocs ops k c))"
      using IH notin by (metis subsetD)
    ultimately show ?thesis using IH \<open>card (avail ops b) = Suc _\<close> unfolding eq filter.simps
      by (simp only: of_nat_0_le_iff if_True distinct.simps list.size min_Suc_Suc simp_thms)
  qed
qed simp


section \<open>Properties\<close>

text \<open>A bitmap of one slab, an instance of the laws.\<close>

definition slab_ops :: "(u64, unit) bitmap_ops" where
  "slab_ops = \<lparr>bm_get = (\<lambda>b i. unat i < 64 \<and> bit b (unat i)),
     bm_set = (\<lambda>b i. if unat i < 64 then set_bit (unat i) b else b),
     bm_clear = (\<lambda>b i. if unat i < 64 then unset_bit (unat i) b else b),
     bm_scan_init = (\<lambda>b. b), bm_scan = (\<lambda>b. (b \<noteq> 0, 0, b, b)),
     bm_footprint = (\<lambda>n. n), bm_zmalloc = (\<lambda>_. Some ()), bm_init = (\<lambda>_ _ _. Some 0)\<rparr>"

lemma slab_scan: "(\<exists>i :: u32. unat i < 64 \<and> bit b (unat i)) \<longleftrightarrow> (b :: u64) \<noteq> 0"
proof
  assume "b \<noteq> 0"
  then obtain n where n: "n < 64" "bit b n" using bit_word_eqI [of b 0] by auto
  then show "\<exists>i :: u32. unat i < 64 \<and> bit b (unat i)"
    by (intro exI [of _ "of_nat n"]) (simp add: unat_of_nat_small)
qed auto

lemma slab_laws: "bitmap_laws slab_ops 64"
  unfolding bitmap_laws_def scan_laws_def
  by (auto simp: slab_ops_def bit_simps slab_scan unat_of_nat_small dest: word_unat_eq_iff [THEN iffD2])

text \<open>C11: \<^verbatim>\<open>dao_bmap_index_alloc\<close> takes an index out of the set of available ones and returns it, and
  fails with \<^verbatim>\<open>-EINVAL\<close>, changing nothing, exactly when the set is empty.\<close>

theorem index_alloc_refines:
  assumes "bitmap_laws ops n" and "n \<le> 65536" and "dao_bmap_index_alloc ops (Some b) = (rc, b')"
  shows "\<exists>c. b' = Some c \<and>
     (if avail ops b = {} then rc = - EINVAL \<and> avail ops c = {}
      else \<exists>i \<in> avail ops b. i < n \<and> rc = int i \<and> avail ops c = avail ops b - {i})"
  by (rule alloc_refines [OF assms])

lemma slab_avail_1: "avail slab_ops 1 = {0}"
  by (auto simp: avail_def slab_ops_def unat_of_nat_small bit_1_iff)

lemma slab_setup: "n \<noteq> 0 \<Longrightarrow> \<exists>b. dao_bmap_index_map_setup slab_ops n = Some b"
  by (simp add: dao_bmap_index_map_setup_def slab_ops_def Let_def)

theorem index_alloc_refines_witness:
  "\<exists>c. dao_bmap_index_alloc slab_ops (Some 1) = (0, Some c) \<and> avail slab_ops c = {}"
proof -
  obtain rc b' where "dao_bmap_index_alloc slab_ops (Some 1) = (rc, b')" by fastforce
  with index_alloc_refines [OF slab_laws _ this] show ?thesis by (auto simp: slab_avail_1)
qed

text \<open>\<^verbatim>\<open>dao_bmap_index_free\<close> of an index below the size of the map makes it available again, and
  refuses a double free with \<^verbatim>\<open>-EINVAL\<close>.\<close>

theorem index_free_refines:
  assumes "bitmap_laws ops n" and "n \<le> 65536" and "unat index < n"
    and "dao_bmap_index_free ops (Some b) index = (rc, b')"
  shows "\<exists>c. b' = Some c \<and>
     (if unat index \<in> avail ops b then rc = - EINVAL \<and> avail ops c = avail ops b
      else rc = 0 \<and> avail ops c = insert (unat index) (avail ops b))"
  by (rule free_refines [OF assms])

theorem index_free_refines_witness:
  "\<exists>c. dao_bmap_index_free slab_ops (Some 1) 5 = (0, Some c) \<and> avail slab_ops c = {0, 5}"
proof -
  obtain rc b' where "dao_bmap_index_free slab_ops (Some 1) 5 = (rc, b')" by fastforce
  with index_free_refines [OF slab_laws _ _ this] show ?thesis by (auto simp: slab_avail_1)
qed

text \<open>on a map set up for \<open>n\<close> indexes, \<open>k\<close> allocations in a row return pairwise different indexes of
  \<open>{1..<n}\<close>, and \<open>min k (n - 1)\<close> of them succeed: index 0 is never handed out.\<close>

theorem index_setup_allocs:
  assumes "bitmap_laws ops n" and "n \<le> 65536" and "dao_bmap_index_map_setup ops (of_nat n) = Some b"
  shows "distinct (filter (\<lambda>r. 0 \<le> r) (bmap_allocs ops k b)) \<and>
    set (filter (\<lambda>r. 0 \<le> r) (bmap_allocs ops k b)) \<subseteq> int ` {1..<n} \<and>
    length (filter (\<lambda>r. 0 \<le> r) (bmap_allocs ops k b)) = min k (n - 1)"
  using allocs_from_avail [OF assms(1,2), of b k] setup_refines [OF assms] by simp

theorem index_setup_allocs_witness:
  "\<exists>b. dao_bmap_index_map_setup slab_ops 64 = Some b \<and>
     length (filter (\<lambda>r. 0 \<le> r) (bmap_allocs slab_ops 100 b)) = 63"
proof -
  obtain b where b: "dao_bmap_index_map_setup slab_ops 64 = Some b"
    using slab_setup [of 64] by auto
  then show ?thesis using index_setup_allocs [OF slab_laws, of b 100] by simp
qed

end
