(* ===== verification/Ring.thy ===== *)
theory Ring
  imports Prelude
begin

text \<open>
  The descriptor offsets of \<^verbatim>\<open>lib/virtio/virtio_dev_priv.h\<close>.  An offset of a packed ring of \<open>q\<close>
  descriptors, \<open>q\<close> a power of two, is a 16-bit value: the low 15 bits are the index in the ring and
  bit 15 is the wrap counter, which changes each time the index passes the end.  The locale
  \<open>ring_offset\<close> is what the queue code relies on; it is interpreted on the code's functions.
\<close>

section \<open>The code\<close>

definition DESC_ENTRY_SZ :: u64 where
  "DESC_ENTRY_SZ = 16"

definition DESC_OFF :: "u16 \<Rightarrow> u64" where
  "DESC_OFF i = ucast i AND NOT (RTE_BIT64 15)"

definition DESC_SZ :: "u16 \<Rightarrow> u64" where
  "DESC_SZ x = (ucast x AND NOT (RTE_BIT64 15)) * DESC_ENTRY_SZ"

definition DESC_PTR_OFF :: "u64 \<Rightarrow> u16 \<Rightarrow> u64 \<Rightarrow> u64" where
  "DESC_PTR_OFF b i off = b + DESC_SZ i + off"

definition desc_off_add :: "u16 \<Rightarrow> u16 \<Rightarrow> u16 \<Rightarrow> u16" where
  "desc_off_add a b q_sz =
     (let sum = a + b;
          mask = ucast (NOT (ucast q_sz - 1) AND NOT (RTE_BIT64 15) :: u64);
          sum = sum + mask
      in sum AND NOT mask)"

definition desc_off_diff_no_wrap :: "u16 \<Rightarrow> u16 \<Rightarrow> u16 \<Rightarrow> u16" where
  "desc_off_diff_no_wrap a b q_sz =
     (if ucast a AND RTE_BIT64 15 = ucast b AND RTE_BIT64 15 then a - b
      else ucast (ucast q_sz - (ucast b AND (RTE_BIT64 15 - 1))))"

definition desc_off_diff :: "u16 \<Rightarrow> u16 \<Rightarrow> u16 \<Rightarrow> u16" where
  "desc_off_diff a b q_sz =
     (if ucast a AND RTE_BIT64 15 = ucast b AND RTE_BIT64 15 then ucast (DESC_OFF a - DESC_OFF b)
      else ucast (ucast q_sz - (ucast b AND (RTE_BIT64 15 - 1)) + DESC_OFF a))"

section \<open>Positions in a ring\<close>

definition ring_size :: "u16 \<Rightarrow> bool" where
  "ring_size q \<longleftrightarrow> q \<in> set (map (\<lambda>k. push_bit k 1) [0..<16])"

definition off_index :: "u16 \<Rightarrow> nat" where
  "off_index a = unat a mod 32768"

definition ring_off :: "u16 \<Rightarrow> u16 \<Rightarrow> bool" where
  "ring_off q a \<longleftrightarrow> off_index a < unat q"

text \<open>
  The position counts descriptors over two passes of the ring, so that positions of a ring of \<open>q\<close>
  descriptors are the numbers below \<open>2 * q\<close>.
\<close>

definition ring_pos :: "u16 \<Rightarrow> u16 \<Rightarrow> nat" where
  "ring_pos q a = (if bit a 15 then unat q else 0) + off_index a"

lemma ring_sizeE:
  assumes "ring_size q"
  obtains k where "k \<le> 15" "q = 2 ^ k" "unat q = 2 ^ k"
proof -
  obtain k where k: "k < 16" "q = push_bit k 1" using assms by (auto simp: ring_size_def)
  have "(2 :: nat) ^ k < 2 ^ 16" using k(1) by (intro power_strict_increasing) simp_all
  then have "unat q = 2 ^ k" using unat_of_nat_small [of "2 ^ k", where 'a = 16] k(2)
    by (simp add: push_bit_eq_mult)
  then show thesis using k by (intro that [of k]) (simp_all add: push_bit_eq_mult)
qed

lemma ring_size_le: "ring_size q \<Longrightarrow> unat q \<le> 32768 \<and> 0 < unat q"
  by (erule ring_sizeE) (simp add: power_increasing [where N = 15, of _ 2, simplified])

lemma bit15_le: "bit (a :: u16) 15 \<longleftrightarrow> 32768 \<le> unat a"
proof -
  have "bit (unat a) 15 \<longleftrightarrow> bit a 15" unfolding bit_unsigned_iff by simp
  then have "bit a 15 \<longleftrightarrow> odd (unat a div 32768)" by (simp add: bit_iff_odd)
  moreover have "unat a div 32768 < 2"
    using unat_less_length [of a] by (simp add: less_mult_imp_div_less)
  moreover have "unat a div 32768 = 0 \<longleftrightarrow> \<not> 32768 \<le> unat a" by (simp add: div_eq_0_iff not_le)
  ultimately show ?thesis by (auto simp: less_2_cases_iff)
qed

lemma off_split: "unat (a :: u16) = (if bit a 15 then 32768 else 0) + off_index a"
  using unat_less_length [of a]
  by (auto simp: bit15_le off_index_def le_mod_geq)

definition off_mask :: "nat \<Rightarrow> u16" where
  "off_mask k = ucast (NOT (2 ^ k - 1) AND NOT (RTE_BIT64 15) :: u64)"

lemma bit_off_mask: "bit (off_mask k) n \<longleftrightarrow> k \<le> n \<and> n < 15"
proof -
  have "bit (off_mask k) n \<longleftrightarrow> n < 16 \<and> k \<le> n \<and> n \<noteq> 15"
    unfolding off_mask_def RTE_BIT64_def mask_eq_exp_minus_1 [symmetric] push_bit_eq_mult mult_1
    by (auto simp only: bit_simps) auto
  then show ?thesis by auto
qed

lemma off_mask_not: "k \<le> 15 \<Longrightarrow> S AND NOT (off_mask k) = push_bit 15 (drop_bit 15 S) OR take_bit k S"
proof (rule bit_word_eqI)
  fix n assume "k \<le> 15" "n < LENGTH(16)"
  then consider "n < 15" | "n = 15" by force
  then show "bit (S AND NOT (off_mask k)) n = bit (push_bit 15 (drop_bit 15 S) OR take_bit k S) n"
    using \<open>k \<le> 15\<close> by cases (auto simp: bit_off_mask bit_simps)
qed

lemma unat_off_mask: "k \<le> 15 \<Longrightarrow> unat (off_mask k) = 32768 - 2 ^ k"
proof -
  assume k: "k \<le> 15"
  have dis: "off_mask k AND mask k = 0" by (rule bit_word_eqI) (auto simp: bit_off_mask bit_simps)
  have "off_mask k + mask k = off_mask k OR mask k" using dis by (rule disjunctive_add_eq_or)
  also have "\<dots> = mask 15" using k by (intro bit_word_eqI) (auto simp: bit_off_mask bit_simps)
  finally have eq: "off_mask k = mask 15 - mask k" by (simp add: algebra_simps)
  have m: "unat (mask j :: u16) = 2 ^ j - 1" if "j \<le> 15" for j
  proof -
    have "(2 :: nat) ^ j < 2 ^ 16" using that by (intro power_strict_increasing) simp_all
    then have "unat (of_nat (mask j) :: u16) = mask j"
      by (intro unat_of_nat_small) (simp add: mask_eq_exp_minus_1)
    then show ?thesis by (simp add: of_nat_mask_eq mask_eq_exp_minus_1)
  qed
  have le: "(2 :: nat) ^ k \<le> 2 ^ 15" using k by (intro power_increasing) simp_all
  have "(mask k :: u16) \<le> mask 15" unfolding word_le_nat_alt m [OF k] m [OF order_refl] using le by simp
  then have "unat (off_mask k) = (2 ^ 15 - 1) - (2 ^ k - 1)" unfolding eq using m [OF k] m [OF order_refl]
    by (simp add: unat_sub)
  then show ?thesis by simp
qed

lemma unat_off_mask_not:
  assumes k: "k \<le> 15"
  shows "unat (S AND NOT (off_mask k)) = (if bit S 15 then 32768 else 0) + unat S mod 2 ^ k"
proof -
  have dis: "push_bit 15 (drop_bit 15 S) AND take_bit k S = 0"
    using k by (intro bit_word_eqI) (auto simp: bit_simps)
  have p: "unat (push_bit 15 (drop_bit 15 S)) = (if bit S 15 then 32768 else 0)"
  proof -
    have "push_bit 15 (drop_bit 15 S) = (if bit S 15 then 2 ^ 15 else 0)"
    proof (rule bit_word_eqI)
      fix n assume "n < LENGTH(16)"
      then show "bit (push_bit 15 (drop_bit 15 S)) n = bit (if bit S 15 then 2 ^ 15 else 0 :: u16) n"
        by (cases "n = 15") (simp_all only: bit_simps split: if_split, auto)
    qed
    then show ?thesis by simp
  qed
  have t: "unat (take_bit k S) = unat S mod 2 ^ k"
    unfolding unsigned_take_bit_eq by (rule take_bit_eq_mod)
  have "unat S mod 2 ^ k < 2 ^ k" by simp
  also have "(2 :: nat) ^ k \<le> 2 ^ 15" using k by (intro power_increasing) simp_all
  finally have "unat (push_bit 15 (drop_bit 15 S) + take_bit k S) = 
      (if bit S 15 then 32768 else 0) + unat S mod 2 ^ k"
    unfolding unat_word_ariths p t by simp
  then show ?thesis using disjunctive_add_eq_or [OF dis] by (simp add: off_mask_not [OF k])
qed

lemma off_add_nat:
  fixes low b w q m :: nat
  assumes "q * m = 32768" "low < q" "b \<le> q" "w = 0 \<or> w = 32768" 
  defines "S \<equiv> (w + low + b + (32768 - q)) mod 65536"
  shows "(if 32768 \<le> S then q else 0) + S mod q = ((if w = 0 then 0 else q) + low + b) mod (2 * q)"
proof -
  have d: "q dvd 32768" by (rule dvdI [of _ _ m]) (simp only: assms(1))
  then have q: "q \<le> 32768" by (rule dvd_imp_le) simp
  have dvd: "q dvd 32768 - q" "q dvd 32768 + (32768 - q)"
    using d by (simp_all only: dvd_add dvd_diff_nat dvd_refl)
  have mod: "(c + r) mod q = r" if "q dvd c" "r < q" for c r
    using that by (auto simp: dvd_def)
  show ?thesis
  proof (cases "low + b < q")
    case True
    have S: "S = (w + (32768 - q)) + (low + b)" using True q assms(4) by (auto simp: S_def)
    have "q dvd w + (32768 - q)" using dvd assms(4) by (elim disjE) (simp_all only: add_0)
    then have "S mod q = low + b" unfolding S using True by (rule mod)
    moreover have "32768 \<le> S \<longleftrightarrow> w = 32768" unfolding S using True q assms(2,4) by linarith
    ultimately show ?thesis using True assms(4) by auto
  next
    case False
    define r where "r = low + b - q"
    have r: "r < q" "low + b = q + r" using False assms(2,3) by (auto simp: r_def)
    have S: "S = (if w = 0 then 32768 else 0) + r" using r q assms(4) by (auto simp: S_def)
    have "S mod q = r" unfolding S using r(1) d by (intro mod) simp_all
    moreover have "32768 \<le> S \<longleftrightarrow> w = 0" unfolding S using r(1) q by simp
    moreover have "(2 * q + r) mod (2 * q) = r" using r(1) by simp
    moreover have "q + low + b = 2 * q + r" "low + b = q + r" "(q + r) mod (2 * q) = q + r" using r by simp_all
    ultimately show ?thesis by (simp only: if_True if_False add_0 split: if_split) simp
  qed
qed

section \<open>The laws\<close>

lemma desc_off_add_pos:
  assumes q: "ring_size q" and a: "ring_off q a" and n: "unat n \<le> unat q"
  shows "ring_off q (desc_off_add a n q)"
    and "ring_pos q (desc_off_add a n q) = (ring_pos q a + unat n) mod (2 * unat q)"
proof -
  obtain k where k: "k \<le> 15" "q = 2 ^ k" "unat q = 2 ^ k" using q by (rule ring_sizeE)
  have pow: "unat q * 2 ^ (15 - k) = 32768" using k by (simp flip: power_add)
  let ?w = "if bit a 15 then 32768 else (0::nat)"
  let ?S = "a + n + off_mask k"
  have "(ucast q :: u64) = of_nat (unat q)" by simp
  then have uq: "(ucast q :: u64) = 2 ^ k" by (simp only: k(3)) simp
  have add: "desc_off_add a n q = ?S AND NOT (off_mask k)"
    unfolding desc_off_add_def Let_def uq off_mask_def [symmetric] ..
  have S: "unat ?S = (?w + off_index a + unat n + (32768 - unat q)) mod 65536"
    unfolding unat_word_ariths unat_off_mask [OF k(1)] k(3) off_split [of a] by (simp add: mod_simps)
  have val: "unat (desc_off_add a n q) = (if bit ?S 15 then 32768 else 0) + unat ?S mod unat q"
    unfolding add k(3) by (rule unat_off_mask_not [OF k(1)])
  have lt: "unat ?S mod unat q < unat q" using k(3) by simp
  then have "unat ?S mod unat q < 32768" using ring_size_le [OF q] by linarith
  then have idx: "off_index (desc_off_add a n q) = unat ?S mod unat q"
    and b15: "bit (desc_off_add a n q) 15 = bit ?S 15"
    using val unfolding bit15_le off_index_def by auto
  show "ring_off q (desc_off_add a n q)" using lt by (simp add: ring_off_def idx)
  have "ring_pos q (desc_off_add a n q) = (if 32768 \<le> unat ?S then unat q else 0) + unat ?S mod unat q"
    unfolding ring_pos_def idx b15 by (simp only: bit15_le)
  also have "\<dots> = ((if ?w = 0 then 0 else unat q) + off_index a + unat n) mod (2 * unat q)"
    unfolding S using a n by (intro off_add_nat [OF pow]) (simp_all add: ring_off_def)
  finally show "ring_pos q (desc_off_add a n q) = (ring_pos q a + unat n) mod (2 * unat q)"
    by (simp add: ring_pos_def)
qed


lemma DESC_OFF_index: "DESC_OFF a = of_nat (off_index a)" "ucast b AND (RTE_BIT64 15 - 1) = (of_nat (off_index b) :: u64)"
proof -
  have i: "of_nat (off_index a) = (ucast (take_bit 15 a) :: u64)" for a :: u16
  proof -
    have "(ucast (take_bit 15 a) :: u64) = of_nat (unat (take_bit 15 a))" by simp
    also have "unat (take_bit 15 a) = off_index a"
      unfolding unsigned_take_bit_eq off_index_def by (simp add: take_bit_eq_mod)
    finally show ?thesis ..
  qed
  show "DESC_OFF a = of_nat (off_index a)"
    unfolding i DESC_OFF_def RTE_BIT64_def push_bit_eq_mult mult_1
  proof (rule bit_word_eqI)
    fix n assume "n < LENGTH(64)"
    then consider "n < 15" | "n = 15" | "15 < n" by linarith
    then show "bit (ucast a AND NOT (2 ^ 15) :: u64) n = bit (ucast (take_bit 15 a) :: u64) n"
      by cases (simp_all only: bit_simps, auto dest: bit_imp_le_length)
  qed
  show "ucast b AND (RTE_BIT64 15 - 1) = (of_nat (off_index b) :: u64)"
    unfolding i RTE_BIT64_def push_bit_eq_mult mult_1 mask_eq_exp_minus_1 [symmetric]
    by (rule bit_word_eqI) (simp only: bit_simps, auto)
qed

lemma same_wrap: "ucast a AND RTE_BIT64 15 = ucast b AND RTE_BIT64 15 \<longleftrightarrow> bit (a :: u16) 15 = bit (b :: u16) 15"
proof -
  have "ucast a AND RTE_BIT64 15 = (if bit a 15 then 2 ^ 15 else 0)" for a :: u16
    unfolding RTE_BIT64_def push_bit_eq_mult mult_1
    by (rule bit_word_eqI) (simp only: bit_simps split: if_split, auto)
  then show ?thesis by simp
qed

lemma ucast_of_nat_64: "unat (ucast (of_nat n :: u64) :: u16) = n" if "n < 65536"
  using that by (simp add: unsigned_ucast_eq take_bit_nat_eq_self unsigned_of_nat)

lemma cyclic_diff:
  fixes x y m :: nat
  assumes "x < m" "y < m"
  shows "(x + m - y) mod m = (if y \<le> x then x - y else x + m - y)"
proof (cases "y \<le> x")
  case True
  then have "x + m - y = (x - y) + m" by simp
  then show ?thesis using True assms by (simp only: mod_add_self2) simp
qed (use assms in simp)

lemma ring_pos_less: "ring_off q a \<Longrightarrow> ring_pos q a < 2 * unat q"
  by (auto simp: ring_pos_def ring_off_def)

lemma desc_off_diff_pos:
  assumes q: "ring_size q" and a: "ring_off q a" and b: "ring_off q b"
    and ahead: "(ring_pos q a + 2 * unat q - ring_pos q b) mod (2 * unat q) \<le> unat q"
  shows "unat (desc_off_diff a b q) = (ring_pos q a + 2 * unat q - ring_pos q b) mod (2 * unat q)"
proof -
  let ?A = "off_index a" and ?B = "off_index b" and ?Q = "unat q"
  have lt: "?A < ?Q" "?B < ?Q" "?Q \<le> 32768" using a b ring_size_le [OF q] by (simp_all add: ring_off_def)
  show ?thesis
  proof (cases "bit a 15 = bit b 15")
    case True
    have d: "(ring_pos q a + 2 * ?Q - ring_pos q b) mod (2 * ?Q) = (if ?B \<le> ?A then ?A - ?B else 2 * ?Q - (?B - ?A))"
      unfolding cyclic_diff [OF ring_pos_less [OF a] ring_pos_less [OF b]] using True lt
      by (auto simp: ring_pos_def)
    then have le: "?B \<le> ?A" using ahead lt by (auto split: if_splits)
    have "desc_off_diff a b q = ucast (of_nat (?A - ?B) :: u64)"
      using le True by (simp add: desc_off_diff_def same_wrap DESC_OFF_index of_nat_diff)
    then show ?thesis unfolding d using lt le ucast_of_nat_64 [of "?A - ?B"] by (simp only: if_True)
  next
    case False
    have d: "(ring_pos q a + 2 * ?Q - ring_pos q b) mod (2 * ?Q) = ?Q - ?B + ?A"
      unfolding cyclic_diff [OF ring_pos_less [OF a] ring_pos_less [OF b]] using False lt
      by (auto simp: ring_pos_def)
    have "desc_off_diff a b q = ucast (of_nat (?Q - ?B + ?A) :: u64)"
      using lt False by (simp add: desc_off_diff_def same_wrap DESC_OFF_index of_nat_diff algebra_simps)
    then show ?thesis unfolding d using lt ucast_of_nat_64 [of "?Q - ?B + ?A"] by (simp only:)
  qed
qed


lemma desc_off_diff_no_wrap_index:
  assumes q: "ring_size q" and a: "ring_off q a" and b: "ring_off q b"
    and le: "bit a 15 = bit b 15 \<Longrightarrow> off_index b \<le> off_index a"
  shows "unat (desc_off_diff_no_wrap a b q) =
    (if bit a 15 = bit b 15 then off_index a - off_index b else unat q - off_index b)"
proof -
  have lt: "off_index b < unat q" "unat q \<le> 32768" using b ring_size_le [OF q] by (simp_all add: ring_off_def)
  show ?thesis
  proof (cases "bit a 15 = bit b 15")
    case True
    then have "unat b \<le> unat a" using le off_split [of a] off_split [of b] by simp
    then have "unat (a - b) = unat a - unat b" by (simp add: unat_sub word_le_nat_alt)
    then show ?thesis using True off_split [of a] off_split [of b] by (simp add: desc_off_diff_no_wrap_def same_wrap)
  next
    case False
    have "desc_off_diff_no_wrap a b q = ucast (of_nat (unat q - off_index b) :: u64)"
      using lt False by (simp add: desc_off_diff_no_wrap_def same_wrap DESC_OFF_index of_nat_diff)
    then show ?thesis using lt False ucast_of_nat_64 [of "unat q - off_index b"] by simp
  qed
qed

lemma ring_pos_inj:
  assumes "ring_off q a" "ring_off q b" "ring_pos q a = ring_pos q b"
  shows "a = b"
proof -
  have "bit a 15 = bit b 15" "off_index a = off_index b"
    using assms by (auto simp: ring_pos_def ring_off_def split: if_splits)
  then have "unat a = unat b" using off_split [of a] off_split [of b] by simp
  then show ?thesis by (simp add: word_unat_eq_iff)
qed

lemma desc_off_add_wrap:
  assumes "ring_size q" "ring_off q a" "unat n \<le> unat q"
  shows "bit (desc_off_add a n q) 15 = bit a 15 \<longleftrightarrow> off_index a + unat n < unat q"
    and "off_index a + unat n < unat q \<Longrightarrow> off_index (desc_off_add a n q) = off_index a + unat n"
proof -
  let ?b = "desc_off_add a n q"
  have lt: "off_index a < unat q" "off_index ?b < unat q"
    using assms(2) desc_off_add_pos(1) [OF assms] by (simp_all add: ring_off_def)
  have p: "(if bit ?b 15 then unat q else 0) + off_index ?b =
      ((if bit a 15 then unat q else 0) + off_index a + unat n) mod (2 * unat q)"
    using desc_off_add_pos(2) [OF assms] by (simp add: ring_pos_def)
  have m: "x mod (2 * unat q) = (if x < 2 * unat q then x else x - 2 * unat q)" if "x < 4 * unat q" for x
    using that lt by (simp add: mod_if)
  have "((if bit a 15 then unat q else 0) + off_index a + unat n) < 4 * unat q" using lt assms(3) by auto
  note p [unfolded m [OF this]]
  then show "bit ?b 15 = bit a 15 \<longleftrightarrow> off_index a + unat n < unat q"
    "off_index a + unat n < unat q \<Longrightarrow> off_index ?b = off_index a + unat n"
    using lt assms(3) by (auto split: if_splits)
qed

section \<open>The interface\<close>

text \<open>
  What the queues rely on: for a legal ring size, offsets are the positions below \<open>2 * size\<close>, adding
  moves forward by up to a full ring, and the difference of an offset and one at most a full ring
  behind it is the number of descriptors between them.
\<close>

locale ring_offset =
  fixes legal :: "u16 \<Rightarrow> bool" and off :: "u16 \<Rightarrow> u16 \<Rightarrow> bool" and pos :: "u16 \<Rightarrow> u16 \<Rightarrow> nat"
    and add :: "u16 \<Rightarrow> u16 \<Rightarrow> u16 \<Rightarrow> u16" and diff :: "u16 \<Rightarrow> u16 \<Rightarrow> u16 \<Rightarrow> u16"
  assumes pos_less: "off q a \<Longrightarrow> pos q a < 2 * unat q"
    and pos_inj: "off q a \<Longrightarrow> off q b \<Longrightarrow> pos q a = pos q b \<Longrightarrow> a = b"
    and add_off: "legal q \<Longrightarrow> off q a \<Longrightarrow> unat n \<le> unat q \<Longrightarrow> off q (add a n q)"
    and add_pos: "legal q \<Longrightarrow> off q a \<Longrightarrow> unat n \<le> unat q \<Longrightarrow>
      pos q (add a n q) = (pos q a + unat n) mod (2 * unat q)"
    and diff_pos: "legal q \<Longrightarrow> off q a \<Longrightarrow> off q b \<Longrightarrow>
      (pos q a + 2 * unat q - pos q b) mod (2 * unat q) \<le> unat q \<Longrightarrow>
      unat (diff a b q) = (pos q a + 2 * unat q - pos q b) mod (2 * unat q)"
begin

lemma cyclic_back:
  fixes p m k :: nat
  assumes "p < m" "k < m"
  shows "((p + k) mod m + m - p) mod m = k"
proof (cases "p + k < m")
  case False
  then have "(p + k) mod m = p + k - m" using assms by (simp add: mod_if)
  then show ?thesis using assms False by simp
qed (use assms in simp)

lemma add_zero: "legal q \<Longrightarrow> off q a \<Longrightarrow> add a 0 q = a"
  using add_pos [of q a 0] add_off [of q a 0] pos_less [of q a] by (intro pos_inj) auto

lemma add_add:
  assumes "legal q" "off q a" "unat m + unat n \<le> unat q"
  shows "add (add a m q) n q = add a (m + n) q"
proof -
  have "unat m + unat n < 2 ^ 16" using assms(3) unat_less_length [of q] by simp
  then have s: "unat (m + n) = unat m + unat n" by (simp add: unat_word_ariths)
  have le: "unat m \<le> unat q" "unat n \<le> unat q" using assms(3) by simp_all
  note m = add_off [OF assms(1,2) le(1)] add_pos [OF assms(1,2) le(1)]
  have "off q (add a (m + n) q)" "off q (add (add a m q) n q)"
    using add_off [OF assms(1,2)] add_off [OF assms(1) m(1) le(2)] s assms(3) by simp_all
  moreover have "pos q (add (add a m q) n q) = pos q (add a (m + n) q)"
    using add_pos [OF assms(1) m(1) le(2)] m(2) add_pos [OF assms(1,2), of "m + n"] s assms(3)
    by (simp add: mod_add_left_eq add.assoc)
  ultimately show ?thesis by (intro pos_inj) simp_all
qed

lemma diff_add:
  assumes "legal q" "off q a" "unat n \<le> unat q" "0 < unat q"
  shows "diff (add a n q) a q = n"
proof -
  have "(pos q (add a n q) + 2 * unat q - pos q a) mod (2 * unat q) = unat n"
    unfolding add_pos [OF assms(1-3)] using assms pos_less [OF assms(2)] by (intro cyclic_back) simp_all
  then have "unat (diff (add a n q) a q) = unat n"
    using diff_pos [OF assms(1) add_off [OF assms(1-3)] assms(2)] assms(3) by simp
  then show ?thesis by (simp add: word_unat_eq_iff)
qed

lemma diff_add_add:
  assumes "legal q" "off q a" "unat m \<le> unat n" "unat n \<le> unat q" "0 < unat q"
  shows "diff (add a n q) (add a m q) q = n - m"
proof -
  have s: "unat (n - m) = unat n - unat m" using assms(3) by (simp add: unat_sub word_le_nat_alt)
  have "add a n q = add (add a m q) (n - m) q"
    using assms by (subst add_add) (simp_all add: s)
  moreover have "off q (add a m q)" using assms by (intro add_off) simp_all
  ultimately show ?thesis using assms by (simp add: diff_add s)
qed

end

interpretation ring: ring_offset ring_size ring_off ring_pos desc_off_add desc_off_diff
  by unfold_locales (fact ring_pos_less ring_pos_inj desc_off_add_pos desc_off_diff_pos)+

section \<open>Properties\<close>

text \<open>C9: in a ring of a power of two descriptors, \<^verbatim>\<open>desc_off_add\<close> by at most a full ring moves the
  position forward by that many descriptors, modulo two passes, and the result is an offset of the ring:
  the index wraps at the ring size and the wrap counter in bit 15 changes with it.\<close>

theorem off_add_moves:
  assumes "ring_size q" and "ring_off q a" and "unat n \<le> unat q"
  shows "ring_off q (desc_off_add a n q) \<and>
    ring_pos q (desc_off_add a n q) = (ring_pos q a + unat n) mod (2 * unat q)"
  using ring.add_off [OF assms] ring.add_pos [OF assms] by blast

lemma ring_size_8: "ring_size 8" "ring_off 8 6" "unat (5 :: u16) \<le> unat (8 :: u16)"
  by (simp_all add: ring_off_def off_index_def) (simp add: ring_size_def upt_rec)

theorem off_add_moves_witness:
  "ring_pos 8 (desc_off_add 6 5 8) = 11"
  using off_add_moves [OF ring_size_8] by (simp add: ring_pos_def off_index_def bit15_le)

text \<open>C32: \<^verbatim>\<open>desc_off_diff\<close> undoes \<^verbatim>\<open>desc_off_add\<close>: between the offsets \<open>n\<close> and \<open>m\<close> descriptors after
  the same one, \<open>m \<le> n \<le> q\<close>, it counts \<open>n - m\<close>, wherever the ring wraps.\<close>

theorem off_diff_add:
  assumes "ring_size q" and "ring_off q a" and "unat m \<le> unat n" and "unat n \<le> unat q"
  shows "desc_off_diff (desc_off_add a n q) (desc_off_add a m q) q = n - m"
  using ring.diff_add_add [OF assms] ring_size_le [OF assms(1)] by simp

theorem off_diff_add_witness:
  "desc_off_diff (desc_off_add 6 5 8) (desc_off_add 6 1 8) 8 = 4"
  using off_diff_add [OF ring_size_8(1,2), of 1 5] by simp

text \<open>\<^verbatim>\<open>desc_off_diff_no_wrap\<close> splits a range of descriptors where the ring wraps.  The part it counts
  stays in front of the end of the ring, and what is left after it is the rest of the range.\<close>

theorem off_diff_no_wrap:
  assumes q: "ring_size q" and a: "ring_off q a" and n: "unat n \<le> unat q"
    and b: "b = desc_off_add a n q" and k: "k = desc_off_diff_no_wrap b a q"
  shows "unat k = min (unat n) (unat q - off_index a) \<and>
    desc_off_diff b (desc_off_add a k q) q = n - k"
proof -
  have lt: "off_index a < unat q" using a by (simp add: ring_off_def)
  have "unat k = (if bit b 15 = bit a 15 then off_index b - off_index a else unat q - off_index a)"
    unfolding k using desc_off_add_pos(1) [OF q a n] a desc_off_add_wrap [OF q a n]
    by (intro desc_off_diff_no_wrap_index [OF q]) (simp_all add: b)
  then have uk: "unat k = min (unat n) (unat q - off_index a)"
    using desc_off_add_wrap [OF q a n] lt n b by (auto split: if_splits)
  then have "desc_off_diff (desc_off_add a n q) (desc_off_add a k q) q = n - k"
    using n ring_size_le [OF q] by (intro ring.diff_add_add [OF q a]) simp_all
  with uk show ?thesis by (simp add: b)
qed

theorem off_diff_no_wrap_witness:
  "unat (desc_off_diff_no_wrap (desc_off_add 6 5 8) 6 8) = 2"
  using off_diff_no_wrap [OF ring_size_8 refl refl] by (simp add: off_index_def)

end
