(* ===== verification/Dma.thy ===== *)
theory Dma
  imports Prelude
begin

text \<open>
  The DMA helper of \<^verbatim>\<open>lib/common/dao_dma.h\<close> and \<^verbatim>\<open>lib/common/dma.c\<close>: a channel gathers up to
  fifteen source and destination pointers, hands them to the device as one operation when its flush
  threshold is reached, counts operations with a 16-bit tail and completions with a 16-bit head, and
  keeps, per operation, the values to be stored when it completes.

  The device is DPDK's \<^verbatim>\<open>rte_dmadev\<close> and is a parameter: \<open>dma_ops\<close> holds the calls on a device state of
  type \<open>'d\<close>, together with the build option \<^verbatim>\<open>DAO_DMA_STATS\<close>.  An access outside an array of the
  channel is the fault \<open>OutOfBounds\<close>.  A 128-bit vector is the pair of its two lanes.
\<close>

section \<open>The channel\<close>

record sge =
  addr :: u64
  len :: u32

definition DAO_DMA_MAX_POINTER :: nat where
  "DAO_DMA_MAX_POINTER = 15"

definition DAO_DMA_MAX_POINTER_THR_DFLT :: u16 where
  "DAO_DMA_MAX_POINTER_THR_DFLT = 8"

definition DAO_DMA_MAX_VCHAN_PER_LCORE :: nat where
  "DAO_DMA_MAX_VCHAN_PER_LCORE = 128"

definition DAO_DMA_MAX_INFLIGHT_MDATA :: nat where
  "DAO_DMA_MAX_INFLIGHT_MDATA = 4096"

record cmpl_mdata =
  pend_ptr :: "u64 list"
  pend_val :: "u16 list"
  val :: "u16 list"
  ptr :: "u64 list"
  cnt :: u16

record vchan_state =
  tail :: u16
  head :: u16
  devid :: int
  vchan :: u8
  src_i :: u16
  dst_i :: u16
  flush_thr :: u8
  auto_free :: bool
  pend_ops :: u16
  src :: "sge list"
  dst :: "sge list"
  ptrs :: u64
  nops :: u64
  dbells :: u64
  dma_enq_errs :: u64
  dma_compl_errs :: u64
  mdata :: "cmpl_mdata list"

record 'd dma_ops =
  dma_is_valid :: "'d \<Rightarrow> int \<Rightarrow> bool"
  dma_copy_sg :: "'d \<Rightarrow> int \<Rightarrow> u8 \<Rightarrow> sge list \<Rightarrow> sge list \<Rightarrow> u64 \<Rightarrow> int \<times> 'd"
  dma_submit :: "'d \<Rightarrow> int \<Rightarrow> u8 \<Rightarrow> 'd"
  dma_completed :: "'d \<Rightarrow> int \<Rightarrow> u8 \<Rightarrow> u16 \<Rightarrow> u16 \<times> bool \<times> 'd"
  has_stats :: bool

definition dao_dma_op_status :: "vchan_state \<Rightarrow> u16 \<Rightarrow> bool" where
  "dao_dma_op_status v op_idx =
     (if src_i v \<noteq> 0 \<and> tail v = op_idx then False
      else if head v \<le> tail v then op_idx < head v \<or> op_idx \<ge> tail v
      else op_idx < head v \<and> op_idx \<ge> tail v)"

definition dao_dma_flush :: "'d dma_ops \<Rightarrow> vchan_state \<Rightarrow> u8 \<Rightarrow> 'd \<Rightarrow> bool \<times> vchan_state \<times> 'd" where
  "dao_dma_flush ops v avail d =
     (let src_avail = uint (flush_thr v) - uint (src_i v);
          dst_avail = uint (flush_thr v) - uint (dst_i v);
          flags = push_bit 3 (of_bool (auto_free v))
      in if (src_avail \<ge> uint avail \<or> src_i v = 0) \<and> (dst_avail \<ge> uint avail \<or> dst_i v = 0)
         then (True, v, d)
         else case dma_copy_sg ops d (devid v) (vchan v) (take (unat (src_i v)) (src v))
                     (take (unat (dst_i v)) (dst v)) flags of (rc, d') \<Rightarrow>
           if rc < 0 then
             (False, if has_stats ops then v\<lparr>dma_enq_errs := dma_enq_errs v + 1\<rparr> else v, d')
           else
             let v = v\<lparr>tail := tail v + 1, pend_ops := pend_ops v + 1\<rparr>;
                 v = (if has_stats ops
                      then v\<lparr>ptrs := ptrs v + ucast (src_i v), nops := nops v + 1\<rparr> else v)
             in (True, v\<lparr>src_i := 0, dst_i := 0\<rparr>, d'))"

definition dao_dma_avail :: "vchan_state \<Rightarrow> u16" where
  "dao_dma_avail v = of_int (uint (flush_thr v) - uint (src_i v))"

definition put_src :: "vchan_state \<Rightarrow> nat \<Rightarrow> sge \<Rightarrow> fault + vchan_state" where
  "put_src v i s = (if i < length (src v) then Inr (v\<lparr>src := (src v)[i := s]\<rparr>) else Inl OutOfBounds)"

definition put_dst :: "vchan_state \<Rightarrow> nat \<Rightarrow> sge \<Rightarrow> fault + vchan_state" where
  "put_dst v i s = (if i < length (dst v) then Inr (v\<lparr>dst := (dst v)[i := s]\<rparr>) else Inl OutOfBounds)"

definition dao_dma_enq_x1 :: "vchan_state \<Rightarrow> sge \<Rightarrow> sge \<Rightarrow> fault + vchan_state" where
  "dao_dma_enq_x1 v s d =
     rbind (put_dst v (unat (dst_i v)) d) (\<lambda>v1.
     rbind (put_src v1 (unat (src_i v)) s) (\<lambda>v2.
     Inr (v2\<lparr>src_i := src_i v + 1, dst_i := dst_i v + 1\<rparr>)))"

definition dao_dma_enq_dst_x1 :: "vchan_state \<Rightarrow> sge \<Rightarrow> fault + vchan_state" where
  "dao_dma_enq_dst_x1 v d =
     rbind (put_dst v (unat (dst_i v)) d) (\<lambda>v1. Inr (v1\<lparr>dst_i := dst_i v + 1\<rparr>))"

definition dao_dma_enq_src_x1 :: "vchan_state \<Rightarrow> sge \<Rightarrow> fault + vchan_state" where
  "dao_dma_enq_src_x1 v s =
     rbind (put_src v (unat (src_i v)) s) (\<lambda>v1. Inr (v1\<lparr>src_i := src_i v + 1\<rparr>))"

text \<open>
  \<^verbatim>\<open>vst1q_u64\<close> into a \<^verbatim>\<open>struct rte_dma_sge\<close>: lane 0 is the address, the low half of lane 1 the length.
\<close>

definition sge_of :: "u64 \<times> u64 \<Rightarrow> sge" where
  "sge_of vec = \<lparr>addr = fst vec, len = ucast (snd vec)\<rparr>"

definition put_pair :: "vchan_state \<Rightarrow> nat \<Rightarrow> nat \<Rightarrow> (u64 \<times> u64) \<times> (u64 \<times> u64) \<Rightarrow> fault + vchan_state" where
  "put_pair v s d p = rbind (put_src v s (sge_of (fst p))) (\<lambda>v1. put_dst v1 d (sge_of (snd p)))"

text \<open>
  The loops \<^verbatim>\<open>while (i < 4 && src_avail > 0)\<close> over the vectors that are left, storing from position
  \<open>s\<close> of the source array and \<open>d\<close> of the destination array on; the result holds the vectors not stored.
\<close>

fun enq_loop :: "vchan_state \<Rightarrow> nat \<Rightarrow> nat \<Rightarrow> int \<Rightarrow> ((u64 \<times> u64) \<times> (u64 \<times> u64)) list \<Rightarrow>
    fault + vchan_state \<times> ((u64 \<times> u64) \<times> (u64 \<times> u64)) list" where
  "enq_loop v s d src_avail [] = Inr (v, [])"
| "enq_loop v s d src_avail (p # ps) =
     (if src_avail > 0
      then rbind (put_pair v s d p) (\<lambda>v1. enq_loop v1 (s + 1) (d + 1) (src_avail - 1) ps)
      else Inr (v, p # ps))"

definition dao_dma_enq_x4 ::
  "'d dma_ops \<Rightarrow> vchan_state \<Rightarrow> (u64 \<times> u64) list \<Rightarrow> (u64 \<times> u64) list \<Rightarrow> 'd \<Rightarrow>
     fault + nat \<times> vchan_state \<times> 'd" where
  "dao_dma_enq_x4 ops v vsrc vdst d =
     (let ps = zip (take 4 vsrc) (take 4 vdst);
          src_avail = uint (flush_thr v) - uint (src_i v)
      in if src_avail \<ge> 4 then
           rbind (enq_loop v (unat (src_i v)) (unat (dst_i v)) 4 ps) (\<lambda>(v1, _).
           Inr (4, v1\<lparr>src_i := src_i v + 4, dst_i := dst_i v + 4\<rparr>, d))
         else
           rbind (enq_loop v (unat (src_i v)) (unat (dst_i v)) src_avail ps) (\<lambda>(v1, ps1).
           let i = 4 - length ps1;
               v2 = v1\<lparr>src_i := src_i v + of_nat i, dst_i := dst_i v + of_nat i\<rparr>
           in case dao_dma_flush ops v2 4 d of (_, v3, d') \<Rightarrow>
           rbind (enq_loop v3 (unat (src_i v3)) (unat (dst_i v3))
                    (uint (flush_thr v3) - uint (src_i v3)) ps1) (\<lambda>(v4, ps2).
           let j = length ps1 - length ps2
           in Inr (i + j, v4\<lparr>src_i := src_i v3 + of_nat j, dst_i := dst_i v3 + of_nat j\<rparr>, d'))))"

definition dao_dma_check_compl :: "'d dma_ops \<Rightarrow> vchan_state \<Rightarrow> 'd \<Rightarrow> vchan_state \<times> 'd" where
  "dao_dma_check_compl ops v d =
     (case dma_completed ops d (devid v) (vchan v) 128 of (cmpl, has_err, d') \<Rightarrow>
        let (v1, cmpl) = (if has_err then (v\<lparr>dma_compl_errs := dma_compl_errs v + 1\<rparr>, cmpl + 1)
                          else (v, cmpl))
        in (v1\<lparr>head := head v1 + cmpl\<rparr>, d'))"

section \<open>Completion meta data\<close>

text \<open>
  The 16-bit cells the meta data points to.  Both memory orders store the same value; the order is
  kept as an argument.
\<close>

type_synonym cells = "u64 \<Rightarrow> u16"

definition store_cell :: "bool \<Rightarrow> cells \<Rightarrow> u64 \<Rightarrow> u16 \<Rightarrow> cells" where
  "store_cell mem_order m a x = m(a := x)"

fun apply_mdata :: "bool \<Rightarrow> cmpl_mdata \<Rightarrow> nat \<Rightarrow> nat \<Rightarrow> cells \<Rightarrow> fault + cells" where
  "apply_mdata mem_order md j 0 m = Inr m"
| "apply_mdata mem_order md j (Suc n) m =
     (if j < length (ptr md) \<and> j < length (val md) \<and> j < length (pend_ptr md) \<and> j < length (pend_val md) then
        let m1 = store_cell mem_order m (ptr md ! j) (val md ! j);
            m2 = m1(pend_ptr md ! j := m1 (pend_ptr md ! j) - pend_val md ! j)
        in apply_mdata mem_order md (j + 1) n m2
      else Inl OutOfBounds)"

text \<open>The loop over the completed operations \<open>i\<close>, a 32-bit counter that starts at \<^verbatim>\<open>head\<close>.\<close>

fun meta_loop :: "bool \<Rightarrow> nat \<Rightarrow> nat \<Rightarrow> vchan_state \<Rightarrow> cells \<Rightarrow> fault + vchan_state \<times> cells" where
  "meta_loop mem_order i 0 v m = Inr (v, m)"
| "meta_loop mem_order i (Suc n) v m =
     (let idx = i mod DAO_DMA_MAX_INFLIGHT_MDATA
      in if idx < length (mdata v) then
           rbind (apply_mdata mem_order (mdata v ! idx) 0 (unat (cnt (mdata v ! idx))) m) (\<lambda>m1.
           meta_loop mem_order (i + 1) n
             (v\<lparr>mdata := (mdata v)[idx := (mdata v ! idx)\<lparr>cnt := 0\<rparr>]\<rparr>) m1)
         else Inl OutOfBounds)"

definition dao_dma_check_meta_compl ::
  "'d dma_ops \<Rightarrow> vchan_state \<Rightarrow> bool \<Rightarrow> cells \<Rightarrow> 'd \<Rightarrow> fault + vchan_state \<times> cells \<times> 'd" where
  "dao_dma_check_meta_compl ops v mem_order m d =
     (case dma_completed ops d (devid v) (vchan v) 128 of (c, has_err, d') \<Rightarrow>
        let (v1, cmpl) = (if has_err then (v\<lparr>dma_compl_errs := dma_compl_errs v + 1\<rparr>, unat c + 1)
                          else (v, unat c))
        in rbind (meta_loop mem_order (unat (head v1)) cmpl v1 m) (\<lambda>(v2, m').
           Inr (v2\<lparr>head := head v2 + of_nat cmpl\<rparr>, m', d')))"

definition dao_dma_update_cmpl_meta ::
  "vchan_state \<Rightarrow> u64 \<Rightarrow> u16 \<Rightarrow> u64 \<Rightarrow> u16 \<Rightarrow> u16 \<Rightarrow> fault + vchan_state" where
  "dao_dma_update_cmpl_meta v p x pp px t =
     (let idx = unat t mod DAO_DMA_MAX_INFLIGHT_MDATA;
          md = mdata v ! idx;
          j = unat (cnt md)
      in if idx < length (mdata v) \<and> j < length (ptr md) \<and> j < length (val md) \<and>
            j < length (pend_ptr md) \<and> j < length (pend_val md) then
           Inr (v\<lparr>mdata := (mdata v)[idx :=
             md\<lparr>ptr := (ptr md)[j := p], val := (val md)[j := x],
                pend_ptr := (pend_ptr md)[j := pp], pend_val := (pend_val md)[j := px],
                cnt := cnt md + 1\<rparr>]\<rparr>)
         else Inl OutOfBounds)"

section \<open>Channels of the lcores\<close>

record vchan_info =
  nb_dev2mem :: u16
  nb_mem2dev :: u16
  dev2mem :: "vchan_state list"
  mem2dev :: "vchan_state list"

text \<open>
  The table \<^verbatim>\<open>vchan_info_p\<close> and the per-lcore variable \<^verbatim>\<open>dao_dma_vchan_info\<close> of an lcore are set together
  and hold the same pointer, so that one map from lcores to the channels holds both.
\<close>

record dma_glob =
  vchan_info_p :: "nat \<Rightarrow> vchan_info option"
  dma_ctrl_dev2mem_id :: int
  dma_ctrl_mem2dev_id :: int

definition zero_sge :: sge where
  "zero_sge = \<lparr>addr = 0, len = 0\<rparr>"

definition zero_mdata :: cmpl_mdata where
  "zero_mdata = \<lparr>pend_ptr = replicate 15 0, pend_val = replicate 15 0, val = replicate 15 0,
     ptr = replicate 15 0, cnt = 0\<rparr>"

definition zero_vchan :: vchan_state where
  "zero_vchan = \<lparr>tail = 0, head = 0, devid = 0, vchan = 0, src_i = 0, dst_i = 0, flush_thr = 0,
     auto_free = False, pend_ops = 0, src = replicate DAO_DMA_MAX_POINTER zero_sge,
     dst = replicate DAO_DMA_MAX_POINTER zero_sge, ptrs = 0, nops = 0, dbells = 0, dma_enq_errs = 0,
     dma_compl_errs = 0, mdata = replicate DAO_DMA_MAX_INFLIGHT_MDATA zero_mdata\<rparr>"

definition zero_info :: vchan_info where
  "zero_info = \<lparr>nb_dev2mem = 0, nb_mem2dev = 0,
     dev2mem = replicate DAO_DMA_MAX_VCHAN_PER_LCORE zero_vchan,
     mem2dev = replicate DAO_DMA_MAX_VCHAN_PER_LCORE zero_vchan\<rparr>"

text \<open>The loop that writes device, channel number and threshold of \<open>n\<close> channels from \<open>base\<close> on.\<close>

primrec set_vchans :: "int \<Rightarrow> u8 \<Rightarrow> nat \<Rightarrow> nat \<Rightarrow> vchan_state list \<Rightarrow> vchan_state list" where
  "set_vchans dev thr base 0 vs = vs"
| "set_vchans dev thr base (Suc i) vs =
     (let vs1 = set_vchans dev thr base i vs
      in vs1[base + i := (vs1 ! (base + i))\<lparr>devid := dev, vchan := of_nat i, flush_thr := thr\<rparr>])"

text \<open>
  \<open>lcore\<close> is \<^verbatim>\<open>rte_lcore_id()\<close> and \<open>zmalloc_ok\<close> says whether \<^verbatim>\<open>rte_zmalloc\<close> finds memory.
\<close>

definition dao_dma_lcore_dev2mem_set ::
  "'d dma_ops \<Rightarrow> 'd \<Rightarrow> nat \<Rightarrow> bool \<Rightarrow> dma_glob \<Rightarrow> int \<Rightarrow> u16 \<Rightarrow> u16 \<Rightarrow> int \<times> dma_glob" where
  "dao_dma_lcore_dev2mem_set ops d lcore zmalloc_ok g dma_devid nb_vchans thr =
     (if \<not> dma_is_valid ops d dma_devid then (- 1, g)
      else let thr = (if thr = 0 then DAO_DMA_MAX_POINTER_THR_DFLT else thr)
      in if unat thr > DAO_DMA_MAX_POINTER then (- 1, g)
      else case (case vchan_info_p g lcore of
                   None \<Rightarrow> if zmalloc_ok
                           then Some (g\<lparr>vchan_info_p := (vchan_info_p g)(lcore := Some zero_info)\<rparr>, zero_info)
                           else None
                 | Some info \<Rightarrow> Some (g, info)) of
             None \<Rightarrow> (- ENOMEM, g)
           | Some (g, info) \<Rightarrow>
               let vchan_idx = unat (nb_dev2mem info)
               in if vchan_idx + unat nb_vchans \<ge> DAO_DMA_MAX_VCHAN_PER_LCORE then (- 1, g)
                  else let info = info\<lparr>dev2mem := set_vchans dma_devid (ucast thr) vchan_idx (unat nb_vchans)
                                                  (dev2mem info),
                                       nb_dev2mem := nb_dev2mem info + nb_vchans\<rparr>
                       in (0, g\<lparr>vchan_info_p := (vchan_info_p g)(lcore := Some info)\<rparr>))"

definition dao_dma_lcore_mem2dev_set ::
  "'d dma_ops \<Rightarrow> 'd \<Rightarrow> nat \<Rightarrow> bool \<Rightarrow> dma_glob \<Rightarrow> int \<Rightarrow> u16 \<Rightarrow> u16 \<Rightarrow> int \<times> dma_glob" where
  "dao_dma_lcore_mem2dev_set ops d lcore zmalloc_ok g dma_devid nb_vchans thr =
     (if \<not> dma_is_valid ops d dma_devid then (- 1, g)
      else let thr = (if thr = 0 then DAO_DMA_MAX_POINTER_THR_DFLT else thr)
      in if unat thr > DAO_DMA_MAX_POINTER then (- 1, g)
      else case (case vchan_info_p g lcore of
                   None \<Rightarrow> if zmalloc_ok
                           then Some (g\<lparr>vchan_info_p := (vchan_info_p g)(lcore := Some zero_info)\<rparr>, zero_info)
                           else None
                 | Some info \<Rightarrow> Some (g, info)) of
             None \<Rightarrow> (- ENOMEM, g)
           | Some (g, info) \<Rightarrow>
               let vchan_idx = unat (nb_mem2dev info)
               in if vchan_idx + unat nb_vchans \<ge> DAO_DMA_MAX_VCHAN_PER_LCORE then (- 1, g)
                  else let info = info\<lparr>mem2dev := set_vchans dma_devid (ucast thr) vchan_idx (unat nb_vchans)
                                                  (mem2dev info),
                                       nb_mem2dev := nb_mem2dev info + nb_vchans\<rparr>
                       in (0, g\<lparr>vchan_info_p := (vchan_info_p g)(lcore := Some info)\<rparr>))"

definition dao_dma_lcore_mem2dev_autofree_set ::
  "nat \<Rightarrow> dma_glob \<Rightarrow> int \<Rightarrow> u16 \<Rightarrow> bool \<Rightarrow> int \<times> dma_glob" where
  "dao_dma_lcore_mem2dev_autofree_set lcore g mem2dev_id vc enable =
     (case vchan_info_p g lcore of
        None \<Rightarrow> (- ENOMEM, g)
      | Some info \<Rightarrow>
          let n = unat (nb_mem2dev info);
              i = first_free (\<lambda>v. devid v = mem2dev_id \<and> ucast (vchan v) = vc) (take n (mem2dev info))
          in if i = n then (- ENOENT, g)
             else let info = info\<lparr>mem2dev := (mem2dev info)[i := (mem2dev info ! i)\<lparr>auto_free := enable\<rparr>]\<rparr>
                  in (0, g\<lparr>vchan_info_p := (vchan_info_p g)(lcore := Some info)\<rparr>))"

definition dao_dma_ctrl_dev_set :: "dma_glob \<Rightarrow> int \<Rightarrow> int \<Rightarrow> int \<times> dma_glob" where
  "dao_dma_ctrl_dev_set g dev2mem_id mem2dev_devid =
     (0, g\<lparr>dma_ctrl_dev2mem_id := dev2mem_id, dma_ctrl_mem2dev_id := mem2dev_devid\<rparr>)"

definition dao_dma_ctrl_dev2mem :: "dma_glob \<Rightarrow> int" where
  "dao_dma_ctrl_dev2mem g = dma_ctrl_dev2mem_id g"

definition dao_dma_ctrl_mem2dev :: "dma_glob \<Rightarrow> int" where
  "dao_dma_ctrl_mem2dev g = dma_ctrl_mem2dev_id g"

record vchan_stats =
  st_ptrs :: u64
  st_ops :: u64
  st_dbells :: u64
  st_enq_errs :: u64

record dma_stats =
  st_nb_dev2mem :: u16
  st_nb_mem2dev :: u16
  st_dev2mem :: "vchan_stats list"
  st_mem2dev :: "vchan_stats list"

definition zero_stats :: vchan_stats where
  "zero_stats = \<lparr>st_ptrs = 0, st_ops = 0, st_dbells = 0, st_enq_errs = 0\<rparr>"

definition stats_of :: "vchan_state \<Rightarrow> vchan_stats" where
  "stats_of v = \<lparr>st_ptrs = ptrs v, st_ops = nops v, st_dbells = dbells v, st_enq_errs = dma_enq_errs v\<rparr>"

definition stats_table :: "nat \<Rightarrow> vchan_state list \<Rightarrow> vchan_stats list" where
  "stats_table n vs = map (\<lambda>i. if i < n then stats_of (vs ! i) else zero_stats)
     [0..<DAO_DMA_MAX_VCHAN_PER_LCORE]"

text \<open>\<open>max_lcore\<close> is the build constant \<^verbatim>\<open>RTE_MAX_LCORE\<close>.\<close>

definition dao_dma_stats_get :: "'d dma_ops \<Rightarrow> nat \<Rightarrow> dma_glob \<Rightarrow> u16 \<Rightarrow> int \<times> dma_stats" where
  "dao_dma_stats_get ops max_lcore g lcore_id =
     (let zero = \<lparr>st_nb_dev2mem = 0, st_nb_mem2dev = 0,
                  st_dev2mem = replicate DAO_DMA_MAX_VCHAN_PER_LCORE zero_stats,
                  st_mem2dev = replicate DAO_DMA_MAX_VCHAN_PER_LCORE zero_stats\<rparr>
      in if \<not> has_stats ops then (0, zero)
         else if unat lcore_id < max_lcore then
           case vchan_info_p g (unat lcore_id) of
             None \<Rightarrow> (- ENOENT, zero)
           | Some info \<Rightarrow>
               (0, \<lparr>st_nb_dev2mem = nb_dev2mem info, st_nb_mem2dev = nb_mem2dev info,
                    st_dev2mem = stats_table (unat (nb_dev2mem info)) (dev2mem info),
                    st_mem2dev = stats_table (unat (nb_mem2dev info)) (mem2dev info)\<rparr>)
         else (- ENOENT, zero))"

definition flush_submit_one :: "'d dma_ops \<Rightarrow> vchan_state \<Rightarrow> 'd \<Rightarrow> vchan_state \<times> 'd" where
  "flush_submit_one ops state d =
     (case dao_dma_flush ops state (of_nat DAO_DMA_MAX_POINTER) d of (_, state, d) \<Rightarrow>
        if pend_ops state \<noteq> 0 then
          let d = dma_submit ops d (devid state) (vchan state);
              state = state\<lparr>pend_ops := 0\<rparr>
          in (if has_stats ops then state\<lparr>dbells := dbells state + 1\<rparr> else state, d)
        else (state, d))"

fun flush_submit_loop :: "'d dma_ops \<Rightarrow> nat \<Rightarrow> vchan_state list \<Rightarrow> 'd \<Rightarrow> vchan_state list \<times> 'd" where
  "flush_submit_loop ops 0 vs d = (vs, d)"
| "flush_submit_loop ops (Suc n) [] d = ([], d)"
| "flush_submit_loop ops (Suc n) (v # vs) d =
     (case flush_submit_one ops v d of (v1, d1) \<Rightarrow>
        case flush_submit_loop ops n vs d1 of (vs1, d2) \<Rightarrow> (v1 # vs1, d2))"

definition dao_dma_flush_submit ::
  "'d dma_ops \<Rightarrow> nat \<Rightarrow> dma_glob \<Rightarrow> 'd \<Rightarrow> fault + int \<times> dma_glob \<times> 'd" where
  "dao_dma_flush_submit ops lcore g d =
     (case vchan_info_p g lcore of
        None \<Rightarrow> Inl WildPointer
      | Some info \<Rightarrow>
          (case flush_submit_loop ops (unat (nb_dev2mem info)) (dev2mem info) d of (dm, d1) \<Rightarrow>
           case flush_submit_loop ops (unat (nb_mem2dev info)) (mem2dev info) d1 of (md, d2) \<Rightarrow>
             Inr (0, g\<lparr>vchan_info_p := (vchan_info_p g)(lcore := Some (info\<lparr>dev2mem := dm, mem2dev := md\<rparr>))\<rparr>, d2)))"

text \<open>\<^verbatim>\<open>while (v->head != v->tail) dao_dma_check_compl(v);\<close>, which returns only if the device makes progress.\<close>

partial_function (option) compl_drain ::
  "'d dma_ops \<Rightarrow> vchan_state \<Rightarrow> 'd \<Rightarrow> (vchan_state \<times> 'd) option" where
  "compl_drain ops v d =
     (if head v = tail v then Some (v, d)
      else case dao_dma_check_compl ops v d of (v1, d1) \<Rightarrow> compl_drain ops v1 d1)"

text \<open>
  One lcore, and all lcores in turn without the disabled ones and the main one.  \<open>None\<close> is a wait that
  does not end; \<open>vc\<close> indexes the channel arrays.
\<close>

definition compl_wait_one ::
  "'d dma_ops \<Rightarrow> nat \<Rightarrow> vchan_info \<Rightarrow> 'd \<Rightarrow> (fault + vchan_info \<times> 'd) option" where
  "compl_wait_one ops vc info d =
     (if vc \<ge> length (dev2mem info) \<or> vc \<ge> length (mem2dev info) then Some (Inl OutOfBounds)
      else case compl_drain ops (dev2mem info ! vc) d of
             None \<Rightarrow> None
           | Some (v, d1) \<Rightarrow>
               (case compl_drain ops (mem2dev info ! vc) d1 of
                  None \<Rightarrow> None
                | Some (w, d2) \<Rightarrow>
                    Some (Inr (info\<lparr>dev2mem := (dev2mem info)[vc := v], mem2dev := (mem2dev info)[vc := w]\<rparr>, d2))))"

fun compl_wait_loop ::
  "'d dma_ops \<Rightarrow> (nat \<Rightarrow> bool) \<Rightarrow> nat \<Rightarrow> nat \<Rightarrow> nat list \<Rightarrow> dma_glob \<Rightarrow> 'd \<Rightarrow>
     (fault + dma_glob \<times> 'd) option" where
  "compl_wait_loop ops enabled main vc [] g d = Some (Inr (g, d))"
| "compl_wait_loop ops enabled main vc (lcore # ls) g d =
     (if \<not> enabled lcore \<or> lcore = main then compl_wait_loop ops enabled main vc ls g d
      else case vchan_info_p g lcore of
             None \<Rightarrow> compl_wait_loop ops enabled main vc ls g d
           | Some info \<Rightarrow>
               (case compl_wait_one ops vc info d of
                  None \<Rightarrow> None
                | Some (Inl e) \<Rightarrow> Some (Inl e)
                | Some (Inr (info, d)) \<Rightarrow>
                    compl_wait_loop ops enabled main vc ls
                      (g\<lparr>vchan_info_p := (vchan_info_p g)(lcore := Some info)\<rparr>) d))"

definition dao_dma_compl_wait ::
  "'d dma_ops \<Rightarrow> (nat \<Rightarrow> bool) \<Rightarrow> nat \<Rightarrow> nat \<Rightarrow> u16 \<Rightarrow> dma_glob \<Rightarrow> 'd \<Rightarrow>
     (fault + dma_glob \<times> 'd) option" where
  "dao_dma_compl_wait ops enabled main max_lcore vc g d =
     compl_wait_loop ops enabled main (unat vc) [0..<max_lcore] g d"

end
