(* ===== verification/Dma_Stream.thy ===== *)
theory Dma_Stream
  imports Dma
begin

text \<open>
  The pointers handed to a channel reach the device in the order they were enqueued, none is lost and
  none is handed over twice, and no enqueue behind a successful flush leaves the pointer arrays.  The
  locale \<open>dma_channel\<close> is the contract the descriptor code relies on.
\<close>

section \<open>Pointers reach the device in order\<close>

text \<open>
  \<open>sent\<close> is what a device state has been given per device and channel.  The documentation of
  \<^verbatim>\<open>rte_dma_copy_sg\<close> says that a non-negative result is an accepted operation and a negative one is not.
\<close>

type_synonym 'd sent = "'d \<Rightarrow> int \<times> u8 \<Rightarrow> (sge \<times> sge) list"

definition copy_laws :: "'d dma_ops \<Rightarrow> 'd sent \<Rightarrow> bool" where
  "copy_laws ops sent \<longleftrightarrow>
     (\<forall>d dev vc s t fl rc d'. dma_copy_sg ops d dev vc s t fl = (rc, d') \<longrightarrow> length s = length t \<longrightarrow>
        sent d' = (if rc < 0 then sent d else (sent d)((dev, vc) := sent d (dev, vc) @ zip s t)))"

definition paired :: "vchan_state \<Rightarrow> bool" where
  "paired v \<longleftrightarrow> length (src v) = DAO_DMA_MAX_POINTER \<and> length (dst v) = DAO_DMA_MAX_POINTER \<and>
     dst_i v = src_i v \<and> unat (src_i v) \<le> unat (flush_thr v) \<and> unat (flush_thr v) \<le> DAO_DMA_MAX_POINTER"

definition pending :: "vchan_state \<Rightarrow> (sge \<times> sge) list" where
  "pending v = zip (take (unat (src_i v)) (src v)) (take (unat (dst_i v)) (dst v))"

definition stream :: "'d sent \<Rightarrow> vchan_state \<Rightarrow> 'd \<Rightarrow> (sge \<times> sge) list" where
  "stream sent v d = sent d (devid v, vchan v) @ pending v"

definition room :: "vchan_state \<Rightarrow> nat" where
  "room v = unat (flush_thr v) - unat (src_i v)"

lemma flush_cases:
  assumes "dao_dma_flush ops v avail d = (ok, v', d')" "paired v" "copy_laws ops sent"
  obtains (skip) "ok" "v' = v" "d' = d" "unat (src_i v) + unat avail \<le> unat (flush_thr v) \<or> src_i v = 0"
  | (fail) "\<not> ok" "sent d' = sent d" "v' = v \<or> v' = v\<lparr>dma_enq_errs := dma_enq_errs v + 1\<rparr>" "src_i v \<noteq> 0"
  | (sent) p n where "ok" "sent d' = (sent d)((devid v, vchan v) := sent d (devid v, vchan v) @ pending v)"
      "v' = v\<lparr>tail := tail v + 1, pend_ops := pend_ops v + 1, ptrs := p, nops := n, src_i := 0, dst_i := 0\<rparr>"
      "src_i v \<noteq> 0"
proof -
  have z: "length (take (unat (src_i v)) (src v)) = length (take (unat (dst_i v)) (dst v))" "dst_i v = src_i v"
    using assms(2) by (simp_all add: paired_def)
  obtain rc d1 where c: "dma_copy_sg ops d (devid v) (vchan v) (take (unat (src_i v)) (src v))
      (take (unat (dst_i v)) (dst v)) (push_bit 3 (of_bool (auto_free v))) = (rc, d1)" by fastforce
  have s: "sent d1 = (if rc < 0 then sent d
      else (sent d)((devid v, vchan v) := sent d (devid v, vchan v) @ pending v))"
    using assms(3) [unfolded copy_laws_def, rule_format, OF c z(1)] unfolding pending_def .
  show thesis
  proof (cases "uint avail \<le> uint (flush_thr v) - uint (src_i v) \<or> src_i v = 0")
    case True
    then have "dao_dma_flush ops v avail d = (True, v, d)" using z(2) by (simp add: dao_dma_flush_def)
    moreover have "unat (src_i v) + unat avail \<le> unat (flush_thr v) \<or> src_i v = 0"
      using True unfolding of_nat_le_iff [where 'a = int, symmetric] by auto
    ultimately show thesis using assms(1) by (intro skip) simp_all
  next
    case False
    define v1 where "v1 = v\<lparr>tail := tail v + 1, pend_ops := pend_ops v + 1,
      ptrs := (if has_stats ops then ptrs v + ucast (src_i v) else ptrs v),
      nops := (if has_stats ops then nops v + 1 else nops v), src_i := 0, dst_i := 0\<rparr>"
    have f: "dao_dma_flush ops v avail d =
      (if rc < 0 then (False, if has_stats ops then v\<lparr>dma_enq_errs := dma_enq_errs v + 1\<rparr> else v, d1)
       else (True, v1, d1))"
      using z(2) c False by (simp add: dao_dma_flush_def Let_def v1_def)
    have "src_i v \<noteq> 0" using False by simp
    then show thesis
    proof (cases "rc < 0")
      case True
      then have "\<not> ok" "d' = d1" "v' = (if has_stats ops then v\<lparr>dma_enq_errs := dma_enq_errs v + 1\<rparr> else v)"
        using f assms(1) by simp_all
      then show thesis using s True \<open>src_i v \<noteq> 0\<close> by (intro fail) simp_all
    next
      case False
      then have "ok" "d' = d1" "v' = v1" using f assms(1) by simp_all
      then show thesis using s False \<open>src_i v \<noteq> 0\<close> v1_def by (intro sent) simp_all
    qed
  qed
qed

lemma flush_ok:
  assumes "paired v" "copy_laws ops sent" "dao_dma_flush ops v avail d = (ok, v', d')"
  shows "paired v' \<and> stream sent v' d' = stream sent v d \<and> flush_thr v' = flush_thr v \<and>
     devid v' = devid v \<and> vchan v' = vchan v"
  using assms(3,1,2) by (rule flush_cases) (use assms(1) in \<open>auto simp: paired_def stream_def pending_def\<close>)

lemma flush_room:
  assumes "paired v" "copy_laws ops sent" "dao_dma_flush ops v avail d = (True, v', d')"
    and "unat avail \<le> unat (flush_thr v)"
  shows "unat avail \<le> room v'"
  using assms(3,1,2) by (rule flush_cases) (use assms in \<open>auto simp: paired_def room_def\<close>)

lemma unat_Suc: "unat (w :: 'a::len word) < 2 ^ LENGTH('a) - 1 \<Longrightarrow> unat (w + 1) = unat w + 1"
  by (simp add: unat_word_ariths mod_less)

lemma enq_x1_ok:
  assumes "paired v" "0 < room v"
  shows "\<exists>v'. dao_dma_enq_x1 v s t = Inr v' \<and> paired v' \<and> room v' = room v - 1 \<and>
     flush_thr v' = flush_thr v \<and> stream sent v' d = stream sent v d @ [(s, t)]"
proof -
  let ?i = "unat (src_i v)"
  let ?v = "v\<lparr>dst := (dst v)[?i := t], src := (src v)[?i := s], src_i := src_i v + 1, dst_i := dst_i v + 1\<rparr>"
  have i: "?i < 15" "dst_i v = src_i v" "length (src v) = 15" "length (dst v) = 15"
    using assms by (auto simp: paired_def room_def DAO_DMA_MAX_POINTER_def)
  have u: "unat (src_i v + 1) = ?i + 1" using i(1) by (intro unat_Suc) simp
  have "dao_dma_enq_x1 v s t = Inr ?v" using i by (simp add: dao_dma_enq_x1_def put_src_def put_dst_def)
  moreover have "paired ?v" using assms i u by (simp add: paired_def room_def DAO_DMA_MAX_POINTER_def)
  moreover have "room ?v = room v - 1" using u by (simp add: room_def)
  moreover have "stream sent ?v d = stream sent v d @ [(s, t)]"
    using i u by (simp add: stream_def pending_def take_Suc_conv_app_nth)
  ultimately show ?thesis by (intro exI [of _ ?v]) simp
qed

definition conv :: "(u64 \<times> u64) \<times> (u64 \<times> u64) \<Rightarrow> sge \<times> sge" where
  "conv p = (sge_of (fst p), sge_of (snd p))"

lemma enq_loop_ok:
  assumes "length (src v) = 15" "length (dst v) = 15" "s + min (nat a) (length ps) \<le> 15"
  shows "\<exists>xs ys. enq_loop v s s a ps = Inr (v\<lparr>src := xs, dst := ys\<rparr>, drop (nat a) ps) \<and>
     length xs = 15 \<and> length ys = 15 \<and>
     (\<forall>k. k = min (nat a) (length ps) \<longrightarrow> zip (take (s + k) xs) (take (s + k) ys) =
        zip (take s (src v)) (take s (dst v)) @ map conv (take k ps))"
  using assms
proof (induction ps arbitrary: v s a)
  case Nil
  then show ?case by (intro exI [of _ "src v"] exI [of _ "dst v"]) simp
next
  case (Cons p ps)
  show ?case
  proof (cases "0 < a")
    case True
    let ?v = "v\<lparr>src := (src v)[s := sge_of (fst p)], dst := (dst v)[s := sge_of (snd p)]\<rparr>"
    have s: "s < 15" "nat a = Suc (nat (a - 1))" using Cons.prems True by auto
    have "enq_loop v s s a (p # ps) = enq_loop ?v (s + 1) (s + 1) (a - 1) ps"
      using True s Cons.prems by (simp add: put_pair_def put_src_def put_dst_def)
    moreover have "length (src ?v) = 15" "length (dst ?v) = 15" "s + 1 + min (nat (a - 1)) (length ps) \<le> 15"
      using Cons.prems s(2) by simp_all
    from Cons.IH [OF this] obtain xs ys where IH: "enq_loop ?v (s + 1) (s + 1) (a - 1) ps = Inr (?v\<lparr>src := xs, dst := ys\<rparr>, drop (nat (a - 1)) ps)"
      "length xs = 15" "length ys = 15" and z: "\<forall>k. k = min (nat (a - 1)) (length ps) \<longrightarrow>
        zip (take (s + 1 + k) xs) (take (s + 1 + k) ys) =
        zip (take (s + 1) (src ?v)) (take (s + 1) (dst ?v)) @ map conv (take k ps)"
      by blast
    moreover have "zip (take (s + 1) (src ?v)) (take (s + 1) (dst ?v)) =
        zip (take s (src v)) (take s (dst v)) @ [conv p]"
      using s(1) Cons.prems(1,2) by (simp add: take_Suc_conv_app_nth conv_def)
    ultimately show ?thesis using s(2)
      by (intro exI [of _ xs] exI [of _ ys]) simp
  next
    case False
    then show ?thesis using Cons.prems by (intro exI [of _ "src v"] exI [of _ "dst v"]) simp
  qed
qed

lemma unat_plus_small: "unat w + n < 2 ^ LENGTH('a) \<Longrightarrow> unat ((w :: 'a::len word) + of_nat n) = unat w + n"
  by (simp add: unat_word_ariths unat_of_nat_small)

lemma enq_loop_stream:
  assumes "paired v" "ps1 = drop (nat a) ps" "nat a \<le> room v" "length ps \<le> 4"
  shows "\<exists>v1 v2. enq_loop v (unat (src_i v)) (unat (dst_i v)) a ps = Inr (v1, ps1) \<and>
     v2 = v1\<lparr>src_i := src_i v + of_nat (length ps - length ps1), dst_i := dst_i v + of_nat (length ps - length ps1)\<rparr> \<and>
     paired v2 \<and> devid v2 = devid v \<and> vchan v2 = vchan v \<and> flush_thr v2 = flush_thr v \<and>
     unat (src_i v2) = unat (src_i v) + (length ps - length ps1) \<and>
     stream sent v2 d = stream sent v d @ map conv (take (length ps - length ps1) ps)"
proof -
  let ?k = "min (nat a) (length ps)"
  have p: "length (src v) = 15" "length (dst v) = 15" "dst_i v = src_i v"
    "unat (src_i v) + room v = unat (flush_thr v)" "unat (flush_thr v) \<le> 15"
    using assms(1) by (simp_all add: paired_def room_def DAO_DMA_MAX_POINTER_def)
  have k: "length ps - length ps1 = ?k" using assms(2) by auto
  have le: "unat (src_i v) + ?k \<le> 15" using p(4,5) assms(3) by (simp add: min_le_iff_disj)
  obtain xs ys where l: "enq_loop v (unat (src_i v)) (unat (src_i v)) a ps = Inr (v\<lparr>src := xs, dst := ys\<rparr>, ps1)"
    "length xs = 15" "length ys = 15" and z: "zip (take (unat (src_i v) + ?k) xs) (take (unat (src_i v) + ?k) ys) =
        zip (take (unat (src_i v)) (src v)) (take (unat (src_i v)) (dst v)) @ map conv (take ?k ps)"
    using enq_loop_ok [OF p(1,2) le] assms(2) by auto
  have u: "unat (src_i v + of_nat ?k) = unat (src_i v) + ?k"
    using p(4,5) assms(4) by (intro unat_plus_small) simp
  let ?v1 = "v\<lparr>src := xs, dst := ys\<rparr>"
  let ?v2 = "?v1\<lparr>src_i := src_i v + of_nat ?k, dst_i := dst_i v + of_nat ?k\<rparr>"
  have "paired ?v2" using u p l assms by (simp add: paired_def DAO_DMA_MAX_POINTER_def room_def)
  moreover have "stream sent ?v2 d = stream sent v d @ map conv (take ?k ps)"
    using z p(3) by (simp add: stream_def pending_def u)
  ultimately show ?thesis unfolding k using l(1) p(3) u
    by (intro exI [of _ ?v1] exI [of _ ?v2]) simp
qed


lemma room_int: "paired v \<Longrightarrow> uint (flush_thr v) - uint (src_i v) = int (room v)"
  by (simp add: paired_def room_def of_nat_diff)

definition accepts :: "'d dma_ops \<Rightarrow> bool" where
  "accepts ops \<longleftrightarrow> (\<forall>d dev vc s t fl. 0 \<le> fst (dma_copy_sg ops d dev vc s t fl))"

lemma accepts_flush: "accepts ops \<Longrightarrow> dao_dma_flush ops v avail d = (ok, v', d') \<Longrightarrow> ok"
  unfolding accepts_def dao_dma_flush_def Let_def
  by (auto split: if_splits prod.splits) (metis fst_conv not_less)+

lemma enq_x4_ok:
  assumes "paired v" "copy_laws ops sent" "length vsrc = 4" "length vdst = 4"
  shows "\<exists>n v' d'. dao_dma_enq_x4 ops v vsrc vdst d = Inr (n, v', d') \<and> n \<le> 4 \<and> paired v' \<and>
     stream sent v' d' = stream sent v d @ map conv (take n (zip vsrc vdst)) \<and>
     (accepts ops \<and> 4 \<le> unat (flush_thr v) \<longrightarrow> n = 4)"
proof -
  let ?ps = "zip vsrc vdst"
  have len: "length ?ps = 4" "zip (take 4 vsrc) (take 4 vdst) = ?ps" using assms(3,4) by simp_all
  note r = room_int [OF assms(1)]
  show ?thesis
  proof (cases "4 \<le> room v")
    case True
    obtain v1 v2 where l: "enq_loop v (unat (src_i v)) (unat (dst_i v)) 4 ?ps = Inr (v1, [])"
      "v2 = v1\<lparr>src_i := src_i v + of_nat (4 - 0), dst_i := dst_i v + of_nat (4 - 0)\<rparr>" "paired v2"
      "stream sent v2 d = stream sent v d @ map conv (take 4 ?ps)"
      using enq_loop_stream [OF assms(1), of "[]" 4 ?ps sent d] True len by auto
    then have "dao_dma_enq_x4 ops v vsrc vdst d = Inr (4, v2, d)"
      using True by (simp add: dao_dma_enq_x4_def r len)
    with l show ?thesis by (intro exI [of _ 4] exI [of _ v2] exI [of _ d]) simp
  next
    case False
    let ?ps1 = "drop (room v) ?ps"
    have k: "length ?ps - length ?ps1 = room v" "4 - length ?ps1 = room v" using False len by simp_all
    obtain v1 v2 where l: "enq_loop v (unat (src_i v)) (unat (dst_i v)) (int (room v)) ?ps = Inr (v1, ?ps1)"
      "v2 = v1\<lparr>src_i := src_i v + of_nat (room v), dst_i := dst_i v + of_nat (room v)\<rparr>" "paired v2"
      "stream sent v2 d = stream sent v d @ map conv (take (room v) ?ps)"
      "unat (src_i v2) = unat (src_i v) + room v" "flush_thr v2 = flush_thr v"
      using enq_loop_stream [OF assms(1), of ?ps1 "int (room v)" ?ps sent d] len unfolding k by auto
    obtain ok v3 d' where f: "dao_dma_flush ops v2 4 d = (ok, v3, d')" by (metis prod_cases3)
    note fo = flush_ok [OF l(3) assms(2) f]
    let ?ps2 = "drop (room v3) ?ps1"
    let ?j = "length ?ps1 - length ?ps2"
    obtain v4 v5 where m: "enq_loop v3 (unat (src_i v3)) (unat (dst_i v3)) (int (room v3)) ?ps1 = Inr (v4, ?ps2)"
      "v5 = v4\<lparr>src_i := src_i v3 + of_nat ?j, dst_i := dst_i v3 + of_nat ?j\<rparr>" "paired v5"
      "stream sent v5 d' = stream sent v3 d' @ map conv (take ?j ?ps1)"
      using enq_loop_stream [of v3 ?ps2 "int (room v3)" ?ps1 sent d'] fo len by auto
    have "dao_dma_enq_x4 ops v vsrc vdst d = Inr (room v + ?j, v5, d')"
    proof -
      have n4: "\<not> 4 \<le> int (room v)" and r3: "uint (flush_thr v3) - uint (src_i v3) = int (room v3)"
        using False fo room_int [of v3] by simp_all
      show ?thesis
        by (simp only: dao_dma_enq_x4_def Let_def r len(2) n4 if_False l(1) rbind_simps prod.case k(2)
            l(2) [symmetric] f r3 m(1) m(2) [symmetric])
    qed
    moreover have "room v + ?j \<le> 4" using False len by auto
    moreover have "stream sent v5 d' = stream sent v d @ map conv (take (room v + ?j) ?ps)"
      using m(4) l(4) fo by (simp add: take_add)
    moreover have "room v + ?j = 4" if "accepts ops" "4 \<le> unat (flush_thr v)"
    proof -
      have "ok" using that(1) f by (rule accepts_flush)
      then have "4 \<le> room v3" using flush_room [of v2 ops sent 4 d v3 d'] l f that(2) assms(2) by simp
      then show ?thesis using len False by auto
    qed
    ultimately show ?thesis using m(3) by blast
  qed
qed


section \<open>The contract of a channel\<close>

text \<open>
  \<open>ok\<close> is the state the operations keep, \<open>cap\<close> the flush threshold, \<open>room\<close> the pointers that still
  fit in front of it, \<open>stream\<close> all pointers handed over so far.
\<close>

locale dma_channel =
  fixes ok :: "'o \<Rightarrow> 'v \<Rightarrow> bool" and cap :: "'v \<Rightarrow> nat" and room :: "'v \<Rightarrow> nat"
    and stream :: "'o \<Rightarrow> 'v \<Rightarrow> 'd \<Rightarrow> (sge \<times> sge) list"
    and flush :: "'o \<Rightarrow> 'v \<Rightarrow> u8 \<Rightarrow> 'd \<Rightarrow> bool \<times> 'v \<times> 'd"
    and enq :: "'v \<Rightarrow> sge \<Rightarrow> sge \<Rightarrow> fault + 'v"
  assumes flush_keeps: "ok dev v \<Longrightarrow> flush dev v k d = (b, v', d') \<Longrightarrow>
      ok dev v' \<and> cap v' = cap v \<and> stream dev v' d' = stream dev v d"
    and flush_room: "ok dev v \<Longrightarrow> flush dev v k d = (True, v', d') \<Longrightarrow> unat k \<le> cap v \<Longrightarrow> unat k \<le> room v'"
    and enq_stores: "ok dev v \<Longrightarrow> 0 < room v \<Longrightarrow>
      \<exists>v'. enq v s t = Inr v' \<and> ok dev v' \<and> cap v' = cap v \<and> room v' = room v - 1 \<and>
        stream dev v' d = stream dev v d @ [(s, t)]"
begin

primrec enq_all :: "(sge \<times> sge) list \<Rightarrow> 'v \<Rightarrow> fault + 'v" where
  "enq_all [] v = Inr v"
| "enq_all (p # ps) v = rbind (enq v (fst p) (snd p)) (enq_all ps)"

lemma enq_all_stores:
  "ok dev v \<Longrightarrow> length ps \<le> room v \<Longrightarrow>
   \<exists>v'. enq_all ps v = Inr v' \<and> ok dev v' \<and> room v' = room v - length ps \<and> stream dev v' d = stream dev v d @ ps"
proof (induction ps arbitrary: v)
  case (Cons p ps)
  then obtain v1 where v1: "enq v (fst p) (snd p) = Inr v1" "ok dev v1" "room v1 = room v - 1"
    "stream dev v1 d = stream dev v d @ [(fst p, snd p)]"
    using enq_stores [of dev v "fst p" "snd p" d] by auto
  moreover have "length ps \<le> room v1" using Cons.prems v1(3) by simp
  ultimately show ?case using Cons.IH [of v1] by auto
qed simp

lemma flush_enq_all:
  assumes "ok dev v" "flush dev v k d = (True, v', d')" "unat k \<le> cap v" "length ps \<le> unat k"
  shows "\<exists>v2. enq_all ps v' = Inr v2 \<and> ok dev v2 \<and> stream dev v2 d' = stream dev v d @ ps"
proof -
  have "ok dev v'" "stream dev v' d' = stream dev v d" using flush_keeps [OF assms(1,2)] by simp_all
  moreover have "length ps \<le> room v'" using flush_room [OF assms(1-3)] assms(4) by simp
  ultimately show ?thesis using enq_all_stores [of dev v' ps d'] by auto
qed

end

definition chan_ok :: "'d dma_ops \<times> 'd sent \<Rightarrow> vchan_state \<Rightarrow> bool" where
  "chan_ok dev v \<longleftrightarrow> copy_laws (fst dev) (snd dev) \<and> paired v"

definition chan_flush :: "'d dma_ops \<times> 'd sent \<Rightarrow> vchan_state \<Rightarrow> u8 \<Rightarrow> 'd \<Rightarrow> bool \<times> vchan_state \<times> 'd" where
  "chan_flush dev = dao_dma_flush (fst dev)"

interpretation chan: dma_channel chan_ok "\<lambda>v. unat (flush_thr v)" room "\<lambda>dev. stream (snd dev)" chan_flush dao_dma_enq_x1
proof unfold_locales
  fix dev :: "'d dma_ops \<times> 'd sent" and v k d b v' d'
  assume "chan_ok dev v" "chan_flush dev v k d = (b, v', d')"
  then show "chan_ok dev v' \<and> unat (flush_thr v') = unat (flush_thr v) \<and> stream (snd dev) v' d' = stream (snd dev) v d"
    using flush_ok [of v "fst dev" "snd dev" k d b v' d'] by (simp add: chan_ok_def chan_flush_def)
next
  fix dev :: "'d dma_ops \<times> 'd sent" and v k d v' d'
  assume "chan_ok dev v" "chan_flush dev v k d = (True, v', d')" "unat k \<le> unat (flush_thr v)"
  then show "unat k \<le> room v'"
    using flush_room [of v "fst dev" "snd dev" k d v' d'] by (simp add: chan_ok_def chan_flush_def)
next
  fix dev :: "'d dma_ops \<times> 'd sent" and v s t d
  assume "chan_ok dev v" "0 < room v"
  then show "\<exists>v'. dao_dma_enq_x1 v s t = Inr v' \<and> chan_ok dev v' \<and> unat (flush_thr v') = unat (flush_thr v) \<and>
      room v' = room v - 1 \<and> stream (snd dev) v' d = stream (snd dev) v d @ [(s, t)]"
    using enq_x1_ok [of v s t "snd dev" d] by (auto simp: chan_ok_def)
qed

text \<open>\<^verbatim>\<open>dao_dma_enq_x1\<close> on a list of pointers.\<close>

primrec dma_enq_list :: "(sge \<times> sge) list \<Rightarrow> vchan_state \<Rightarrow> fault + vchan_state" where
  "dma_enq_list [] v = Inr v"
| "dma_enq_list (p # ps) v = rbind (dao_dma_enq_x1 v (fst p) (snd p)) (dma_enq_list ps)"

lemma dma_enq_list_all: "dma_enq_list ps = chan.enq_all ps"
  by (induction ps) auto

section \<open>Properties\<close>

text \<open>A device that records what it is given, an instance of the laws.\<close>

definition log_dev :: "(int \<times> u8 \<Rightarrow> (sge \<times> sge) list) dma_ops" where
  "log_dev = \<lparr>dma_is_valid = (\<lambda>_ _. True),
     dma_copy_sg = (\<lambda>d dev vc s t fl. (0, d((dev, vc) := d (dev, vc) @ zip s t))),
     dma_submit = (\<lambda>d _ _. d), dma_completed = (\<lambda>d _ _ _. (0, False, d)), has_stats = True\<rparr>"

lemma log_dev_laws: "copy_laws log_dev (\<lambda>d. d)" "accepts log_dev"
  by (simp_all add: copy_laws_def accepts_def log_dev_def)

definition chan8 :: vchan_state where
  "chan8 = zero_vchan\<lparr>flush_thr := 8\<rparr>"

lemma paired_chan8: "paired chan8"
  by (simp add: paired_def chan8_def zero_vchan_def DAO_DMA_MAX_POINTER_def)

text \<open>C2: \<^verbatim>\<open>dao_dma_enq_x4\<close> on a channel whose source and destination indexes agree returns, never leaves the
  pointer arrays, and enqueues the first \<open>n \<le> 4\<close> of its vectors in order behind everything handed over
  before, flushing when the threshold is reached; it enqueues all four when the threshold is at least
  four and the device accepts the operation.\<close>

theorem enq_x4_stream:
  assumes "paired v" and "copy_laws ops sent" and "length vsrc = 4" and "length vdst = 4"
  shows "\<exists>n v' d'. dao_dma_enq_x4 ops v vsrc vdst d = Inr (n, v', d') \<and> n \<le> 4 \<and> paired v' \<and>
     stream sent v' d' = stream sent v d @ map conv (take n (zip vsrc vdst)) \<and>
     (accepts ops \<and> 4 \<le> unat (flush_thr v) \<longrightarrow> n = 4)"
  using assms by (rule enq_x4_ok)

theorem enq_x4_stream_witness:
  "\<exists>v' d'. dao_dma_enq_x4 log_dev chan8 (replicate 4 (1, 2)) (replicate 4 (3, 4)) (\<lambda>_. []) = Inr (4, v', d') \<and>
     length (stream (\<lambda>d. d) v' d') = 4"
proof -
  have "length (stream (\<lambda>d. d) chan8 (\<lambda>_. [])) = 0"
    by (simp add: stream_def pending_def chan8_def zero_vchan_def)
  then show ?thesis
    using enq_x4_stream [OF paired_chan8 log_dev_laws(1), of "replicate 4 (1, 2)" "replicate 4 (3, 4)" "\<lambda>_. []"]
      log_dev_laws(2) by (fastforce simp: chan8_def)
qed

text \<open>C12: behind a successful \<^verbatim>\<open>dao_dma_flush\<close> for \<open>k\<close> pointers, \<open>k\<close> at most the threshold, up to \<open>k\<close> calls of
  \<^verbatim>\<open>dao_dma_enq_x1\<close> succeed without leaving the arrays, and the device gets everything in order.\<close>

theorem flush_then_enq:
  assumes "paired v" and "copy_laws ops sent" and "dao_dma_flush ops v k d = (True, v', d')"
    and "unat k \<le> unat (flush_thr v)" and "length ps \<le> unat k"
  shows "\<exists>v2. dma_enq_list ps v' = Inr v2 \<and> paired v2 \<and> stream sent v2 d' = stream sent v d @ ps"
  using chan.flush_enq_all [of "(ops, sent)" v k d v' d' ps] assms by (auto simp: chan_ok_def chan_flush_def dma_enq_list_all)

theorem flush_then_enq_witness:
  "\<exists>v2. dma_enq_list [(zero_sge, zero_sge)] chan8 = Inr v2 \<and> stream (\<lambda>d. d) v2 (\<lambda>_. []) = [(zero_sge, zero_sge)]"
proof -
  have "dao_dma_flush log_dev chan8 1 (\<lambda>_. []) = (True, chan8, \<lambda>_. [])" "unat (flush_thr chan8) = 8"
    "stream (\<lambda>d. d) chan8 (\<lambda>_. []) = []"
    by (simp_all add: dao_dma_flush_def chan8_def zero_vchan_def stream_def pending_def)
  then show ?thesis
    using flush_then_enq [OF paired_chan8 log_dev_laws(1), of 1 "\<lambda>_. []" chan8 "\<lambda>_. []" "[(zero_sge, zero_sge)]"]
    by fastforce
qed

end
