(* ===== verification/Dma_Compl.thy ===== *)
theory Dma_Compl
  imports Dma
begin

text \<open>
  Completions of a channel: the window of operations in flight, waiting for it to drain, the meta data
  applied when operations complete, and the channel tables of the lcores.
\<close>

section \<open>The window of operations in flight\<close>

lemma cyclic_window:
  fixes x h t :: "'a::len word"
  shows "unat (x - h) < unat (t - h) \<longleftrightarrow> (if h \<le> t then h \<le> x \<and> x < t else h \<le> x \<or> x < t)"
proof -
  have d: "unat (y - h) = (if h \<le> y then unat y - unat h else unat y + 2 ^ LENGTH('a) - unat h)"
    for y :: "'a word"
    by (simp add: unat_sub_if' word_le_nat_alt)
  obtain N :: nat where N: "2 ^ LENGTH('a) = N" "unat x < N" "unat h < N" "unat t < N"
    using unat_less_length [of x] unat_less_length [of h] unat_less_length [of t] by blast
  show ?thesis unfolding d N(1) word_le_nat_alt word_less_nat_alt using N(2-4) by auto
qed

lemma op_status_window:
  "dao_dma_op_status v i \<longleftrightarrow>
     \<not> (unat (i - head v) < unat (tail v - head v)) \<and> \<not> (src_i v \<noteq> 0 \<and> i = tail v)"
  unfolding cyclic_window by (auto simp: dao_dma_op_status_def not_le not_less)


section \<open>Waiting for completions\<close>

text \<open>
  What \<^verbatim>\<open>rte_dma_completed\<close> promises for a channel with \<open>inflight\<close> operations: it reports at most those,
  the ones it reports are no longer in flight, a failed one is reported by the error flag and counts as
  one more, and a device that reports nothing has come closer to reporting something: \<open>latency\<close> bounds
  the number of empty reports in a row.
\<close>

definition compl_laws :: "'d dma_ops \<Rightarrow> ('d \<Rightarrow> int \<times> u8 \<Rightarrow> nat) \<Rightarrow> ('d \<Rightarrow> int \<times> u8 \<Rightarrow> nat) \<Rightarrow> bool" where
  "compl_laws ops inflight latency \<longleftrightarrow>
     (\<forall>d dev vc n c err d'. dma_completed ops d dev vc n = (c, err, d') \<longrightarrow>
        unat c + of_bool err \<le> inflight d (dev, vc) \<and>
        inflight d' (dev, vc) = inflight d (dev, vc) - (unat c + of_bool err) \<and>
        (0 < inflight d (dev, vc) \<and> unat c + of_bool err = 0 \<longrightarrow> latency d' (dev, vc) < latency d (dev, vc)))"

lemma check_compl_step:
  assumes "compl_laws ops inflight latency" "dao_dma_check_compl ops v d = (v', d')"
    and "inflight d (devid v, vchan v) = unat (tail v - head v)"
  shows "devid v' = devid v \<and> vchan v' = vchan v \<and> tail v' = tail v \<and>
    inflight d' (devid v, vchan v) = unat (tail v' - head v') \<and>
    (inflight d' (devid v, vchan v) < inflight d (devid v, vchan v) \<or>
     inflight d' (devid v, vchan v) = inflight d (devid v, vchan v) \<and>
     (head v \<noteq> tail v \<longrightarrow> latency d' (devid v, vchan v) < latency d (devid v, vchan v)))"
proof -
  obtain c err d1 where c: "dma_completed ops d (devid v) (vchan v) 128 = (c, err, d1)"
    by (metis prod_cases3)
  let ?n = "unat c + of_bool err"
  have h: "d' = d1" "head v' = head v + of_nat ?n" "devid v' = devid v" "vchan v' = vchan v" "tail v' = tail v"
    using assms(2) c by (auto simp: dao_dma_check_compl_def split: if_splits)
  from assms(1) c have l: "?n \<le> unat (tail v - head v)"
    "inflight d1 (devid v, vchan v) = unat (tail v - head v) - ?n"
    "0 < unat (tail v - head v) \<and> ?n = 0 \<longrightarrow> latency d1 (devid v, vchan v) < latency d (devid v, vchan v)"
    unfolding compl_laws_def assms(3) [symmetric] by blast+
  have "?n < 65536" using l(1) unat_less_length [of "tail v - head v"] by simp
  then have "unat (of_nat ?n :: u16) = ?n" by (intro unat_of_nat_small) simp
  then have "unat (tail v - head v - of_nat ?n) = unat (tail v - head v) - ?n"
    using l(1) by (simp add: unat_sub word_le_nat_alt)
  then have "unat (tail v' - head v') = unat (tail v - head v) - ?n" using h by (simp add: algebra_simps)
  moreover have "0 < unat (tail v - head v)" if "head v \<noteq> tail v"
    using that by (simp add: unat_gt_0)
  ultimately show ?thesis using h l assms(3) by auto
qed

lemma compl_drain_ends:
  assumes "compl_laws ops inflight latency"
    and "inflight d (devid v, vchan v) = unat (tail v - head v)"
  shows "\<exists>v' d'. compl_drain ops v d = Some (v', d') \<and> head v' = tail v \<and> tail v' = tail v \<and>
    devid v' = devid v \<and> vchan v' = vchan v \<and> inflight d' (devid v, vchan v) = 0"
  using assms(2)
proof (induction "(inflight d (devid v, vchan v), latency d (devid v, vchan v))" arbitrary: v d
    rule: wf_induct_rule [OF wf_lex_prod [OF wf_less_than wf_less_than]])
  case (1 v d)
  show ?case
  proof (cases "head v = tail v")
    case True
    then show ?thesis using 1(2) by (simp add: compl_drain.simps [of ops v d])
  next
    case False
    obtain v1 d1 where c: "dao_dma_check_compl ops v d = (v1, d1)" by fastforce
    note st = check_compl_step [OF assms(1) c 1(2)]
    have "\<exists>v' d'. compl_drain ops v1 d1 = Some (v', d') \<and> head v' = tail v1 \<and> tail v' = tail v1 \<and>
      devid v' = devid v1 \<and> vchan v' = vchan v1 \<and> inflight d' (devid v1, vchan v1) = 0"
      using st False by (intro 1(1)) auto
    then show ?thesis using st c False by (simp add: compl_drain.simps [of ops v d])
  qed
qed

section \<open>Meta data of completed operations\<close>

definition mdata_ok :: "cmpl_mdata \<Rightarrow> bool" where
  "mdata_ok md \<longleftrightarrow> length (ptr md) = 15 \<and> length (val md) = 15 \<and> length (pend_ptr md) = 15 \<and>
     length (pend_val md) = 15 \<and> unat (cnt md) \<le> 15"

definition entry_effect :: "cmpl_mdata \<Rightarrow> nat \<Rightarrow> cells \<Rightarrow> cells" where
  "entry_effect md j m =
     (let m1 = m(ptr md ! j := val md ! j) in m1(pend_ptr md ! j := m1 (pend_ptr md ! j) - pend_val md ! j))"

definition mdata_effect :: "cmpl_mdata \<Rightarrow> cells \<Rightarrow> cells" where
  "mdata_effect md = fold (entry_effect md) [0..<unat (cnt md)]"

definition entry :: "vchan_state \<Rightarrow> nat \<Rightarrow> cmpl_mdata" where
  "entry v i = mdata v ! (i mod DAO_DMA_MAX_INFLIGHT_MDATA)"

definition all_mdata_ok :: "vchan_state \<Rightarrow> bool" where
  "all_mdata_ok v \<longleftrightarrow> length (mdata v) = DAO_DMA_MAX_INFLIGHT_MDATA \<and> (\<forall>md \<in> set (mdata v). mdata_ok md)"

lemma apply_mdata_effect:
  assumes "mdata_ok md" "j + n \<le> 15"
  shows "apply_mdata mo md j n m = Inr (fold (entry_effect md) [j..<j + n] m)"
  using assms(2)
proof (induction n arbitrary: j m)
  case (Suc n)
  have "[j..<j + Suc n] = j # [Suc j..<Suc j + n]" using upt_conv_Cons [of j "j + Suc n"] by simp
  moreover have "apply_mdata mo md j (Suc n) m = apply_mdata mo md (Suc j) n (entry_effect md j m)"
    using assms(1) Suc.prems by (simp add: mdata_ok_def entry_effect_def store_cell_def Let_def)
  ultimately show ?case using Suc.IH [of "Suc j"] Suc.prems by (simp del: upt_Suc apply_mdata.simps)
qed simp

lemma mod_window_neq:
  fixes i k N :: nat
  assumes "i < k" "k < i + N"
  shows "i mod N \<noteq> k mod N"
  using assms mod_eq_dvd_iff_nat [of i k N] nat_dvd_not_less [of "k - i" N] by auto

lemma all_mdata_ok_entry: "all_mdata_ok v \<Longrightarrow> mdata_ok (entry v i)"
  by (simp add: all_mdata_ok_def entry_def DAO_DMA_MAX_INFLIGHT_MDATA_def)

definition clear_entry :: "vchan_state \<Rightarrow> nat \<Rightarrow> vchan_state" where
  "clear_entry v i = v\<lparr>mdata := (mdata v)[i mod DAO_DMA_MAX_INFLIGHT_MDATA := (entry v i)\<lparr>cnt := 0\<rparr>]\<rparr>"

lemma clear_entry_ok: "all_mdata_ok v \<Longrightarrow> all_mdata_ok (clear_entry v i)"
proof -
  assume v: "all_mdata_ok v"
  have "mdata_ok ((entry v i)\<lparr>cnt := 0\<rparr>)" using all_mdata_ok_entry [OF v, of i] by (simp add: mdata_ok_def)
  then show ?thesis using v set_update_subset_insert [of "mdata v"]
    unfolding all_mdata_ok_def clear_entry_def by auto
qed

lemma entry_clear_entry:
  assumes "all_mdata_ok v"
  shows "entry (clear_entry v i) k =
    (if k mod DAO_DMA_MAX_INFLIGHT_MDATA = i mod DAO_DMA_MAX_INFLIGHT_MDATA then (entry v k)\<lparr>cnt := 0\<rparr> else entry v k)"
  using assms by (simp add: entry_def clear_entry_def all_mdata_ok_def DAO_DMA_MAX_INFLIGHT_MDATA_def nth_list_update)

lemma meta_loop_effect:
  assumes "all_mdata_ok v" "n \<le> DAO_DMA_MAX_INFLIGHT_MDATA"
  shows "meta_loop mo i n v m =
    Inr (fold (\<lambda>k v. clear_entry v k) [i..<i + n] v, fold mdata_effect (map (entry v) [i..<i + n]) m)"
  using assms
proof (induction n arbitrary: i v m)
  case (Suc n)
  let ?N = DAO_DMA_MAX_INFLIGHT_MDATA and ?v = "clear_entry v i"
  have split: "[i..<i + Suc n] = i # [Suc i..<Suc i + n]" using upt_conv_Cons [of i "i + Suc n"] by simp
  have "apply_mdata mo (entry v i) 0 (unat (cnt (entry v i))) m = Inr (mdata_effect (entry v i) m)"
    using all_mdata_ok_entry [OF Suc.prems(1), of i]
    by (subst apply_mdata_effect) (simp_all add: mdata_ok_def mdata_effect_def)
  moreover have "i mod ?N < length (mdata v)"
    using Suc.prems(1) by (simp add: all_mdata_ok_def DAO_DMA_MAX_INFLIGHT_MDATA_def)
  ultimately have step: "meta_loop mo i (Suc n) v m = meta_loop mo (i + 1) n ?v (mdata_effect (entry v i) m)"
    by (simp add: Let_def entry_def clear_entry_def)
  have "entry ?v k = entry v k" if "k \<in> set [Suc i..<Suc i + n]" for k
  proof -
    have "i < k" "k < i + ?N" using that Suc.prems(2) by (simp_all del: upt_Suc)
    from mod_window_neq [OF this] show ?thesis using entry_clear_entry [OF Suc.prems(1), of i k] by auto
  qed
  then have map: "map (entry ?v) [Suc i..<Suc i + n] = map (entry v) [Suc i..<Suc i + n]" by (intro map_cong refl)
  have "meta_loop mo (Suc i) n ?v (mdata_effect (entry v i) m) =
    Inr (fold (\<lambda>k v. clear_entry v k) [Suc i..<Suc i + n] ?v,
      fold mdata_effect (map (entry ?v) [Suc i..<Suc i + n]) (mdata_effect (entry v i) m))"
    using Suc.prems clear_entry_ok [OF Suc.prems(1), of i] by (intro Suc.IH) simp_all
  then show ?case unfolding split step map by (simp del: upt_Suc)
qed simp


lemma fold_clear:
  "all_mdata_ok v \<Longrightarrow> all_mdata_ok (fold (\<lambda>k v. clear_entry v k) ks v) \<and>
     head (fold (\<lambda>k v. clear_entry v k) ks v) = head v \<and> tail (fold (\<lambda>k v. clear_entry v k) ks v) = tail v \<and>
     (\<forall>i. entry (fold (\<lambda>k v. clear_entry v k) ks v) i =
        (if \<exists>k \<in> set ks. i mod DAO_DMA_MAX_INFLIGHT_MDATA = k mod DAO_DMA_MAX_INFLIGHT_MDATA
         then (entry v i)\<lparr>cnt := 0\<rparr> else entry v i))"
proof (induction ks arbitrary: v)
  case (Cons k ks)
  have "head (clear_entry v k) = head v" "tail (clear_entry v k) = tail v" by (simp_all add: clear_entry_def)
  then show ?case using Cons.IH [of "clear_entry v k"] clear_entry_ok [OF Cons.prems, of k]
    by (auto simp: entry_clear_entry [OF Cons.prems])
qed simp

lemma check_meta_effect:
  assumes "all_mdata_ok v" and "dma_completed ops d (devid v) (vchan v) 128 = (c, err, d')"
    and "n = unat c + of_bool err" and "n \<le> DAO_DMA_MAX_INFLIGHT_MDATA"
  shows "\<exists>v'. dao_dma_check_meta_compl ops v mo m d =
      Inr (v', fold mdata_effect (map (entry v) [unat (head v)..<unat (head v) + n]) m, d') \<and>
    head v' = head v + of_nat n \<and> tail v' = tail v \<and> all_mdata_ok v' \<and>
    (\<forall>i. entry v' i =
       (if \<exists>k \<in> {unat (head v)..<unat (head v) + n}. i mod DAO_DMA_MAX_INFLIGHT_MDATA = k mod DAO_DMA_MAX_INFLIGHT_MDATA
        then (entry v i)\<lparr>cnt := 0\<rparr> else entry v i))"
proof -
  define v1 where "v1 = (if err then v\<lparr>dma_compl_errs := dma_compl_errs v + 1\<rparr> else v)"
  have v1: "head v1 = head v" "tail v1 = tail v" "all_mdata_ok v1" "entry v1 = entry v"
    using assms(1) by (auto simp: v1_def all_mdata_ok_def entry_def)
  let ?ks = "[unat (head v)..<unat (head v) + n]"
  let ?v2 = "fold (\<lambda>k v. clear_entry v k) ?ks v1"
  let ?v3 = "?v2\<lparr>head := head ?v2 + of_nat n\<rparr>"
  have "meta_loop mo (unat (head v1)) n v1 m = Inr (?v2, fold mdata_effect (map (entry v) ?ks) m)"
    using meta_loop_effect [OF v1(3) assms(4), of mo "unat (head v)" m] by (simp add: v1)
  then have "dao_dma_check_meta_compl ops v mo m d = Inr (?v3, fold mdata_effect (map (entry v) ?ks) m, d')"
    using assms(2,3) by (cases err) (simp_all add: dao_dma_check_meta_compl_def v1_def Let_def)
  moreover note fold_clear [OF v1(3), of ?ks, unfolded v1(4)]
  moreover have "entry ?v3 = entry ?v2" "all_mdata_ok ?v3 = all_mdata_ok ?v2"
    by (simp_all add: entry_def all_mdata_ok_def fun_eq_iff)
  ultimately show ?thesis using v1 by (intro exI [of _ ?v3]) simp
qed

lemma update_meta:
  assumes "all_mdata_ok v" "cnt (entry v (unat t)) = 0" "dao_dma_update_cmpl_meta v p x pp px t = Inr v1"
  shows "all_mdata_ok v1" "mdata_effect (entry v1 (unat t)) m = (m(p := x))(pp := (m(p := x)) pp - px)"
    "head v1 = head v" "devid v1 = devid v" "vchan v1 = vchan v"
proof -
  let ?i = "unat t mod DAO_DMA_MAX_INFLIGHT_MDATA" and ?md = "entry v (unat t)"
  let ?md1 = "?md\<lparr>ptr := (ptr ?md)[0 := p], val := (val ?md)[0 := x], pend_ptr := (pend_ptr ?md)[0 := pp],
    pend_val := (pend_val ?md)[0 := px], cnt := 1\<rparr>"
  have md: "mdata_ok ?md" using assms(1) by (rule all_mdata_ok_entry)
  have i: "?i < length (mdata v)" using assms(1) by (simp add: all_mdata_ok_def DAO_DMA_MAX_INFLIGHT_MDATA_def)
  have v1: "v1 = v\<lparr>mdata := (mdata v)[?i := ?md1]\<rparr>"
    using assms(2,3) md i by (simp add: dao_dma_update_cmpl_meta_def Let_def entry_def mdata_ok_def split: if_splits)
  have "mdata_ok ?md1" using md by (simp add: mdata_ok_def)
  then show "all_mdata_ok v1" using assms(1) set_update_subset_insert [of "mdata v"]
    unfolding v1 all_mdata_ok_def by auto
  have "entry v1 (unat t) = ?md1" using i by (simp add: v1 entry_def)
  then show "mdata_effect (entry v1 (unat t)) m = (m(p := x))(pp := (m(p := x)) pp - px)"
    using md by (simp add: mdata_effect_def entry_effect_def mdata_ok_def)
  show "head v1 = head v" "devid v1 = devid v" "vchan v1 = vchan v" by (simp_all add: v1)
qed

section \<open>Properties\<close>

text \<open>\<^verbatim>\<open>dao_dma_op_status\<close> reports an operation as done exactly when it is not one of the operations from
  head to tail, counted modulo \<open>2 ^ 16\<close>, and not the operation whose pointers are still being gathered.\<close>

theorem op_status_complete:
  "dao_dma_op_status v i \<longleftrightarrow>
     \<not> (unat (i - head v) < unat (tail v - head v)) \<and> \<not> (src_i v \<noteq> 0 \<and> i = tail v)"
  by (rule op_status_window)

text \<open>C31: when the device keeps its promises, waiting for a channel (the loop of \<^verbatim>\<open>dao_dma_compl_wait\<close>) ends
  with head at the tail and nothing in flight.\<close>

theorem drain_ends:
  assumes "compl_laws ops inflight latency"
    and "inflight d (devid v, vchan v) = unat (tail v - head v)"
  shows "\<exists>v' d'. compl_drain ops v d = Some (v', d') \<and> head v' = tail v \<and> tail v' = tail v \<and>
    inflight d' (devid v, vchan v) = 0"
  using compl_drain_ends [OF assms] by blast

text \<open>A device with one channel that completes one operation per call, and some calls report nothing.\<close>

definition slow_dev :: "(nat \<times> bool) dma_ops" where
  "slow_dev = \<lparr>dma_is_valid = (\<lambda>_ _. True), dma_copy_sg = (\<lambda>(n, b) _ _ _ _ _. (0, (n + 1, b))),
     dma_submit = (\<lambda>d _ _. d),
     dma_completed = (\<lambda>(n, b) _ _ _. if b \<or> n = 0 then (0, False, (n, False)) else (1, False, (n - 1, True))),
     has_stats = False\<rparr>"

lemma slow_dev_laws: "compl_laws slow_dev (\<lambda>d _. fst d) (\<lambda>d _. of_bool (snd d))"
  by (auto simp: compl_laws_def slow_dev_def split: if_splits)

theorem drain_ends_witness:
  "\<exists>v' d'. compl_drain slow_dev (zero_vchan\<lparr>tail := 1, head := 65534\<rparr>) (3, True) = Some (v', d') \<and>
     head v' = 1 \<and> fst d' = 0"
  using drain_ends [OF slow_dev_laws, of "(3, True)" "zero_vchan\<lparr>tail := 1, head := 65534\<rparr>"] by auto

text \<open>C30: when up to 4096 operations complete, \<^verbatim>\<open>dao_dma_check_meta_compl\<close> applies the recorded stores of
  each of them once and in order, empties their records and no others, and moves the head past them.\<close>

theorem meta_compl_applies:
  assumes "all_mdata_ok v" and "dma_completed ops d (devid v) (vchan v) 128 = (c, err, d')"
    and "n = unat c + of_bool err" and "n \<le> DAO_DMA_MAX_INFLIGHT_MDATA"
  shows "\<exists>v'. dao_dma_check_meta_compl ops v mo m d =
      Inr (v', fold mdata_effect (map (entry v) [unat (head v)..<unat (head v) + n]) m, d') \<and>
    head v' = head v + of_nat n \<and> tail v' = tail v \<and> all_mdata_ok v' \<and>
    (\<forall>i. entry v' i =
       (if \<exists>k \<in> {unat (head v)..<unat (head v) + n}. i mod DAO_DMA_MAX_INFLIGHT_MDATA = k mod DAO_DMA_MAX_INFLIGHT_MDATA
        then (entry v i)\<lparr>cnt := 0\<rparr> else entry v i))"
  using assms by (rule check_meta_effect)

lemma zero_vchan_mdata: "all_mdata_ok zero_vchan" "entry zero_vchan i = zero_mdata"
  by (simp_all add: all_mdata_ok_def entry_def zero_vchan_def DAO_DMA_MAX_INFLIGHT_MDATA_def zero_mdata_def mdata_ok_def)

theorem meta_compl_applies_witness:
  "\<exists>v'. dao_dma_check_meta_compl slow_dev (zero_vchan\<lparr>tail := 1\<rparr>) False (\<lambda>_. 5) (1, False) =
      Inr (v', (\<lambda>_. 5), (0, True)) \<and> head v' = 1"
proof -
  let ?v = "zero_vchan\<lparr>tail := 1\<rparr>"
  have "all_mdata_ok ?v" "entry ?v = (\<lambda>_. zero_mdata)" using zero_vchan_mdata by (auto simp: all_mdata_ok_def entry_def)
  moreover have "dma_completed slow_dev (1, False) (devid ?v) (vchan ?v) 128 = (1, False, (0, True))" "head ?v = 0"
    by (simp_all add: slow_dev_def zero_vchan_def)
  moreover have "mdata_effect zero_mdata m = m" for m by (simp add: mdata_effect_def zero_mdata_def)
  ultimately show ?thesis
    using meta_compl_applies [of ?v slow_dev "(1, False)" 1 False "(0, True)" 1 False "\<lambda>_. 5"]
    by (auto simp: DAO_DMA_MAX_INFLIGHT_MDATA_def)
qed

text \<open>a store recorded with \<^verbatim>\<open>dao_dma_update_cmpl_meta\<close> for the operation at the head is performed when that
  operation completes, and not before: the cell gets the recorded value, the pending counter goes down by
  the recorded amount, and no other cell changes.\<close>

theorem meta_store_deferred:
  assumes "all_mdata_ok v" and "cnt (entry v (unat (head v))) = 0"
    and "dao_dma_update_cmpl_meta v p x pp px (head v) = Inr v1" and "p \<noteq> pp"
    and "dma_completed ops d (devid v) (vchan v) 128 = (1, False, d')"
  shows "\<exists>v2. dao_dma_check_meta_compl ops v1 mo m d = Inr (v2, m(p := x, pp := m pp - px), d') \<and>
    head v2 = head v + 1 \<and> cnt (entry v2 (unat (head v))) = 0"
proof -
  note u = update_meta [OF assms(1-3)]
  have c: "dma_completed ops d (devid v1) (vchan v1) 128 = (1, False, d')" using assms(5) u by simp
  have "[unat (head v1)..<unat (head v1) + 1] = [unat (head v)]" using u(3) by simp
  with check_meta_effect [OF u(1) c, of 1 mo m] show ?thesis
    using u(2) [of m] u(3) assms(4) by (auto simp: DAO_DMA_MAX_INFLIGHT_MDATA_def)
qed

theorem meta_store_deferred_witness:
  "\<exists>v1 v2. dao_dma_update_cmpl_meta (zero_vchan\<lparr>tail := 1\<rparr>) 100 7 200 3 0 = Inr v1 \<and>
     dao_dma_check_meta_compl slow_dev v1 True (\<lambda>_. 5) (1, False) = Inr (v2, (\<lambda>_. 5)(100 := 7, 200 := 2), (0, True))"
proof -
  let ?v = "zero_vchan\<lparr>tail := 1\<rparr>"
  have v: "all_mdata_ok ?v" "entry ?v = (\<lambda>_. zero_mdata)" using zero_vchan_mdata by (auto simp: all_mdata_ok_def entry_def)
  have c: "dma_completed slow_dev (1, False) (devid ?v) (vchan ?v) 128 = (1, False, (0, True))" "head ?v = 0"
    by (simp_all add: slow_dev_def zero_vchan_def)
  obtain v1 where "dao_dma_update_cmpl_meta ?v 100 7 200 3 (head ?v) = Inr v1"
    using v by (simp add: dao_dma_update_cmpl_meta_def entry_def all_mdata_ok_def zero_mdata_def
        DAO_DMA_MAX_INFLIGHT_MDATA_def Let_def fun_eq_iff)
  with meta_store_deferred [OF v(1) _ this _ c(1), of True "\<lambda>_. 5"] v(2) c(2) show ?thesis
    by (auto simp: zero_mdata_def)
qed

end
