(* ===== verification/Dma_Lcore.thy ===== *)
theory Dma_Lcore
  imports Dma_Stream
begin

text \<open>
  The channel tables of the lcores (\<^verbatim>\<open>lib/common/dma.c\<close>): assigning a device to an lcore keeps the tables
  within bounds, and flushing an lcore leaves nothing behind in its channels.
\<close>

definition chan_set :: "vchan_state \<Rightarrow> bool" where
  "chan_set v \<longleftrightarrow> 0 < unat (flush_thr v) \<and> paired v"

definition table_ok :: "u16 \<Rightarrow> vchan_state list \<Rightarrow> bool" where
  "table_ok nb vs \<longleftrightarrow> length vs = DAO_DMA_MAX_VCHAN_PER_LCORE \<and> unat nb < DAO_DMA_MAX_VCHAN_PER_LCORE \<and>
     (\<forall>i < unat nb. chan_set (vs ! i)) \<and> (\<forall>i < DAO_DMA_MAX_VCHAN_PER_LCORE. unat nb \<le> i \<longrightarrow> vs ! i = zero_vchan)"

definition glob_ok :: "dma_glob \<Rightarrow> bool" where
  "glob_ok g \<longleftrightarrow> (\<forall>l info. vchan_info_p g l = Some info \<longrightarrow>
     table_ok (nb_dev2mem info) (dev2mem info) \<and> table_ok (nb_mem2dev info) (mem2dev info))"

definition info_of :: "dma_glob \<Rightarrow> nat \<Rightarrow> vchan_info" where
  "info_of g l = (case vchan_info_p g l of None \<Rightarrow> zero_info | Some info \<Rightarrow> info)"

lemma set_vchans_nth:
  "base + n \<le> length vs \<Longrightarrow> length (set_vchans dev thr base n vs) = length vs \<and>
   (\<forall>i < length vs. set_vchans dev thr base n vs ! i =
      (if base \<le> i \<and> i < base + n
       then (vs ! i)\<lparr>devid := dev, vchan := of_nat (i - base), flush_thr := thr\<rparr> else vs ! i))"
proof (induction n)
  case (Suc n)
  then show ?case by (auto simp: Let_def nth_list_update less_Suc_eq)
qed auto

lemma zero_info_ok: "table_ok 0 (dev2mem zero_info)" "table_ok 0 (mem2dev zero_info)"
  "nb_dev2mem zero_info = 0" "nb_mem2dev zero_info = 0"
  by (simp_all add: table_ok_def zero_info_def DAO_DMA_MAX_VCHAN_PER_LCORE_def)

lemma info_of_ok:
  "glob_ok g \<Longrightarrow> table_ok (nb_dev2mem (info_of g l)) (dev2mem (info_of g l)) \<and>
     table_ok (nb_mem2dev (info_of g l)) (mem2dev (info_of g l))"
  using zero_info_ok by (auto simp: info_of_def glob_ok_def split: option.splits)

lemma set_vchans_table:
  assumes t: "table_ok nb vs" and n: "unat nb + unat m < DAO_DMA_MAX_VCHAN_PER_LCORE"
    and thr: "0 < unat thr" "unat thr \<le> 15"
  shows "table_ok (nb + m) (set_vchans dev thr (unat nb) (unat m) vs)"
    and "unat (nb + m) = unat nb + unat m"
proof -
  show u: "unat (nb + m) = unat nb + unat m"
    using n by (simp add: unat_word_ariths DAO_DMA_MAX_VCHAN_PER_LCORE_def)
  have len: "unat nb + unat m \<le> length vs" using t n by (simp add: table_ok_def)
  note nth = set_vchans_nth [OF len, of dev thr]
  have "chan_set (zero_vchan\<lparr>devid := dev, vchan := c, flush_thr := thr\<rparr>)" for c
    using thr by (simp add: chan_set_def paired_def zero_vchan_def DAO_DMA_MAX_POINTER_def)
  then show "table_ok (nb + m) (set_vchans dev thr (unat nb) (unat m) vs)"
    using t n nth unfolding table_ok_def u by auto
qed


lemma dev2mem_set_ok:
  assumes "dao_dma_lcore_dev2mem_set ops d l mok g dev n thr = (0, g')"
  defines "info \<equiv> info_of g l"
  defines "t \<equiv> (if thr = 0 then DAO_DMA_MAX_POINTER_THR_DFLT else thr)"
  shows "unat t \<le> 15 \<and> unat (nb_dev2mem info) + unat n < DAO_DMA_MAX_VCHAN_PER_LCORE \<and>
    g' = g\<lparr>vchan_info_p := (vchan_info_p g)(l := Some (info\<lparr>
       dev2mem := set_vchans dev (ucast t) (unat (nb_dev2mem info)) (unat n) (dev2mem info),
       nb_dev2mem := nb_dev2mem info + n\<rparr>))\<rparr>"
  using assms
  by (auto simp: dao_dma_lcore_dev2mem_set_def info_of_def Let_def DAO_DMA_MAX_POINTER_def not_less not_le
      split: if_splits option.splits)

lemma dev2mem_set_fails:
  assumes "dao_dma_lcore_dev2mem_set ops d l mok g dev n thr = (rc, g')" "rc \<noteq> 0"
  shows "rc < 0 \<and> (g' = g \<or> g' = g\<lparr>vchan_info_p := (vchan_info_p g)(l := Some zero_info)\<rparr>)"
  using assms
  by (auto simp: dao_dma_lcore_dev2mem_set_def Let_def split: if_splits option.splits)

lemma thr_bounds:
  "t = (if thr = 0 then DAO_DMA_MAX_POINTER_THR_DFLT else thr) \<Longrightarrow> unat t \<le> 15 \<Longrightarrow>
   0 < unat (ucast t :: u8) \<and> unat (ucast t :: u8) \<le> 15"
proof -
  assume t: "t = (if thr = 0 then DAO_DMA_MAX_POINTER_THR_DFLT else thr)" "unat t \<le> 15"
  have "t \<noteq> 0" using t(1) by (auto simp: DAO_DMA_MAX_POINTER_THR_DFLT_def)
  then have "0 < unat t" by (simp add: unat_gt_0)
  moreover have "unat (ucast t :: u8) = unat t" using t(2) by (simp add: unsigned_ucast_eq take_bit_nat_eq_self)
  ultimately show ?thesis using t(2) by simp
qed

section \<open>Properties\<close>

text \<open>\<^verbatim>\<open>dao_dma_lcore_dev2mem_set\<close> keeps the channel tables of every lcore well formed whatever it returns;
  when it returns 0 the \<open>n\<close> new channels of the lcore follow the old ones, which are unchanged, carry the
  device, the channel numbers \<open>0 ..< n\<close> and a threshold between 1 and 15, and the table is not full.\<close>

theorem dev2mem_set_tables:
  assumes "glob_ok g" and "dao_dma_lcore_dev2mem_set ops d l mok g dev n thr = (rc, g')"
  shows "glob_ok g' \<and> (\<forall>l'. l' \<noteq> l \<longrightarrow> vchan_info_p g' l' = vchan_info_p g l') \<and>
    (rc = 0 \<longrightarrow> (let old = info_of g l; new = info_of g' l; b = unat (nb_dev2mem old) in
       unat (nb_dev2mem new) = b + unat n \<and> b + unat n < 128 \<and> mem2dev new = mem2dev old \<and>
       (\<forall>i < b. dev2mem new ! i = dev2mem old ! i) \<and>
       (\<forall>i < unat n. devid (dev2mem new ! (b + i)) = dev \<and> vchan (dev2mem new ! (b + i)) = of_nat i \<and>
          1 \<le> unat (flush_thr (dev2mem new ! (b + i))) \<and> unat (flush_thr (dev2mem new ! (b + i))) \<le> 15)))"
proof (cases "rc = 0")
  case True
  let ?old = "info_of g l"
  define t where "t = (if thr = 0 then DAO_DMA_MAX_POINTER_THR_DFLT else thr)"
  define new where "new = ?old\<lparr>
       dev2mem := set_vchans dev (ucast t) (unat (nb_dev2mem ?old)) (unat n) (dev2mem ?old),
       nb_dev2mem := nb_dev2mem ?old + n\<rparr>"
  have s: "unat t \<le> 15" "unat (nb_dev2mem ?old) + unat n < DAO_DMA_MAX_VCHAN_PER_LCORE"
    "g' = g\<lparr>vchan_info_p := (vchan_info_p g)(l := Some new)\<rparr>"
    using dev2mem_set_ok [OF assms(2) [unfolded True]] unfolding t_def new_def by blast+
  note thr = thr_bounds [OF t_def s(1)]
  have old: "table_ok (nb_dev2mem ?old) (dev2mem ?old)" "table_ok (nb_mem2dev ?old) (mem2dev ?old)"
    using info_of_ok [OF assms(1)] by blast+
  note tab = set_vchans_table [OF old(1) s(2) thr [THEN conjunct1] thr [THEN conjunct2]]
  have "table_ok (nb_dev2mem new) (dev2mem new)" using tab(1) by (simp add: new_def)
  then have ok: "glob_ok g'" using assms(1) old(2) by (simp add: glob_ok_def s(3)) (simp add: new_def)
  have len: "unat (nb_dev2mem ?old) + unat n \<le> length (dev2mem ?old)" using old(1) s(2) by (simp add: table_ok_def)
  note nth = set_vchans_nth [OF len, of dev "ucast t"]
  have "info_of g' l = new" by (simp add: info_of_def s(3))
  then show ?thesis
    using ok s(2,3) thr tab(2) nth len True by (auto simp: new_def Let_def DAO_DMA_MAX_VCHAN_PER_LCORE_def)
next
  case False
  then show ?thesis using dev2mem_set_fails [OF assms(2)] assms(1) zero_info_ok
    by (auto simp: glob_ok_def split: if_splits)
qed


theorem dev2mem_set_tables_witness:
  "glob_ok (snd (dao_dma_lcore_dev2mem_set log_dev (\<lambda>_. []) 2 True
     \<lparr>vchan_info_p = (\<lambda>_. None), dma_ctrl_dev2mem_id = - 1, dma_ctrl_mem2dev_id = - 1\<rparr> 0 4 0))"
proof -
  let ?g = "\<lparr>vchan_info_p = (\<lambda>_. None), dma_ctrl_dev2mem_id = - 1, dma_ctrl_mem2dev_id = - 1\<rparr>"
  obtain rc g' where "dao_dma_lcore_dev2mem_set log_dev (\<lambda>_. []) 2 True ?g 0 4 0 = (rc, g')" by fastforce
  moreover have "glob_ok ?g" by (simp add: glob_ok_def)
  ultimately show ?thesis using dev2mem_set_tables by fastforce
qed

lemma flush_submit_one_ok:
  assumes "paired v" "copy_laws ops sent" "accepts ops" "flush_submit_one ops v d = (v', d')"
  shows "pending v' = [] \<and> pend_ops v' = 0 \<and> paired v' \<and> flush_thr v' = flush_thr v"
proof -
  obtain ok v1 d1 where f: "dao_dma_flush ops v (of_nat DAO_DMA_MAX_POINTER) d = (ok, v1, d1)" by (metis prod_cases3)
  have "ok" using assms(3) f by (rule accepts_flush)
  have "src_i v1 = 0 \<and> dst_i v1 = 0"
    using f assms(1,2)
  proof (rule flush_cases)
    assume "v1 = v" "unat (src_i v) + unat (of_nat DAO_DMA_MAX_POINTER :: u8) \<le> unat (flush_thr v) \<or> src_i v = 0"
    moreover from this have "unat (src_i v) = 0" using assms(1) by (auto simp: paired_def DAO_DMA_MAX_POINTER_def)
    ultimately show ?thesis using assms(1) by (simp add: paired_def unat_eq_0)
  qed (use \<open>ok\<close> in auto)
  moreover have "src_i v' = src_i v1 \<and> dst_i v' = dst_i v1 \<and> src v' = src v1 \<and> dst v' = dst v1 \<and>
      flush_thr v' = flush_thr v1 \<and> pend_ops v' = 0"
    using assms(4) f by (auto simp: flush_submit_one_def Let_def split: if_splits)
  moreover note flush_ok [OF assms(1,2) f]
  ultimately show ?thesis by (auto simp: pending_def paired_def)
qed

lemma flush_submit_loop_ok:
  shows "copy_laws ops sent \<Longrightarrow> accepts ops \<Longrightarrow> \<forall>i < n. i < length vs \<longrightarrow> paired (vs ! i) \<Longrightarrow> flush_submit_loop ops n vs d = (vs', d') \<Longrightarrow>
    length vs' = length vs \<and> (\<forall>i < length vs. if i < n
      then pending (vs' ! i) = [] \<and> pend_ops (vs' ! i) = 0 \<and> paired (vs' ! i) else vs' ! i = vs ! i)"
proof (induction ops n vs d arbitrary: vs' d' rule: flush_submit_loop.induct)
  case (3 ops n v vs d)
  obtain v1 d1 where one: "flush_submit_one ops v d = (v1, d1)" by fastforce
  obtain vs1 d2 where rest: "flush_submit_loop ops n vs d1 = (vs1, d2)" by fastforce
  have vs': "vs' = v1 # vs1" using "3.prems"(4) one rest by simp
  have "paired v" and p: "\<forall>i < n. i < length vs \<longrightarrow> paired (vs ! i)" using "3.prems"(3) by force+
  note v1 = flush_submit_one_ok [OF \<open>paired v\<close> "3.prems"(1,2) one]
  note IH = "3.IH" [OF one [symmetric] "3.prems"(1,2) p rest]
  show ?case using v1 IH unfolding vs' by (auto simp: nth_Cons split: nat.splits)
qed auto

text \<open>after \<^verbatim>\<open>dao_dma_flush_submit\<close> on an lcore whose device accepts operations, no channel in use holds
  gathered pointers or operations without a doorbell, and the channels not in use are unchanged.\<close>

theorem flush_submit_empties:
  assumes "copy_laws ops sent" and "accepts ops" and "glob_ok g" and "vchan_info_p g l = Some info"
  shows "\<exists>g' info' d'. dao_dma_flush_submit ops l g d = Inr (0, g', d') \<and> vchan_info_p g' l = Some info' \<and>
    (\<forall>i < 128. if i < unat (nb_dev2mem info) then pending (dev2mem info' ! i) = [] \<and> pend_ops (dev2mem info' ! i) = 0
       else dev2mem info' ! i = dev2mem info ! i) \<and>
    (\<forall>i < 128. if i < unat (nb_mem2dev info) then pending (mem2dev info' ! i) = [] \<and> pend_ops (mem2dev info' ! i) = 0
       else mem2dev info' ! i = mem2dev info ! i)"
proof -
  obtain dm d1 where dm: "flush_submit_loop ops (unat (nb_dev2mem info)) (dev2mem info) d = (dm, d1)" by fastforce
  obtain md d2 where md: "flush_submit_loop ops (unat (nb_mem2dev info)) (mem2dev info) d1 = (md, d2)" by fastforce
  have t: "table_ok (nb_dev2mem info) (dev2mem info)" "table_ok (nb_mem2dev info) (mem2dev info)"
    using assms(3,4) by (auto simp: glob_ok_def)
  then have p: "\<forall>i < unat (nb_dev2mem info). i < length (dev2mem info) \<longrightarrow> paired (dev2mem info ! i)"
    "\<forall>i < unat (nb_mem2dev info). i < length (mem2dev info) \<longrightarrow> paired (mem2dev info ! i)"
    "length (dev2mem info) = 128" "length (mem2dev info) = 128"
    by (simp_all add: table_ok_def chan_set_def DAO_DMA_MAX_VCHAN_PER_LCORE_def)
  note l1 = flush_submit_loop_ok [OF assms(1,2) p(1) dm, unfolded p(3)]
  note l2 = flush_submit_loop_ok [OF assms(1,2) p(2) md, unfolded p(4)]
  let ?info = "info\<lparr>dev2mem := dm, mem2dev := md\<rparr>"
  let ?g = "g\<lparr>vchan_info_p := (vchan_info_p g)(l := Some ?info)\<rparr>"
  have "dao_dma_flush_submit ops l g d = Inr (0, ?g, d2)"
    using assms(4) dm md by (simp add: dao_dma_flush_submit_def)
  moreover have "vchan_info_p ?g l = Some ?info" "dev2mem ?info = dm" "mem2dev ?info = md" by simp_all
  moreover have "\<forall>i < 128. if i < unat (nb_dev2mem info) then pending (dm ! i) = [] \<and> pend_ops (dm ! i) = 0
       else dm ! i = dev2mem info ! i"
    "\<forall>i < 128. if i < unat (nb_mem2dev info) then pending (md ! i) = [] \<and> pend_ops (md ! i) = 0
       else md ! i = mem2dev info ! i"
    using l1 l2 by presburger+
  ultimately show ?thesis by metis
qed

theorem flush_submit_empties_witness:
  "\<exists>g' info' d'. dao_dma_flush_submit log_dev 0 \<lparr>vchan_info_p = (\<lambda>_. Some zero_info), dma_ctrl_dev2mem_id = - 1,
      dma_ctrl_mem2dev_id = - 1\<rparr> (\<lambda>_. []) = Inr (0, g', d') \<and> vchan_info_p g' 0 = Some info' \<and>
     dev2mem info' ! 5 = zero_vchan"
proof -
  let ?g = "\<lparr>vchan_info_p = (\<lambda>_. Some zero_info), dma_ctrl_dev2mem_id = - 1, dma_ctrl_mem2dev_id = - 1\<rparr>"
  have "glob_ok ?g" "vchan_info_p ?g 0 = Some zero_info" using zero_info_ok by (simp_all add: glob_ok_def)
  moreover have "dev2mem zero_info ! 5 = zero_vchan" "nb_dev2mem zero_info = 0"
    by (simp_all add: zero_info_def DAO_DMA_MAX_VCHAN_PER_LCORE_def)
  ultimately show ?thesis
    using flush_submit_empties [OF log_dev_laws, of ?g 0 zero_info "\<lambda>_. []"] by fastforce
qed

end
