(* ===== verification/Dstring.thy ===== *)
theory Dstring
  imports Prelude
begin

text \<open>
  The dynamic strings of \<^verbatim>\<open>lib/common/dao_dynamic_string.c\<close>.  The buffer is the list of the bytes that are
  allocated, \<^verbatim>\<open>allocated + 1\<close> of them; \<^verbatim>\<open>NULL\<close> is \<open>None\<close>.  A write outside the buffer and a write through
  \<^verbatim>\<open>NULL\<close> are faults.  The allocator of the C library is the parameter \<open>alloc\<close>: for a size it gives the
  bytes, of unspecified contents, of a fresh block, or \<open>None\<close>.  Lengths are natural numbers: they do not
  reach the width of \<^verbatim>\<open>size_t\<close> before the allocator fails.

  A call of \<^verbatim>\<open>dao_ds_put_format\<close> takes the text that its format and arguments stand for; the formats that
  occur in the file are written out (\<open>fmt_...\<close>).  A file is the list of its bytes.
\<close>

section \<open>The buffer\<close>

type_synonym alloc = "nat \<Rightarrow> u8 list option"

record dao_ds =
  string :: "u8 list option"
  ds_length :: nat
  allocated :: nat

definition bytes_of :: "char list \<Rightarrow> u8 list" where
  "bytes_of s = map of_char s"

fun is_all_byte :: "u8 list \<Rightarrow> nat \<Rightarrow> nat \<Rightarrow> u8 \<Rightarrow> fault + bool" where
  "is_all_byte buf i 0 byte = Inr True"
| "is_all_byte buf i (Suc n) byte =
     (if i < length buf then
        if buf ! i \<noteq> byte then Inr False else is_all_byte buf (i + 1) n byte
      else Inl OutOfBounds)"

definition is_all_zeros :: "u8 list \<Rightarrow> nat \<Rightarrow> nat \<Rightarrow> fault + bool" where
  "is_all_zeros buf i n = is_all_byte buf i n 0"

definition dao_ds_init :: dao_ds where
  "dao_ds_init = \<lparr>string = None, ds_length = 0, allocated = 0\<rparr>"

definition dao_ds_clear :: "dao_ds \<Rightarrow> dao_ds" where
  "dao_ds_clear ds = ds\<lparr>ds_length := 0\<rparr>"

text \<open>The store \<^verbatim>\<open>ds->string[i] = c\<close>.\<close>

definition ds_store :: "dao_ds \<Rightarrow> nat \<Rightarrow> u8 \<Rightarrow> fault + dao_ds" where
  "ds_store ds i c =
     (case string ds of
        None \<Rightarrow> Inl WildPointer
      | Some bs \<Rightarrow> if i < length bs then Inr (ds\<lparr>string := Some (bs[i := c])\<rparr>) else Inl OutOfBounds)"

text \<open>\<^verbatim>\<open>memcpy\<close> and \<^verbatim>\<open>memset\<close> into the buffer from position \<open>i\<close> on.\<close>

fun ds_stores :: "dao_ds \<Rightarrow> nat \<Rightarrow> u8 list \<Rightarrow> fault + dao_ds" where
  "ds_stores ds i [] = Inr ds"
| "ds_stores ds i (c # cs) = rbind (ds_store ds i c) (\<lambda>ds. ds_stores ds (i + 1) cs)"

definition dao_ds_truncate :: "dao_ds \<Rightarrow> nat \<Rightarrow> fault + dao_ds" where
  "dao_ds_truncate ds new_length =
     (if ds_length ds > new_length then ds_store (ds\<lparr>ds_length := new_length\<rparr>) new_length 0 else Inr ds)"

text \<open>\<^verbatim>\<open>realloc\<close> keeps the bytes of the old block that fit the new one.\<close>

definition realloc :: "alloc \<Rightarrow> u8 list option \<Rightarrow> nat \<Rightarrow> u8 list option" where
  "realloc alloc old n =
     (case alloc n of
        None \<Rightarrow> None
      | Some fresh \<Rightarrow> (case old of None \<Rightarrow> Some fresh | Some bs \<Rightarrow> Some (take n bs @ drop (length bs) fresh)))"

definition dao_ds_reserve :: "alloc \<Rightarrow> dao_ds \<Rightarrow> nat \<Rightarrow> dao_ds" where
  "dao_ds_reserve alloc ds min_length =
     (if min_length > allocated ds \<or> string ds = None then
        let a = allocated ds + max min_length (allocated ds);
            a = max 8 a
        in ds\<lparr>allocated := a, string := realloc alloc (string ds) (a + 1)\<rparr>
      else ds)"

text \<open>The result is the string and the position of the first appended byte.\<close>

definition dao_ds_put_uninit :: "alloc \<Rightarrow> dao_ds \<Rightarrow> nat \<Rightarrow> fault + dao_ds \<times> nat" where
  "dao_ds_put_uninit alloc ds n =
     (let ds = dao_ds_reserve alloc ds (ds_length ds + n);
          ds = ds\<lparr>ds_length := ds_length ds + n\<rparr>
      in rbind (ds_store ds (ds_length ds) 0) (\<lambda>ds. Inr (ds, ds_length ds - n)))"

definition dao_ds_put_buffer :: "alloc \<Rightarrow> dao_ds \<Rightarrow> u8 list \<Rightarrow> fault + dao_ds" where
  "dao_ds_put_buffer alloc ds s =
     rbind (dao_ds_put_uninit alloc ds (length s)) (\<lambda>(ds, p). ds_stores ds p s)"

definition dao_ds_put_char_grow :: "alloc \<Rightarrow> dao_ds \<Rightarrow> u8 \<Rightarrow> fault + dao_ds" where
  "dao_ds_put_char_grow alloc ds c = rbind (dao_ds_put_uninit alloc ds 1) (\<lambda>(ds, p). ds_store ds p c)"

definition dao_ds_put_char :: "alloc \<Rightarrow> dao_ds \<Rightarrow> u8 \<Rightarrow> fault + dao_ds" where
  "dao_ds_put_char alloc ds c =
     (if ds_length ds < allocated ds then
        rbind (ds_store ds (ds_length ds) c) (\<lambda>ds.
        let ds = ds\<lparr>ds_length := ds_length ds + 1\<rparr> in ds_store ds (ds_length ds) 0)
      else dao_ds_put_char_grow alloc ds c)"

fun put_chars :: "alloc \<Rightarrow> dao_ds \<Rightarrow> u8 list \<Rightarrow> fault + dao_ds" where
  "put_chars alloc ds [] = Inr ds"
| "put_chars alloc ds (c # cs) = rbind (dao_ds_put_char alloc ds c) (\<lambda>ds. put_chars alloc ds cs)"

definition dao_ds_put_char_multiple :: "alloc \<Rightarrow> dao_ds \<Rightarrow> u8 \<Rightarrow> nat \<Rightarrow> fault + dao_ds" where
  "dao_ds_put_char_multiple alloc ds c n =
     rbind (dao_ds_put_uninit alloc ds n) (\<lambda>(ds, p). ds_stores ds p (replicate n c))"

text \<open>A C string is given with its terminating NUL left out.\<close>

definition dao_ds_put_cstr :: "alloc \<Rightarrow> dao_ds \<Rightarrow> u8 list \<Rightarrow> fault + dao_ds" where
  "dao_ds_put_cstr alloc ds s =
     (let s = takeWhile (\<lambda>c. c \<noteq> 0) s
      in rbind (dao_ds_put_uninit alloc ds (length s)) (\<lambda>(ds, p). ds_stores ds p s))"

section \<open>UTF-8\<close>

text \<open>The bytes \<^verbatim>\<open>dao_ds_put_utf8\<close> appends one after the other, an \<^verbatim>\<open>int\<close> cut to a \<^verbatim>\<open>char\<close> each.\<close>

function utf8_bytes :: "int \<Rightarrow> u8 list" where
  "utf8_bytes uc =
     (if uc \<le> 0x7f then [of_int uc]
      else if uc \<le> 0x7ff then
        [of_int (0xc0 OR drop_bit 6 uc), of_int (0x80 OR (uc AND 0x3f))]
      else if uc \<le> 0xffff then
        [of_int (0xe0 OR drop_bit 12 uc), of_int (0x80 OR (drop_bit 6 uc AND 0x3f)),
         of_int (0x80 OR (uc AND 0x3f))]
      else if uc \<le> 0x10ffff then
        [of_int (0xf0 OR drop_bit 18 uc), of_int (0x80 OR (drop_bit 12 uc AND 0x3f)),
         of_int (0x80 OR (drop_bit 6 uc AND 0x3f)), of_int (0x80 OR (uc AND 0x3f))]
      else utf8_bytes 0xfffd)"
  by pat_completeness auto
termination
  by (relation "measure (\<lambda>uc. if uc \<le> 0x10ffff then 0 else 1)") auto

declare utf8_bytes.simps [simp del]

definition dao_ds_put_utf8 :: "alloc \<Rightarrow> dao_ds \<Rightarrow> int \<Rightarrow> fault + dao_ds" where
  "dao_ds_put_utf8 alloc ds uc = put_chars alloc ds (utf8_bytes uc)"

section \<open>Formatted output\<close>

text \<open>
  \<^verbatim>\<open>vsnprintf(&ds->string[i], available, ...)\<close> of a text: as much of it as fits in front of a NUL, nothing
  if no byte is available.
\<close>

definition vsnprintf_at :: "dao_ds \<Rightarrow> nat \<Rightarrow> nat \<Rightarrow> u8 list \<Rightarrow> fault + dao_ds" where
  "vsnprintf_at ds i available out =
     (if available = 0 then Inr ds else ds_stores ds i (take (available - 1) out @ [0]))"

definition dao_ds_put_format_valist :: "alloc \<Rightarrow> dao_ds \<Rightarrow> u8 list \<Rightarrow> fault + dao_ds" where
  "dao_ds_put_format_valist alloc ds out =
     (let available = (if string ds \<noteq> None then allocated ds - ds_length ds + 1 else 0);
          needed = length out
      in rbind (vsnprintf_at ds (ds_length ds) available out) (\<lambda>ds.
         if needed < available then Inr (ds\<lparr>ds_length := ds_length ds + needed\<rparr>)
         else let ds = dao_ds_reserve alloc ds (ds_length ds + needed);
                  available = allocated ds - ds_length ds + 1
              in rbind (vsnprintf_at ds (ds_length ds) available out) (\<lambda>ds.
                 if needed < available then Inr (ds\<lparr>ds_length := ds_length ds + needed\<rparr>)
                 else Inl AssertFailed)))"

definition dao_ds_put_format :: "alloc \<Rightarrow> dao_ds \<Rightarrow> u8 list \<Rightarrow> fault + dao_ds" where
  "dao_ds_put_format alloc ds out = dao_ds_put_format_valist alloc ds out"

fun put_formats :: "alloc \<Rightarrow> dao_ds \<Rightarrow> u8 list list \<Rightarrow> fault + dao_ds" where
  "put_formats alloc ds [] = Inr ds"
| "put_formats alloc ds (o1 # os) = rbind (dao_ds_put_format alloc ds o1) (\<lambda>ds. put_formats alloc ds os)"

definition hexd :: "nat \<Rightarrow> u8" where
  "hexd n = of_nat (if n < 10 then 48 + n else 87 + n)"

function to_hex :: "nat \<Rightarrow> u8 list" where
  "to_hex n = (if n < 16 then [hexd n] else to_hex (n div 16) @ [hexd (n mod 16)])"
  by pat_completeness auto
termination
  by (relation "measure id") auto

declare to_hex.simps [simp del]

definition pad0 :: "nat \<Rightarrow> u8 list \<Rightarrow> u8 list" where
  "pad0 w s = replicate (w - length s) 48 @ s"

text \<open>The formats \<^verbatim>\<open>%03o\<close>, \<^verbatim>\<open>%02x\<close>, \<^verbatim>\<open>0x%x\<close> and \<^verbatim>\<open>%08jx\<close>.\<close>

definition fmt_03o :: "u8 \<Rightarrow> u8 list" where
  "fmt_03o c = (let n = unat c in map (\<lambda>d. of_nat (48 + d)) [n div 64, n div 8 mod 8, n mod 8])"

definition fmt_02x :: "u8 \<Rightarrow> u8 list" where
  "fmt_02x c = pad0 2 (to_hex (unat c))"

definition fmt_0xx :: "u8 \<Rightarrow> u8 list" where
  "fmt_0xx c = bytes_of ''0x'' @ to_hex (unat c)"

definition fmt_08jx :: "nat \<Rightarrow> u8 list" where
  "fmt_08jx n = pad0 8 (to_hex n)"

definition printable :: "u8 \<Rightarrow> bool" where
  "printable c \<longleftrightarrow> \<not> (c < 0x20 \<or> c > 0x7e \<or> c = 0x5c \<or> c = 0x22)"

fun put_printable_loop :: "alloc \<Rightarrow> dao_ds \<Rightarrow> u8 list \<Rightarrow> fault + dao_ds" where
  "put_printable_loop alloc ds [] = Inr ds"
| "put_printable_loop alloc ds (c # s) =
     rbind (if \<not> printable c then dao_ds_put_format alloc ds (0x5c # fmt_03o c)
            else dao_ds_put_char alloc ds c)
       (\<lambda>ds. put_printable_loop alloc ds s)"

definition dao_ds_put_printable :: "alloc \<Rightarrow> dao_ds \<Rightarrow> u8 list \<Rightarrow> fault + dao_ds" where
  "dao_ds_put_printable alloc ds s =
     put_printable_loop alloc (dao_ds_reserve alloc ds (ds_length ds + length s)) s"

fun put_hex_loop :: "alloc \<Rightarrow> dao_ds \<Rightarrow> bool \<Rightarrow> u8 list \<Rightarrow> fault + dao_ds \<times> bool" where
  "put_hex_loop alloc ds printed [] = Inr (ds, printed)"
| "put_hex_loop alloc ds printed (v # buf) =
     (if v \<noteq> 0 \<or> printed then
        rbind (dao_ds_put_format alloc ds (if \<not> printed then fmt_0xx v else fmt_02x v))
          (\<lambda>ds. put_hex_loop alloc ds True buf)
      else put_hex_loop alloc ds printed buf)"

definition dao_ds_put_hex :: "alloc \<Rightarrow> dao_ds \<Rightarrow> u8 list \<Rightarrow> fault + dao_ds" where
  "dao_ds_put_hex alloc ds buf =
     rbind (put_hex_loop alloc ds False buf) (\<lambda>(ds, printed).
     if \<not> printed then dao_ds_put_char alloc ds (of_char (CHR ''0'')) else Inr ds)"

section \<open>Reading and sharing\<close>

definition dao_ds_cstr :: "alloc \<Rightarrow> dao_ds \<Rightarrow> fault + dao_ds" where
  "dao_ds_cstr alloc ds =
     (let ds = (if string ds = None then dao_ds_reserve alloc ds 0 else ds)
      in ds_store ds (ds_length ds) 0)"

text \<open>The C string a buffer shows from its start.\<close>

definition c_str :: "dao_ds \<Rightarrow> u8 list" where
  "c_str ds = (case string ds of None \<Rightarrow> [] | Some bs \<Rightarrow> takeWhile (\<lambda>c. c \<noteq> 0) bs)"

definition dao_ds_steal_cstr :: "alloc \<Rightarrow> dao_ds \<Rightarrow> fault + u8 list option \<times> dao_ds" where
  "dao_ds_steal_cstr alloc ds = rbind (dao_ds_cstr alloc ds) (\<lambda>ds. Inr (string ds, dao_ds_init))"

definition dao_ds_swap :: "dao_ds \<Rightarrow> dao_ds \<Rightarrow> dao_ds \<times> dao_ds" where
  "dao_ds_swap a b = (b, a)"

definition dao_ds_last :: "dao_ds \<Rightarrow> fault + int" where
  "dao_ds_last ds =
     (if ds_length ds > 0 then
        case string ds of
          None \<Rightarrow> Inl WildPointer
        | Some bs \<Rightarrow> if ds_length ds - 1 < length bs then Inr (uint (bs ! (ds_length ds - 1))) else Inl OutOfBounds
      else Inr (- 1))"

definition dao_ds_chomp :: "dao_ds \<Rightarrow> u8 \<Rightarrow> fault + bool \<times> dao_ds" where
  "dao_ds_chomp ds c =
     (if ds_length ds > 0 then
        case string ds of
          None \<Rightarrow> Inl WildPointer
        | Some bs \<Rightarrow>
            if ds_length ds - 1 < length bs then
              if bs ! (ds_length ds - 1) = c then
                let ds = ds\<lparr>ds_length := ds_length ds - 1\<rparr>
                in rbind (ds_store ds (ds_length ds) 0) (\<lambda>ds. Inr (True, ds))
              else Inr (False, ds)
            else Inl OutOfBounds
      else Inr (False, ds))"

definition dao_ds_clone :: "alloc \<Rightarrow> dao_ds \<Rightarrow> dao_ds" where
  "dao_ds_clone alloc source =
     (if allocated source = 0 then dao_ds_init
      else let a = ds_length source
           in \<lparr>string = (case alloc (a + 1) of
                          None \<Rightarrow> None
                        | Some fresh \<Rightarrow> (case string source of
                             None \<Rightarrow> Some fresh
                           | Some bs \<Rightarrow> Some (take (a + 1) bs))),
               ds_length = ds_length source, allocated = a\<rparr>)"

section \<open>Reading lines\<close>

text \<open>
  \<^verbatim>\<open>getc\<close> takes the first byte of the file, \<^verbatim>\<open>EOF\<close> is \<open>- 1\<close>.  The result is the return code, the string and
  the rest of the file.
\<close>

fun get_line_loop :: "alloc \<Rightarrow> dao_ds \<Rightarrow> u8 list \<Rightarrow> fault + int \<times> dao_ds \<times> u8 list" where
  "get_line_loop alloc ds [] = Inr (if ds_length ds \<noteq> 0 then 0 else - 1, ds, [])"
| "get_line_loop alloc ds (c # file) =
     (if c = 10 then Inr (0, ds, file)
      else rbind (dao_ds_put_char alloc ds c) (\<lambda>ds. get_line_loop alloc ds file))"

definition dao_ds_get_line :: "alloc \<Rightarrow> dao_ds \<Rightarrow> u8 list \<Rightarrow> fault + int \<times> dao_ds \<times> u8 list" where
  "dao_ds_get_line alloc ds file = get_line_loop alloc (dao_ds_clear ds) file"

lemma get_line_loop_rest:
  "get_line_loop alloc ds file = Inr (rc, ds', rest) \<Longrightarrow>
     length rest \<le> length file \<and> (file \<noteq> [] \<longrightarrow> length rest < length file)"
  by (induction "file" arbitrary: ds) (fastforce simp: rbind_Inr_iff split: if_splits)+

lemma get_line_loop_Nil: "get_line_loop alloc ds [] = Inr (0, ds', rest) \<Longrightarrow> ds_length ds \<noteq> 0"
  by (auto split: if_splits)

lemma dao_ds_get_line_rest: "dao_ds_get_line alloc ds file = Inr (0, ds', rest) \<Longrightarrow> length rest < length file"
  using get_line_loop_rest get_line_loop_Nil unfolding dao_ds_get_line_def
  by (metis dao_ds_clear_def dao_ds.select_convs(2) dao_ds.surjective dao_ds.update_convs(2))


text \<open>\<^verbatim>\<open>line[strspn(line, " \t\n")] != '\0'\<close>: something but blanks is left.\<close>

definition not_blank :: "u8 list \<Rightarrow> bool" where
  "not_blank line \<longleftrightarrow> dropWhile (\<lambda>c. c \<in> {32, 9, 10}) line \<noteq> []"

text \<open>Writing NUL over the first \<^verbatim>\<open>#\<close> of the C string, if there is one; the length stays as it is.\<close>

definition cut_comment :: "dao_ds \<Rightarrow> dao_ds" where
  "cut_comment ds =
     (let line = c_str ds; i = length (takeWhile (\<lambda>c. c \<noteq> 35) line)
      in if i < length line then
           (case string ds of None \<Rightarrow> ds | Some bs \<Rightarrow> ds\<lparr>string := Some (bs[i := 0])\<rparr>)
         else ds)"

function dao_ds_get_preprocessed_line ::
  "alloc \<Rightarrow> dao_ds \<Rightarrow> u8 list \<Rightarrow> nat \<Rightarrow> fault + int \<times> dao_ds \<times> u8 list \<times> nat" where
  "dao_ds_get_preprocessed_line alloc ds file line_number =
     (case dao_ds_get_line alloc ds file of
        Inl e \<Rightarrow> Inl e
      | Inr (rc, ds1, rest) \<Rightarrow>
          if rc \<noteq> 0 then Inr (- 1, ds1, rest, line_number)
          else (case dao_ds_cstr alloc ds1 of
                  Inl e \<Rightarrow> Inl e
                | Inr ds2 \<Rightarrow>
                    let ds3 = cut_comment ds2
                    in if not_blank (c_str ds3) then Inr (0, ds3, rest, line_number + 1)
                       else dao_ds_get_preprocessed_line alloc ds3 rest (line_number + 1)))"
  by pat_completeness auto
termination
  by (relation "measure (\<lambda>(alloc, ds, file, n). length file)") (auto dest: dao_ds_get_line_rest)

declare dao_ds_get_preprocessed_line.simps [simp del]

text \<open>The last component is what is printed on standard output.\<close>

function dao_ds_get_test_line ::
  "alloc \<Rightarrow> dao_ds \<Rightarrow> u8 list \<Rightarrow> u8 list \<Rightarrow> fault + int \<times> dao_ds \<times> u8 list \<times> u8 list" where
  "dao_ds_get_test_line alloc ds file out =
     (case dao_ds_get_line alloc ds file of
        Inl e \<Rightarrow> Inl e
      | Inr (rc, ds1, rest) \<Rightarrow>
          if rc \<noteq> 0 then Inr (rc, ds1, rest, out)
          else (case dao_ds_cstr alloc ds1 of
                  Inl e \<Rightarrow> Inl e
                | Inr ds2 \<Rightarrow>
                    if take 1 (c_str ds2) = [35] then dao_ds_get_test_line alloc ds2 rest (out @ c_str ds2 @ [10])
                    else let ds3 = cut_comment ds2
                         in if \<not> not_blank (c_str ds3) then dao_ds_get_test_line alloc ds3 rest (out @ [10])
                            else Inr (0, ds3, rest, out)))"
  by pat_completeness auto
termination
  by (relation "measure (\<lambda>(alloc, ds, file, out). length file)") (auto dest: dao_ds_get_line_rest)

declare dao_ds_get_test_line.simps [simp del]

section \<open>Hex dumps\<close>

text \<open>
  One line of the dump: \<open>start\<close> and \<open>fin\<close> are the columns of the first and behind the last byte.
\<close>

fun put_bytes :: "(dao_ds \<Rightarrow> nat \<Rightarrow> u8 \<Rightarrow> fault + dao_ds) \<Rightarrow> dao_ds \<Rightarrow> u8 list \<Rightarrow> nat \<Rightarrow> nat list \<Rightarrow> fault + dao_ds" where
  "put_bytes put ds buf start [] = Inr ds"
| "put_bytes put ds buf start (i # is) =
     (if i - start < length buf then rbind (put ds i (buf ! (i - start))) (\<lambda>ds. put_bytes put ds buf start is)
      else Inl OutOfBounds)"

definition hex_dump_line :: "alloc \<Rightarrow> dao_ds \<Rightarrow> u8 list \<Rightarrow> nat \<Rightarrow> nat \<Rightarrow> nat \<Rightarrow> bool \<Rightarrow> fault + dao_ds" where
  "hex_dump_line alloc ds buf ofs start fin ascii =
     rbind (dao_ds_put_format alloc ds (fmt_08jx (ofs div 16 * 16) @ bytes_of ''  '')) (\<lambda>ds.
     rbind (put_formats alloc ds (replicate start (bytes_of ''   ''))) (\<lambda>ds.
     rbind (put_bytes (\<lambda>ds i c. dao_ds_put_format alloc ds (fmt_02x c @ (if i = 7 then bytes_of ''-'' else bytes_of '' '')))
              ds buf start [start..<fin]) (\<lambda>ds.
     rbind (if ascii then
              rbind (put_formats alloc ds (replicate (16 - fin) (bytes_of ''   ''))) (\<lambda>ds.
              rbind (dao_ds_put_format alloc ds (bytes_of ''|'')) (\<lambda>ds.
              rbind (put_formats alloc ds (replicate start (bytes_of '' ''))) (\<lambda>ds.
              rbind (put_bytes (\<lambda>ds i c. dao_ds_put_char alloc ds (if 32 \<le> c \<and> c < 127 then c else 46)) ds buf start [start..<fin]) (\<lambda>ds.
              rbind (put_formats alloc ds (replicate (16 - fin) (bytes_of '' ''))) (\<lambda>ds.
              dao_ds_put_format alloc ds (bytes_of ''|''))))))
            else rbind (dao_ds_chomp ds 32) (\<lambda>(_, ds). Inr ds)) (\<lambda>ds.
     dao_ds_put_format alloc ds [10]))))"

function dao_ds_put_hex_dump_loop ::
  "alloc \<Rightarrow> dao_ds \<Rightarrow> u8 list \<Rightarrow> nat \<Rightarrow> bool \<Rightarrow> bool \<Rightarrow> fault + dao_ds" where
  "dao_ds_put_hex_dump_loop alloc ds buf ofs ascii skip_zero_lines =
     (if buf = [] then Inr ds
      else let start = ofs mod 16;
               fin = (if 16 - start > length buf then start + length buf else 16);
               n = fin - start
           in case (if skip_zero_lines then is_all_zeros buf start n else Inr False) of
                Inl e \<Rightarrow> Inl e
              | Inr True \<Rightarrow> dao_ds_put_hex_dump_loop alloc ds (drop n buf) ((ofs + n) mod 2 ^ 64) ascii skip_zero_lines
              | Inr False \<Rightarrow>
                  (case hex_dump_line alloc ds buf ofs start fin ascii of
                     Inl e \<Rightarrow> Inl e
                   | Inr ds1 \<Rightarrow> dao_ds_put_hex_dump_loop alloc ds1 (drop n buf) ((ofs + n) mod 2 ^ 64) ascii skip_zero_lines))"
  by pat_completeness auto
termination
  by (relation "measure (\<lambda>(alloc, ds, buf, ofs, ascii, skip). length buf)") (auto split: if_splits)

declare dao_ds_put_hex_dump_loop.simps [simp del]

definition dao_ds_put_hex_dump :: "alloc \<Rightarrow> dao_ds \<Rightarrow> u8 list \<Rightarrow> nat \<Rightarrow> bool \<Rightarrow> fault + dao_ds" where
  "dao_ds_put_hex_dump alloc ds buf ofs ascii = dao_ds_put_hex_dump_loop alloc ds buf ofs ascii False"

definition dao_ds_put_sparse_hex_dump :: "alloc \<Rightarrow> dao_ds \<Rightarrow> u8 list \<Rightarrow> nat \<Rightarrow> bool \<Rightarrow> fault + dao_ds" where
  "dao_ds_put_sparse_hex_dump alloc ds buf ofs ascii = dao_ds_put_hex_dump_loop alloc ds buf ofs ascii True"

end
