(* ===== verification/Dstring_Facts.thy ===== *)
theory Dstring_Facts
  imports Dstring
begin

text \<open>
  The contract of the dynamic strings: an operation that appends keeps the buffer well formed, appends its
  text to the contents and terminates it.  The locale \<open>appender\<close> states the contract and lifts it to
  sequences of operations; it is interpreted for the three ways of appending.
\<close>

section \<open>Well-formed buffers\<close>

definition alloc_ok :: "alloc \<Rightarrow> bool" where
  "alloc_ok alloc \<longleftrightarrow> (\<forall>n. \<exists>fresh. alloc n = Some fresh \<and> length fresh = n)"

definition ds_ok :: "dao_ds \<Rightarrow> bool" where
  "ds_ok ds = (case string ds of
      None \<Rightarrow> ds_length ds = 0 \<and> allocated ds = 0
    | Some bs \<Rightarrow> length bs = allocated ds + 1 \<and> ds_length ds \<le> allocated ds)"

definition ds_text :: "dao_ds \<Rightarrow> u8 list" where
  "ds_text ds = (case string ds of None \<Rightarrow> [] | Some bs \<Rightarrow> take (ds_length ds) bs)"

definition terminated :: "dao_ds \<Rightarrow> bool" where
  "terminated ds = (case string ds of None \<Rightarrow> False | Some bs \<Rightarrow> ds_length ds < length bs \<and> bs ! ds_length ds = 0)"

definition appended :: "dao_ds \<Rightarrow> u8 list \<Rightarrow> dao_ds \<Rightarrow> bool" where
  "appended ds s ds' \<longleftrightarrow> ds_ok ds' \<and> ds_text ds' = ds_text ds @ s \<and> terminated ds'"

lemma ds_ok_length: "ds_ok ds \<Longrightarrow> length (ds_text ds) = ds_length ds"
  by (auto simp: ds_ok_def ds_text_def split: option.splits)

lemma reserve_ok:
  assumes "alloc_ok alloc" "ds_ok ds"
  obtains bs where "string (dao_ds_reserve alloc ds m) = Some bs" "ds_ok (dao_ds_reserve alloc ds m)"
    "m \<le> allocated (dao_ds_reserve alloc ds m)" "ds_length (dao_ds_reserve alloc ds m) = ds_length ds"
    "ds_text (dao_ds_reserve alloc ds m) = ds_text ds"
proof (cases "m > allocated ds \<or> string ds = None")
  case False
  then have "dao_ds_reserve alloc ds m = ds" by (auto simp: dao_ds_reserve_def)
  then show thesis using that assms(2) False by auto
next
  case True
  define a where "a = max 8 (allocated ds + max m (allocated ds))"
  obtain fresh where f: "alloc (Suc a) = Some fresh" "length fresh = Suc a" using assms(1) by (auto simp: alloc_ok_def)
  have r: "dao_ds_reserve alloc ds m = ds\<lparr>allocated := a, string := realloc alloc (string ds) (a + 1)\<rparr>"
    using True by (simp add: dao_ds_reserve_def a_def Let_def)
  have le: "allocated ds \<le> a" "m \<le> a" by (auto simp: a_def)
  show thesis
  proof (cases "string ds")
    case None
    then show thesis using f le assms(2) that unfolding r by (auto simp: realloc_def ds_ok_def ds_text_def)
  next
    case (Some bs)
    then have len: "length bs = allocated ds + 1" "ds_length ds \<le> allocated ds" using assms(2) by (simp_all add: ds_ok_def)
    have "realloc alloc (string ds) (a + 1) = Some (bs @ drop (length bs) fresh)"
      using Some f len le by (simp add: realloc_def)
    then show thesis using f le len Some that unfolding r by (auto simp: ds_ok_def ds_text_def)
  qed
qed

lemma ds_stores_ok:
  "string ds = Some bs \<Longrightarrow> i + length cs \<le> length bs \<Longrightarrow>
   ds_stores ds i cs = Inr (ds\<lparr>string := Some (take i bs @ cs @ drop (i + length cs) bs)\<rparr>)"
proof (induction cs arbitrary: ds bs i)
  case (Cons c cs)
  then have "ds_stores ds i (c # cs) = ds_stores (ds\<lparr>string := Some (bs[i := c])\<rparr>) (i + 1) cs"
    by (simp add: ds_store_def)
  also have "\<dots> = Inr (ds\<lparr>string := Some (take (i + 1) (bs[i := c]) @ cs @ drop (i + 1 + length cs) (bs[i := c]))\<rparr>)"
    using Cons.prems by (subst Cons.IH [of _ "bs[i := c]"]) simp_all
  also have "take (i + 1) (bs[i := c]) = take i bs @ [c]"
    using Cons.prems by (simp add: take_Suc_conv_app_nth)
  finally show ?case using Cons.prems by simp
qed simp

lemma put_uninit_ok:
  assumes "alloc_ok alloc" "ds_ok ds"
  obtains ds1 bs where "dao_ds_put_uninit alloc ds n = Inr (ds1, ds_length ds)" "string ds1 = Some bs"
    "ds_length ds1 = ds_length ds + n" "ds_length ds + n < length bs" "bs ! (ds_length ds + n) = 0"
    "length bs = allocated ds1 + 1" "take (ds_length ds) bs = ds_text ds"
proof -
  let ?r = "dao_ds_reserve alloc ds (ds_length ds + n)"
  obtain bs where r: "string ?r = Some bs" "ds_ok ?r" "ds_length ds + n \<le> allocated ?r"
    "ds_length ?r = ds_length ds" "ds_text ?r = ds_text ds"
    using reserve_ok [OF assms] by metis
  then have len: "length bs = allocated ?r + 1" "take (ds_length ds) bs = ds_text ds"
    by (simp_all add: ds_ok_def ds_text_def)
  let ?k = "ds_length ds + n"
  let ?d = "?r\<lparr>ds_length := ?k, string := Some (bs[?k := 0])\<rparr>"
  have "dao_ds_put_uninit alloc ds n = Inr (?d, ds_length ds)"
    using r len by (simp add: dao_ds_put_uninit_def ds_store_def Let_def)
  then show thesis using that [of ?d "bs[?k := 0]"] r len by simp
qed

lemma put_buffer_ok:
  assumes "alloc_ok alloc" "ds_ok ds"
  shows "\<exists>ds'. dao_ds_put_buffer alloc ds s = Inr ds' \<and> appended ds s ds'"
proof -
  obtain ds1 bs where u: "dao_ds_put_uninit alloc ds (length s) = Inr (ds1, ds_length ds)" "string ds1 = Some bs"
    "ds_length ds1 = ds_length ds + length s" "ds_length ds + length s < length bs"
    "bs ! (ds_length ds + length s) = 0" "length bs = allocated ds1 + 1" "take (ds_length ds) bs = ds_text ds"
    using put_uninit_ok [OF assms] by metis
  let ?d = "ds1\<lparr>string := Some (ds_text ds @ s @ drop (ds_length ds + length s) bs)\<rparr>"
  have "ds_stores ds1 (ds_length ds) s = Inr ?d"
    using ds_stores_ok [OF u(2), of "ds_length ds" s] u by simp
  then have "dao_ds_put_buffer alloc ds s = Inr ?d" using u(1) by (simp add: dao_ds_put_buffer_def)
  moreover have "appended ds s ?d"
    using u ds_ok_length [OF assms(2)] by (auto simp: appended_def ds_ok_def terminated_def nth_append)
      (simp add: ds_text_def)
  ultimately show ?thesis by blast
qed

lemma put_char_ok:
  assumes "alloc_ok alloc" "ds_ok ds"
  shows "\<exists>ds'. dao_ds_put_char alloc ds c = Inr ds' \<and> appended ds [c] ds'"
proof (cases "ds_length ds < allocated ds")
  case True
  then obtain bs where b: "string ds = Some bs" "length bs = allocated ds + 1"
    using assms(2) by (cases "string ds") (auto simp: ds_ok_def)
  let ?n = "ds_length ds"
  let ?d = "ds\<lparr>string := Some (bs[?n := c, ?n + 1 := 0]), ds_length := ?n + 1\<rparr>"
  have "dao_ds_put_char alloc ds c = Inr ?d"
    using True b by (simp add: dao_ds_put_char_def ds_store_def Let_def)
  moreover have "appended ds [c] ?d"
    using True b by (simp add: appended_def ds_ok_def terminated_def ds_text_def take_Suc_conv_app_nth)
  ultimately show ?thesis by blast
next
  case False
  have "ds_stores d p [c] = ds_store d p c" for d p by (cases "ds_store d p c") simp_all
  then have "dao_ds_put_char alloc ds c = dao_ds_put_buffer alloc ds [c]"
    using False by (simp add: dao_ds_put_char_def dao_ds_put_char_grow_def dao_ds_put_buffer_def)
  then show ?thesis using put_buffer_ok [OF assms] by simp
qed

lemma vsnprintf_fits:
  assumes "string ds = Some bs" "ds_ok ds" "length s \<le> allocated ds - ds_length ds"
  shows "\<exists>d. vsnprintf_at ds (ds_length ds) (allocated ds - ds_length ds + 1) s = Inr d \<and>
    appended ds s (d\<lparr>ds_length := ds_length d + length s\<rparr>)"
proof -
  let ?n = "ds_length ds"
  have len: "length bs = allocated ds + 1" "?n \<le> allocated ds" using assms(1,2) by (simp_all add: ds_ok_def)
  let ?d = "ds\<lparr>string := Some (take ?n bs @ (s @ [0]) @ drop (?n + length (s @ [0])) bs)\<rparr>"
  have "ds_stores ds ?n (s @ [0]) = Inr ?d" using assms len by (intro ds_stores_ok) simp_all
  then have "vsnprintf_at ds ?n (allocated ds - ?n + 1) s = Inr ?d" using assms(3) by (simp add: vsnprintf_at_def)
  moreover have "appended ds s (?d\<lparr>ds_length := ds_length ?d + length s\<rparr>)"
    using assms len by (auto simp: appended_def ds_ok_def terminated_def ds_text_def nth_append)
  ultimately show ?thesis by blast
qed

lemma vsnprintf_keeps:
  assumes "string ds = Some bs" "ds_ok ds" "allocated ds - ds_length ds \<le> length s"
  shows "\<exists>d. vsnprintf_at ds (ds_length ds) (allocated ds - ds_length ds + 1) s = Inr d \<and>
    ds_ok d \<and> ds_text d = ds_text ds \<and> ds_length d = ds_length ds"
proof -
  let ?n = "ds_length ds"
  let ?s = "take (allocated ds - ?n) s @ [0]"
  have len: "length bs = allocated ds + 1" "?n \<le> allocated ds" using assms(1,2) by (simp_all add: ds_ok_def)
  have "ds_stores ds ?n ?s = Inr (ds\<lparr>string := Some (take ?n bs @ ?s @ drop (?n + length ?s) bs)\<rparr>)"
    using assms len by (intro ds_stores_ok) simp_all
  then show ?thesis using assms len by (simp add: vsnprintf_at_def ds_ok_def ds_text_def)
qed

lemma put_format_ok:
  assumes "alloc_ok alloc" "ds_ok ds"
  shows "\<exists>ds'. dao_ds_put_format alloc ds s = Inr ds' \<and> appended ds s ds'"
proof -
  have second: "\<exists>d'. rbind (vsnprintf_at (dao_ds_reserve alloc d (ds_length d + length s))
        (ds_length (dao_ds_reserve alloc d (ds_length d + length s)))
        (allocated (dao_ds_reserve alloc d (ds_length d + length s)) -
         ds_length (dao_ds_reserve alloc d (ds_length d + length s)) + 1) s)
      (\<lambda>x. if length s < allocated (dao_ds_reserve alloc d (ds_length d + length s)) -
            ds_length (dao_ds_reserve alloc d (ds_length d + length s)) + 1
          then Inr (x\<lparr>ds_length := ds_length x + length s\<rparr>) else Inl AssertFailed) = Inr d' \<and> appended ds s d'"
    if d: "ds_ok d" "ds_text d = ds_text ds" for d
  proof -
    let ?r = "dao_ds_reserve alloc d (ds_length d + length s)"
    obtain bs where r: "string ?r = Some bs" "ds_ok ?r" "ds_length d + length s \<le> allocated ?r"
      "ds_length ?r = ds_length d" "ds_text ?r = ds_text d"
      using reserve_ok [OF assms(1) d(1)] by metis
    then have fit: "length s \<le> allocated ?r - ds_length ?r" by simp
    from vsnprintf_fits [OF r(1,2) fit] obtain x where
      "vsnprintf_at ?r (ds_length ?r) (allocated ?r - ds_length ?r + 1) s = Inr x"
      "appended ?r s (x\<lparr>ds_length := ds_length x + length s\<rparr>)" by blast
    then show ?thesis using fit d(2) r(5) by (simp add: appended_def)
  qed
  show ?thesis
  proof (cases "string ds")
    case None
    then show ?thesis using second [OF assms(2) refl]
      by (simp add: dao_ds_put_format_def dao_ds_put_format_valist_def vsnprintf_at_def Let_def)
  next
    case (Some bs)
    show ?thesis
    proof (cases "length s < allocated ds - ds_length ds + 1")
      case True
      then have "length s \<le> allocated ds - ds_length ds" by simp
      from vsnprintf_fits [OF Some assms(2) this] True Some show ?thesis
        by (auto simp: dao_ds_put_format_def dao_ds_put_format_valist_def Let_def)
    next
      case False
      then have "allocated ds - ds_length ds \<le> length s" by simp
      from vsnprintf_keeps [OF Some assms(2) this] obtain d where
        d: "vsnprintf_at ds (ds_length ds) (allocated ds - ds_length ds + 1) s = Inr d" "ds_ok d" "ds_text d = ds_text ds"
        by blast
      then show ?thesis using second [OF d(2,3)] False Some
        by (simp add: dao_ds_put_format_def dao_ds_put_format_valist_def Let_def)
    qed
  qed
qed

section \<open>Sequences of appends\<close>

text \<open>
  The contract of an operation \<open>put\<close> that appends the text \<open>out x\<close> of its argument, and what follows for
  a sequence of such operations.
\<close>

locale appender =
  fixes ok :: "'a \<Rightarrow> 'b \<Rightarrow> bool" and contents :: "'b \<Rightarrow> u8 list" and put :: "'a \<Rightarrow> 'b \<Rightarrow> 'x \<Rightarrow> fault + 'b"
    and out :: "'x \<Rightarrow> u8 list"
  assumes put_appends: "ok a b \<Longrightarrow> \<exists>b'. put a b x = Inr b' \<and> ok a b' \<and> contents b' = contents b @ out x"
begin

primrec put_list :: "'a \<Rightarrow> 'b \<Rightarrow> 'x list \<Rightarrow> fault + 'b" where
  "put_list a b [] = Inr b"
| "put_list a b (x # xs) = rbind (put a b x) (\<lambda>b. put_list a b xs)"

lemma put_list_appends:
  "ok a b \<Longrightarrow> \<exists>b'. put_list a b xs = Inr b' \<and> ok a b' \<and> contents b' = contents b @ concat (map out xs)"
proof (induction xs arbitrary: b)
  case (Cons x xs)
  from put_appends [OF Cons.prems, of x] obtain b1 where
    "put a b x = Inr b1" "ok a b1" "contents b1 = contents b @ out x" by blast
  with Cons.IH [of b1] show ?case by auto
qed simp

end

definition ds_state :: "alloc \<Rightarrow> dao_ds \<Rightarrow> bool" where
  "ds_state alloc ds \<longleftrightarrow> alloc_ok alloc \<and> ds_ok ds"

interpretation buffers: appender ds_state ds_text dao_ds_put_buffer "\<lambda>s. s"
  using put_buffer_ok by unfold_locales (fastforce simp: ds_state_def appended_def)

interpretation chars: appender ds_state ds_text dao_ds_put_char "\<lambda>c. [c]"
  using put_char_ok by unfold_locales (fastforce simp: ds_state_def appended_def)

interpretation formats: appender ds_state ds_text dao_ds_put_format "\<lambda>s. s"
  using put_format_ok by unfold_locales (fastforce simp: ds_state_def appended_def)

lemma put_chars_list: "put_chars alloc ds cs = chars.put_list alloc ds cs"
  by (induction cs arbitrary: ds) simp_all

lemma put_formats_list: "put_formats alloc ds os = formats.put_list alloc ds os"
  by (induction os arbitrary: ds) simp_all

lemma put_chars_ok:
  "ds_state alloc ds \<Longrightarrow> \<exists>ds'. put_chars alloc ds cs = Inr ds' \<and> ds_state alloc ds' \<and> ds_text ds' = ds_text ds @ cs"
  using chars.put_list_appends [of alloc ds cs] by (simp add: put_chars_list)

lemma put_formats_ok:
  "ds_state alloc ds \<Longrightarrow>
   \<exists>ds'. put_formats alloc ds os = Inr ds' \<and> ds_state alloc ds' \<and> ds_text ds' = ds_text ds @ concat os"
  using formats.put_list_appends [of alloc ds os] by (simp add: put_formats_list)

end
