(* ===== verification/Dstring_Text.thy ===== *)
theory Dstring_Text
  imports Dstring_Facts
begin

text \<open>
  What the text operations of the dynamic strings read and write: formatted output is appended whole,
  UTF-8 is decoded to the code point it was made from, and lines are read without comments and blanks.
\<close>

section \<open>UTF-8\<close>

text \<open>The decoding rules of UTF-8, one case per sequence length.\<close>

definition cont :: "u8 \<Rightarrow> int option" where
  "cont b = (if 0x80 \<le> uint b \<and> uint b < 0xc0 then Some (uint b - 0x80) else None)"

fun utf8_decode :: "u8 list \<Rightarrow> int option" where
  "utf8_decode [a] = (if uint a < 0x80 then Some (uint a) else None)"
| "utf8_decode [a, b] =
     (case cont b of
        Some y \<Rightarrow> if 0xc0 \<le> uint a \<and> uint a < 0xe0 then Some ((uint a - 0xc0) * 64 + y) else None
      | None \<Rightarrow> None)"
| "utf8_decode [a, b, c] =
     (case (cont b, cont c) of
        (Some y, Some z) \<Rightarrow>
          if 0xe0 \<le> uint a \<and> uint a < 0xf0 then Some ((uint a - 0xe0) * 4096 + y * 64 + z) else None
      | _ \<Rightarrow> None)"
| "utf8_decode [a, b, c, d] =
     (case (cont b, cont c, cont d) of
        (Some x, Some y, Some z) \<Rightarrow>
          if 0xf0 \<le> uint a \<and> uint a < 0xf8
          then Some ((uint a - 0xf0) * 262144 + x * 4096 + y * 64 + z) else None
      | _ \<Rightarrow> None)"
| "utf8_decode _ = None"

lemma or_tag:
  fixes y :: int
  assumes "0 \<le> y"
  shows "y < 64 \<Longrightarrow> 0xc0 OR y = 0xc0 + y" "y < 32 \<Longrightarrow> 0xe0 OR y = 0xe0 + y"
    "y < 16 \<Longrightarrow> 0xf0 OR y = 0xf0 + y" "y < 128 \<Longrightarrow> 0x80 OR y = 0x80 + y"
  using push_bit_or_add [OF assms, of 6 3] push_bit_or_add [OF assms, of 5 7]
    push_bit_or_add [OF assms, of 4 15] push_bit_or_add [OF assms, of 7 1]
  by (simp_all add: push_bit_eq_mult)

lemma and_3f: "(x :: int) AND 0x3f = x mod 64"
proof -
  have "x AND 0x3f = take_bit 6 x" by (simp add: take_bit_eq_mask mask_eq_exp_minus_1)
  then show ?thesis by (simp add: take_bit_eq_mod)
qed

lemma uint_of_int_small: "0 \<le> x \<Longrightarrow> x < 256 \<Longrightarrow> uint (of_int x :: u8) = x"
  by (simp add: unsigned_of_int take_bit_int_eq_self)

lemma byte_tag:
  assumes "0 \<le> y"
  shows "y < 32 \<Longrightarrow> uint (of_int (0xc0 OR y) :: u8) = 0xc0 + y" "y < 16 \<Longrightarrow> uint (of_int (0xe0 OR y) :: u8) = 0xe0 + y"
    "y < 8 \<Longrightarrow> uint (of_int (0xf0 OR y) :: u8) = 0xf0 + y"
  using assms by (subst or_tag; simp only: uint_of_int_small)+

lemma cont_tag: "cont (of_int (0x80 OR (x AND 0x3f))) = Some (x mod 64)"
proof -
  have m: "0 \<le> x mod 64" "x mod 64 < 64" by simp_all
  then have "0x80 OR (x AND 0x3f) = 0x80 + x mod 64" unfolding and_3f by (intro or_tag) simp_all
  then have "uint (of_int (0x80 OR (x AND 0x3f)) :: u8) = 0x80 + x mod 64"
    using m by (simp only: uint_of_int_small)
  then show ?thesis using m by (simp add: cont_def)
qed

lemma div_split:
  fixes u :: int
  shows "u div 64 * 64 + u mod 64 = u" "u div 4096 * 4096 + u div 64 mod 64 * 64 + u mod 64 = u"
    "u div 262144 * 262144 + u div 4096 mod 64 * 4096 + u div 64 mod 64 * 64 + u mod 64 = u"
proof -
  have d: "u div 4096 = u div 64 div 64" "u div 262144 = u div 4096 div 64"
    using zdiv_zmult2_eq [of 64 u 64] zdiv_zmult2_eq [of 64 u 4096] by simp_all
  have s: "x div 64 * 64 + x mod 64 = x" for x :: int by simp
  show "u div 64 * 64 + u mod 64 = u" by (rule s)
  show two: "u div 4096 * 4096 + u div 64 mod 64 * 64 + u mod 64 = u" using s [of "u div 64"] s [of u] d(1) by linarith
  show "u div 262144 * 262144 + u div 4096 mod 64 * 4096 + u div 64 mod 64 * 64 + u mod 64 = u"
    using s [of "u div 4096"] two d(2) by linarith
qed

lemma utf8_two:
  assumes "0x7f < uc" "uc \<le> 0x7ff"
  shows "utf8_decode (utf8_bytes uc) = Some uc"
proof -
  have l: "uc div 64 < 32" "0 \<le> uc div 64" using assms by linarith+
  have u: "uint (of_int (0xc0 OR drop_bit 6 uc) :: u8) = 0xc0 + uc div 64"
    using byte_tag(1) [of "uc div 64"] l by (simp add: drop_bit_eq_div)
  have "utf8_bytes uc = [of_int (0xc0 OR drop_bit 6 uc), of_int (0x80 OR (uc AND 0x3f))]"
    using assms by (subst utf8_bytes.simps) (simp only: if_False if_True not_le [symmetric] simp_thms)
  then show ?thesis using l div_split(1) [of uc]
    by (simp only: utf8_decode.simps cont_tag u option.case prod.case if_True) simp
qed


lemma utf8_three:
  assumes "0x7ff < uc" "uc \<le> 0xffff"
  shows "utf8_decode (utf8_bytes uc) = Some uc"
proof -
  have l: "uc div 4096 < 16" "0 \<le> uc div 4096" using assms by linarith+
  have u: "uint (of_int (0xe0 OR drop_bit 12 uc) :: u8) = 0xe0 + uc div 4096"
    using byte_tag(2) [of "uc div 4096"] l by (simp add: drop_bit_eq_div)
  have d: "drop_bit 6 uc mod 64 = uc div 64 mod 64" by (simp add: drop_bit_eq_div)
  have "\<not> uc \<le> 0x7f" using assms(1) by linarith
  then have "utf8_bytes uc = [of_int (0xe0 OR drop_bit 12 uc), of_int (0x80 OR (drop_bit 6 uc AND 0x3f)),
      of_int (0x80 OR (uc AND 0x3f))]"
    using assms by (subst utf8_bytes.simps) (simp only: if_False if_True not_le [symmetric] simp_thms)
  then show ?thesis using l div_split(2) [of uc]
    by (simp only: utf8_decode.simps cont_tag u d option.case prod.case if_True) simp
qed

lemma utf8_four:
  assumes "0xffff < uc" "uc \<le> 0x10ffff"
  shows "utf8_decode (utf8_bytes uc) = Some uc"
proof -
  have "uc div 262144 \<le> 0x10ffff div 262144" "0 div 262144 \<le> uc div 262144"
    using assms by (intro zdiv_mono1; simp)+
  then have l: "uc div 262144 < 8" "0 \<le> uc div 262144" by simp_all
  have u: "uint (of_int (0xf0 OR drop_bit 18 uc) :: u8) = 0xf0 + uc div 262144"
    using byte_tag(3) [of "uc div 262144"] l by (simp add: drop_bit_eq_div)
  have d: "drop_bit 6 uc mod 64 = uc div 64 mod 64" "drop_bit 12 uc mod 64 = uc div 4096 mod 64"
    by (simp_all add: drop_bit_eq_div)
  have "\<not> uc \<le> 0x7f" "\<not> uc \<le> 0x7ff" using assms(1) by linarith+
  then have "utf8_bytes uc = [of_int (0xf0 OR drop_bit 18 uc), of_int (0x80 OR (drop_bit 12 uc AND 0x3f)),
      of_int (0x80 OR (drop_bit 6 uc AND 0x3f)), of_int (0x80 OR (uc AND 0x3f))]"
    using assms by (subst utf8_bytes.simps) (simp only: if_False if_True not_le [symmetric] simp_thms)
  moreover define p q r s where "p = uc div 262144" and "q = uc div 4096 mod 64"
    and "r = uc div 64 mod 64" and "s = uc mod 64"
  ultimately have "utf8_decode (utf8_bytes uc) =
      (if 0xf0 \<le> 0xf0 + p \<and> 0xf0 + p < 0xf8 then Some ((0xf0 + p - 0xf0) * 262144 + q * 4096 + r * 64 + s) else None)"
    by (simp only: utf8_decode.simps cont_tag u d option.case prod.case)
  moreover have "p * 262144 + q * 4096 + r * 64 + s = uc" unfolding p_def q_def r_def s_def by (rule div_split)
  moreover have "0 \<le> p" "p < 8" using l by (simp_all only: p_def)
  ultimately show ?thesis by simp
qed

lemma utf8_round:
  assumes "0 \<le> uc" "uc \<le> 0x10ffff"
  shows "utf8_decode (utf8_bytes uc) = Some uc"
proof -
  consider "uc \<le> 0x7f" | "0x7f < uc" "uc \<le> 0x7ff" | "0x7ff < uc" "uc \<le> 0xffff" | "0xffff < uc"
    by linarith
  then show ?thesis
  proof cases
    case 1
    then have "utf8_bytes uc = [of_int uc]" by (subst utf8_bytes.simps) (simp only: if_True)
    then show ?thesis using 1 assms(1) by (simp add: uint_of_int_small)
  qed (use utf8_two utf8_three utf8_four assms in blast)+
qed

lemma utf8_invalid: "0x10ffff < uc \<Longrightarrow> utf8_bytes uc = utf8_bytes 0xfffd"
proof -
  assume "0x10ffff < uc"
  then have "\<not> uc \<le> 0x7f" "\<not> uc \<le> 0x7ff" "\<not> uc \<le> 0xffff" "\<not> uc \<le> 0x10ffff" by linarith+
  then show ?thesis by (subst utf8_bytes.simps) (simp only: if_False)
qed


section \<open>Lines\<close>

lemma get_line_loop_ok:
  assumes "10 \<notin> set l" "ds_state alloc ds"
  shows "\<exists>ds'. get_line_loop alloc ds (l @ 10 # rest) = Inr (0, ds', rest) \<and> ds_state alloc ds' \<and> ds_text ds' = ds_text ds @ l"
  using assms
proof (induction l arbitrary: ds)
  case (Cons c l)
  from chars.put_appends [OF Cons.prems(2), of c] obtain d where
    "dao_ds_put_char alloc ds c = Inr d" "ds_state alloc d" "ds_text d = ds_text ds @ [c]" by blast
  with Cons.IH [of d] Cons.prems show ?case by auto
qed simp

lemma get_line_ok:
  assumes "10 \<notin> set l" "ds_state alloc ds"
  shows "\<exists>ds'. dao_ds_get_line alloc ds (l @ 10 # rest) = Inr (0, ds', rest) \<and> ds_state alloc ds' \<and> ds_text ds' = l"
proof -
  have "ds_state alloc (dao_ds_clear ds)" "ds_text (dao_ds_clear ds) = []"
    using assms(2) by (auto simp: ds_state_def ds_ok_def dao_ds_clear_def ds_text_def split: option.splits)
  then show ?thesis using get_line_loop_ok [OF assms(1), of alloc "dao_ds_clear ds" rest]
    by (simp add: dao_ds_get_line_def)
qed

lemma get_line_eof:
  assumes "ds_state alloc ds"
  shows "\<exists>ds'. dao_ds_get_line alloc ds [] = Inr (- 1, ds', []) \<and> ds_state alloc ds'"
  using assms by (auto simp: dao_ds_get_line_def dao_ds_clear_def ds_state_def ds_ok_def split: option.splits)

lemma cstr_ok:
  assumes "ds_state alloc ds" "0 \<notin> set (ds_text ds)"
  shows "\<exists>ds' bs. dao_ds_cstr alloc ds = Inr ds' \<and> ds_state alloc ds' \<and> string ds' = Some bs \<and>
    takeWhile (\<lambda>c. c \<noteq> 0) bs = ds_text ds"
proof -
  let ?r = "if string ds = None then dao_ds_reserve alloc ds 0 else ds"
  have "\<exists>bs. string ?r = Some bs \<and> ds_ok ?r \<and> ds_text ?r = ds_text ds"
  proof (cases "string ds")
    case None
    obtain bs where "string (dao_ds_reserve alloc ds 0) = Some bs" "ds_ok (dao_ds_reserve alloc ds 0)"
      "ds_text (dao_ds_reserve alloc ds 0) = ds_text ds"
      by (rule reserve_ok [of alloc ds 0]) (use assms(1) in \<open>auto simp: ds_state_def\<close>)
    then show ?thesis using None by simp
  qed (use assms(1) in \<open>auto simp: ds_state_def\<close>)
  then obtain bs where r: "string ?r = Some bs" "ds_ok ?r" "ds_text ?r = ds_text ds" by blast
  let ?n = "ds_length ?r"
  have len: "length bs = allocated ?r + 1" "?n \<le> allocated ?r" "take ?n bs = ds_text ds"
    using r by (auto simp: ds_ok_def ds_text_def)
  let ?bs = "bs[?n := 0]"
  have split: "?bs = ds_text ds @ 0 # drop (Suc ?n) bs"
    using len upd_conv_take_nth_drop [of ?n bs 0] by simp
  have "dao_ds_cstr alloc ds = Inr (?r\<lparr>string := Some ?bs\<rparr>)"
    using r(1) len unfolding dao_ds_cstr_def Let_def ds_store_def by simp
  moreover have "takeWhile (\<lambda>c. c \<noteq> 0) ?bs = ds_text ds"
    unfolding split using assms(2) by (simp add: takeWhile_append)
  moreover have "ds_state alloc (?r\<lparr>string := Some ?bs\<rparr>)"
    using assms(1) r(1,2) len by (simp add: ds_state_def ds_ok_def)
  ultimately show ?thesis by (intro exI [of _ "?r\<lparr>string := Some ?bs\<rparr>"] exI [of _ ?bs]) simp
qed

definition strip :: "u8 list \<Rightarrow> u8 list" where
  "strip l = takeWhile (\<lambda>c. c \<noteq> 35) l"

lemma cut_comment_ok:
  assumes "ds_state alloc ds" "string ds = Some bs" "takeWhile (\<lambda>c. c \<noteq> 0) bs = l"
  shows "ds_state alloc (cut_comment ds)" "c_str (cut_comment ds) = strip l"
proof -
  let ?i = "length (strip l)"
  have c: "c_str ds = l" using assms(2,3) by (simp add: c_str_def)
  have cut: "cut_comment ds = (if ?i < length l then ds\<lparr>string := Some (bs[?i := 0])\<rparr> else ds)"
    using assms(2) by (simp add: cut_comment_def c strip_def Let_def)
  have len: "length l \<le> length bs" using assms(3) by (metis length_takeWhile_le)
  show "ds_state alloc (cut_comment ds)" using assms(1,2) by (auto simp: cut ds_state_def ds_ok_def)
  show "c_str (cut_comment ds) = strip l"
  proof (cases "?i < length l")
    case True
    have "take ?i bs = take ?i l" using True assms(3) by (metis length_takeWhile_le less_imp_le takeWhile_eq_take take_take min.absorb1)
    then have "take ?i bs = strip l" by (simp add: strip_def takeWhile_eq_take [symmetric])
    moreover have "0 \<notin> set (strip l)" using assms(3) by (auto simp: strip_def dest: set_takeWhileD)
    moreover have "bs[?i := 0] = take ?i bs @ 0 # drop (Suc ?i) bs"
      using True len by (intro upd_conv_take_nth_drop) simp
    ultimately have "takeWhile (\<lambda>c. c \<noteq> 0) (bs[?i := 0]) = strip l" by (simp add: takeWhile_append)
    then show ?thesis using True by (simp add: cut c_str_def)
  next
    case False
    then have "strip l = l" unfolding strip_def by (metis not_less take_all takeWhile_eq_take)
    then show ?thesis using False c by (simp add: cut)
  qed
qed

lemma line_step:
  assumes "10 \<notin> set l" "0 \<notin> set l" "ds_state alloc ds"
  shows "\<exists>ds1 ds2. dao_ds_get_line alloc ds (l @ 10 # rest) = Inr (0, ds1, rest) \<and> dao_ds_cstr alloc ds1 = Inr ds2 \<and>
    ds_state alloc (cut_comment ds2) \<and> c_str (cut_comment ds2) = strip l"
proof -
  obtain ds1 where a: "dao_ds_get_line alloc ds (l @ 10 # rest) = Inr (0, ds1, rest)" "ds_state alloc ds1" "ds_text ds1 = l"
    using get_line_ok [OF assms(1,3)] by blast
  obtain ds2 bs where b: "dao_ds_cstr alloc ds1 = Inr ds2" "ds_state alloc ds2" "string ds2 = Some bs"
    "takeWhile (\<lambda>c. c \<noteq> 0) bs = l"
    using cstr_ok [OF a(2)] a(3) assms(2) by auto
  show ?thesis using a(1) b(1) cut_comment_ok [OF b(2,3,4)] by blast
qed


definition file_of :: "u8 list list \<Rightarrow> u8 list" where
  "file_of ls = concat (map (\<lambda>l. l @ [10]) ls)"

definition skipped :: "u8 list \<Rightarrow> bool" where
  "skipped l \<longleftrightarrow> \<not> not_blank (strip l)"

lemma preprocessed_line_ok:
  assumes "\<forall>l \<in> set ls. 10 \<notin> set l \<and> 0 \<notin> set l" "ds_state alloc ds"
  shows "\<exists>ds'. ds_state alloc ds' \<and> dao_ds_get_preprocessed_line alloc ds (file_of ls) n =
    (case dropWhile skipped ls of
       [] \<Rightarrow> Inr (- 1, ds', [], n + length ls)
     | l # rest \<Rightarrow> Inr (0, ds', file_of rest, n + (length ls - length rest))) \<and>
    (dropWhile skipped ls \<noteq> [] \<longrightarrow> c_str ds' = strip (hd (dropWhile skipped ls)))"
  using assms
proof (induction ls arbitrary: ds n)
  case Nil
  from get_line_eof [OF Nil.prems(2)] obtain d where
    "dao_ds_get_line alloc ds [] = Inr (- 1, d, [])" "ds_state alloc d" by blast
  then show ?case by (intro exI [of _ d]) (simp add: dao_ds_get_preprocessed_line.simps [of alloc ds] file_of_def)
next
  case (Cons l ls)
  have f: "file_of (l # ls) = l @ 10 # file_of ls" by (simp add: file_of_def)
  obtain ds1 ds2 where s: "dao_ds_get_line alloc ds (l @ 10 # file_of ls) = Inr (0, ds1, file_of ls)"
    "dao_ds_cstr alloc ds1 = Inr ds2" "ds_state alloc (cut_comment ds2)" "c_str (cut_comment ds2) = strip l"
    using line_step [of l alloc ds "file_of ls"] Cons.prems by auto
  have step: "dao_ds_get_preprocessed_line alloc ds (file_of (l # ls)) n =
      (if not_blank (strip l) then Inr (0, cut_comment ds2, file_of ls, n + 1)
       else dao_ds_get_preprocessed_line alloc (cut_comment ds2) (file_of ls) (n + 1))"
    unfolding f by (subst dao_ds_get_preprocessed_line.simps) (simp add: s Let_def)
  show ?case
  proof (cases "not_blank (strip l)")
    case True
    then have "dropWhile skipped (l # ls) = l # ls" by (simp add: skipped_def)
    then show ?thesis using s(3,4) True by (intro exI [of _ "cut_comment ds2"]) (simp add: step)
  next
    case False
    then have sk: "dropWhile skipped (l # ls) = dropWhile skipped ls" by (simp add: skipped_def)
    have len: "length (dropWhile skipped ls) \<le> length ls" by (rule length_dropWhile_le)
    from Cons.IH [of "cut_comment ds2" "n + 1"] Cons.prems s(3) obtain ds' where
      "ds_state alloc ds'" "dao_ds_get_preprocessed_line alloc (cut_comment ds2) (file_of ls) (n + 1) =
       (case dropWhile skipped ls of [] \<Rightarrow> Inr (- 1, ds', [], n + 1 + length ls)
        | l # rest \<Rightarrow> Inr (0, ds', file_of rest, n + 1 + (length ls - length rest)))"
      "dropWhile skipped ls \<noteq> [] \<longrightarrow> c_str ds' = strip (hd (dropWhile skipped ls))" by auto
    then show ?thesis using False len unfolding step sk
      by (intro exI [of _ ds']) (cases "dropWhile skipped ls"; simp only: list.case; simp)
  qed
qed

section \<open>Properties\<close>

text \<open>\<^verbatim>\<open>dao_ds_put_format\<close> appends the whole formatted text to any well-formed string, whether it fits or
  the buffer has to grow, never fails its assertion, and leaves the string terminated.\<close>

theorem put_format_appends:
  assumes "alloc_ok alloc" and "ds_ok ds"
  shows "\<exists>ds'. dao_ds_put_format alloc ds s = Inr ds' \<and> ds_ok ds' \<and> ds_text ds' = ds_text ds @ s \<and> terminated ds'"
  using put_format_ok [OF assms, of s] by (simp add: appended_def)

lemma null_string: "alloc_ok (\<lambda>n. Some (replicate n 255))" "ds_ok dao_ds_init" "ds_text dao_ds_init = []"
  by (simp_all add: alloc_ok_def ds_ok_def dao_ds_init_def ds_text_def)

theorem put_format_appends_witness:
  "\<exists>ds'. dao_ds_put_format (\<lambda>n. Some (replicate n 255)) dao_ds_init (replicate 40 65) = Inr ds' \<and>
     ds_text ds' = replicate 40 65"
  using put_format_appends [OF null_string(1,2), of "replicate 40 65"] null_string(3) by auto

text \<open>the bytes \<^verbatim>\<open>dao_ds_put_utf8\<close> appends for a Unicode code point decode to it, and for a number beyond
  the code points to the replacement character.\<close>

theorem put_utf8_decodes:
  assumes "ds_state alloc ds" and "0 \<le> uc"
  shows "\<exists>ds' out. dao_ds_put_utf8 alloc ds uc = Inr ds' \<and> ds_text ds' = ds_text ds @ out \<and>
    utf8_decode out = Some (if uc \<le> 0x10ffff then uc else 0xfffd)"
proof -
  have "utf8_decode (utf8_bytes uc) = Some (if uc \<le> 0x10ffff then uc else 0xfffd)"
    using utf8_round [of uc] utf8_round [of "0xfffd"] utf8_invalid [of uc] assms(2) by auto
  then show ?thesis using put_chars_ok [OF assms(1), of "utf8_bytes uc"] by (auto simp: dao_ds_put_utf8_def)
qed

theorem put_utf8_decodes_witness:
  "\<exists>ds' out. dao_ds_put_utf8 (\<lambda>n. Some (replicate n 255)) dao_ds_init 0x20ac = Inr ds' \<and> ds_text ds' = out \<and>
     utf8_decode out = Some 0x20ac"
  using put_utf8_decodes [of "\<lambda>n. Some (replicate n 255)" dao_ds_init "0x20ac"] null_string
  by (simp add: ds_state_def)

text \<open>on a file of lines, \<^verbatim>\<open>dao_ds_get_preprocessed_line\<close> skips the lines that are blank once their comment
  is cut, returns the first other line without its comment, counts the lines read, and returns \<^verbatim>\<open>EOF\<close> when there
  is none.\<close>

theorem preprocessed_line:
  assumes "\<forall>l \<in> set ls. 10 \<notin> set l \<and> 0 \<notin> set l" and "ds_state alloc ds"
  shows "\<exists>ds'. dao_ds_get_preprocessed_line alloc ds (file_of ls) n =
    (case dropWhile skipped ls of
       [] \<Rightarrow> Inr (- 1, ds', [], n + length ls)
     | l # rest \<Rightarrow> Inr (0, ds', file_of rest, n + (length ls - length rest))) \<and>
    (dropWhile skipped ls \<noteq> [] \<longrightarrow> c_str ds' = strip (hd (dropWhile skipped ls)))"
  using preprocessed_line_ok [OF assms, of n] by blast

theorem preprocessed_line_witness:
  "\<exists>ds'. dao_ds_get_preprocessed_line (\<lambda>n. Some (replicate n 255)) dao_ds_init (file_of [[32], [35, 65], [66, 35]]) 0 =
     Inr (0, ds', [], 3) \<and> c_str ds' = [66]"
proof -
  have "dropWhile skipped [[32], [35, 65], [66, 35 :: u8]] = [[66, 35]]"
    by (simp add: skipped_def not_blank_def strip_def)
  then show ?thesis
    using preprocessed_line [of "[[32], [35, 65], [66, 35 :: u8]]" "\<lambda>n. Some (replicate n 255)" dao_ds_init 0] null_string
    by (simp add: ds_state_def strip_def file_of_def numeral_3_eq_3)
qed

end
