(* ===== verification/Dstring_Hex.thy ===== *)
theory Dstring_Hex
  imports Dstring_Facts Util
begin

text \<open>
  The hexadecimal output of the dynamic strings: a number put by \<^verbatim>\<open>dao_ds_put_hex\<close> is read back by
  \<^verbatim>\<open>strtoul\<close>, a dump stays within its buffer, and a sparse dump does not.
\<close>

section \<open>Numbers\<close>

definition chars :: "u8 list \<Rightarrow> string" where
  "chars = map (\<lambda>b. char_of (unat b))"

definition be_value :: "u8 list \<Rightarrow> nat" where
  "be_value buf = foldl (\<lambda>a b. 256 * a + unat b) 0 buf"

lemma hexd_table: "list_all (\<lambda>n. char_of (unat (hexd n)) = hexc n) [0..<16]"
  by code_simp

lemma char_hexd: "n < 16 \<Longrightarrow> char_of (unat (hexd n)) = hexc n"
  using hexd_table by (simp add: list_all_iff del: upt_Suc) 

definition byte_digits :: "u8 \<Rightarrow> nat list" where
  "byte_digits c = [unat c div 16, unat c mod 16]"

definition lead_digits :: "u8 \<Rightarrow> nat list" where
  "lead_digits c = (if unat c < 16 then [unat c] else byte_digits c)"

lemma byte_less: "unat (c :: u8) < 256" "unat (c :: u8) div 16 < 16"
  using unat_less_length [of c] by simp_all

lemma to_hex_byte: "to_hex (unat (c :: u8)) = map hexd (lead_digits c)"
  using byte_less(2) [of c]
  by (simp add: to_hex.simps [of "unat c"] to_hex.simps [of "unat c div 16"] lead_digits_def byte_digits_def)

lemma fmt_02x_digits: "fmt_02x c = map hexd (byte_digits c)"
  by (simp add: fmt_02x_def to_hex_byte pad0_def lead_digits_def byte_digits_def hexd_def)

definition hex_text :: "u8 list \<Rightarrow> u8 list" where
  "hex_text buf = (case dropWhile (\<lambda>b. b = 0) buf of
      [] \<Rightarrow> [48] | v # rest \<Rightarrow> fmt_0xx v @ concat (map fmt_02x rest))"

lemma put_hex_loop_ok:
  assumes "ds_state alloc ds"
  shows "\<exists>ds'. put_hex_loop alloc ds True buf = Inr (ds', True) \<and> ds_state alloc ds' \<and>
      ds_text ds' = ds_text ds @ concat (map fmt_02x buf)"
  using assms
proof (induction buf arbitrary: ds)
  case (Cons v buf)
  from formats.put_appends [OF Cons.prems, of "fmt_02x v"] obtain d where
    "dao_ds_put_format alloc ds (fmt_02x v) = Inr d" "ds_state alloc d" "ds_text d = ds_text ds @ fmt_02x v" by blast
  with Cons.IH [of d] show ?case by auto
qed simp

lemma put_hex_ok:
  assumes "ds_state alloc ds"
  shows "\<exists>ds'. dao_ds_put_hex alloc ds buf = Inr ds' \<and> ds_state alloc ds' \<and> ds_text ds' = ds_text ds @ hex_text buf"
proof (cases "dropWhile (\<lambda>b. b = 0) buf")
  case Nil
  then have "put_hex_loop alloc ds False buf = Inr (ds, False)" by (induction buf) (auto split: if_splits)
  moreover from chars.put_appends [OF assms, of 48] obtain d where
    "dao_ds_put_char alloc ds 48 = Inr d" "ds_state alloc d" "ds_text d = ds_text ds @ [48]" by blast
  ultimately show ?thesis by (simp add: dao_ds_put_hex_def hex_text_def Nil)
next
  case (Cons v rest)
  have "put_hex_loop alloc ds False buf = put_hex_loop alloc ds False (v # rest)"
    using Cons by (induction buf) (auto split: if_splits)
  moreover have "v \<noteq> 0" using Cons hd_dropWhile [of "\<lambda>b. b = 0" buf] by simp
  moreover from formats.put_appends [OF assms, of "fmt_0xx v"] obtain d where
    d: "dao_ds_put_format alloc ds (fmt_0xx v) = Inr d" "ds_state alloc d" "ds_text d = ds_text ds @ fmt_0xx v" by blast
  moreover from put_hex_loop_ok [OF d(2), of rest] obtain d' where
    "put_hex_loop alloc d True rest = Inr (d', True)" "ds_state alloc d'" "ds_text d' = ds_text d @ concat (map fmt_02x rest)"
    by blast
  ultimately show ?thesis by (simp add: dao_ds_put_hex_def hex_text_def Cons)
qed

lemma hex_value_append: "hex_value (ds @ byte_digits c) = 256 * hex_value ds + unat c"
proof -
  have "hex_value (ds @ byte_digits c) = 256 * hex_value ds + (16 * (unat c div 16) + unat c mod 16)"
    by (simp add: hex_value_def byte_digits_def)
  then show ?thesis by simp
qed

lemma hex_value_bytes:
  "hex_value (ds @ concat (map byte_digits buf)) = foldl (\<lambda>a b. 256 * a + unat b) (hex_value ds) buf"
proof (induction buf arbitrary: ds)
  case (Cons c buf)
  then show ?case using Cons.IH [of "ds @ byte_digits c"] by (simp add: hex_value_append)
qed simp

lemma hex_value_lead: "hex_value (lead_digits c) = unat c"
  using hex_value_append [of "[]" c] by (simp add: lead_digits_def hex_value_def)

lemma be_value_dropWhile: "be_value (dropWhile (\<lambda>b. b = 0) buf) = be_value buf"
  by (induction buf) (simp_all add: be_value_def)

lemma digits_less: "\<forall>d \<in> set (lead_digits c). d < 16" "\<forall>d \<in> set (byte_digits c). d < 16"
  using byte_less [of c] by (auto simp: lead_digits_def byte_digits_def)

lemma strtoul16_0x:
  assumes "\<forall>d \<in> set ds. d < 16" "ds \<noteq> []" "hex_value ds < 2 ^ 64"
  shows "strtoul16 (''0x'' @ map hexc ds) = (int (hex_value ds), [], False)"
proof -
  have h: "starts_hex (map hexc ds)" using assms(1,2) by (cases ds) (simp_all add: starts_hex_def hexc_facts)
  have run: "hex_run 0 (map hexc ds) = (int (hex_value ds), [])"
    using hex_run_digits [OF assms(1), of "[]" 0] by (simp add: hex_value_def starts_hex_def)
  have "skip_sign (dropWhile is_space (''0x'' @ map hexc ds)) = (False, ''0x'' @ map hexc ds)"
    by (simp add: is_space_def skip_sign_def)
  moreover have "skip_0x (''0x'' @ map hexc ds) = map hexc ds" using h by (simp add: skip_0x_def)
  ultimately show ?thesis using assms(3) h by (simp add: strtoul16_def run Let_def)
qed

lemma hex_text_reads:
  assumes "be_value buf < 2 ^ 64"
  shows "strtoul16 (chars (hex_text buf)) = (int (be_value buf), [], False)"
proof (cases "dropWhile (\<lambda>b. b = 0) buf")
  case Nil
  have "be_value buf = 0" using be_value_dropWhile [of buf] unfolding Nil by (simp only: be_value_def foldl.simps)
  moreover have "strtoul16 (chars [48]) = (0, [], False)" by code_simp
  ultimately show ?thesis by (simp add: hex_text_def Nil)
next
  case (Cons v rest)
  let ?ds = "lead_digits v @ concat (map byte_digits rest)"
  have less: "\<forall>d \<in> set ?ds. d < 16" using digits_less by auto
  have c: "chars (map hexd ds) = map hexc ds" if "\<forall>d \<in> set ds. d < 16" for ds
    using that by (simp add: chars_def char_hexd)
  have "concat (map fmt_02x rest) = map hexd (concat (map byte_digits rest))"
    by (induction rest) (simp_all add: fmt_02x_digits)
  then have "hex_text buf = bytes_of ''0x'' @ map hexd ?ds" by (simp add: hex_text_def Cons fmt_0xx_def to_hex_byte)
  moreover have "chars (bytes_of ''0x'') = ''0x''" by code_simp
  ultimately have tx: "chars (hex_text buf) = ''0x'' @ map hexc ?ds"
    using c [OF less] by (simp add: chars_def)
  have val: "hex_value ?ds = be_value buf"
    using be_value_dropWhile [of buf] by (simp add: hex_value_bytes hex_value_lead Cons) (simp add: be_value_def)
  have "?ds \<noteq> []" by (simp add: lead_digits_def byte_digits_def)
  from strtoul16_0x [OF less this] show ?thesis using assms by (simp only: tx val)
qed


section \<open>Dumps\<close>

text \<open>A step that appends \<open>s\<close>, and the composition of two such steps.\<close>

definition appends :: "alloc \<Rightarrow> dao_ds \<Rightarrow> u8 list \<Rightarrow> fault + dao_ds \<Rightarrow> bool" where
  "appends alloc ds s r \<longleftrightarrow> (\<exists>d. r = Inr d \<and> ds_state alloc d \<and> ds_text d = ds_text ds @ s)"

lemma appends_bind:
  assumes "appends alloc ds s r" "\<And>d. ds_state alloc d \<Longrightarrow> appends alloc d t (f d)"
  shows "appends alloc ds (s @ t) (rbind r f)"
  using assms by (fastforce simp: appends_def)

lemma appends_steps:
  assumes "ds_state alloc ds"
  shows "appends alloc ds s (dao_ds_put_format alloc ds s)" "appends alloc ds (concat ss) (put_formats alloc ds ss)"
    "appends alloc ds s (put_chars alloc ds s)"
  using formats.put_appends [OF assms, of s] put_formats_ok [OF assms, of ss] put_chars_ok [OF assms, of s]
  by (simp_all add: appends_def)

definition chomped :: "u8 list \<Rightarrow> u8 list" where
  "chomped t = (if t \<noteq> [] \<and> last t = 32 then butlast t else t)"

lemma chomp_ok:
  assumes "ds_state alloc ds"
  shows "\<exists>b d. dao_ds_chomp ds 32 = Inr (b, d) \<and> ds_state alloc d \<and> ds_text d = chomped (ds_text ds)"
proof (cases "ds_length ds")
  case 0
  then have "ds_text ds = []" by (simp add: ds_text_def split: option.splits)
  then show ?thesis using 0 assms by (intro exI [of _ False] exI [of _ ds]) (simp add: dao_ds_chomp_def chomped_def)
next
  case (Suc n)
  with assms obtain bs where b: "string ds = Some bs" "length bs = allocated ds + 1" "Suc n \<le> allocated ds"
    by (cases "string ds") (auto simp: ds_state_def ds_ok_def)
  have t: "ds_text ds = take n bs @ [bs ! n]" using b Suc by (simp add: ds_text_def take_Suc_conv_app_nth)
  show ?thesis
  proof (cases "bs ! n = 32")
    case True
    let ?d = "ds\<lparr>ds_length := n, string := Some (bs[n := 0])\<rparr>"
    have "dao_ds_chomp ds 32 = Inr (True, ?d)" using b Suc True by (simp add: dao_ds_chomp_def ds_store_def Let_def)
    moreover have "ds_state alloc ?d" using assms b by (simp add: ds_state_def ds_ok_def)
    moreover have "ds_text ?d = chomped (ds_text ds)" unfolding t using b True by (simp add: ds_text_def chomped_def)
    ultimately show ?thesis by blast
  next
    case False
    then have "dao_ds_chomp ds 32 = Inr (False, ds)" using b Suc by (simp add: dao_ds_chomp_def)
    then show ?thesis using assms False by (intro exI [of _ False] exI [of _ ds]) (simp add: t chomped_def)
  qed
qed

text \<open>The bytes of a line that are printed one by one.\<close>

lemma put_bytes_ok:
  assumes "\<And>ds i c. ds_state alloc ds \<Longrightarrow> appends alloc ds (f i c) (put ds i c)" and "ds_state alloc ds" and "\<forall>i \<in> set is. i - start < length buf"
  shows "appends alloc ds (concat (map (\<lambda>i. f i (buf ! (i - start))) is)) (put_bytes put ds buf start is)"
  using assms(2,3)
proof (induction "is" arbitrary: ds)
  case (Cons i "is")
  have "appends alloc ds (f i (buf ! (i - start)) @ concat (map (\<lambda>i. f i (buf ! (i - start))) is))
      (rbind (put ds i (buf ! (i - start))) (\<lambda>ds. put_bytes put ds buf start is))"
    by (rule appends_bind [OF assms(1) [OF Cons(2)] Cons(1)]) (use Cons(3) in simp_all)
  then show ?case using Cons(3) by simp
qed (simp add: appends_def)

definition line_head :: "u8 list \<Rightarrow> nat \<Rightarrow> nat \<Rightarrow> nat \<Rightarrow> u8 list" where
  "line_head buf ofs start fin =
     (fmt_08jx (ofs div 16 * 16) @ bytes_of ''  '') @ concat (replicate start (bytes_of ''   '')) @
     concat (map (\<lambda>i. fmt_02x (buf ! (i - start)) @ (if i = 7 then bytes_of ''-'' else bytes_of '' '')) [start..<fin])"

definition line_ascii :: "u8 list \<Rightarrow> nat \<Rightarrow> nat \<Rightarrow> u8 list" where
  "line_ascii buf start fin =
     concat (replicate (16 - fin) (bytes_of ''   '')) @ bytes_of ''|'' @ concat (replicate start (bytes_of '' '')) @
     concat (map (\<lambda>i. [if 32 \<le> buf ! (i - start) \<and> buf ! (i - start) < 127 then buf ! (i - start) else 46]) [start..<fin]) @
     concat (replicate (16 - fin) (bytes_of '' '')) @ bytes_of ''|''"

definition line_text :: "u8 list \<Rightarrow> nat \<Rightarrow> nat \<Rightarrow> nat \<Rightarrow> bool \<Rightarrow> u8 list" where
  "line_text buf ofs start fin ascii =
     (if ascii then line_head buf ofs start fin @ line_ascii buf start fin else chomped (line_head buf ofs start fin)) @ [10]"

lemma rbind_assoc: "rbind (rbind m f) g = rbind m (\<lambda>x. rbind (f x) g)"
  by (cases m) simp_all

abbreviation put_head :: "alloc \<Rightarrow> dao_ds \<Rightarrow> u8 list \<Rightarrow> nat \<Rightarrow> nat \<Rightarrow> nat \<Rightarrow> fault + dao_ds" where
  "put_head alloc ds buf ofs start fin \<equiv>
     rbind (dao_ds_put_format alloc ds (fmt_08jx (ofs div 16 * 16) @ bytes_of ''  '')) (\<lambda>ds.
     rbind (put_formats alloc ds (replicate start (bytes_of ''   ''))) (\<lambda>ds.
     put_bytes (\<lambda>ds i c. dao_ds_put_format alloc ds (fmt_02x c @ (if i = 7 then bytes_of ''-'' else bytes_of '' ''))) ds buf start [start..<fin]))"

abbreviation put_ascii :: "alloc \<Rightarrow> dao_ds \<Rightarrow> u8 list \<Rightarrow> nat \<Rightarrow> nat \<Rightarrow> fault + dao_ds" where
  "put_ascii alloc ds buf start fin \<equiv>
     rbind (put_formats alloc ds (replicate (16 - fin) (bytes_of ''   ''))) (\<lambda>ds.
     rbind (dao_ds_put_format alloc ds (bytes_of ''|'')) (\<lambda>ds.
     rbind (put_formats alloc ds (replicate start (bytes_of '' ''))) (\<lambda>ds.
     rbind (put_bytes (\<lambda>ds i c. dao_ds_put_char alloc ds (if 32 \<le> c \<and> c < 127 then c else 46)) ds buf start [start..<fin]) (\<lambda>ds.
     rbind (put_formats alloc ds (replicate (16 - fin) (bytes_of '' ''))) (\<lambda>ds.
     dao_ds_put_format alloc ds (bytes_of ''|''))))))"

lemma hex_dump_line_split:
  "hex_dump_line alloc ds buf ofs start fin ascii =
     rbind (put_head alloc ds buf ofs start fin) (\<lambda>ds.
     rbind (if ascii then put_ascii alloc ds buf start fin else rbind (dao_ds_chomp ds 32) (\<lambda>(_, ds). Inr ds)) (\<lambda>ds.
     dao_ds_put_format alloc ds [10]))"
  by (simp only: hex_dump_line_def rbind_assoc)

lemma put_char_appends: "ds_state alloc ds \<Longrightarrow> appends alloc ds [c] (dao_ds_put_char alloc ds c)"
  using chars.put_appends [of alloc ds c] by (simp add: appends_def)

lemma line_head_ok:
  assumes "ds_state alloc ds" and "fin - start \<le> length buf"
  shows "appends alloc ds (line_head buf ofs start fin) (put_head alloc ds buf ofs start fin)"
  unfolding line_head_def using assms(1) by (intro appends_bind appends_steps put_bytes_ok) (use assms(2) in auto)

lemma line_ascii_ok:
  assumes "ds_state alloc ds" and "fin - start \<le> length buf"
  shows "appends alloc ds (line_ascii buf start fin) (put_ascii alloc ds buf start fin)"
  unfolding line_ascii_def using assms(1)
  by (intro appends_bind appends_steps put_bytes_ok [where f = "\<lambda>i c. [if 32 \<le> c \<and> c < 127 then c else 46]"] put_char_appends) (use assms(2) in auto)

lemma line_head_nonempty: "line_head buf ofs start fin \<noteq> []"
  by (simp add: line_head_def bytes_of_def)

lemma hex_dump_line_ok:
  assumes "ds_state alloc ds" and "fin - start \<le> length buf"
  shows "appends alloc ds (line_text buf ofs start fin ascii) (hex_dump_line alloc ds buf ofs start fin ascii)"
proof -
  from line_head_ok [OF assms, of ofs] obtain d where d: "ds_state alloc d"
    "ds_text d = ds_text ds @ line_head buf ofs start fin" "put_head alloc ds buf ofs start fin = Inr d"
    unfolding appends_def by blast
  show ?thesis
  proof (cases ascii)
    case True
    from line_ascii_ok [OF d(1) assms(2)] obtain e where e: "ds_state alloc e"
      "ds_text e = ds_text d @ line_ascii buf start fin" "put_ascii alloc d buf start fin = Inr e"
      unfolding appends_def by blast
    then show ?thesis using True appends_steps(1) [OF e(1), of "[10]"] d(2) unfolding hex_dump_line_split d(3)
      by (simp add: appends_def line_text_def)
  next
    case False
    from chomp_ok [OF d(1)] obtain b e where e: "dao_ds_chomp d 32 = Inr (b, e)" "ds_state alloc e"
      "ds_text e = chomped (ds_text d)" by blast
    have "ds_text e = ds_text ds @ chomped (line_head buf ofs start fin)"
      using e(3) d(2) line_head_nonempty [of buf ofs start fin] by (simp add: chomped_def butlast_append)
    then show ?thesis using False appends_steps(1) [OF e(2), of "[10]"] e(1) unfolding hex_dump_line_split d(3)
      by (simp add: appends_def line_text_def)
  qed
qed

section \<open>The text of a dump\<close>

text \<open>A dump by addresses: the bytes of the buffer are at the addresses from \<open>ofs\<close> on, a row has the sixteen addresses from a multiple of sixteen
  on, and an address in front of the buffer or behind it leaves its column blank.\<close>

definition hex_cell :: "bool \<Rightarrow> u8 list \<Rightarrow> nat \<Rightarrow> nat \<Rightarrow> u8 list" where
  "hex_cell ascii buf ofs a =
     (if a < ofs then bytes_of ''   ''
      else if a < ofs + length buf then fmt_02x (buf ! (a - ofs)) @ (if a mod 16 = 7 then bytes_of ''-'' else bytes_of '' '')
      else if ascii then bytes_of ''   '' else [])"

definition char_cell :: "u8 list \<Rightarrow> nat \<Rightarrow> nat \<Rightarrow> u8 list" where
  "char_cell buf ofs a =
     (if a < ofs \<or> ofs + length buf \<le> a then bytes_of '' ''
      else [if 32 \<le> buf ! (a - ofs) \<and> buf ! (a - ofs) < 127 then buf ! (a - ofs) else 46])"

definition row_text :: "bool \<Rightarrow> u8 list \<Rightarrow> nat \<Rightarrow> nat \<Rightarrow> u8 list" where
  "row_text ascii buf ofs r =
     (let cols = map (\<lambda>c. 16 * r + c) [0..<16]; hex = fmt_08jx (16 * r) @ bytes_of ''  '' @ concat (map (hex_cell ascii buf ofs) cols)
      in (if ascii then hex @ bytes_of ''|'' @ concat (map (char_cell buf ofs) cols) @ bytes_of ''|'' else chomped hex) @ [10])"

definition dump_rows :: "nat \<Rightarrow> nat \<Rightarrow> nat list" where
  "dump_rows ofs sz = (if sz = 0 then [] else [ofs div 16..<Suc ((ofs + sz - 1) div 16)])"

lemma cells_split:
  assumes "a \<le> b" and "b \<le> n" and "\<And>c. c < a \<Longrightarrow> f c = x" and "\<And>c. a \<le> c \<Longrightarrow> c < b \<Longrightarrow> f c = g c" and "\<And>c. b \<le> c \<Longrightarrow> c < n \<Longrightarrow> f c = y"
  shows "map f [0..<n] = replicate a x @ map g [a..<b] @ replicate (n - b) y"
proof -
  have "[0..<n] = [0..<a] @ [a..<b] @ [b..<n]" using upt_add_eq_append [of 0 a "n - a"] upt_add_eq_append [of a b "n - b"] assms(1,2) by simp
  moreover have "map f [0..<a] = replicate a x" using assms(3) by (intro nth_equalityI) simp_all
  moreover have "map f [b..<n] = replicate (n - b) y" using assms(5) by (intro nth_equalityI) simp_all
  moreover have "map f [a..<b] = map g [a..<b]" using assms(4) by simp
  ultimately show ?thesis by simp
qed

lemma line_row:
  assumes "buf \<noteq> []" and "start = ofs mod 16" and "fin = (if 16 - start > length buf then start + length buf else 16)"
  shows "line_text buf ofs start fin ascii = row_text ascii buf ofs (ofs div 16)"
proof -
  let ?r = "ofs div 16"
  have o: "16 * ?r + start = ofs" using assms(2) by simp
  have st: "start < 16" using assms(2) by simp
  have b: "start \<le> fin" "fin \<le> 16" "fin - start \<le> length buf" using assms(3) st by auto
  have lo: "16 * ?r + c < ofs" if "c < start" for c using that o by linarith
  have mid: "\<not> 16 * ?r + c < ofs" "16 * ?r + c < ofs + length buf" "16 * ?r + c - ofs = c - start" if "start \<le> c" "c < fin" for c
    using that o b by linarith+
  have hi: "\<not> 16 * ?r + c < ofs + length buf" if "fin \<le> c" "c < 16" for c using that o assms(3) by (auto split: if_splits)
  have hex: "map (\<lambda>c. hex_cell ascii buf ofs (16 * ?r + c)) [0..<16] = replicate start (bytes_of ''   '') @
      map (\<lambda>i. fmt_02x (buf ! (i - start)) @ (if i = 7 then bytes_of ''-'' else bytes_of '' '')) [start..<fin] @
      replicate (16 - fin) (if ascii then bytes_of ''   '' else [])"
  proof (rule cells_split [OF b(1,2)])
    fix c
    show "hex_cell ascii buf ofs (16 * ?r + c) = bytes_of ''   ''" if "c < start" using lo [OF that] by (simp add: hex_cell_def)
    show "hex_cell ascii buf ofs (16 * ?r + c) = fmt_02x (buf ! (c - start)) @ (if c = 7 then bytes_of ''-'' else bytes_of '' '')"
      if "start \<le> c" "c < fin"
      using mid [OF that] that b(2) by (simp only: hex_cell_def if_True if_False mod_mult_self4 mod_mult_self2 mod_mult_self3) simp
    show "hex_cell ascii buf ofs (16 * ?r + c) = (if ascii then bytes_of ''   '' else [])" if "fin \<le> c" "c < 16"
      using hi [OF that] by (simp add: hex_cell_def)
  qed
  have ch: "map (\<lambda>c. char_cell buf ofs (16 * ?r + c)) [0..<16] = replicate start (bytes_of '' '') @
      map (\<lambda>i. [if 32 \<le> buf ! (i - start) \<and> buf ! (i - start) < 127 then buf ! (i - start) else 46]) [start..<fin] @
      replicate (16 - fin) (bytes_of '' '')"
  proof (rule cells_split [OF b(1,2)])
    fix c
    show "char_cell buf ofs (16 * ?r + c) = bytes_of '' ''" if "c < start" using lo [OF that] by (simp add: char_cell_def)
    show "char_cell buf ofs (16 * ?r + c) = [if 32 \<le> buf ! (c - start) \<and> buf ! (c - start) < 127 then buf ! (c - start) else 46]"
      if "start \<le> c" "c < fin" using mid [OF that] by (simp add: char_cell_def)
    show "char_cell buf ofs (16 * ?r + c) = bytes_of '' ''" if "fin \<le> c" "c < 16" using hi [OF that] by (simp add: char_cell_def)
  qed
  have e: "concat (replicate k []) = []" for k by (induction k) simp_all
  show ?thesis
    unfolding row_text_def line_text_def line_head_def line_ascii_def Let_def map_map comp_def hex ch
    by (cases ascii) (simp_all add: e mult.commute)
qed

text \<open>The rows behind a point of the buffer are those of the rest of the buffer.\<close>

lemma row_drop:
  assumes "k \<le> length buf" and "ofs + k \<le> 16 * r"
  shows "row_text ascii (drop k buf) (ofs + k) r = row_text ascii buf ofs r"
proof -
  have a: "hex_cell ascii (drop k buf) (ofs + k) (16 * r + c) = hex_cell ascii buf ofs (16 * r + c)"
    and b: "char_cell (drop k buf) (ofs + k) (16 * r + c) = char_cell buf ofs (16 * r + c)" for c
    using assms by (auto simp: hex_cell_def char_cell_def)
  show ?thesis unfolding row_text_def Let_def map_map comp_def a b ..
qed

lemma dump_rows_step:
  assumes "0 < sz" and "n = min (16 - ofs mod 16) sz"
  shows "dump_rows ofs sz = ofs div 16 # dump_rows (ofs + n) (sz - n)" and "r \<in> set (dump_rows (ofs + n) (sz - n)) \<Longrightarrow> ofs + n \<le> 16 * r"
proof -
  have lt: "ofs mod 16 < 16" and om: "ofs = 16 * (ofs div 16) + ofs mod 16" by simp_all
  have "dump_rows ofs sz = ofs div 16 # dump_rows (ofs + n) (sz - n) \<and> (r \<in> set (dump_rows (ofs + n) (sz - n)) \<longrightarrow> ofs + n \<le> 16 * r)"
  proof (cases "sz \<le> 16 - ofs mod 16")
    case True
    have "sz + ofs mod 16 \<le> 16" using True lt by simp
    then have "ofs + sz \<le> 16 * (ofs div 16) + 16" using om by linarith
    then have "(ofs + sz - 1) div 16 = ofs div 16" using assms(1) om by (intro div_nat_eqI) simp_all
    then show ?thesis using True assms by (simp add: dump_rows_def)
  next
    case False
    have n: "n = 16 - ofs mod 16" using False assms(2) by simp
    have "n + ofs mod 16 = 16" using n lt by simp
    then have on: "ofs + n = 16 * Suc (ofs div 16)" using om by presburger
    have q: "(ofs + n) div 16 = Suc (ofs div 16)" unfolding on by simp
    have le: "ofs div 16 < (ofs + sz - 1) div 16"
    proof -
      have "ofs + n \<le> ofs + sz - 1" using False n by linarith
      then show ?thesis using div_le_mono [of "ofs + n" "ofs + sz - 1" 16] q by simp
    qed
    have s: "ofs + n + (sz - n) - 1 = ofs + sz - 1" using False n by linarith
    have "sz - n \<noteq> 0" using False n by linarith
    then have "dump_rows (ofs + n) (sz - n) = [Suc (ofs div 16)..<Suc ((ofs + sz - 1) div 16)]" unfolding dump_rows_def s q by simp
    moreover have "dump_rows ofs sz = ofs div 16 # [Suc (ofs div 16)..<Suc ((ofs + sz - 1) div 16)]"
      using assms(1) le by (simp add: dump_rows_def upt_conv_Cons)
    ultimately show ?thesis unfolding on by auto
  qed
  then show "dump_rows ofs sz = ofs div 16 # dump_rows (ofs + n) (sz - n)" and "r \<in> set (dump_rows (ofs + n) (sz - n)) \<Longrightarrow> ofs + n \<le> 16 * r" by blast+
qed

lemma dump_loop_step:
  assumes "buf \<noteq> []" "start = ofs mod 16" "fin = (if 16 - start > length buf then start + length buf else 16)"
    "n = fin - start" "hex_dump_line alloc ds buf ofs start fin ascii = Inr d"
  shows "dao_ds_put_hex_dump_loop alloc ds buf ofs ascii False =
    dao_ds_put_hex_dump_loop alloc d (drop n buf) ((ofs + n) mod 2 ^ 64) ascii False"
  by (subst dao_ds_put_hex_dump_loop.simps)
    (simp only: assms(1) Let_def if_False assms(2-4) [symmetric] sum.case bool.case assms(5))

lemma hex_dump_ok:
  "ds_state alloc ds \<Longrightarrow> ofs + length buf < 2 ^ 64 \<Longrightarrow> appends alloc ds (concat (map (row_text ascii buf ofs) (dump_rows ofs (length buf))))
     (dao_ds_put_hex_dump_loop alloc ds buf ofs ascii False)"
proof (induction "length buf" arbitrary: ds buf ofs rule: less_induct)
  case less
  show ?case
  proof (cases "buf = []")
    case True
    then show ?thesis using less.prems by (simp add: dao_ds_put_hex_dump_loop.simps [of _ _ "[]"] dump_rows_def appends_def)
  next
    case False
    define start where "start = ofs mod 16"
    define fin where "fin = (if 16 - start > length buf then start + length buf else 16)"
    define n where "n = fin - start"
    have "start < 16" by (simp add: start_def)
    then have n: "n = min (16 - ofs mod 16) (length buf)" "0 < n" "fin - start \<le> length buf" "n \<le> length buf"
      using False by (auto simp: n_def fin_def start_def)
    from hex_dump_line_ok [OF less.prems(1) n(3), of ofs ascii] obtain d where
      d: "hex_dump_line alloc ds buf ofs start fin ascii = Inr d" "ds_state alloc d"
      "ds_text d = ds_text ds @ row_text ascii buf ofs (ofs div 16)"
      unfolding appends_def line_row [OF False start_def fin_def] by blast
    have "(ofs + n) mod 2 ^ 64 = ofs + n" using n(4) less.prems(2) by simp
    then have loop: "dao_ds_put_hex_dump_loop alloc ds buf ofs ascii False = dao_ds_put_hex_dump_loop alloc d (drop n buf) (ofs + n) ascii False"
      using dump_loop_step [OF False start_def fin_def n_def d(1)] by simp
    have sh: "length (drop n buf) < length buf" "ofs + n + length (drop n buf) < 2 ^ 64" using n(2,4) False less.prems(2) by simp_all
    have sz: "0 < length buf" using False by simp
    have mp: "map (row_text ascii (drop n buf) (ofs + n)) (dump_rows (ofs + n) (length buf - n)) = map (row_text ascii buf ofs) (dump_rows (ofs + n) (length buf - n))"
      using dump_rows_step(2) [OF sz n(1)] row_drop [OF n(4)] by simp
    show ?thesis
      using less.hyps [OF sh(1) d(2) sh(2)] d(3)
      unfolding loop dump_rows_step(1) [OF sz n(1)] list.map concat.simps mp [symmetric] by (simp add: appends_def)
  qed
qed

lemma is_all_zeros_runs_out:
  assumes "\<forall>b \<in> set buf. b = 0"
  shows "0 < n \<Longrightarrow> length buf < i + n \<Longrightarrow> is_all_byte buf i n 0 = Inl OutOfBounds"
proof (induction n arbitrary: i)
  case (Suc n)
  then show ?case using assms by (cases "i < length buf") (auto intro!: Suc.IH)
qed simp

section \<open>Properties\<close>

text \<open>\<^verbatim>\<open>dao_ds_put_hex\<close> appends a number that \<^verbatim>\<open>strtoul\<close> with base 16 reads, to its end, as the
  big-endian value of the buffer, provided that value fits 64 bits.\<close>

theorem put_hex_reads_back:
  assumes "ds_state alloc ds" and "be_value buf < 2 ^ 64"
  shows "\<exists>ds' out. dao_ds_put_hex alloc ds buf = Inr ds' \<and> ds_text ds' = ds_text ds @ out \<and>
    strtoul16 (chars out) = (int (be_value buf), [], False)"
  using put_hex_ok [OF assms(1), of buf] hex_text_reads [OF assms(2)] by blast

definition zero_alloc :: alloc where
  "zero_alloc n = Some (replicate n 0)"

lemma init_state: "ds_state zero_alloc dao_ds_init" "ds_text dao_ds_init = []"
  by (simp_all add: ds_state_def alloc_ok_def zero_alloc_def ds_ok_def dao_ds_init_def ds_text_def)

theorem put_hex_reads_back_witness:
  "\<exists>ds' out. dao_ds_put_hex zero_alloc dao_ds_init [0, 18, 3] = Inr ds' \<and>
     ds_text ds' = out \<and> strtoul16 (chars out) = (0x1203, [], False)"
  using put_hex_reads_back [OF init_state(1), of "[0, 18, 3]"] init_state(2) by (simp add: be_value_def)

text \<open>C33: \<^verbatim>\<open>dao_ds_put_hex_dump\<close> of a buffer whose addresses do not pass \<open>2\<^sup>6\<^sup>4\<close> returns without a read outside of the buffer, keeps the string well formed
  and appends exactly the rows of sixteen columns the buffer touches: the address of the row, every byte of the buffer in the column of its address as two
  hexadecimal digits, and, when asked for, the same bytes as characters.\<close>

theorem hex_dump_lines:
  assumes "ds_state alloc ds" and "ofs + length buf < 2 ^ 64"
  shows "\<exists>ds'. dao_ds_put_hex_dump alloc ds buf ofs ascii = Inr ds' \<and> ds_state alloc ds' \<and>
    ds_text ds' = ds_text ds @ concat (map (row_text ascii buf ofs) (dump_rows ofs (length buf)))"
  using hex_dump_ok [OF assms] unfolding dao_ds_put_hex_dump_def appends_def .

theorem hex_dump_lines_witness:
  "\<exists>ds'. dao_ds_put_hex_dump zero_alloc dao_ds_init [7, 65, 66] 15 False = Inr ds' \<and>
     chars (ds_text ds') = ''00000000                                               07'' @ [CHR 0x0A] @ ''00000010  41 42'' @ [CHR 0x0A]"
proof -
  have "chars (concat (map (row_text False [7, 65, 66] 15) (dump_rows 15 (length [7 :: u8, 65, 66])))) =
      ''00000000                                               07'' @ [CHR 0x0A] @ ''00000010  41 42'' @ [CHR 0x0A]"
    by code_simp
  then show ?thesis using hex_dump_lines [OF init_state(1), of 15 "[7, 65, 66]" False] init_state(2) by auto
qed

text \<open>the zero test of \<^verbatim>\<open>dao_ds_put_sparse_hex_dump\<close> starts at the column of the offset instead of at the
  first byte left: a dump of fewer than sixteen zero bytes at an offset that is no multiple of sixteen reads
  behind the buffer.\<close>

theorem sparse_dump_overread:
  assumes "\<forall>b \<in> set buf. b = 0" and "buf \<noteq> []" and "length buf < 16" and "ofs mod 16 \<noteq> 0"
  shows "dao_ds_put_sparse_hex_dump alloc ds buf ofs ascii = Inl OutOfBounds"
proof -
  let ?start = "ofs mod 16"
  let ?n = "(if 16 - ?start > length buf then ?start + length buf else 16) - ?start"
  have "0 < ?n" "length buf < ?start + ?n" using assms(2-4) by auto
  then have "is_all_zeros buf ?start ?n = Inl OutOfBounds"
    unfolding is_all_zeros_def by (rule is_all_zeros_runs_out [OF assms(1)])
  then show ?thesis using assms(2) unfolding dao_ds_put_sparse_hex_dump_def
    by (subst dao_ds_put_hex_dump_loop.simps) (simp add: Let_def)
qed

theorem sparse_dump_overread_witness:
  "dao_ds_put_sparse_hex_dump zero_alloc dao_ds_init [0, 0, 0] 4 False = Inl OutOfBounds"
  using sparse_dump_overread [of "[0, 0, 0]" 4] by simp

end
