(* ===== verification/Pem.thy ===== *)
theory Pem
  imports Util
begin

text \<open>
  The PCIe endpoint library \<^verbatim>\<open>lib/pem\<close>: the register window of the SDP block (\<^verbatim>\<open>sdp.c\<close>), the
  division of BAR4 among the virtual functions, the table of polled control regions with its
  occupancy masks, the pass of the polling thread over that table, and the set-up of the
  host interrupts (\<^verbatim>\<open>pem.c\<close>).

  What the code takes from outside is a parameter: the registers of the device, the probing of
  a VFIO device, the device tree files, the creation of the polling thread and the heap.  A
  callback of a region is a value that names it; what calling it does is an argument of the
  polling pass.
\<close>

section \<open>Words in memory\<close>

definition load64 :: "memory \<Rightarrow> u64 \<Rightarrow> u64" where
  "load64 m a = foldr (\<lambda>i w. push_bit 8 w OR ucast (m (a + of_nat i))) [0..<8] 0"

definition store32 :: "memory \<Rightarrow> u64 \<Rightarrow> u32 \<Rightarrow> memory" where
  "store32 m a v = (\<lambda>x. if unat (x - a) < 4 then ucast (drop_bit (8 * unat (x - a)) v) else m x)"

definition store64 :: "memory \<Rightarrow> u64 \<Rightarrow> u64 \<Rightarrow> memory" where
  "store64 m a v = (\<lambda>x. if unat (x - a) < 8 then ucast (drop_bit (8 * unat (x - a)) v) else m x)"

section \<open>SDP registers\<close>

datatype dao_vfio_dev_type = DAO_VFIO_DEV_PLATFORM | DAO_VFIO_DEV_PCIE

record mem_resource =
  res_addr :: u64
  res_len :: u64

record vfio_device =
  vfio_name :: string
  vfio_mem :: "mem_resource list"
  vfio_type :: dao_vfio_dev_type
  prime :: u8
  mbar :: u8
  rbar :: u8

record 'h reg_ops =
  reg_rd :: "'h \<Rightarrow> u64 \<Rightarrow> u64"
  reg_wr :: "'h \<Rightarrow> u64 \<Rightarrow> u64 \<Rightarrow> 'h"

definition SDP_RX_OUT_ENABLE :: "int \<Rightarrow> u64" where
  "SDP_RX_OUT_ENABLE x = word_of_int (0x00010170 OR push_bit 17 x)"

definition SDP_RX_OUT_CNTS :: "int \<Rightarrow> u64" where
  "SDP_RX_OUT_CNTS x = word_of_int (0x00010100 OR push_bit 17 x)"

definition SDP_RX_OUT_INT_LEVELS :: "int \<Rightarrow> u64" where
  "SDP_RX_OUT_INT_LEVELS x = word_of_int (0x00010110 OR push_bit 17 x)"

definition SDP_EPVF_RINGX :: "int \<Rightarrow> u64" where
  "SDP_EPVF_RINGX x = word_of_int (0x00026000 OR push_bit 4 x)"

definition SDP_EPFX_RINFO :: "int \<Rightarrow> u64" where
  "SDP_EPFX_RINFO x = word_of_int (0x000209f0 OR push_bit 25 x)"

definition SDP_PF_MBOX_DATA :: "int \<Rightarrow> u64" where
  "SDP_PF_MBOX_DATA x = word_of_int (0x00022000 OR push_bit 4 x)"

definition SDP_VF_MBOX_DATA :: "int \<Rightarrow> u64" where
  "SDP_VF_MBOX_DATA x = word_of_int (0x00010210 OR push_bit 17 x)"

definition SDP_MAC0_PF_RING_CTL :: u64 where
  "SDP_MAC0_PF_RING_CTL = 0x0002c000"

definition DAO_GENMASK_ULL :: "nat \<Rightarrow> nat \<Rightarrow> u64" where
  "DAO_GENMASK_ULL h l = push_bit l (NOT 0) AND drop_bit (64 - 1 - h) (NOT 0)"

definition sdp_resource :: "vfio_device \<Rightarrow> fault + mem_resource" where
  "sdp_resource d =
     (if unat (rbar d) < length (vfio_mem d) then Inr (vfio_mem d ! unat (rbar d)) else Inl WildPointer)"

definition sdp_reg_write :: "'h reg_ops \<Rightarrow> vfio_device \<Rightarrow> u64 \<Rightarrow> u64 \<Rightarrow> 'h \<Rightarrow> fault + int \<times> 'h" where
  "sdp_reg_write ops d off val h =
     rbind (sdp_resource d) (\<lambda>r.
       if off > res_len r then Inr (- ENOMEM, h)
       else Inr (0, reg_wr ops h (res_addr r + off) val))"

definition sdp_reg_read :: "'h reg_ops \<Rightarrow> vfio_device \<Rightarrow> u64 \<Rightarrow> 'h \<Rightarrow> fault + u64" where
  "sdp_reg_read ops d off h =
     rbind (sdp_resource d) (\<lambda>r.
       if off > res_len r then Inr (word_of_int (- ENOMEM))
       else Inr (reg_rd ops h (res_addr r + off)))"

definition sdp_reg_addr :: "vfio_device \<Rightarrow> u64 \<Rightarrow> fault + u64 option" where
  "sdp_reg_addr d off =
     rbind (sdp_resource d) (\<lambda>r. if off > res_len r then Inr None else Inr (Some (res_addr r + off)))"

text \<open>
  \<^verbatim>\<open>sdp_init\<close>.  The probe of a device takes its name and the structure and returns the return code
  and the structure it filled.  The first loop nest gives every ring its function; \<open>write_all\<close>
  performs a sequence of register writes whose return codes the code drops.
\<close>

fun write_all :: "'h reg_ops \<Rightarrow> vfio_device \<Rightarrow> (u64 \<times> u64) list \<Rightarrow> 'h \<Rightarrow> fault + 'h" where
  "write_all ops d [] h = Inr h"
| "write_all ops d ((off, v) # ws) h =
     rbind (sdp_reg_write ops d off v h) (\<lambda>(rc, h1). write_all ops d ws h1)"

definition ring_writes :: "u64 \<Rightarrow> u8 \<Rightarrow> u8 \<Rightarrow> (u64 \<times> u64) list" where
  "ring_writes base rpvf num_vfs =
     concat (map (\<lambda>vfid. map (\<lambda>idx.
         (base + SDP_EPVF_RINGX (uint (of_nat (idx + (vfid - 1) * unat rpvf) :: u8)), of_nat vfid))
       [0..<unat rpvf]) [1..<unat num_vfs + 1])"

definition mbox_info :: "u8 \<Rightarrow> u8 \<Rightarrow> u8 \<Rightarrow> u64" where
  "mbox_info rpvf vfid num_vfs =
     push_bit 32 (ucast rpvf OR push_bit 8 (ucast vfid) OR push_bit 16 (ucast num_vfs))"

definition sdp_rings :: "'h reg_ops \<Rightarrow> vfio_device \<Rightarrow> 'h \<Rightarrow> fault + 'h" where
  "sdp_rings ops d h =
     (let base = (if rbar d \<noteq> 0 then 0 else 0x80000000) in
      rbind (sdp_reg_read ops d (base + SDP_EPFX_RINFO 0) h) (\<lambda>v0.
      rbind (sdp_reg_write ops d (base + SDP_EPFX_RINFO 0) (v0 AND NOT (DAO_GENMASK_ULL 6 0)) h) (\<lambda>(_, h1).
      rbind (sdp_reg_read ops d (base + SDP_EPFX_RINFO 0) h1) (\<lambda>v1.
      let rpvf = ucast (drop_bit 32 v1 AND 0xf); num_vfs = ucast (drop_bit 32 v1 AND 0x7f) in
      rbind (sdp_reg_read ops d (base + SDP_MAC0_PF_RING_CTL) h1) (\<lambda>v2.
      rbind (sdp_reg_write ops d (base + SDP_MAC0_PF_RING_CTL) (v2 AND NOT (DAO_GENMASK_ULL 21 16)) h1) (\<lambda>(_, h2).
      write_all ops d
        (ring_writes base rpvf num_vfs @
         [(base + SDP_PF_MBOX_DATA 0, mbox_info rpvf 0 num_vfs),
          (base + SDP_PF_MBOX_DATA 32, mbox_info rpvf (drop_bit 1 num_vfs) num_vfs)]) h2))))))"

definition SDP_PLAT_DEV_NAME :: string where
  "SDP_PLAT_DEV_NAME = ''86e000000000.dpi_sdp_regs''"

definition SDP0_PCIE_DEV_NAME :: string where
  "SDP0_PCIE_DEV_NAME = ''0002:18:00.0''"

definition SDP1_PCIE_DEV_NAME :: string where
  "SDP1_PCIE_DEV_NAME = ''0002:19:00.0''"

type_synonym dev_probe = "string \<Rightarrow> vfio_device \<Rightarrow> int \<times> vfio_device"

definition sdp_init ::
  "'h reg_ops \<Rightarrow> dev_probe \<Rightarrow> int \<Rightarrow> vfio_device \<Rightarrow> 'h \<Rightarrow> fault + int \<times> vfio_device \<times> 'h" where
  "sdp_init ops probe errno d h =
     (case probe SDP_PLAT_DEV_NAME d of (rc, d1) \<Rightarrow>
        case (if rc < 0
              then let d2 = d1\<lparr>vfio_type := DAO_VFIO_DEV_PCIE\<rparr>;
                       (rc2, d3) = probe (if prime d2 \<noteq> 0 then SDP0_PCIE_DEV_NAME else SDP1_PCIE_DEV_NAME) d2
                   in if rc2 < 0 then Inl d3 else Inr (d3\<lparr>rbar := 2, mbar := 4\<rparr>)
              else Inr (d1\<lparr>vfio_type := DAO_VFIO_DEV_PLATFORM, rbar := 0\<rparr>)) of
          Inl d3 \<Rightarrow> Inr (errno, d3, h)
        | Inr d4 \<Rightarrow>
            if prime d4 \<noteq> 0 then rbind (sdp_rings ops d4 h) (\<lambda>h1. Inr (0, d4, h1))
            else Inr (0, d4, h))"

section \<open>Control regions\<close>

definition DAO_PEM_CTRL_REGION_MAX :: nat where
  "DAO_PEM_CTRL_REGION_MAX = 384"

definition DAO_PEM_CTRL_REGION_MASK_MAX :: nat where
  "DAO_PEM_CTRL_REGION_MASK_MAX = 6"

definition DAO_PEM_DEFAULT_HOST_PAGE_SZ :: u64 where
  "DAO_PEM_DEFAULT_HOST_PAGE_SZ = 64 * 1024"

definition DAO_PEM_DEV_ID_MAX :: nat where
  "DAO_PEM_DEV_ID_MAX = 2"

text \<open>The shadow holds the whole 64-bit words of a region; a tail of fewer than eight bytes is
  never read.\<close>

record 'c pem_region =
  reg_base :: u64
  sz :: u32
  cb :: 'c
  ctx :: u64
  shadow :: "u64 list"

record 'c pem =
  pem_id :: u8
  host_page_sz :: u64
  host_pages_per_dev :: u64
  max_vfs :: u16
  ctrl_done :: bool
  regions :: "'c pem_region option list"
  region_mask :: "u64 list"
  bar4_pdev :: vfio_device
  sdp_pdev :: vfio_device

text \<open>
  The search of \<^verbatim>\<open>dao_pem_ctrl_region_register\<close>: \<open>scan_mask\<close> is its \<^verbatim>\<open>do\<close> loop over the bits of a
  mask, \<open>scan_masks\<close> the \<^verbatim>\<open>for\<close> loop around it.
\<close>

function scan_mask :: "u64 \<Rightarrow> nat \<Rightarrow> bool \<times> nat" where
  "scan_mask msk j =
     (if msk AND 1 = 0 then (True, j)
      else if (j + 1) mod 64 \<noteq> 0 then scan_mask (drop_bit 1 msk) (j + 1)
      else (False, j + 1))"
  by pat_completeness auto
termination
proof (relation "measure (\<lambda>(msk, j). 64 - j mod 64)")
  fix msk :: u64 and j :: nat
  assume "(j + 1) mod 64 \<noteq> 0"
  moreover have "j mod 64 < 64" by simp
  ultimately show "((drop_bit 1 msk, j + 1), (msk, j)) \<in> measure (\<lambda>(msk, j). 64 - j mod 64)"
    by (auto simp: mod_Suc split: if_splits)
qed simp

fun scan_masks :: "u64 list \<Rightarrow> nat \<Rightarrow> nat \<Rightarrow> (nat \<times> nat) option" where
  "scan_masks [] i j = None"
| "scan_masks (m # ms) i j =
     (case scan_mask m j of
        (True, j1) \<Rightarrow> Some (i, j1)
      | (False, j1) \<Rightarrow> scan_masks ms (Suc i) j1)"

definition sync_words :: "memory \<Rightarrow> u64 \<Rightarrow> nat \<Rightarrow> u64 list" where
  "sync_words m base n = map (\<lambda>i. load64 m (base + of_nat (8 * i))) [0..<n]"

text \<open>The flag \<open>heap\<close> says whether the allocation of the region succeeds.\<close>

definition dao_pem_ctrl_region_register ::
  "bool \<Rightarrow> memory \<Rightarrow> u64 \<Rightarrow> u32 \<Rightarrow> 'c \<Rightarrow> u64 \<Rightarrow> bool \<Rightarrow> 'c pem \<Rightarrow> int \<times> 'c pem" where
  "dao_pem_ctrl_region_register heap m base len f c sync_shadow p =
     (case scan_masks (region_mask p) 0 0 of
        None \<Rightarrow> (- ENOMEM, p)
      | Some (i, j) \<Rightarrow>
          if \<not> heap then (- ENOMEM, p)
          else
            let words = unat len div 8;
                r = \<lparr>reg_base = base, sz = of_nat words, cb = f, ctx = c,
                     shadow = (if sync_shadow then sync_words m base words else replicate words 0)\<rparr>
            in (0, p\<lparr>region_mask := (region_mask p)[i := region_mask p ! i OR push_bit (j mod 64) 1],
                     regions := (regions p)[j := Some r]\<rparr>))"

definition region_matches :: "u64 \<Rightarrow> u32 \<Rightarrow> 'c \<Rightarrow> u64 \<Rightarrow> 'c pem_region option \<Rightarrow> bool" where
  "region_matches base len f c ro =
     (case ro of None \<Rightarrow> False
      | Some r \<Rightarrow> reg_base r = base \<and> 8 * unat (sz r) = unat len \<and> cb r = f \<and> ctx r = c)"

definition dao_pem_ctrl_region_unregister ::
  "u64 \<Rightarrow> u32 \<Rightarrow> 'c \<Rightarrow> u64 \<Rightarrow> 'c pem \<Rightarrow> int \<times> 'c pem" where
  "dao_pem_ctrl_region_unregister base len f c p =
     (let i = first_free (region_matches base len f c) (regions p)
      in if i < length (regions p)
         then (0, p\<lparr>region_mask := (region_mask p)[i div 64 := region_mask p ! (i div 64) AND NOT (RTE_BIT64 (i mod 64))],
                    regions := (regions p)[i := None]\<rparr>)
         else (- ENOENT, p))"

section \<open>Polling\<close>

text \<open>
  The state is a pair of the device and of everything a callback can touch.  \<open>rd\<close> reads a word of
  the BAR, \<open>call\<close> runs a callback with its context, the slot whose shadow it is given, the word
  offset and the two values.  A region whose slot is emptied while it is walked has been freed.
\<close>

type_synonym ('c, 'w) region_call =
  "'c \<Rightarrow> u64 \<Rightarrow> nat \<Rightarrow> nat \<Rightarrow> u64 \<Rightarrow> u64 \<Rightarrow> 'c pem \<times> 'w \<Rightarrow> fault + 'c pem \<times> 'w"

fun check_words ::
  "('w \<Rightarrow> u64 \<Rightarrow> u64) \<Rightarrow> ('c, 'w) region_call \<Rightarrow> nat \<Rightarrow> nat \<Rightarrow> nat \<Rightarrow> 'c pem \<times> 'w \<Rightarrow> fault + 'c pem \<times> 'w" where
  "check_words rd call j i 0 s = Inr s"
| "check_words rd call j i (Suc n) s =
     (case regions (fst s) ! j of
        None \<Rightarrow> Inl WildPointer
      | Some r \<Rightarrow>
          if length (shadow r) \<le> i then Inl OutOfBounds
          else
            let val = rd (snd s) (reg_base r + of_nat (8 * i)); shd_val = shadow r ! i
            in rbind (if val \<noteq> shd_val then call (cb r) (ctx r) j i val shd_val s else Inr s)
                 (check_words rd call j (Suc i) n))"

definition check_ctrl_reg ::
  "('w \<Rightarrow> u64 \<Rightarrow> u64) \<Rightarrow> ('c, 'w) region_call \<Rightarrow> nat \<Rightarrow> 'c pem \<times> 'w \<Rightarrow> fault + 'c pem \<times> 'w" where
  "check_ctrl_reg rd call j s =
     (case regions (fst s) ! j of
        None \<Rightarrow> Inr s
      | Some r \<Rightarrow> check_words rd call j 0 (unat (sz r)) s)"

function poll_mask ::
  "('w \<Rightarrow> u64 \<Rightarrow> u64) \<Rightarrow> ('c, 'w) region_call \<Rightarrow> u64 \<Rightarrow> nat \<Rightarrow> 'c pem \<times> 'w \<Rightarrow> fault + 'c pem \<times> 'w" where
  "poll_mask rd call msk base s =
     (if msk = 0 then Inr s
      else rbind (if msk AND 1 \<noteq> 0 then check_ctrl_reg rd call base s else Inr s)
             (poll_mask rd call (drop_bit 1 msk) (base + 1)))"
  by pat_completeness auto
termination
proof (relation "measure (\<lambda>(rd, call, msk, base, s). unat msk)")
  fix msk :: u64 and rd :: "'w \<Rightarrow> u64 \<Rightarrow> u64" and call :: "('c, 'w) region_call" and base :: nat and s x :: "'c pem \<times> 'w"
  assume "msk \<noteq> 0"
  then have "unat (drop_bit 1 msk) < unat msk" by (rule unat_half_less)
  then show "((rd, call, drop_bit 1 msk, base + 1, x), rd, call, msk, base, s)
      \<in> measure (\<lambda>(rd, call, msk, base, s). unat msk)" by simp
qed simp

text \<open>One round of \<^verbatim>\<open>pem_ctrl_reg_poll\<close>: the masks are visited in order, each read when its turn comes; the
  thread repeats the round until the device is closed.\<close>

fun pem_poll_masks ::
  "('w \<Rightarrow> u64 \<Rightarrow> u64) \<Rightarrow> ('c, 'w) region_call \<Rightarrow> nat \<Rightarrow> nat \<Rightarrow> 'c pem \<times> 'w \<Rightarrow> fault + 'c pem \<times> 'w" where
  "pem_poll_masks rd call i 0 s = Inr s"
| "pem_poll_masks rd call i (Suc n) s =
     (if ctrl_done (fst s) then Inr s
      else rbind (poll_mask rd call (region_mask (fst s) ! i) (i * 64) s)
             (pem_poll_masks rd call (Suc i) n))"

definition pem_ctrl_reg_poll ::
  "('w \<Rightarrow> u64 \<Rightarrow> u64) \<Rightarrow> ('c, 'w) region_call \<Rightarrow> 'c pem \<times> 'w \<Rightarrow> fault + 'c pem \<times> 'w" where
  "pem_ctrl_reg_poll rd call s = pem_poll_masks rd call 0 DAO_PEM_CTRL_REGION_MASK_MAX s"

section \<open>Set-up and queries\<close>

definition bar4_resource :: "'c pem \<Rightarrow> fault + mem_resource" where
  "bar4_resource p =
     (let d = bar4_pdev p
      in if unat (mbar d) < length (vfio_mem d) then Inr (vfio_mem d ! unat (mbar d)) else Inl WildPointer)"

definition pem_update_bar4_info :: "memory \<Rightarrow> 'c pem \<Rightarrow> fault + memory" where
  "pem_update_bar4_info m p =
     rbind (bar4_resource p) (\<lambda>r.
       let a = res_addr r
       in Inr (store32 (store32 (store32 (store32 m a 0xfeedfeed) (a + 4) 0x3355ffaa)
                 (a + 8) (ucast (host_pages_per_dev p * host_page_sz p))) (a + 12) (ucast (max_vfs p))))"

record 'h pem_env =
  env_regs :: "'h reg_ops"
  env_vfio_init :: int
  env_probe :: dev_probe
  env_errno :: int
  env_bar4_name :: "string option"
  env_dt_vfs :: u32
  env_thread :: int

definition setup_vfio_devices :: "'h pem_env \<Rightarrow> 'c pem \<Rightarrow> 'h \<Rightarrow> fault + int \<times> 'c pem \<times> 'h" where
  "setup_vfio_devices env p h =
     (if env_vfio_init env < 0 then Inr (- 1, p, h)
      else
        let d = (if pem_id p = 0 then (sdp_pdev p)\<lparr>prime := 1\<rparr> else sdp_pdev p)
        in rbind (sdp_init (env_regs env) (env_probe env) (env_errno env) d h) (\<lambda>(rc, d1, h1).
             let p1 = p\<lparr>sdp_pdev := d1\<rparr>
             in if rc < 0 then Inr (- 1, p1, h1)
                else if vfio_type d1 = DAO_VFIO_DEV_PCIE then Inr (0, p1\<lparr>bar4_pdev := d1\<rparr>, h1)
                else case env_bar4_name env of
                    None \<Rightarrow> Inr (- 1, p1, h1)
                  | Some name \<Rightarrow>
                      (case env_probe env name (bar4_pdev p1) of (rc2, b) \<Rightarrow>
                         if rc2 < 0 then Inr (- 1, p1\<lparr>bar4_pdev := b\<rparr>, h1)
                         else Inr (0, p1\<lparr>bar4_pdev := b\<lparr>mbar := 0, vfio_type := DAO_VFIO_DEV_PLATFORM\<rparr>\<rparr>, h1))))"

definition is_power_of_2 :: "u64 \<Rightarrow> bool" where
  "is_power_of_2 n \<longleftrightarrow> n \<noteq> 0 \<and> n AND (n - 1) = 0"

definition dao_pem_dev_init ::
  "'h pem_env \<Rightarrow> u16 \<Rightarrow> u64 \<Rightarrow> memory \<Rightarrow> 'c pem \<Rightarrow> 'h \<Rightarrow> fault + int \<times> memory \<times> 'c pem \<times> 'h" where
  "dao_pem_dev_init env pem_devid conf_page_sz m p0 h =
     (let p1 = p0\<lparr>pem_id := ucast pem_devid\<rparr>
      in if conf_page_sz \<noteq> 0 \<and> \<not> is_power_of_2 conf_page_sz then Inr (- 1, m, p1, h)
         else rbind (setup_vfio_devices env p1 h) (\<lambda>(rc, p2, h1).
           if rc < 0 then Inr (- 1, m, p2, h1)
           else rbind (bar4_resource p2) (\<lambda>r.
             let size = res_len r;
                 m1 = (if size mod 8 = 0 then dao_dev_memzero m (res_addr r) (unat (size div 8))
                       else dao_dev_memset m (res_addr r) 0 (unat size));
                 p3 = p2\<lparr>max_vfs := ucast (env_dt_vfs env)\<rparr>
             in if max_vfs p3 = 0 then Inr (- EFAULT, m1, p3, h1)
                else
                  let page = (if conf_page_sz = 0 then DAO_PEM_DEFAULT_HOST_PAGE_SZ else conf_page_sz);
                      p4 = p3\<lparr>host_page_sz := page,
                              host_pages_per_dev := (size div page) div ucast (max_vfs p3)\<rparr>
                  in if host_pages_per_dev p4 = 0 then Inr (- EFAULT, m1, p4, h1)
                     else rbind (pem_update_bar4_info m1 p4) (\<lambda>m2.
                       if env_thread env \<noteq> 0 then Inr (- EFAULT, m2, p4, h1)
                       else Inr (0, m2, p4, h1)))))"

definition dao_pem_dev_fini :: "'c pem \<Rightarrow> int \<times> 'c pem" where
  "dao_pem_dev_fini p =
     (0, p\<lparr>ctrl_done := True, regions := replicate DAO_PEM_CTRL_REGION_MAX None\<rparr>)"

definition PEM_PFVF_DEV_ID_PF_MASK :: u16 where "PEM_PFVF_DEV_ID_PF_MASK = 0xF000"
definition PEM_PFVF_DEV_ID_VF_MASK :: u16 where "PEM_PFVF_DEV_ID_VF_MASK = 0x0FFF"

definition dao_pem_vf_region_info_get ::
  "'c pem \<Rightarrow> u16 \<Rightarrow> u8 \<Rightarrow> fault + (int + u64 \<times> u64)" where
  "dao_pem_vf_region_info_get p dev_id bar_idx =
     (let pf = drop_bit 12 (dev_id AND PEM_PFVF_DEV_ID_PF_MASK);
          vf = dev_id AND PEM_PFVF_DEV_ID_VF_MASK
      in if bar_idx \<noteq> 4 then Inr (Inl (- ENOENT))
         else if pf > 0 \<or> vf \<ge> max_vfs p then Inr (Inl (- ENOTSUP))
         else rbind (bar4_resource p) (\<lambda>r.
           Inr (Inr (res_addr r + ucast vf * host_pages_per_dev p * host_page_sz p,
                     host_pages_per_dev p * host_page_sz p))))"

definition dao_pem_host_page_sz :: "'c pem \<Rightarrow> u64" where
  "dao_pem_host_page_sz p = host_page_sz p"

text \<open>The array of interrupt addresses is the caller's; writing behind its end is a fault.\<close>

fun intr_loop ::
  "'h reg_ops \<Rightarrow> vfio_device \<Rightarrow> u64 \<Rightarrow> int \<Rightarrow> nat \<Rightarrow> nat \<Rightarrow> nat \<Rightarrow> u64 option list \<Rightarrow> 'h \<Rightarrow> fault + u64 option list \<times> 'h" where
  "intr_loop ops d base vfid rpvf idx 0 addrs h = Inr (addrs, h)"
| "intr_loop ops d base vfid rpvf idx (Suc n) addrs h =
     (let ring_idx = int idx + (vfid - 1) * int rpvf
      in rbind (write_all ops d [(base + SDP_RX_OUT_ENABLE ring_idx, 1), (base + SDP_RX_OUT_CNTS ring_idx, 1),
                                 (base + SDP_RX_OUT_INT_LEVELS ring_idx, NOT 0xf)] h) (\<lambda>h1.
         rbind (sdp_reg_addr d (base + SDP_RX_OUT_CNTS ring_idx)) (\<lambda>a.
         if length addrs \<le> idx then Inl OutOfBounds
         else intr_loop ops d base vfid rpvf (Suc idx) n (addrs[idx := a]) h1)))"

definition dao_pem_host_interrupt_setup ::
  "'h reg_ops \<Rightarrow> 'c pem \<Rightarrow> int \<Rightarrow> u64 option list \<Rightarrow> 'h \<Rightarrow> fault + u8 \<times> u64 option list \<times> 'h" where
  "dao_pem_host_interrupt_setup ops p vfid addrs h =
     (let d = sdp_pdev p; base = (if rbar d \<noteq> 0 then 0 else 0x80000000)
      in rbind (sdp_reg_read ops d (base + SDP_VF_MBOX_DATA 0) h) (\<lambda>reg_val.
           let rpvf = ucast (drop_bit 32 reg_val) AND 0xf :: u8
           in if rpvf = 0 then Inr (0, addrs, h)
              else rbind (intr_loop ops d base vfid (unat rpvf) 0 (unat rpvf) addrs h) (\<lambda>(addrs1, h1).
                Inr (rpvf, addrs1, h1))))"

text \<open>The table of devices has two entries.\<close>

definition dao_pem_max_vfs_get :: "'c pem list \<Rightarrow> u16 \<Rightarrow> u16" where
  "dao_pem_max_vfs_get pems pem_devid =
     (if DAO_PEM_DEV_ID_MAX \<le> unat pem_devid then 0 else max_vfs (pems ! unat pem_devid))"

end
