(* ===== verification/Pem_Facts.thy ===== *)
theory Pem_Facts
  imports Pem
begin

text \<open>
  Correctness of the region table, of the division of BAR4 and of the device probe of \<^verbatim>\<open>lib/pem\<close>.
  The table is an instance of \<open>slot_table\<close>: the occupancy masks are proved to mirror the slots, so
  that the bit scan of the registration is the search for the first free slot.
\<close>

section \<open>The occupancy masks\<close>

definition mask_bits :: "u64 list \<Rightarrow> bool list" where
  "mask_bits ms = concat (map (\<lambda>m. map (bit m) [0..<64]) ms)"

definition pem_ok :: "'c pem \<Rightarrow> bool" where
  "pem_ok p \<longleftrightarrow>
     length (regions p) = DAO_PEM_CTRL_REGION_MAX \<and>
     length (region_mask p) = DAO_PEM_CTRL_REGION_MASK_MAX \<and>
     mask_bits (region_mask p) = map (\<lambda>r. r \<noteq> None) (regions p) \<and>
     (\<forall>r \<in> set (regions p). case r of None \<Rightarrow> True | Some r \<Rightarrow> length (shadow r) = unat (sz r))"

definition is_free :: "'a option \<Rightarrow> bool" where
  "is_free r \<longleftrightarrow> r = None"

definition pem_put :: "nat \<Rightarrow> 'c pem_region option \<Rightarrow> 'c pem \<Rightarrow> 'c pem" where
  "pem_put i v p =
     p\<lparr>region_mask := (region_mask p)[i div 64 :=
         (if v = None then region_mask p ! (i div 64) AND NOT (RTE_BIT64 (i mod 64))
          else region_mask p ! (i div 64) OR RTE_BIT64 (i mod 64))],
       regions := (regions p)[i := v]\<rparr>"

interpretation region_slots: slot_table is_free regions pem_put
  by unfold_locales (simp add: pem_put_def)

lemma scan_mask_spec:
  assumes "b < 64"
  shows "scan_mask (drop_bit b m) (64 * i + b) =
    (let k = first_free Not (map (bit m) [b..<64])
     in if k < 64 - b then (True, 64 * i + b + k) else (False, 64 * Suc i))"
  using assms
proof (induction "63 - b" arbitrary: b)
  case 0
  then have b: "b = 63" by simp
  have "(drop_bit 63 m AND 1 = 0) = (\<not> bit m 63)"
    by (simp add: and_one_eq odd_iff_mod_2_eq_one [symmetric] bit_iff_odd_drop_bit even_iff_mod_2_eq_zero [symmetric])
  then show ?case unfolding b by (subst scan_mask.simps) (auto simp: Let_def)
next
  case (Suc d)
  then have b: "Suc b < 64" "d = 63 - Suc b" by auto
  have t: "(drop_bit b m AND 1 = 0) = (\<not> bit m b)"
    by (simp add: and_one_eq odd_iff_mod_2_eq_one [symmetric] bit_iff_odd_drop_bit even_iff_mod_2_eq_zero [symmetric])
  have u: "[b..<64] = b # [Suc b..<64]" using Suc.prems by (simp add: upt_conv_Cons)
  have n: "(64 * i + b + 1) mod 64 \<noteq> 0" using b by (simp add: mod_Suc)
  have ih: "scan_mask (drop_bit (Suc b) m) (64 * i + Suc b) =
    (let k = first_free Not (map (bit m) [Suc b..<64])
     in if k < 64 - Suc b then (True, 64 * i + Suc b + k) else (False, 64 * Suc i))"
    by (rule Suc.hyps(1)) (use b in auto)
  have dd: "drop_bit 1 (drop_bit b m) = drop_bit (Suc b) m" by simp
  show ?case
  proof (cases "bit m b")
    case False
    then show ?thesis using t u Suc.prems by (subst scan_mask.simps) simp
  next
    case True
    then have "scan_mask (drop_bit b m) (64 * i + b) = scan_mask (drop_bit (Suc b) m) (64 * i + Suc b)"
      using t n dd by (subst scan_mask.simps) simp
    then show ?thesis using ih u True Suc.prems b by (auto simp: Let_def)
  qed
qed

lemma scan_masks_spec:
  "scan_masks ms i (64 * i) =
    (let k = first_free Not (mask_bits ms)
     in if k < 64 * length ms then Some (i + k div 64, 64 * i + k) else None)"
proof (induction ms arbitrary: i)
  case Nil
  then show ?case by (simp add: mask_bits_def)
next
  case (Cons m ms)
  let ?k = "first_free Not (map (bit m) [0..<64])"
  have c: "mask_bits (m # ms) = map (bit m) [0..<64] @ mask_bits ms" by (simp add: mask_bits_def)
  have s: "scan_mask m (64 * i) = (if ?k < 64 then (True, 64 * i + ?k) else (False, 64 * Suc i))"
    using scan_mask_spec [of 0 m i] by (simp add: Let_def del: scan_mask.simps)
  show ?case
  proof (cases "?k < 64")
    case True
    then show ?thesis using s c by (simp add: Let_def first_free_append del: scan_mask.simps)
  next
    case False
    then have f: "first_free Not (mask_bits (m # ms)) = 64 + first_free Not (mask_bits ms)"
      by (simp add: c first_free_append)
    show ?thesis using s False Cons.IH [of "Suc i"] unfolding f by (auto simp: Let_def simp del: scan_mask.simps)
  qed
qed

lemma length_mask_bits: "length (mask_bits ms) = 64 * length ms"
  by (induction ms) (auto simp: mask_bits_def)

lemma nth_mask_bits: "j < 64 * length ms \<Longrightarrow> mask_bits ms ! j = bit (ms ! (j div 64)) (j mod 64)"
proof (induction ms arbitrary: j)
  case (Cons m ms)
  have c: "mask_bits (m # ms) = map (bit m) [0..<64] @ mask_bits ms" by (simp add: mask_bits_def)
  show ?case
  proof (cases "j < 64")
    case False
    then have "j div 64 = Suc ((j - 64) div 64)" "(j - 64) mod 64 = j mod 64"
      by (simp_all add: le_div_geq le_mod_geq)
    then show ?thesis using False Cons by (simp add: c nth_append)
  qed (simp add: c nth_append)
qed simp

lemma mask_bits_update:
  assumes "j < 64 * length ms"
    and "\<And>k. k < 64 \<Longrightarrow> bit w k = (if k = j mod 64 then v else bit (ms ! (j div 64)) k)"
  shows "mask_bits (ms[j div 64 := w]) = (mask_bits ms)[j := v]"
proof (rule nth_equalityI)
  fix k assume "k < length (mask_bits (ms[j div 64 := w]))"
  then have k: "k < 64 * length ms" by (simp add: length_mask_bits)
  have d: "j div 64 < length ms" "k div 64 < length ms" using assms(1) k by auto
  have e: "k = j \<longleftrightarrow> k div 64 = j div 64 \<and> k mod 64 = j mod 64" by (metis div_mult_mod_eq)
  show "mask_bits (ms[j div 64 := w]) ! k = (mask_bits ms)[j := v] ! k"
    using d k assms e by (cases "k div 64 = j div 64") (auto simp: nth_mask_bits nth_list_update length_mask_bits)
qed (simp add: length_mask_bits)

lemma put_mask_bits:
  assumes "length (region_mask p) = DAO_PEM_CTRL_REGION_MASK_MAX" "j < DAO_PEM_CTRL_REGION_MAX"
  shows "mask_bits (region_mask (pem_put j v p)) = (mask_bits (region_mask p))[j := (v \<noteq> None)]"
proof -
  let ?w = "if v = None then region_mask p ! (j div 64) AND NOT (RTE_BIT64 (j mod 64))
          else region_mask p ! (j div 64) OR RTE_BIT64 (j mod 64)"
  have "mask_bits ((region_mask p)[j div 64 := ?w]) = (mask_bits (region_mask p))[j := (v \<noteq> None)]"
    by (rule mask_bits_update)
      (use assms in \<open>auto simp: DAO_PEM_CTRL_REGION_MASK_MAX_def DAO_PEM_CTRL_REGION_MAX_def bit_simps bit_BIT64\<close>)
  then show ?thesis by (simp add: pem_put_def)
qed

lemma put_ok:
  assumes "pem_ok p" "j < DAO_PEM_CTRL_REGION_MAX"
    and "case v of None \<Rightarrow> True | Some r \<Rightarrow> length (shadow r) = unat (sz r)"
  shows "pem_ok (pem_put j v p)"
proof -
  have "mask_bits (region_mask (pem_put j v p)) = map (\<lambda>r. r \<noteq> None) (regions (pem_put j v p))"
    using put_mask_bits [of p j v] assms(1,2) by (simp add: pem_ok_def pem_put_def map_update)
  moreover have "\<forall>r \<in> set (regions (pem_put j v p)). case r of None \<Rightarrow> True | Some r \<Rightarrow> length (shadow r) = unat (sz r)"
    using assms(1,3) set_update_subset_insert [of "regions p" j v] by (auto simp: pem_ok_def pem_put_def)
  ultimately show ?thesis using assms(1) by (simp add: pem_ok_def) (simp add: pem_put_def)
qed

lemma put_put_free:
  assumes "pem_ok p" "region_slots.slot p < DAO_PEM_CTRL_REGION_MAX"
  shows "pem_put (region_slots.slot p) None (pem_put (region_slots.slot p) (Some r) p) = p"
proof -
  let ?j = "region_slots.slot p"
  have len: "length (regions p) = DAO_PEM_CTRL_REGION_MAX" "length (region_mask p) = 6"
    using assms(1) by (simp_all add: pem_ok_def DAO_PEM_CTRL_REGION_MASK_MAX_def)
  have none: "regions p ! ?j = None"
    using region_slots.slot_free [of p] assms(2) len by (simp add: is_free_def)
  have d: "?j div 64 < 6" using assms(2) by (simp add: DAO_PEM_CTRL_REGION_MAX_def)
  have "mask_bits (region_mask p) ! ?j = (regions p ! ?j \<noteq> None)"
    using assms len by (simp add: pem_ok_def)
  then have "\<not> bit (region_mask p ! (?j div 64)) (?j mod 64)"
    using none assms(2) len by (simp add: nth_mask_bits DAO_PEM_CTRL_REGION_MAX_def)
  then have "(region_mask p ! (?j div 64) OR RTE_BIT64 (?j mod 64)) AND NOT (RTE_BIT64 (?j mod 64)) = region_mask p ! (?j div 64)"
    by (intro bit_eqI) (auto simp: bit_simps RTE_BIT64_def)
  then have "region_mask (pem_put ?j None (pem_put ?j (Some r) p)) = region_mask p"
    using d len by (simp add: pem_put_def)
  moreover have "regions (pem_put ?j None (pem_put ?j (Some r) p)) = regions p"
    using none by (simp add: pem_put_def list_update_same_conv [symmetric]) (metis list_update_id)
  ultimately show ?thesis by (simp add: pem_put_def)
qed

section \<open>Registration\<close>

lemma scan_slot:
  assumes "pem_ok p"
  shows "scan_masks (region_mask p) 0 0 =
    (if region_slots.slot p < DAO_PEM_CTRL_REGION_MAX
     then Some (region_slots.slot p div 64, region_slots.slot p) else None)"
proof -
  have "(\<lambda>r. \<not> r \<noteq> None) = (is_free :: 'a pem_region option \<Rightarrow> bool)" by (simp add: fun_eq_iff is_free_def)
  then have "first_free Not (mask_bits (region_mask p)) = region_slots.slot p"
    using assms by (simp only: pem_ok_def first_free_map region_slots.slot_def)
  moreover have "64 * length (region_mask p) = DAO_PEM_CTRL_REGION_MAX"
    using assms by (simp add: pem_ok_def DAO_PEM_CTRL_REGION_MASK_MAX_def DAO_PEM_CTRL_REGION_MAX_def)
  ultimately show ?thesis using scan_masks_spec [of "region_mask p" 0] by (simp add: Let_def)
qed

definition new_region :: "memory \<Rightarrow> u64 \<Rightarrow> u32 \<Rightarrow> 'c \<Rightarrow> u64 \<Rightarrow> bool \<Rightarrow> 'c pem_region" where
  "new_region m base len f c sync_shadow =
     \<lparr>reg_base = base, sz = of_nat (unat len div 8), cb = f, ctx = c,
      shadow = (if sync_shadow then sync_words m base (unat len div 8) else replicate (unat len div 8) 0)\<rparr>"

lemma new_region_size: "unat (sz (new_region m base len f c s)) = unat len div 8"
proof -
  have "unat len div 8 < 2 ^ LENGTH(32)" using unat_less_length [of len] by simp
  then show ?thesis by (simp only: new_region_def pem_region.simps unat_of_nat_small)
qed

lemma new_region_shadow: "length (shadow (new_region m base len f c s)) = unat (sz (new_region m base len f c s))"
  by (simp add: new_region_size) (simp add: new_region_def sync_words_def)

lemma register_eq:
  assumes "pem_ok p"
  shows "dao_pem_ctrl_region_register heap m base len f c s p =
    (if heap \<and> region_slots.slot p < DAO_PEM_CTRL_REGION_MAX
     then (0, pem_put (region_slots.slot p) (Some (new_region m base len f c s)) p) else (- ENOMEM, p))"
  using scan_slot [OF assms]
  by (simp add: dao_pem_ctrl_region_register_def pem_put_def new_region_def RTE_BIT64_def Let_def)

lemma unregister_eq:
  assumes "pem_ok p"
  shows "dao_pem_ctrl_region_unregister base len f c p =
    (let i = first_free (region_matches base len f c) (regions p)
     in if i < DAO_PEM_CTRL_REGION_MAX then (0, pem_put i None p) else (- ENOENT, p))"
  using assms by (simp add: dao_pem_ctrl_region_unregister_def pem_put_def pem_ok_def Let_def)

lemma slot_bound: "pem_ok p \<Longrightarrow> region_slots.slot p < DAO_PEM_CTRL_REGION_MAX \<longleftrightarrow> None \<in> set (regions p)"
  using first_free_less_iff [of is_free "regions p"]
  by (auto simp: pem_ok_def region_slots.slot_def is_free_def)

lemma register_ok: "pem_ok p \<Longrightarrow> pem_ok (snd (dao_pem_ctrl_region_register heap m base len f c s p))"
  by (simp add: register_eq put_ok new_region_shadow)

lemma unregister_ok: "pem_ok p \<Longrightarrow> pem_ok (snd (dao_pem_ctrl_region_unregister base len f c p))"
  by (simp add: unregister_eq put_ok Let_def)

text \<open>C10: \<^verbatim>\<open>dao_pem_ctrl_region_register\<close> keeps the masks and the table consistent, succeeds exactly when
  the allocation does and a slot is free, and then fills the first free slot with the region and
  leaves every other slot as it was; otherwise it returns \<^verbatim>\<open>-ENOMEM\<close> and changes nothing.\<close>

theorem region_register_refines:
  assumes "pem_ok p" and "dao_pem_ctrl_region_register heap m base len f c s p = (rc, p')"
  shows "pem_ok p' \<and> (rc = 0 \<longleftrightarrow> heap \<and> None \<in> set (regions p)) \<and>
    (if rc = 0
     then \<exists>j < DAO_PEM_CTRL_REGION_MAX. regions p ! j = None \<and> (\<forall>k < j. regions p ! k \<noteq> None) \<and>
            regions p' = (regions p)[j := Some (new_region m base len f c s)]
     else rc = - ENOMEM \<and> p' = p)"
proof -
  note eq = register_eq [OF assms(1), of heap m base len f c s] slot_bound [OF assms(1)]
  have ok: "pem_ok p'" using register_ok [OF assms(1), of heap m base len f c s] assms(2) by simp
  have rc: "rc = 0 \<longleftrightarrow> heap \<and> None \<in> set (regions p)" "rc \<noteq> 0 \<Longrightarrow> rc = - ENOMEM \<and> p' = p"
    using eq assms(2) by (auto split: if_splits)
  have "\<exists>j < DAO_PEM_CTRL_REGION_MAX. regions p ! j = None \<and> (\<forall>k < j. regions p ! k \<noteq> None) \<and>
           regions p' = (regions p)[j := Some (new_region m base len f c s)]" if "rc = 0"
  proof -
    have j: "region_slots.slot p < DAO_PEM_CTRL_REGION_MAX"
      "p' = pem_put (region_slots.slot p) (Some (new_region m base len f c s)) p"
      using eq assms(2) that by (auto split: if_splits)
    moreover have "length (regions p) = DAO_PEM_CTRL_REGION_MAX" using assms(1) by (simp add: pem_ok_def)
    ultimately have "is_free (regions p ! region_slots.slot p)" "\<forall>k < region_slots.slot p. \<not> is_free (regions p ! k)"
      using region_slots.slot_free [of p] by (auto simp: region_slots.slot_def dest: first_free_least)
    then show ?thesis
      using j by (intro exI [of _ "region_slots.slot p"]) (auto simp: is_free_def pem_put_def)
  qed
  with ok rc show ?thesis by auto
qed


text \<open>unregistering what was registered last gives the table back as it was, provided no other
  region has the same base, length, callback and context.\<close>

theorem region_register_unregister:
  assumes "pem_ok p" and "dao_pem_ctrl_region_register heap m base len f c s p = (0, p')"
    and "8 dvd unat len" and "\<forall>r \<in> set (regions p). \<not> region_matches base len f c r"
  shows "dao_pem_ctrl_region_unregister base len f c p' = (0, p)"
proof -
  let ?j = "region_slots.slot p" and ?r = "Some (new_region m base len f c s)"
  have j: "?j < DAO_PEM_CTRL_REGION_MAX" and p': "p' = pem_put ?j ?r p"
    using register_eq [OF assms(1), of heap m base len f c s] assms(2) by (auto split: if_splits)
  have len: "length (regions p) = DAO_PEM_CTRL_REGION_MAX" using assms(1) by (simp add: pem_ok_def)
  have ok: "pem_ok p'" using register_ok [OF assms(1), of heap m base len f c s] assms(2) by simp
  have r: "regions p' = (regions p)[?j := ?r]" by (simp add: p' pem_put_def)
  have hit: "region_matches base len f c ?r"
    using assms(3) by (simp add: region_matches_def new_region_size) (simp add: new_region_def)
  have "first_free (region_matches base len f c) (regions p') = ?j"
  proof (rule first_free_unique)
    fix k assume "k < ?j"
    then show "\<not> region_matches base len f c (regions p' ! k)" using assms(4) j len by (simp add: r)
  qed (use j len hit r in auto)
  then have "dao_pem_ctrl_region_unregister base len f c p' = (0, pem_put ?j None p')"
    using j by (simp add: unregister_eq [OF ok] Let_def)
  moreover have "pem_put ?j None p' = p"
    unfolding p' by (rule put_put_free [OF assms(1) j])
  ultimately show ?thesis by simp
qed


lemma empty_table:
  "pem_ok (p\<lparr>regions := replicate DAO_PEM_CTRL_REGION_MAX None, region_mask := replicate DAO_PEM_CTRL_REGION_MASK_MAX 0\<rparr>)"
  by (auto simp: pem_ok_def DAO_PEM_CTRL_REGION_MAX_def DAO_PEM_CTRL_REGION_MASK_MAX_def length_mask_bits nth_mask_bits
      intro!: nth_equalityI)

definition no_device :: vfio_device where
  "no_device = \<lparr>vfio_name = [], vfio_mem = [\<lparr>res_addr = 0x10000, res_len = 0x400000\<rparr>], vfio_type = DAO_VFIO_DEV_PLATFORM,
     prime = 0, mbar = 0, rbar = 0\<rparr>"

definition closed_pem :: "nat pem" where
  "closed_pem = \<lparr>pem_id = 0, host_page_sz = 0, host_pages_per_dev = 0, max_vfs = 0, ctrl_done = False, regions = [],
     region_mask = [], bar4_pdev = no_device, sdp_pdev = no_device\<rparr>
     \<lparr>regions := replicate DAO_PEM_CTRL_REGION_MAX None, region_mask := replicate DAO_PEM_CTRL_REGION_MASK_MAX 0\<rparr>"

lemma closed_ok: "pem_ok closed_pem"
  unfolding closed_pem_def by (rule empty_table)

lemma closed_free: "None \<in> set (regions closed_pem)"
  by (simp add: closed_pem_def DAO_PEM_CTRL_REGION_MAX_def)

theorem region_register_refines_witness:
  "\<exists>p'. dao_pem_ctrl_region_register True (\<lambda>_. 0) 0x1000 64 7 0 False closed_pem = (0, p') \<and> pem_ok p'"
proof -
  obtain rc p' where e: "dao_pem_ctrl_region_register True (\<lambda>_. 0) 0x1000 64 7 0 False closed_pem = (rc, p')"
    by (metis prod.exhaust)
  show ?thesis using region_register_refines [OF closed_ok e] closed_free e by auto
qed

theorem region_register_unregister_witness:
  "\<exists>p'. dao_pem_ctrl_region_register True (\<lambda>_. 0) 0x1000 64 7 0 False closed_pem = (0, p') \<and>
     dao_pem_ctrl_region_unregister 0x1000 64 7 0 p' = (0, closed_pem)"
proof -
  have "region_slots.slot closed_pem < DAO_PEM_CTRL_REGION_MAX"
    using slot_bound [OF closed_ok] closed_free by simp
  then obtain p' where e: "dao_pem_ctrl_region_register True (\<lambda>_. 0) 0x1000 64 7 0 False closed_pem = (0, p')"
    by (simp add: register_eq [OF closed_ok])
  moreover have "\<forall>r \<in> set (regions closed_pem). \<not> region_matches 0x1000 64 7 0 r"
    by (simp add: closed_pem_def region_matches_def)
  ultimately show ?thesis using region_register_unregister [OF closed_ok e] by simp
qed

section \<open>The division of BAR4\<close>

lemma init_division:
  assumes "dao_pem_dev_init env n page m p0 h = Inr (0, m', p, h')"
  shows "\<exists>r. bar4_resource p = Inr r \<and> host_pages_per_dev p \<noteq> 0 \<and> max_vfs p \<noteq> 0 \<and>
    host_pages_per_dev p = (res_len r div host_page_sz p) div ucast (max_vfs p)"
  using assms
  by (auto simp: dao_pem_dev_init_def Let_def rbind_Inr_iff bar4_resource_def split: if_splits prod.splits)

lemma division_bound:
  fixes len page :: nat
  assumes "v < n"
  shows "v * ((len div page) div n) * page + ((len div page) div n) * page \<le> len"
proof -
  let ?q = "(len div page) div n"
  have "v * ?q * page + ?q * page = Suc v * ?q * page" by (simp add: algebra_simps)
  also have "\<dots> \<le> n * ?q * page" using assms by (intro mult_le_mono) auto
  also have "\<dots> \<le> (len div page) * page" by (intro mult_le_mono) (auto simp: mult.commute)
  also have "\<dots> \<le> len" by simp
  finally show ?thesis .
qed

lemma low_part:
  assumes "(x :: u16) AND 0xF000 = 0"
  shows "x AND 0x0FFF = x"
proof -
  have "(0xF000 OR 0x0FFF :: u16) = - 1" by simp
  then have "x = x AND (0xF000 OR 0x0FFF)" by (simp only: bit.conj_one_right)
  also have "\<dots> = x AND 0xF000 OR x AND 0x0FFF" by (rule bit.conj_disj_distrib)
  finally show ?thesis using assms by simp
qed

lemma region_place:
  assumes "bar4_resource p = Inr r" and "host_pages_per_dev p = (res_len r div host_page_sz p) div ucast (max_vfs p)"
    and "unat (res_addr r) + unat (res_len r) < 2 ^ 64" and "vf < max_vfs p" and "vf AND 0xF000 = 0"
  shows "\<exists>a s. dao_pem_vf_region_info_get p vf 4 = Inr (Inr (a, s)) \<and>
    unat s = unat (host_pages_per_dev p) * unat (host_page_sz p) \<and>
    unat a = unat (res_addr r) + unat vf * unat s \<and> unat a + unat s \<le> unat (res_addr r) + unat (res_len r)"
proof -
  let ?q = "unat (host_pages_per_dev p)" and ?g = "unat (host_page_sz p)"
  have q: "?q = (unat (res_len r) div ?g) div unat (max_vfs p)"
    by (simp add: assms(2) unat_div unat_ucast_up)
  have b: "unat vf * ?q * ?g + ?q * ?g \<le> unat (res_len r)"
    unfolding q by (rule division_bound) (use assms(4) in \<open>simp add: word_less_nat_alt\<close>)
  have s: "unat (host_pages_per_dev p * host_page_sz p) = ?q * ?g"
    using b assms(3) by (intro unat_mult_small) simp
  have u: "unat (ucast vf * host_pages_per_dev p) = unat vf * ?q"
  proof -
    have "unat vf * ?q < 2 ^ 64"
    proof (cases "?g = 0")
      case True
      then have "?q = 0" unfolding q by simp
      then show ?thesis by simp
    next
      case False
      then have "unat vf * ?q * 1 \<le> unat vf * ?q * ?g" by (intro mult_le_mono2) simp
      then show ?thesis using b assms(3) by linarith
    qed
    then show ?thesis by (subst unat_mult_small) (simp_all add: unat_ucast_up)
  qed
  have o: "unat (ucast vf * host_pages_per_dev p * host_page_sz p) = unat vf * ?q * ?g"
    using b assms(3) u by (subst unat_mult_small) simp_all
  have a: "unat (res_addr r + ucast vf * host_pages_per_dev p * host_page_sz p) = unat (res_addr r) + unat vf * ?q * ?g"
    using b assms(3) o by (subst unat_add_small) simp_all
  have vf: "vf AND 0x0FFF = vf" by (rule low_part [OF assms(5)])
  show ?thesis
    using vf assms(1,4,5) s a b
    by (simp add: dao_pem_vf_region_info_get_def PEM_PFVF_DEV_ID_PF_MASK_def PEM_PFVF_DEV_ID_VF_MASK_def Let_def
        not_le mult.assoc)
qed

text \<open>C19: after a successful \<^verbatim>\<open>dao_pem_dev_init\<close> the BAR4 windows of two virtual functions have the same
  non-zero size, lie inside BAR4 and do not overlap.\<close>

theorem vf_regions_disjoint:
  assumes "dao_pem_dev_init env n page m p0 h = Inr (0, m', p, h')" and "bar4_resource p = Inr r"
    and "unat (res_addr r) + unat (res_len r) < 2 ^ 64"
    and "vf1 < max_vfs p" and "vf2 < max_vfs p" and "vf1 AND 0xF000 = 0" and "vf2 AND 0xF000 = 0" and "vf1 \<noteq> vf2"
  shows "\<exists>a1 a2 s. dao_pem_vf_region_info_get p vf1 4 = Inr (Inr (a1, s)) \<and>
    dao_pem_vf_region_info_get p vf2 4 = Inr (Inr (a2, s)) \<and> 0 < unat s \<and>
    unat (res_addr r) \<le> unat a1 \<and> unat a1 + unat s \<le> unat (res_addr r) + unat (res_len r) \<and>
    unat (res_addr r) \<le> unat a2 \<and> unat a2 + unat s \<le> unat (res_addr r) + unat (res_len r) \<and>
    (unat a1 + unat s \<le> unat a2 \<or> unat a2 + unat s \<le> unat a1)"
proof -
  have d: "host_pages_per_dev p = (res_len r div host_page_sz p) div ucast (max_vfs p)" "host_pages_per_dev p \<noteq> 0"
    using init_division [OF assms(1)] assms(2) by auto
  then have g: "host_page_sz p \<noteq> 0" by auto
  obtain a1 s1 where 1: "dao_pem_vf_region_info_get p vf1 4 = Inr (Inr (a1, s1))"
    "unat s1 = unat (host_pages_per_dev p) * unat (host_page_sz p)" "unat a1 = unat (res_addr r) + unat vf1 * unat s1"
    "unat a1 + unat s1 \<le> unat (res_addr r) + unat (res_len r)"
    using region_place [OF assms(2) d(1) assms(3,4,6)] by blast
  obtain a2 s2 where 2: "dao_pem_vf_region_info_get p vf2 4 = Inr (Inr (a2, s2))"
    "unat s2 = unat (host_pages_per_dev p) * unat (host_page_sz p)" "unat a2 = unat (res_addr r) + unat vf2 * unat s2"
    "unat a2 + unat s2 \<le> unat (res_addr r) + unat (res_len r)"
    using region_place [OF assms(2) d(1) assms(3,5,7)] by blast
  have s: "s2 = s1" using 1(2) 2(2) by (simp add: word_unat_eq_iff)
  have pos: "0 < unat s1" using d(2) g by (simp add: 1(2) unat_gt_0)
  have "unat vf1 < unat vf2 \<or> unat vf2 < unat vf1" using assms(8) by (metis linorder_neqE_nat word_unat_eq_iff)
  then have "unat a1 + unat s1 \<le> unat a2 \<or> unat a2 + unat s1 \<le> unat a1"
  proof
    assume "unat vf1 < unat vf2"
    then have "Suc (unat vf1) * unat s1 \<le> unat vf2 * unat s1" by (intro mult_le_mono) auto
    then show ?thesis using 1(3) 2(3) s by simp
  next
    assume "unat vf2 < unat vf1"
    then have "Suc (unat vf2) * unat s1 \<le> unat vf1 * unat s1" by (intro mult_le_mono) auto
    then show ?thesis using 1(3) 2(3) s by simp
  qed
  then show ?thesis using 1 2 s pos by auto
qed

section \<open>Probing and closing\<close>

text \<open>when neither the platform device nor the PCIe device of the SDP block can be probed, \<^verbatim>\<open>sdp_init\<close>
  returns the positive \<^verbatim>\<open>errno\<close>, which its caller does not take for an error: \<^verbatim>\<open>setup_vfio_devices\<close> succeeds
  with the unprobed structure as the BAR4 device.\<close>

theorem failed_probe_accepted:
  assumes "0 \<le> env_vfio_init env" and "0 \<le> env_errno env"
    and "\<forall>name d. env_probe env name d = (- 1, d)"
  shows "\<exists>p'. setup_vfio_devices env p h = Inr (0, p', h) \<and> vfio_mem (bar4_pdev p') = vfio_mem (sdp_pdev p)"
  using assms by (auto simp: setup_vfio_devices_def sdp_init_def Let_def)

text \<open>a device that was closed and is opened again is never polled: \<^verbatim>\<open>dao_pem_dev_init\<close> does not reset the
  flag that ends the polling thread.\<close>

theorem reopened_not_polled:
  assumes "dao_pem_dev_fini p = (0, p1)" and "dao_pem_dev_init env n page m p1 h = Inr (0, m', p2, h')"
  shows "pem_ctrl_reg_poll rd call (p2, w) = Inr (p2, w)"
proof -
  have "ctrl_done p1" using assms(1) by (auto simp: dao_pem_dev_fini_def)
  moreover have "ctrl_done p2 = ctrl_done p1"
    using assms(2)
    by (auto simp: dao_pem_dev_init_def setup_vfio_devices_def Let_def rbind_Inr_iff split: if_splits prod.splits option.splits)
  ultimately show ?thesis by (simp add: pem_ctrl_reg_poll_def DAO_PEM_CTRL_REGION_MASK_MAX_def eval_nat_numeral)
qed


text \<open>A platform device with a BAR4 of four megabytes and eight virtual functions.\<close>

definition sample_env :: "(u64 \<Rightarrow> u64) pem_env" where
  "sample_env = \<lparr>env_regs = \<lparr>reg_rd = (\<lambda>h a. h a), reg_wr = (\<lambda>h a v. h(a := v))\<rparr>, env_vfio_init = 0,
     env_probe = (\<lambda>name d. (0, no_device)), env_errno = 0, env_bar4_name = Some ''bar4'', env_dt_vfs = 8, env_thread = 0\<rparr>"

lemma bar4_sample_init:
  "\<exists>m' p h'. dao_pem_dev_init sample_env 1 0 (\<lambda>_. 0) closed_pem (\<lambda>_. 0) = Inr (0, m', p, h') \<and>
     max_vfs p = 8 \<and> bar4_resource p = Inr \<lparr>res_addr = 0x10000, res_len = 0x400000\<rparr>"
  by (simp add: dao_pem_dev_init_def setup_vfio_devices_def sdp_init_def sample_env_def closed_pem_def no_device_def
      bar4_resource_def pem_update_bar4_info_def DAO_PEM_DEFAULT_HOST_PAGE_SZ_def Let_def)

theorem vf_regions_disjoint_witness:
  "\<exists>m' p h' a1 a2 s. dao_pem_dev_init sample_env 1 0 (\<lambda>_. 0) closed_pem (\<lambda>_. 0) = Inr (0, m', p, h') \<and>
     dao_pem_vf_region_info_get p 2 4 = Inr (Inr (a1, s)) \<and> dao_pem_vf_region_info_get p 5 4 = Inr (Inr (a2, s)) \<and>
     (unat a1 + unat s \<le> unat a2 \<or> unat a2 + unat s \<le> unat a1)"
proof -
  obtain m' p h' where e: "dao_pem_dev_init sample_env 1 0 (\<lambda>_. 0) closed_pem (\<lambda>_. 0) = Inr (0, m', p, h')"
    and v: "max_vfs p = 8" and r: "bar4_resource p = Inr \<lparr>res_addr = 0x10000, res_len = 0x400000\<rparr>"
    using bar4_sample_init by blast
  show ?thesis using vf_regions_disjoint [OF e r, of 2 5] v e by simp blast
qed

theorem failed_probe_accepted_witness:
  "\<exists>p'. setup_vfio_devices (sample_env\<lparr>env_probe := (\<lambda>name d. (- 1, d)), env_errno := 19\<rparr>) closed_pem (\<lambda>_. 0) =
     Inr (0, p', \<lambda>_. 0) \<and> vfio_mem (bar4_pdev p') = vfio_mem (sdp_pdev closed_pem)"
  by (rule failed_probe_accepted) (simp_all add: sample_env_def)

theorem reopened_not_polled_witness:
  "\<exists>p1 m' p2 h'. dao_pem_dev_fini closed_pem = (0, p1) \<and>
     dao_pem_dev_init sample_env 1 0 (\<lambda>_. 0) p1 (\<lambda>_. 0) = Inr (0, m', p2, h') \<and>
     pem_ctrl_reg_poll (\<lambda>w a. 1) (\<lambda>f c j i val shd s. Inr (fst s, Suc (snd s))) (p2, 0) = Inr (p2, 0)"
proof -
  obtain p1 where f: "dao_pem_dev_fini closed_pem = (0, p1)" by (simp add: dao_pem_dev_fini_def)
  obtain m' p2 h' where e: "dao_pem_dev_init sample_env 1 0 (\<lambda>_. 0) p1 (\<lambda>_. 0) = Inr (0, m', p2, h')"
    using f by (auto simp: dao_pem_dev_fini_def dao_pem_dev_init_def setup_vfio_devices_def sdp_init_def sample_env_def
        closed_pem_def no_device_def bar4_resource_def pem_update_bar4_info_def DAO_PEM_DEFAULT_HOST_PAGE_SZ_def Let_def)
  have "pem_ctrl_reg_poll (\<lambda>w a. 1) (\<lambda>f c j i val shd s. Inr (fst s, Suc (snd s))) (p2, 0) = Inr (p2, 0)"
    by (rule reopened_not_polled [OF f e])
  with f e show ?thesis by blast
qed

end
