(* ===== verification/Virtio_Dev.thy ===== *)
theory Virtio_Dev
  imports Pem Dma Ring
begin

text \<open>
  The device side of the virtio transport, \<^verbatim>\<open>lib/virtio/virtio_dev.c\<close>: the registers of the common
  configuration with the handler of each of them, the device status machine, the selection and
  configuration of queues, the control queue, and the callback the polling thread runs when a
  word of the configuration differs from its shadow.

  The configuration registers are held as the fields of a record; \<open>cfg_word\<close> and \<open>cfg_set_word\<close>
  give the view as 64-bit words that the union of the C type gives.  Everything else of the BAR,
  the descriptor rings and the heap is byte addressed memory.  The callbacks of the device class
  (\<^verbatim>\<open>dev_cbs\<close>), the DMA engine and the heap are parameters.
\<close>

section \<open>Data\<close>

datatype virtio_dev_type = VIRTIO_DEV_TYPE_NET | VIRTIO_DEV_TYPE_CRYPTO | VIRTIO_DEV_TYPE_MAX

datatype region_cb = COMMON_CFG_CB | CQ_NOTIFY_CB | MBOX_PROCESS_CB

record virtio_pci_common_cfg =
  device_feature_select :: u32
  device_feature :: u32
  driver_feature_select :: u32
  driver_feature :: u32
  config_msix_vector :: u16
  num_queues :: u16
  device_status :: u8
  config_generation :: u8
  queue_select :: u16
  queue_size :: u16
  queue_msix_vector :: u16
  queue_enable :: u16
  queue_notify_off :: u16
  queue_desc_lo :: u32
  queue_desc_hi :: u32
  queue_avail_lo :: u32
  queue_avail_hi :: u32
  queue_used_lo :: u32
  queue_used_hi :: u32
  queue_notify_data :: u16
  queue_reset :: u16
  cfg_pad :: u32

record virtio_queue_conf =
  qc_select :: u16
  qc_size :: u16
  qc_msix_vector :: u16
  qc_enable :: u16
  qc_notify_off :: u16
  qc_desc_lo :: u32
  qc_desc_hi :: u32
  qc_avail_lo :: u32
  qc_avail_hi :: u32
  qc_used_lo :: u32
  qc_used_hi :: u32
  qc_notify_data :: u16
  qc_reset :: u16

record virtio_ctrl_queue =
  desc_base :: u64
  notify_addr :: u64
  q_sz :: u16
  last_off :: u16
  cq_dma_vchan :: u16
  sd_desc_off :: u16
  sd_desc_base :: u64

record virtio_dev =
  dev_id :: u16
  dma_vchan :: u16
  dev_type :: virtio_dev_type
  pem_devid :: u16
  common_cfg :: virtio_pci_common_cfg
  common_cfg_addr :: u64
  bar4 :: u64
  bar4_sz :: u64
  dev_page_sz :: u64
  notify_off_mltpr :: u64
  max_virtio_queues :: int
  max_virtio_queues_limit :: u16
  notify_base :: u64
  isr :: u64
  isr_sz :: u64
  dev_cfg :: u64
  mbox :: u64
  cq :: "virtio_ctrl_queue option"
  queue_conf :: "virtio_queue_conf list"
  dev_feature_bits :: u64
  drv_feature_bits_lo :: u32
  drv_feature_bits_hi :: u32
  feature_bits :: u64
  prev_queue_select :: u16
  prev_drv_feature_select :: u32
  cb_intr_addr :: "u64 option list"
  nb_cb_intrs :: u8
  driver_ok_pend :: u8
  queue_select_pend :: u8
  driver_ok :: bool
  features_ok :: bool
  acknowledge :: bool
  driver :: bool

text \<open>The rest of the world a device touches: memory, and a value of any type for the heap, the DMA engine
  and the state of the device class.\<close>

record 'x world =
  wmem :: memory
  wext :: 'x

record 'x virtio_dev_cbs =
  cq_cmd_process :: "virtio_dev \<Rightarrow> sge list \<Rightarrow> sge list \<Rightarrow> u16 \<Rightarrow> 'x world \<Rightarrow> 'x world"
  dev_status :: "virtio_dev \<Rightarrow> u8 \<Rightarrow> 'x world \<Rightarrow> 'x world"
  cq_id_get :: "virtio_dev \<Rightarrow> u64 \<Rightarrow> u16"
  queue_enable_fn :: "virtio_dev \<Rightarrow> u16 \<Rightarrow> 'x world \<Rightarrow> 'x world"
  feature_validate :: "(virtio_dev \<Rightarrow> u64 \<Rightarrow> int) option"

record 'x virtio_ops =
  dev_cbs :: "virtio_dev_type \<Rightarrow> 'x virtio_dev_cbs"
  ctrl_dma :: dma_glob
  ctrl_copy :: "int \<Rightarrow> u16 \<Rightarrow> u64 \<Rightarrow> u64 \<Rightarrow> nat \<Rightarrow> 'x world \<Rightarrow> int \<times> 'x world"
  ctrl_copy_sg :: "int \<Rightarrow> u16 \<Rightarrow> sge list \<Rightarrow> sge list \<Rightarrow> 'x world \<Rightarrow> int \<times> 'x world"
  ctrl_completed :: "int \<Rightarrow> u16 \<Rightarrow> 'x world \<Rightarrow> u16 \<times> 'x world"
  heap_zmalloc :: "nat \<Rightarrow> 'x world \<Rightarrow> u64 \<times> 'x world"
  heap_free :: "u64 \<Rightarrow> 'x world \<Rightarrow> 'x world"
  region_heap :: "'x world \<Rightarrow> bool"
  sdp_regs :: "'x world reg_ops"
  cache_line :: nat

definition DAO_VIRTIO_MAX_QUEUES :: nat where "DAO_VIRTIO_MAX_QUEUES = 129"
definition DAO_VIRTIO_MAX_QUEUE_SZ :: u16 where "DAO_VIRTIO_MAX_QUEUE_SZ = 4096"
definition VIRTIO_QUEUE_SELECT_DELAY :: u8 where "VIRTIO_QUEUE_SELECT_DELAY = 3"
definition VIRTIO_INVALID_QUEUE_INDEX :: u16 where "VIRTIO_INVALID_QUEUE_INDEX = 0xFFFF"
definition VIRTIO_INVALID_FEATURE_SELECT :: u32 where "VIRTIO_INVALID_FEATURE_SELECT = 0xFFFF"
definition VIRTIO_DMA_TMO_MS :: nat where "VIRTIO_DMA_TMO_MS = 3000"

definition VIRTIO_DEV_RESET :: u8 where "VIRTIO_DEV_RESET = 0"
definition VIRTIO_DEV_ACKNOWLEDGE :: u8 where "VIRTIO_DEV_ACKNOWLEDGE = 1"
definition VIRTIO_DEV_DRIVER :: u8 where "VIRTIO_DEV_DRIVER = 2"
definition VIRTIO_DEV_DRIVER_OK :: u8 where "VIRTIO_DEV_DRIVER_OK = 4"
definition VIRTIO_DEV_FEATURES_OK :: u8 where "VIRTIO_DEV_FEATURES_OK = 8"
definition VIRTIO_DEV_NEEDS_RESET :: u8 where "VIRTIO_DEV_NEEDS_RESET = 64"
definition VIRTIO_DEV_FAILED :: u8 where "VIRTIO_DEV_FAILED = 128"

section \<open>The configuration as words\<close>

definition cfg_word :: "virtio_pci_common_cfg \<Rightarrow> nat \<Rightarrow> u64" where
  "cfg_word c i =
     (if i = 0 then ucast (device_feature_select c) OR push_bit 32 (ucast (device_feature c))
      else if i = 1 then ucast (driver_feature_select c) OR push_bit 32 (ucast (driver_feature c))
      else if i = 2 then ucast (config_msix_vector c) OR push_bit 16 (ucast (num_queues c)) OR
        push_bit 32 (ucast (device_status c)) OR push_bit 40 (ucast (config_generation c)) OR
        push_bit 48 (ucast (queue_select c))
      else if i = 3 then ucast (queue_size c) OR push_bit 16 (ucast (queue_msix_vector c)) OR
        push_bit 32 (ucast (queue_enable c)) OR push_bit 48 (ucast (queue_notify_off c))
      else if i = 4 then ucast (queue_desc_lo c) OR push_bit 32 (ucast (queue_desc_hi c))
      else if i = 5 then ucast (queue_avail_lo c) OR push_bit 32 (ucast (queue_avail_hi c))
      else if i = 6 then ucast (queue_used_lo c) OR push_bit 32 (ucast (queue_used_hi c))
      else ucast (queue_notify_data c) OR push_bit 16 (ucast (queue_reset c)) OR push_bit 32 (ucast (cfg_pad c)))"

definition cfg_set_word :: "virtio_pci_common_cfg \<Rightarrow> nat \<Rightarrow> u64 \<Rightarrow> virtio_pci_common_cfg" where
  "cfg_set_word c i v =
     (if i = 0 then c\<lparr>device_feature_select := ucast v, device_feature := ucast (drop_bit 32 v)\<rparr>
      else if i = 1 then c\<lparr>driver_feature_select := ucast v, driver_feature := ucast (drop_bit 32 v)\<rparr>
      else if i = 2 then c\<lparr>config_msix_vector := ucast v, num_queues := ucast (drop_bit 16 v),
        device_status := ucast (drop_bit 32 v), config_generation := ucast (drop_bit 40 v),
        queue_select := ucast (drop_bit 48 v)\<rparr>
      else if i = 3 then c\<lparr>queue_size := ucast v, queue_msix_vector := ucast (drop_bit 16 v),
        queue_enable := ucast (drop_bit 32 v), queue_notify_off := ucast (drop_bit 48 v)\<rparr>
      else if i = 4 then c\<lparr>queue_desc_lo := ucast v, queue_desc_hi := ucast (drop_bit 32 v)\<rparr>
      else if i = 5 then c\<lparr>queue_avail_lo := ucast v, queue_avail_hi := ucast (drop_bit 32 v)\<rparr>
      else if i = 6 then c\<lparr>queue_used_lo := ucast v, queue_used_hi := ucast (drop_bit 32 v)\<rparr>
      else if i = 7 then c\<lparr>queue_notify_data := ucast v, queue_reset := ucast (drop_bit 16 v),
        cfg_pad := ucast (drop_bit 32 v)\<rparr>
      else c)"

definition zero_cfg :: virtio_pci_common_cfg where
  "zero_cfg = \<lparr>device_feature_select = 0, device_feature = 0, driver_feature_select = 0, driver_feature = 0,
     config_msix_vector = 0, num_queues = 0, device_status = 0, config_generation = 0, queue_select = 0,
     queue_size = 0, queue_msix_vector = 0, queue_enable = 0, queue_notify_off = 0, queue_desc_lo = 0,
     queue_desc_hi = 0, queue_avail_lo = 0, queue_avail_hi = 0, queue_used_lo = 0, queue_used_hi = 0,
     queue_notify_data = 0, queue_reset = 0, cfg_pad = 0\<rparr>"

definition zero_queue_conf :: virtio_queue_conf where
  "zero_queue_conf = \<lparr>qc_select = 0, qc_size = 0, qc_msix_vector = 0, qc_enable = 0, qc_notify_off = 0,
     qc_desc_lo = 0, qc_desc_hi = 0, qc_avail_lo = 0, qc_avail_hi = 0, qc_used_lo = 0, qc_used_hi = 0,
     qc_notify_data = 0, qc_reset = 0\<rparr>"

section \<open>Feature registers\<close>

definition virtio_process_device_feature_select ::
  "virtio_dev \<Rightarrow> virtio_pci_common_cfg \<Rightarrow> u32 \<Rightarrow> virtio_dev \<times> virtio_pci_common_cfg" where
  "virtio_process_device_feature_select dev sh dfs =
     (let fs = dfs AND 0x7fff; cfg = common_cfg dev in
      if dfs = VIRTIO_INVALID_FEATURE_SELECT then (dev, sh\<lparr>device_feature_select := dfs\<rparr>)
      else
        let cfg1 = (if fs = 0 then cfg\<lparr>device_feature := ucast (dev_feature_bits dev)\<rparr>
                    else if fs = 1 then cfg\<lparr>device_feature := ucast (drop_bit 32 (dev_feature_bits dev))\<rparr>
                    else cfg)
        in (dev\<lparr>common_cfg := cfg1\<lparr>device_feature_select := fs\<rparr>\<rparr>,
            sh\<lparr>device_feature_select := fs, device_feature := device_feature cfg1\<rparr>))"

definition virtio_process_driver_feature_select ::
  "virtio_dev \<Rightarrow> virtio_pci_common_cfg \<Rightarrow> u32 \<Rightarrow> virtio_dev \<times> virtio_pci_common_cfg" where
  "virtio_process_driver_feature_select dev sh dfs =
     (let prev = prev_drv_feature_select dev; fs = dfs AND 0x7fff in
      if dfs = VIRTIO_INVALID_FEATURE_SELECT then (dev, sh\<lparr>driver_feature_select := dfs\<rparr>)
      else
        let dev1 = (if prev \<noteq> 0xffff
                    then (if prev = 0 then dev\<lparr>drv_feature_bits_lo := driver_feature (common_cfg dev)\<rparr>
                          else if prev = 1 then dev\<lparr>drv_feature_bits_hi := driver_feature (common_cfg dev)\<rparr>
                          else dev)
                    else dev);
            dev2 = dev1\<lparr>prev_drv_feature_select := fs\<rparr>;
            cfg = common_cfg dev2;
            cfg1 = (if fs = 0 then cfg\<lparr>driver_feature := drv_feature_bits_lo dev2\<rparr>
                    else if fs = 1 then cfg\<lparr>driver_feature := drv_feature_bits_hi dev2\<rparr>
                    else cfg)
        in (dev2\<lparr>common_cfg := cfg1\<lparr>driver_feature_select := fs\<rparr>\<rparr>,
            sh\<lparr>driver_feature := driver_feature cfg1, driver_feature_select := fs\<rparr>))"

definition virtio_process_driver_feature ::
  "virtio_dev \<Rightarrow> virtio_pci_common_cfg \<Rightarrow> u32 \<Rightarrow> virtio_dev \<times> virtio_pci_common_cfg" where
  "virtio_process_driver_feature dev sh f =
     (let fs = prev_drv_feature_select dev in
      (if fs = 0 then dev\<lparr>drv_feature_bits_lo := f\<rparr>
       else if fs = 1 then dev\<lparr>drv_feature_bits_hi := f\<rparr>
       else dev,
       sh\<lparr>driver_feature := f\<rparr>))"

section \<open>Defaults\<close>

fun notify_reset :: "u64 \<Rightarrow> u64 \<Rightarrow> nat \<Rightarrow> memory \<Rightarrow> memory" where
  "notify_reset base mltpr 0 m = m"
| "notify_reset base mltpr (Suc i) m = store32 (notify_reset base mltpr i m) (base + of_nat i * mltpr) 0x80000000"

definition virtio_config_populate :: "virtio_dev \<Rightarrow> 'x world \<Rightarrow> fault + virtio_dev \<times> 'x world" where
  "virtio_config_populate dev w =
     (let n = unat (word_of_int (max_virtio_queues dev) :: u16) in
      if length (queue_conf dev) < n then Inl OutOfBounds
      else Inr
        (dev\<lparr>common_cfg := (common_cfg dev)\<lparr>num_queues := of_nat n,
                device_feature_select := VIRTIO_INVALID_FEATURE_SELECT,
                driver_feature_select := VIRTIO_INVALID_FEATURE_SELECT\<rparr>,
             prev_queue_select := VIRTIO_INVALID_QUEUE_INDEX,
             prev_drv_feature_select := VIRTIO_INVALID_FEATURE_SELECT,
             queue_conf := replicate n (zero_queue_conf\<lparr>qc_size := DAO_VIRTIO_MAX_QUEUE_SZ\<rparr>) @ drop n (queue_conf dev),
             feature_bits := dev_feature_bits dev\<rparr>,
         w\<lparr>wmem := notify_reset (notify_base dev) (notify_off_mltpr dev) n (wmem w)\<rparr>))"

section \<open>Control queue\<close>

definition load16 :: "memory \<Rightarrow> u64 \<Rightarrow> u16" where
  "load16 m a = ucast (m a) OR push_bit 8 (ucast (m (a + 1)))"

definition load32 :: "memory \<Rightarrow> u64 \<Rightarrow> u32" where
  "load32 m a = foldr (\<lambda>i w. push_bit 8 w OR ucast (m (a + of_nat i))) [0..<4] 0"

text \<open>The loop that sleeps a millisecond and asks for one completion.  The count of the rounds left is
  tested before the completion, so that a completion in the last round is not seen.\<close>

fun dma_wait :: "'x virtio_ops \<Rightarrow> int \<Rightarrow> u16 \<Rightarrow> nat \<Rightarrow> 'x world \<Rightarrow> bool \<times> 'x world" where
  "dma_wait ops d vch 0 w = (False, w)"
| "dma_wait ops d vch (Suc tmo) w =
     (case ctrl_completed ops d vch w of (n, w1) \<Rightarrow>
        if tmo = 0 then (False, w1) else if n = 1 then (True, w1) else dma_wait ops d vch tmo w1)"

text \<open>The loop that turns the descriptors \<open>i\<close>, \<open>i + 1\<close>, ... of the shadow ring into the \<open>j\<close>-th and following
  entries of the array \<^verbatim>\<open>cmd_src[15]\<close> and adds up their lengths.\<close>

fun collect_descs :: "memory \<Rightarrow> u64 \<Rightarrow> nat \<Rightarrow> nat \<Rightarrow> nat \<Rightarrow> sge list \<Rightarrow> u32 \<Rightarrow> fault + sge list \<times> u32" where
  "collect_descs m base i j 0 cmd_src tot = Inr (cmd_src, tot)"
| "collect_descs m base i j (Suc n) cmd_src tot =
     (if length cmd_src \<le> j then Inl OutOfBounds
      else
        let l = ucast (load64 m (DESC_PTR_OFF base (of_nat i) 8) AND 0xffffffff)
        in collect_descs m base (Suc i) (Suc j) n
             (cmd_src[j := \<lparr>addr = load64 m (DESC_PTR_OFF base (of_nat i) 0), len = l\<rparr>]) (tot + l))"

definition process_descs ::
  "'x virtio_ops \<Rightarrow> virtio_ctrl_queue \<Rightarrow> sge list \<Rightarrow> sge list \<Rightarrow> u16 \<Rightarrow> 'x world \<Rightarrow>
    fault + int \<times> sge list \<times> sge list \<times> 'x world" where
  "process_descs ops q cmd_src cmd_dst nb_desc w =
     (let d = dao_dma_ctrl_dev2mem (ctrl_dma ops);
          off = ucast (DESC_OFF (sd_desc_off q)) :: u16 in
      case ctrl_copy ops d (cq_dma_vchan q) (DESC_PTR_OFF (desc_base q) off 0) (DESC_PTR_OFF (sd_desc_base q) off 0)
             (16 * unat nb_desc) w of (rc, w1) \<Rightarrow>
      if rc < 0 then Inr (- ENOMEM, cmd_src, cmd_dst, w1)
      else case dma_wait ops d (cq_dma_vchan q) VIRTIO_DMA_TMO_MS w1 of
        (False, w2) \<Rightarrow> Inr (- EFAULT, cmd_src, cmd_dst, w2)
      | (True, w2) \<Rightarrow>
          rbind (collect_descs (wmem w2) (sd_desc_base q) (unat off) 0 (unat nb_desc) cmd_src 0) (\<lambda>(cmd_src1, tot).
          case heap_zmalloc ops (unat tot) w2 of (a, w3) \<Rightarrow>
          let cmd_dst1 = cmd_dst[0 := (cmd_dst ! 0)\<lparr>addr := a\<rparr>] in
          if a = 0 then Inr (- ENOMEM, cmd_src1, cmd_dst1, w3)
          else
            let cmd_dst2 = cmd_dst1[0 := \<lparr>addr = a, len = tot\<rparr>] in
            case ctrl_copy_sg ops d (cq_dma_vchan q) (take (unat nb_desc) cmd_src1) (take 1 cmd_dst2) w3 of (rc2, w4) \<Rightarrow>
            if rc2 < 0 then Inr (- ENOMEM, cmd_src1, cmd_dst2, heap_free ops a w4)
            else case dma_wait ops d (cq_dma_vchan q) VIRTIO_DMA_TMO_MS w4 of
              (False, w5) \<Rightarrow> Inr (- EFAULT, cmd_src1, cmd_dst2, w5)
            | (True, w5) \<Rightarrow> Inr (0, cmd_src1, cmd_dst2, w5)))"

definition VRING_DESC_F_WRITE :: u64 where "VRING_DESC_F_WRITE = 2"
definition VIRT_PACKED_RING_DESC_F_AVAIL_USED :: u64 where
  "VIRT_PACKED_RING_DESC_F_AVAIL_USED = push_bit 48 (push_bit 7 1) OR push_bit 48 (push_bit 15 1)"

text \<open>The two arrays of fifteen entries on the stack are not initialised; \<open>junk\<close> is what they hold.\<close>

definition virtio_cq_cmd_process ::
  "'x virtio_ops \<Rightarrow> sge list \<Rightarrow> virtio_dev \<Rightarrow> 'x world \<Rightarrow> fault + virtio_dev \<times> 'x world" where
  "virtio_cq_cmd_process ops junk dev w =
     (case cq dev of
        None \<Rightarrow> Inl WildPointer
      | Some q \<Rightarrow>
          let next_off = ucast (drop_bit 16 (load32 (wmem w) (notify_addr q))) :: u16;
              nb_desc = (if next_off \<noteq> sd_desc_off q then desc_off_diff_no_wrap next_off (sd_desc_off q) (q_sz q) else 0)
          in if nb_desc = 0 then Inr (dev, w)
             else rbind (process_descs ops q junk junk nb_desc w) (\<lambda>(rc, cmd_src, cmd_dst, w1).
               if rc < 0 then Inr (dev, w1)
               else
                 let w2 = cq_cmd_process (dev_cbs ops (dev_type dev)) dev cmd_src cmd_dst nb_desc w1;
                     flags = DESC_PTR_OFF (sd_desc_base q) (sd_desc_off q) 8;
                     w3 = w2\<lparr>wmem := store64 (wmem w2) flags (VRING_DESC_F_WRITE OR VIRT_PACKED_RING_DESC_F_AVAIL_USED)\<rparr>;
                     d = dao_dma_ctrl_mem2dev (ctrl_dma ops)
                 in case ctrl_copy ops d (dma_vchan dev) (DESC_PTR_OFF (sd_desc_base q) (sd_desc_off q) 0)
                           (DESC_PTR_OFF (desc_base q) (sd_desc_off q) 0) 16 w3 of (rc2, w4) \<Rightarrow>
                    if rc2 < 0 then Inr (dev, heap_free ops (addr (cmd_dst ! 0)) w4)
                    else Inr (dev\<lparr>cq := Some (q\<lparr>sd_desc_off := next_off\<rparr>)\<rparr>,
                              heap_free ops (addr (cmd_dst ! 0)) (snd (dma_wait ops d (dma_vchan dev) VIRTIO_DMA_TMO_MS w4)))))"

text \<open>The part of \<^verbatim>\<open>struct virtio_ctrl_queue\<close> in front of the shadow ring takes one cache line.\<close>

definition virtio_clear_cq_info ::
  "'x virtio_ops \<Rightarrow> u64 \<Rightarrow> virtio_dev \<Rightarrow> region_cb pem \<Rightarrow> 'x world \<Rightarrow> virtio_dev \<times> region_cb pem \<times> 'x world" where
  "virtio_clear_cq_info ops this dev p w =
     (case cq dev of
        None \<Rightarrow> (dev, p, w)
      | Some q \<Rightarrow>
          (dev\<lparr>cq := None\<rparr>, snd (dao_pem_ctrl_region_unregister (notify_addr q) 8 CQ_NOTIFY_CB this p),
           heap_free ops (sd_desc_base q - of_nat (cache_line ops)) w))"

definition ALIGN64 :: "u64 \<Rightarrow> u64 \<Rightarrow> u64" where
  "ALIGN64 v a = (v + (a - 1)) AND NOT (a - 1)"

definition virtio_setup_cq_info ::
  "'x virtio_ops \<Rightarrow> u64 \<Rightarrow> virtio_dev \<Rightarrow> region_cb pem \<Rightarrow> 'x world \<Rightarrow>
    fault + int \<times> virtio_dev \<times> region_cb pem \<times> 'x world" where
  "virtio_setup_cq_info ops this dev p w =
     (if \<not> features_ok dev then Inr (0, dev, p, w)
      else
        let qid = cq_id_get (dev_cbs ops (dev_type dev)) dev (feature_bits dev) in
        if length (queue_conf dev) \<le> unat qid then Inl OutOfBounds
        else
          let qc = queue_conf dev ! unat qid in
          if qc_enable qc = 0 \<or> cq dev \<noteq> None then Inr (0, dev, p, w)
          else
            let area = ALIGN64 (ucast (qc_size qc) * 16 + 8) (of_nat (cache_line ops)) in
            case heap_zmalloc ops (cache_line ops + unat area) w of (a, w1) \<Rightarrow>
            if a = 0 then Inr (- ENOMEM, dev, p, w1)
            else
              let q = \<lparr>desc_base = push_bit 32 (ucast (qc_desc_hi qc)) OR ucast (qc_desc_lo qc),
                       notify_addr = notify_base dev + ucast qid * notify_off_mltpr dev,
                       q_sz = qc_size qc, last_off = 0x8000, cq_dma_vchan = dma_vchan dev,
                       sd_desc_off = 0x8000, sd_desc_base = a + of_nat (cache_line ops)\<rparr>
              in case dao_pem_ctrl_region_register (region_heap ops w1) (wmem w1) (notify_addr q) 8 CQ_NOTIFY_CB this False p of
                   (rc, p1) \<Rightarrow> Inr (rc, dev\<lparr>cq := Some q\<rparr>, p1, w1))"

section \<open>Device status\<close>

text \<open>\<^verbatim>\<open>virtio_process_device_status\<close> is one function with the blocks for reset, features, driver and the
  rest; each block is a definition here.\<close>

definition status_reset ::
  "'x virtio_ops \<Rightarrow> u64 \<Rightarrow> virtio_dev \<Rightarrow> virtio_pci_common_cfg \<Rightarrow> region_cb pem \<Rightarrow> 'x world \<Rightarrow>
    fault + virtio_dev \<times> virtio_pci_common_cfg \<times> region_cb pem \<times> 'x world" where
  "status_reset ops this dev sh p w =
     (let w1 = dev_status (dev_cbs ops (dev_type dev)) dev VIRTIO_DEV_RESET w in
      case virtio_clear_cq_info ops this dev p w1 of (dev1, p1, w1) \<Rightarrow>
      rbind (virtio_config_populate dev1 w1) (\<lambda>(dev2, w2).
        Inr (dev2\<lparr>common_cfg := (common_cfg dev2)\<lparr>device_status := VIRTIO_DEV_RESET\<rparr>,
                  driver_ok := False, features_ok := False, acknowledge := False, driver := False\<rparr>,
             sh\<lparr>device_status := VIRTIO_DEV_RESET\<rparr>, p1, w2)))"

definition status_features ::
  "'x virtio_ops \<Rightarrow> virtio_dev \<Rightarrow> virtio_pci_common_cfg \<Rightarrow> virtio_dev \<times> virtio_pci_common_cfg" where
  "status_features ops dev sh =
     (let bits = ucast (drv_feature_bits_lo dev) OR push_bit 32 (ucast (drv_feature_bits_hi dev)) in
      if (case feature_validate (dev_cbs ops (dev_type dev)) of None \<Rightarrow> False | Some f \<Rightarrow> f dev bits \<noteq> 0)
      then (dev\<lparr>common_cfg := (common_cfg dev)\<lparr>device_status := device_status (common_cfg dev) AND NOT VIRTIO_DEV_FEATURES_OK\<rparr>\<rparr>,
            sh\<lparr>device_status := device_status sh AND NOT VIRTIO_DEV_FEATURES_OK\<rparr>)
      else (dev\<lparr>feature_bits := bits, features_ok := True\<rparr>,
            sh\<lparr>device_status := device_status sh OR VIRTIO_DEV_FEATURES_OK\<rparr>))"

definition status_driver_ok ::
  "'x virtio_ops \<Rightarrow> u64 \<Rightarrow> virtio_dev \<Rightarrow> virtio_pci_common_cfg \<Rightarrow> region_cb pem \<Rightarrow> 'x world \<Rightarrow>
    fault + virtio_dev \<times> virtio_pci_common_cfg \<times> region_cb pem \<times> 'x world" where
  "status_driver_ok ops this dev sh p w =
     (let dev1 = dev\<lparr>driver_ok_pend := 0, driver_ok := True\<rparr>;
          w1 = dev_status (dev_cbs ops (dev_type dev1)) dev1 VIRTIO_DEV_DRIVER_OK w in
      rbind (virtio_setup_cq_info ops this dev1 p w1) (\<lambda>(_, dev2, p1, w2).
        Inr (dev2, sh\<lparr>device_status := device_status sh OR VIRTIO_DEV_DRIVER_OK\<rparr>, p1, w2)))"

definition status_rest :: "u8 \<Rightarrow> virtio_dev \<Rightarrow> virtio_pci_common_cfg \<Rightarrow> virtio_dev \<times> virtio_pci_common_cfg" where
  "status_rest status dev sh =
     (let (dev1, sh1) =
            (if status AND VIRTIO_DEV_ACKNOWLEDGE \<noteq> 0 \<and> \<not> acknowledge dev
             then (dev\<lparr>acknowledge := True\<rparr>, sh\<lparr>device_status := device_status sh OR VIRTIO_DEV_ACKNOWLEDGE\<rparr>)
             else (dev, sh))
      in if status AND VIRTIO_DEV_DRIVER \<noteq> 0 \<and> \<not> driver dev1
         then (dev1\<lparr>driver := False\<rparr>, sh1\<lparr>device_status := device_status sh1 OR VIRTIO_DEV_DRIVER\<rparr>)
         else (dev1, sh1))"

definition virtio_process_device_status ::
  "'x virtio_ops \<Rightarrow> u64 \<Rightarrow> virtio_dev \<Rightarrow> virtio_pci_common_cfg \<Rightarrow> u8 \<Rightarrow> region_cb pem \<Rightarrow> 'x world \<Rightarrow>
    fault + int \<times> virtio_dev \<times> virtio_pci_common_cfg \<times> region_cb pem \<times> 'x world" where
  "virtio_process_device_status ops this dev sh st p w =
     (let status = st AND 0x7f in
      rbind (if status = VIRTIO_DEV_RESET then status_reset ops this dev sh p w else Inr (dev, sh, p, w)) (\<lambda>(dev1, sh1, p1, w1).
      case (if status AND VIRTIO_DEV_FEATURES_OK \<noteq> 0 \<and> \<not> features_ok dev1 then status_features ops dev1 sh1 else (dev1, sh1)) of
        (dev2, sh2) \<Rightarrow>
      if status AND VIRTIO_DEV_DRIVER_OK \<noteq> 0 \<and> \<not> driver_ok dev2 \<and> driver_ok_pend dev2 < 3
      then Inr (1, dev2\<lparr>driver_ok_pend := driver_ok_pend dev2 + 1\<rparr>, sh2, p1, w1)
      else rbind (if status AND VIRTIO_DEV_DRIVER_OK \<noteq> 0 \<and> \<not> driver_ok dev2
                  then status_driver_ok ops this dev2 sh2 p1 w1 else Inr (dev2, sh2, p1, w1)) (\<lambda>(dev3, sh3, p2, w2).
        case status_rest status dev3 sh3 of (dev4, sh4) \<Rightarrow> Inr (0, dev4, sh4, p2, w2))))"

section \<open>Queue registers\<close>

definition virtio_queue_conf_pending :: "virtio_dev \<Rightarrow> fault + bool" where
  "virtio_queue_conf_pending dev =
     (let qid = prev_queue_select dev; c = common_cfg dev in
      if qid = VIRTIO_INVALID_QUEUE_INDEX then Inr False
      else if DAO_VIRTIO_MAX_QUEUES \<le> unat qid then Inr False
      else if length (queue_conf dev) \<le> unat qid then Inl OutOfBounds
      else
        let q = queue_conf dev ! unat qid
        in Inr (qc_msix_vector q \<noteq> queue_msix_vector c \<or> qc_desc_lo q \<noteq> queue_desc_lo c \<or>
                qc_desc_hi q \<noteq> queue_desc_hi c \<or> qc_used_lo q \<noteq> queue_used_lo c \<or>
                qc_used_hi q \<noteq> queue_used_hi c \<or> qc_avail_lo q \<noteq> queue_avail_lo c \<or>
                qc_avail_hi q \<noteq> queue_avail_hi c \<or> qc_size q \<noteq> queue_size c))"

definition save_queue :: "virtio_pci_common_cfg \<Rightarrow> virtio_queue_conf \<Rightarrow> virtio_queue_conf" where
  "save_queue c q =
     q\<lparr>qc_msix_vector := queue_msix_vector c, qc_enable := queue_enable c, qc_desc_lo := queue_desc_lo c,
       qc_desc_hi := queue_desc_hi c, qc_used_lo := queue_used_lo c, qc_used_hi := queue_used_hi c,
       qc_avail_lo := queue_avail_lo c, qc_avail_hi := queue_avail_hi c, qc_size := queue_size c\<rparr>"

definition show_queue :: "u16 \<Rightarrow> virtio_queue_conf \<Rightarrow> virtio_pci_common_cfg \<Rightarrow> virtio_pci_common_cfg" where
  "show_queue qid q c =
     c\<lparr>queue_size := qc_size q, queue_msix_vector := qc_msix_vector q, queue_enable := qc_enable q,
       queue_notify_off := qid, queue_desc_lo := qc_desc_lo q, queue_desc_hi := qc_desc_hi q,
       queue_used_lo := qc_used_lo q, queue_used_hi := qc_used_hi q, queue_avail_lo := qc_avail_lo q,
       queue_avail_hi := qc_avail_hi q\<rparr>"

definition virtio_process_queue_select ::
  "virtio_dev \<Rightarrow> virtio_pci_common_cfg \<Rightarrow> u16 \<Rightarrow> fault + int \<times> virtio_dev \<times> virtio_pci_common_cfg" where
  "virtio_process_queue_select dev sh qs =
     (let qid = qs AND 0x7fff; prev = prev_queue_select dev in
      if queue_select_pend dev < VIRTIO_QUEUE_SELECT_DELAY
      then Inr (0, dev\<lparr>queue_select_pend := queue_select_pend dev + 1\<rparr>, sh)
      else
        let dev1 = dev\<lparr>queue_select_pend := 0\<rparr> in
        if DAO_VIRTIO_MAX_QUEUES \<le> unat qid \<or>
           (prev \<noteq> VIRTIO_INVALID_QUEUE_INDEX \<and> DAO_VIRTIO_MAX_QUEUES \<le> unat prev)
        then Inr (- EINVAL, dev1, sh)
        else if prev = qid
        then Inr (1, dev1\<lparr>common_cfg := (common_cfg dev1)\<lparr>queue_select := qid\<rparr>\<rparr>, sh\<lparr>queue_select := qid\<rparr>)
        else if length (queue_conf dev) \<le> unat qid \<or>
                (prev \<noteq> VIRTIO_INVALID_QUEUE_INDEX \<and> length (queue_conf dev) \<le> unat prev)
        then Inl OutOfBounds
        else
          let c = common_cfg dev1;
              dev2 = (if prev \<noteq> VIRTIO_INVALID_QUEUE_INDEX
                      then dev1\<lparr>queue_conf := (queue_conf dev1)[unat prev := save_queue c (queue_conf dev1 ! unat prev)]\<rparr>
                      else dev1);
              q = queue_conf dev2 ! unat qid
          in Inr (1, dev2\<lparr>prev_queue_select := qid, common_cfg := (show_queue qid q c)\<lparr>queue_select := qid\<rparr>\<rparr>,
                  (show_queue qid q sh)\<lparr>queue_select := qid\<rparr>))"

text \<open>The registers of the selected queue all go through the same two tests.\<close>

definition with_queue :: "virtio_dev \<Rightarrow> (virtio_queue_conf \<Rightarrow> virtio_queue_conf) \<Rightarrow> fault + int \<times> virtio_dev" where
  "with_queue dev f =
     (let qid = prev_queue_select dev in
      if qid = VIRTIO_INVALID_QUEUE_INDEX then Inr (- EINVAL, dev)
      else if DAO_VIRTIO_MAX_QUEUES \<le> unat qid then Inr (- EINVAL, dev)
      else if length (queue_conf dev) \<le> unat qid then Inl OutOfBounds
      else Inr (0, dev\<lparr>queue_conf := (queue_conf dev)[unat qid := f (queue_conf dev ! unat qid)]\<rparr>))"

definition virtio_process_queue_size :: "virtio_dev \<Rightarrow> u16 \<Rightarrow> fault + int \<times> virtio_dev" where
  "virtio_process_queue_size dev v = with_queue dev (\<lambda>q. q\<lparr>qc_size := v\<rparr>)"

definition virtio_process_queue_msix_vector :: "virtio_dev \<Rightarrow> u16 \<Rightarrow> fault + int \<times> virtio_dev" where
  "virtio_process_queue_msix_vector dev v = with_queue dev (\<lambda>q. q\<lparr>qc_msix_vector := v\<rparr>)"

definition virtio_process_queue_desc_lo :: "virtio_dev \<Rightarrow> u32 \<Rightarrow> fault + int \<times> virtio_dev" where
  "virtio_process_queue_desc_lo dev v = with_queue dev (\<lambda>q. q\<lparr>qc_desc_lo := v\<rparr>)"

definition virtio_process_queue_desc_hi :: "virtio_dev \<Rightarrow> u32 \<Rightarrow> fault + int \<times> virtio_dev" where
  "virtio_process_queue_desc_hi dev v = with_queue dev (\<lambda>q. q\<lparr>qc_desc_hi := v\<rparr>)"

definition virtio_process_queue_driver_lo :: "virtio_dev \<Rightarrow> u32 \<Rightarrow> fault + int \<times> virtio_dev" where
  "virtio_process_queue_driver_lo dev v = with_queue dev (\<lambda>q. q\<lparr>qc_avail_lo := v\<rparr>)"

definition virtio_process_queue_driver_hi :: "virtio_dev \<Rightarrow> u32 \<Rightarrow> fault + int \<times> virtio_dev" where
  "virtio_process_queue_driver_hi dev v = with_queue dev (\<lambda>q. q\<lparr>qc_avail_hi := v\<rparr>)"

definition virtio_process_queue_device_lo :: "virtio_dev \<Rightarrow> u32 \<Rightarrow> fault + int \<times> virtio_dev" where
  "virtio_process_queue_device_lo dev v = with_queue dev (\<lambda>q. q\<lparr>qc_used_lo := v\<rparr>)"

definition virtio_process_queue_device_hi :: "virtio_dev \<Rightarrow> u32 \<Rightarrow> fault + int \<times> virtio_dev" where
  "virtio_process_queue_device_hi dev v = with_queue dev (\<lambda>q. q\<lparr>qc_used_hi := v\<rparr>)"

definition virtio_process_queue_enable ::
  "'x virtio_ops \<Rightarrow> u64 \<Rightarrow> virtio_dev \<Rightarrow> u16 \<Rightarrow> region_cb pem \<Rightarrow> 'x world \<Rightarrow>
    fault + int \<times> virtio_dev \<times> region_cb pem \<times> 'x world" where
  "virtio_process_queue_enable ops this dev v p w =
     (let cbs = dev_cbs ops (dev_type dev); cq_id = cq_id_get cbs dev (feature_bits dev); qid = prev_queue_select dev in
      rbind (with_queue dev (\<lambda>q. q\<lparr>qc_enable := v\<rparr>)) (\<lambda>(rc, dev1).
      if rc < 0 then Inr (rc, dev1, p, w)
      else
        rbind (if features_ok dev1 \<and> driver_ok dev1 \<and> v \<noteq> 0 \<and> qid = cq_id \<and> cq dev1 = None
               then virtio_setup_cq_info ops this dev1 p w else Inr (0, dev1, p, w)) (\<lambda>(_, dev2, p1, w1).
        Inr (0, dev2, p1,
             if features_ok dev2 \<and> v \<noteq> 0 \<and> qid \<noteq> cq_id then queue_enable_fn cbs dev2 qid w1 else w1))))"

section \<open>The callback of the common configuration\<close>

text \<open>
  \<^verbatim>\<open>dao_virtio_common_cfg_cb\<close>: \<open>v\<close> is the word at \<open>offset\<close> of the configuration, \<open>sv\<close> that of the shadow.  The handlers of
  the device feature, the MSI-X vector of the configuration and the queue reset do nothing.  Return
  codes of the handlers are dropped.
\<close>

definition cb_words_0_1 ::
  "virtio_dev \<Rightarrow> virtio_pci_common_cfg \<Rightarrow> nat \<Rightarrow> u64 \<Rightarrow> u64 \<Rightarrow> virtio_dev \<times> virtio_pci_common_cfg" where
  "cb_words_0_1 dev sh offset v sv =
     (let up = cfg_set_word zero_cfg offset v; shd = cfg_set_word zero_cfg offset sv in
      if offset = 0
      then (if device_feature_select up \<noteq> device_feature_select shd
            then virtio_process_device_feature_select dev sh (device_feature_select up) else (dev, sh))
      else
        case (if driver_feature up \<noteq> driver_feature shd
              then virtio_process_driver_feature dev sh (driver_feature up) else (dev, sh)) of (dev1, sh1) \<Rightarrow>
        if driver_feature_select up \<noteq> driver_feature_select shd
        then virtio_process_driver_feature_select dev1 sh1 (driver_feature_select up) else (dev1, sh1))"

definition cb_word_2 ::
  "'x virtio_ops \<Rightarrow> u64 \<Rightarrow> virtio_dev \<Rightarrow> virtio_pci_common_cfg \<Rightarrow> u64 \<Rightarrow> u64 \<Rightarrow> region_cb pem \<Rightarrow> 'x world \<Rightarrow>
    fault + virtio_dev \<times> virtio_pci_common_cfg \<times> region_cb pem \<times> 'x world" where
  "cb_word_2 ops this dev sh v sv p w =
     (let up = cfg_set_word zero_cfg 2 v; shd = cfg_set_word zero_cfg 2 sv in
      rbind (if device_status up \<noteq> device_status shd
             then virtio_process_device_status ops this dev sh (device_status up) p w
             else Inr (0, dev, sh, p, w)) (\<lambda>(_, dev1, sh1, p1, w1).
      rbind (if queue_select up \<noteq> queue_select shd
             then virtio_process_queue_select dev1 sh1 (queue_select up) else Inr (0, dev1, sh1)) (\<lambda>(_, dev2, sh2).
      Inr (dev2, sh2, p1, w1))))"

definition cb_word_3 ::
  "'x virtio_ops \<Rightarrow> u64 \<Rightarrow> virtio_dev \<Rightarrow> virtio_pci_common_cfg \<Rightarrow> u64 \<Rightarrow> u64 \<Rightarrow> region_cb pem \<Rightarrow> 'x world \<Rightarrow>
    fault + virtio_dev \<times> virtio_pci_common_cfg \<times> region_cb pem \<times> 'x world" where
  "cb_word_3 ops this dev sh v sv p w =
     (let up = cfg_set_word zero_cfg 3 v; shd = cfg_set_word zero_cfg 3 sv in
      rbind (if queue_size up \<noteq> queue_size shd then virtio_process_queue_size dev (queue_size up) else Inr (0, dev)) (\<lambda>(_, dev1).
      rbind (if queue_msix_vector up \<noteq> queue_msix_vector shd
             then virtio_process_queue_msix_vector dev1 (queue_msix_vector up) else Inr (0, dev1)) (\<lambda>(_, dev2).
      if queue_enable up \<noteq> queue_enable shd
      then rbind (virtio_queue_conf_pending dev2) (\<lambda>pending.
             if pending \<and> queue_enable up \<noteq> 0 then Inr (dev2, sh, p, w)
             else rbind (virtio_process_queue_enable ops this dev2 (queue_enable up) p w) (\<lambda>(_, dev3, p1, w1).
               Inr (dev3, cfg_set_word sh 3 v, p1, w1)))
      else Inr (dev2, cfg_set_word sh 3 v, p, w))))"

definition cb_words_4_6 :: "virtio_dev \<Rightarrow> nat \<Rightarrow> u64 \<Rightarrow> u64 \<Rightarrow> fault + virtio_dev" where
  "cb_words_4_6 dev offset v sv =
     (let up = cfg_set_word zero_cfg offset v; shd = cfg_set_word zero_cfg offset sv in
      if offset = 4
      then rbind (if queue_desc_lo up \<noteq> queue_desc_lo shd then virtio_process_queue_desc_lo dev (queue_desc_lo up) else Inr (0, dev)) (\<lambda>(_, dev1).
           rbind (if queue_desc_hi up \<noteq> queue_desc_hi shd then virtio_process_queue_desc_hi dev1 (queue_desc_hi up) else Inr (0, dev1)) (\<lambda>(_, dev2).
           Inr dev2))
      else if offset = 5
      then rbind (if queue_avail_lo up \<noteq> queue_avail_lo shd then virtio_process_queue_driver_lo dev (queue_avail_lo up) else Inr (0, dev)) (\<lambda>(_, dev1).
           rbind (if queue_avail_hi up \<noteq> queue_avail_hi shd then virtio_process_queue_driver_hi dev1 (queue_avail_hi up) else Inr (0, dev1)) (\<lambda>(_, dev2).
           Inr dev2))
      else rbind (if queue_used_lo up \<noteq> queue_used_lo shd then virtio_process_queue_device_lo dev (queue_used_lo up) else Inr (0, dev)) (\<lambda>(_, dev1).
           rbind (if queue_used_hi up \<noteq> queue_used_hi shd then virtio_process_queue_device_hi dev1 (queue_used_hi up) else Inr (0, dev1)) (\<lambda>(_, dev2).
           Inr dev2)))"

definition dao_virtio_common_cfg_cb ::
  "'x virtio_ops \<Rightarrow> u64 \<Rightarrow> virtio_dev \<Rightarrow> virtio_pci_common_cfg \<Rightarrow> nat \<Rightarrow> u64 \<Rightarrow> u64 \<Rightarrow> region_cb pem \<Rightarrow> 'x world \<Rightarrow>
    fault + virtio_dev \<times> virtio_pci_common_cfg \<times> region_cb pem \<times> 'x world" where
  "dao_virtio_common_cfg_cb ops this dev sh offset v sv p w =
     (if offset < 2 then (case cb_words_0_1 dev sh offset v sv of (dev1, sh1) \<Rightarrow> Inr (dev1, sh1, p, w))
      else if offset = 2 then cb_word_2 ops this dev sh v sv p w
      else if offset = 3 then cb_word_3 ops this dev sh v sv p w
      else if offset < 7 then rbind (cb_words_4_6 dev offset v sv) (\<lambda>dev1. Inr (dev1, cfg_set_word sh offset v, p, w))
      else if offset = 7 then Inr (dev, cfg_set_word sh offset v, p, w)
      else Inl OutOfBounds)"

text \<open>The callback of the notification word of the control queue: the shadow word takes the value, then the
  commands behind it are processed.  The slot \<open>j\<close> of the region holds the shadow.\<close>

definition set_shadow_word :: "region_cb pem \<Rightarrow> nat \<Rightarrow> u64 \<Rightarrow> fault + region_cb pem" where
  "set_shadow_word p j v =
     (case regions p ! j of
        None \<Rightarrow> Inl WildPointer
      | Some r \<Rightarrow>
          if shadow r = [] then Inl OutOfBounds
          else Inr (p\<lparr>regions := (regions p)[j := Some (r\<lparr>shadow := (shadow r)[0 := v]\<rparr>)]\<rparr>))"

definition virtio_cq_notify_cb ::
  "'x virtio_ops \<Rightarrow> sge list \<Rightarrow> nat \<Rightarrow> u64 \<Rightarrow> virtio_dev \<Rightarrow> region_cb pem \<Rightarrow> 'x world \<Rightarrow>
    fault + virtio_dev \<times> region_cb pem \<times> 'x world" where
  "virtio_cq_notify_cb ops junk j v dev p w =
     rbind (set_shadow_word p j v) (\<lambda>p1.
     rbind (virtio_cq_cmd_process ops junk dev w) (\<lambda>(dev1, w1). Inr (dev1, p1, w1)))"

definition dao_virtio_dev_status_to_str :: "u8 \<Rightarrow> string" where
  "dao_virtio_dev_status_to_str status =
     (if status = VIRTIO_DEV_RESET then ''VIRTIO_DEV_RESET''
      else if status = VIRTIO_DEV_ACKNOWLEDGE then ''VIRTIO_DEV_ACKNOWLEDGE''
      else if status = VIRTIO_DEV_DRIVER then ''VIRTIO_DEV_DRIVER''
      else if status = VIRTIO_DEV_DRIVER_OK then ''VIRTIO_DEV_DRIVER_OK''
      else if status = VIRTIO_DEV_FEATURES_OK then ''VIRTIO_DEV_FEATURES_OK''
      else if status = VIRTIO_DEV_NEEDS_RESET then ''VIRTIO_DEV_NEEDS_RESET''
      else if status = VIRTIO_DEV_FAILED then ''VIRTIO_DEV_FAILED''
      else ''UNKNOWN_STATUS'')"

end
