(* ===== verification/Virtio_Init.thy ===== *)
theory Virtio_Init
  imports Virtio_Dev
begin

text \<open>
  Set-up and tear-down of a virtio device (\<^verbatim>\<open>virtio_dev.c\<close>) and its mailbox (\<^verbatim>\<open>virtio_mbox.c\<close>): the
  layout of BAR4 with its chain of PCI capabilities, the signature the host looks for, the
  default configuration, the registration of the polled regions, and the mailbox requests.
\<close>

section \<open>Bytes\<close>

definition le_bytes :: "nat \<Rightarrow> u64 \<Rightarrow> u8 list" where
  "le_bytes n v = map (\<lambda>i. ucast (drop_bit (8 * i) v)) [0..<n]"

text \<open>A \<^verbatim>\<open>dao_dev_memcpy\<close> from a local variable with these bytes.\<close>

definition store_bytes :: "memory \<Rightarrow> u64 \<Rightarrow> u8 list \<Rightarrow> memory" where
  "store_bytes m a bs = (\<lambda>x. if unat (x - a) < length bs then bs ! unat (x - a) else m x)"

section \<open>Layout of BAR4\<close>

definition VIRTIO_PCI_CAP_PTR :: u64 where "VIRTIO_PCI_CAP_PTR = 0x34"
definition VIRTIO_PCI_CAP_COMMON_CFG_OFFSET :: u64 where "VIRTIO_PCI_CAP_COMMON_CFG_OFFSET = VIRTIO_PCI_CAP_PTR + 1"
definition VIRTIO_PCI_DEV_CFG_LENGTH :: u64 where "VIRTIO_PCI_DEV_CFG_LENGTH = 64"

definition VIRTIO_PCI_CAP_COMMON_CFG :: u64 where "VIRTIO_PCI_CAP_COMMON_CFG = 1"
definition VIRTIO_PCI_CAP_NOTIFY_CFG :: u64 where "VIRTIO_PCI_CAP_NOTIFY_CFG = 2"
definition VIRTIO_PCI_CAP_ISR_CFG :: u64 where "VIRTIO_PCI_CAP_ISR_CFG = 3"
definition VIRTIO_PCI_CAP_DEVICE_CFG :: u64 where "VIRTIO_PCI_CAP_DEVICE_CFG = 4"
definition VIRTIO_PCI_CAP_VENDOR_CFG :: u64 where "VIRTIO_PCI_CAP_VENDOR_CFG = 9"
definition PCI_CAP_ID_VNDR :: u64 where "PCI_CAP_ID_VNDR = 0x09"
definition PCI_CAP_BAR :: u64 where "PCI_CAP_BAR = 4"
definition PCI_VENDOR_ID_CAVIUM :: u64 where "PCI_VENDOR_ID_CAVIUM = 0x177d"
definition VIRTIO_PCI_VNDR_CFG_TYPE_VIRTIO_ID :: u64 where "VIRTIO_PCI_VNDR_CFG_TYPE_VIRTIO_ID = 0"
definition VIRTIO_ID_NET :: u8 where "VIRTIO_ID_NET = 1"
definition VIRTIO_ID_CRYPTO :: u8 where "VIRTIO_ID_CRYPTO = 20"

text \<open>The sixteen bytes of \<^verbatim>\<open>struct virtio_pci_cap\<close>: vendor id, next pointer, length, type, BAR, id, padding, then
  offset and length inside the BAR.\<close>

definition virtio_pci_cap :: "u64 \<Rightarrow> u64 \<Rightarrow> u64 \<Rightarrow> u64 \<Rightarrow> u64 \<Rightarrow> u8 list" where
  "virtio_pci_cap next_cap cap_len cfg_type offset area_len =
     le_bytes 1 PCI_CAP_ID_VNDR @ le_bytes 1 next_cap @ le_bytes 1 cap_len @ le_bytes 1 cfg_type @
     le_bytes 1 PCI_CAP_BAR @ [0, 0, 0] @ le_bytes 4 offset @ le_bytes 4 area_len"

definition virtio_pci_vndr_data :: "u64 \<Rightarrow> u8 list" where
  "virtio_pci_vndr_data d =
     le_bytes 1 PCI_CAP_ID_VNDR @ [0] @ le_bytes 1 16 @ le_bytes 1 VIRTIO_PCI_CAP_VENDOR_CFG @
     le_bytes 2 PCI_VENDOR_ID_CAVIUM @ le_bytes 1 VIRTIO_PCI_VNDR_CFG_TYPE_VIRTIO_ID @ [0] @ le_bytes 8 d"

definition virtio_device_id_get :: "virtio_dev \<Rightarrow> u8" where
  "virtio_device_id_get dev =
     (case dev_type dev of
        VIRTIO_DEV_TYPE_NET \<Rightarrow> VIRTIO_ID_NET
      | VIRTIO_DEV_TYPE_CRYPTO \<Rightarrow> VIRTIO_ID_CRYPTO
      | VIRTIO_DEV_TYPE_MAX \<Rightarrow> 0)"

definition ALIGN32 :: "u32 \<Rightarrow> u32 \<Rightarrow> u32" where
  "ALIGN32 v a = (v + (a - 1)) AND NOT (a - 1)"

definition cap_config_base :: u64 where
  "cap_config_base = ALIGN64 (VIRTIO_PCI_CAP_COMMON_CFG_OFFSET + 16 + 20 + 16 + 16 + 16) 8"

definition cap_isr_base :: u64 where
  "cap_isr_base = cap_config_base + 64"

definition cap_dev_cfg_base :: u64 where
  "cap_dev_cfg_base = ALIGN64 (cap_isr_base + 4) 64"

definition cap_notify_base :: "virtio_dev \<Rightarrow> u64" where
  "cap_notify_base dev =
     ucast (ALIGN32 (ucast (cap_dev_cfg_base + VIRTIO_PCI_DEV_CFG_LENGTH)) (ucast (notify_off_mltpr dev)))"

definition notify_area :: "virtio_dev \<Rightarrow> u32" where
  "notify_area dev = word_of_int (max_virtio_queues dev) * ucast (notify_off_mltpr dev)"

text \<open>\<^verbatim>\<open>virtio_caps_populate\<close>: the pointers of the device, then the five capabilities one behind the other.  The assertions in it are checks of a
  debugging build and have no effect otherwise.\<close>

definition virtio_caps_populate :: "virtio_dev \<Rightarrow> u64 \<Rightarrow> memory \<Rightarrow> virtio_dev \<times> memory" where
  "virtio_caps_populate dev base m =
     (let c0 = VIRTIO_PCI_CAP_COMMON_CFG_OFFSET; c1 = c0 + 16; c2 = c1 + 20; c3 = c2 + 16; c4 = c3 + 16;
          nb = cap_notify_base dev;
          dev1 = dev\<lparr>common_cfg_addr := base + cap_config_base, isr_sz := 4, isr := base + cap_isr_base,
                     dev_cfg := base + cap_dev_cfg_base,
                     mbox := base + (cap_dev_cfg_base + VIRTIO_PCI_DEV_CFG_LENGTH),
                     notify_base := base + nb\<rparr>;
          m1 = store_bytes m (base + VIRTIO_PCI_CAP_PTR) (le_bytes 1 c0);
          m2 = store_bytes m1 (base + c0) (virtio_pci_cap (c0 + 16) 16 VIRTIO_PCI_CAP_COMMON_CFG cap_config_base 64);
          m3 = dao_dev_memset m2 (notify_base dev1) 0 (unat (notify_area dev));
          m4 = store_bytes m3 (base + (c1 + 16)) (le_bytes 4 (ucast (ucast (notify_off_mltpr dev) :: u32)));
          m5 = store_bytes m4 (base + c1) (virtio_pci_cap (c1 + 20) 20 VIRTIO_PCI_CAP_NOTIFY_CFG nb (ucast (notify_area dev)));
          m6 = store_bytes m5 (base + c2) (virtio_pci_cap (c2 + 16) 16 VIRTIO_PCI_CAP_ISR_CFG cap_isr_base 4);
          m7 = store_bytes m6 (base + c3) (virtio_pci_cap (c3 + 16) 16 VIRTIO_PCI_CAP_DEVICE_CFG cap_dev_cfg_base VIRTIO_PCI_DEV_CFG_LENGTH)
      in (dev1, store_bytes m7 (base + c4) (virtio_pci_vndr_data (ucast (virtio_device_id_get dev)))))"

definition virtio_dev_signature_add :: "virtio_dev \<Rightarrow> memory \<Rightarrow> memory" where
  "virtio_dev_signature_add dev m = store_bytes m (bar4 dev) (le_bytes 4 0xfeedfeed @ le_bytes 4 0x3355ffaa)"

definition virtio_dev_feature_bits_set :: "virtio_dev \<Rightarrow> u64 \<Rightarrow> virtio_dev" where
  "virtio_dev_feature_bits_set dev bits =
     dev\<lparr>dev_feature_bits := dev_feature_bits dev OR bits, feature_bits := feature_bits dev OR bits\<rparr>"

section \<open>Mailbox\<close>

definition MBOX_REQ_SIG :: u16 where "MBOX_REQ_SIG = 0xdead"
definition MBOX_RSP_SIG :: u16 where "MBOX_RSP_SIG = 0xbeef"
definition MBOX_MSG_SET_VQ_STATE :: u16 where "MBOX_MSG_SET_VQ_STATE = 1"
definition MBOX_MSG_GET_VQ_STATE :: u16 where "MBOX_MSG_GET_VQ_STATE = 2"

text \<open>
  Offsets in \<^verbatim>\<open>struct virtio_mbox\<close>: \<^verbatim>\<open>hdr.id\<close> at 2, \<^verbatim>\<open>hdr.sig\<close> at 6, \<^verbatim>\<open>sts\<close> at 8 with the flag in bit 0 and the
  return code in the fifteen bits above it, and, behind an aligned 64-bit field, \<^verbatim>\<open>data\<close> at 24.
\<close>

definition vq_state_bytes :: "u8 list" where
  "vq_state_bytes = le_bytes 2 1 @ le_bytes 2 1"

definition virtio_mbox_process :: "virtio_dev \<Rightarrow> memory \<Rightarrow> memory" where
  "virtio_mbox_process dev m =
     (let b = mbox dev;
          (rc, m1) =
            (if load16 m (b + 6) \<noteq> MBOX_REQ_SIG then (22, m)
             else if load16 m (b + 2) = MBOX_MSG_GET_VQ_STATE then (0, store_bytes m (b + 28) vq_state_bytes)
             else if load16 m (b + 2) = MBOX_MSG_SET_VQ_STATE then (0, m)
             else (22, m));
          m2 = store_bytes m1 (b + 8) (le_bytes 2 (push_bit 1 rc OR 1));
          m3 = store_bytes m2 (b + 6) (le_bytes 2 (ucast MBOX_RSP_SIG))
      in store_bytes m3 (b + 2) (le_bytes 2 0))"

definition virtio_mbox_process_cb ::
  "nat \<Rightarrow> u64 \<Rightarrow> virtio_dev \<Rightarrow> region_cb pem \<Rightarrow> 'x world \<Rightarrow> fault + region_cb pem \<times> 'x world" where
  "virtio_mbox_process_cb j v dev p w =
     rbind (set_shadow_word p j v) (\<lambda>p1.
       let m = virtio_mbox_process dev (wmem w)
       in rbind (set_shadow_word p1 j (load64 m (mbox dev))) (\<lambda>p2. Inr (p2, w\<lparr>wmem := m\<rparr>)))"

definition virtio_mbox_init ::
  "'x virtio_ops \<Rightarrow> u64 \<Rightarrow> virtio_dev \<Rightarrow> region_cb pem \<Rightarrow> 'x world \<Rightarrow> int \<times> region_cb pem \<times> 'x world" where
  "virtio_mbox_init ops this dev p w =
     (let m = store_bytes (wmem w) (mbox dev) (replicate 8 0) in
      case dao_pem_ctrl_region_register (region_heap ops w) m (mbox dev) 8 MBOX_PROCESS_CB this False p of (rc, p1) \<Rightarrow>
      (rc, p1, w\<lparr>wmem := m\<rparr>))"

definition virtio_mbox_fini :: "u64 \<Rightarrow> virtio_dev \<Rightarrow> region_cb pem \<Rightarrow> region_cb pem" where
  "virtio_mbox_fini this dev p = snd (dao_pem_ctrl_region_unregister (mbox dev) 8 MBOX_PROCESS_CB this p)"

section \<open>Set-up and tear-down\<close>

text \<open>The BAR as the polling thread reads it: the configuration registers lie over the memory.\<close>

definition bar_view :: "virtio_dev \<Rightarrow> memory \<Rightarrow> memory" where
  "bar_view dev m =
     store_bytes m (common_cfg_addr dev) (concat (map (\<lambda>i. le_bytes 8 (cfg_word (common_cfg dev) i)) [0..<8]))"

definition c_int :: "u64 \<Rightarrow> int" where
  "c_int v = sint (ucast v :: u32)"

definition virtio_dev_max_virtio_queues :: "region_cb pem \<Rightarrow> u16 \<Rightarrow> fault + int" where
  "virtio_dev_max_virtio_queues p dev_no =
     rbind (dao_pem_vf_region_info_get p dev_no 4) (\<lambda>r.
       case r of
         Inl rc \<Rightarrow> Inr rc
       | Inr (_, size4) \<Rightarrow>
           if dao_pem_host_page_sz p = 0 then Inl DivideByZero
           else Inr (min (uint (ucast (size4 div dao_pem_host_page_sz p - 1) :: u16)) (int DAO_VIRTIO_MAX_QUEUES)))"

definition default_feature_bits :: u64 where
  "default_feature_bits =
     RTE_BIT64 34 OR RTE_BIT64 32 OR RTE_BIT64 27 OR RTE_BIT64 35 OR RTE_BIT64 36 OR RTE_BIT64 33 OR RTE_BIT64 38"

definition dev_queues :: "u64 \<Rightarrow> u64 \<Rightarrow> u16 \<Rightarrow> int" where
  "dev_queues size4 page limit =
     (let n = c_int (size4 div page - 1)
      in if limit \<noteq> 0 then min n (uint limit) else min n (int DAO_VIRTIO_MAX_QUEUES))"

text \<open>The end of \<^verbatim>\<open>virtio_dev_init\<close>: both regions are registered; the result of the first registration is lost.\<close>

definition dev_regions ::
  "'x virtio_ops \<Rightarrow> u64 \<Rightarrow> virtio_dev \<Rightarrow> region_cb pem \<Rightarrow> 'x world \<Rightarrow> int \<times> region_cb pem \<times> 'x world" where
  "dev_regions ops this dev p w =
     (case dao_pem_ctrl_region_register (region_heap ops w) (bar_view dev (wmem w)) (common_cfg_addr dev) 64 COMMON_CFG_CB this True p of
        (_, p1) \<Rightarrow>
      case virtio_mbox_init ops this dev p1 w of (rc, p2, w1) \<Rightarrow>
      if rc \<noteq> 0 then (rc, snd (dao_pem_ctrl_region_unregister (common_cfg_addr dev) 64 COMMON_CFG_CB this p2), w1)
      else (0, p2, w1))"

definition virtio_dev_init ::
  "'x virtio_ops \<Rightarrow> u64 \<Rightarrow> virtio_dev \<Rightarrow> region_cb pem \<Rightarrow> 'x world \<Rightarrow>
    fault + int \<times> virtio_dev \<times> region_cb pem \<times> 'x world" where
  "virtio_dev_init ops this dev p w =
     rbind (dao_pem_vf_region_info_get p (dev_id dev) 4) (\<lambda>info.
       case info of
         Inl rc \<Rightarrow> Inr (rc, dev, p, w)
       | Inr (base, size4) \<Rightarrow>
           let page = dao_pem_host_page_sz p in
           if page = 0 then Inl DivideByZero
           else
             let dev1 = dev\<lparr>bar4 := base, bar4_sz := size4, dev_page_sz := page, notify_off_mltpr := page,
                            max_virtio_queues := dev_queues size4 page (max_virtio_queues_limit dev)\<rparr> in
             if max_virtio_queues dev1 < 3 then Inr (- ENOSPC, dev1, p, w)
             else
               case virtio_caps_populate dev1 base (virtio_dev_signature_add dev1 (wmem w)) of (dev2, m1) \<Rightarrow>
               rbind (virtio_config_populate dev2 (w\<lparr>wmem := m1\<rparr>)) (\<lambda>(dev3, w1).
               let dev4 = dev3\<lparr>dev_feature_bits := default_feature_bits, feature_bits := default_feature_bits\<rparr> in
               rbind (dao_pem_host_interrupt_setup (sdp_regs ops) p (uint (dev_id dev4) + 1) (cb_intr_addr dev4) w1)
                 (\<lambda>(n, intr, w2).
               let dev5 = dev4\<lparr>nb_cb_intrs := n, cb_intr_addr := intr\<rparr> in
               case dev_regions ops this dev5 p w2 of (rc, p1, w3) \<Rightarrow> Inr (rc, dev5, p1, w3))))"

definition virtio_dev_fini ::
  "'x virtio_ops \<Rightarrow> u64 \<Rightarrow> virtio_dev option \<Rightarrow> region_cb pem \<Rightarrow> 'x world \<Rightarrow>
    int \<times> virtio_dev option \<times> region_cb pem \<times> 'x world" where
  "virtio_dev_fini ops this devo p w =
     (case devo of
        None \<Rightarrow> (- EINVAL, None, p, w)
      | Some dev \<Rightarrow>
          if dev_type dev = VIRTIO_DEV_TYPE_MAX then (- EINVAL, Some dev, p, w)
          else
            let p1 = virtio_mbox_fini this dev p in
            case dao_pem_ctrl_region_unregister (common_cfg_addr dev) 64 COMMON_CFG_CB this p1 of (rc, p2) \<Rightarrow>
            case virtio_clear_cq_info ops this dev p2 w of (dev1, p3, w0) \<Rightarrow>
            let w1 = dev_status (dev_cbs ops (dev_type dev1)) dev1 VIRTIO_DEV_RESET w0 in
            (rc, Some (dev1\<lparr>common_cfg := zero_cfg\<rparr>), p3, w1\<lparr>wmem := dao_dev_memset (wmem w1) (bar4 dev1) 0 16\<rparr>))"

end
