(* ===== verification/Virtio_Facts.thy ===== *)
theory Virtio_Facts
  imports Virtio_Init Pem_Facts
begin

text \<open>
  Safety of the virtio device against its host.  The host may write any value into any register of
  the common configuration and into the notification area at any time; the steps of the device
  are the callback runs of the polling thread.  The invariant \<open>dev_inv\<close> is proved for every handler
  and lifted to the reachable states by \<open>invariant_system\<close>.
\<close>

definition dev_inv :: "virtio_dev \<Rightarrow> bool" where
  "dev_inv dev \<longleftrightarrow>
     length (queue_conf dev) = DAO_VIRTIO_MAX_QUEUES \<and>
     (prev_queue_select dev = VIRTIO_INVALID_QUEUE_INDEX \<or> unat (prev_queue_select dev) < DAO_VIRTIO_MAX_QUEUES) \<and>
     driver_ok_pend dev \<le> 3 \<and> queue_select_pend dev \<le> 3 \<and>
     3 \<le> max_virtio_queues dev \<and> max_virtio_queues dev \<le> int DAO_VIRTIO_MAX_QUEUES \<and>
     \<not> driver dev"

named_theorems handler_inv

section \<open>Every handler keeps the invariant\<close>

lemma dev_inv_cfg [simp]: "dev_inv (dev\<lparr>common_cfg := c\<rparr>) = dev_inv dev"
  by (simp add: dev_inv_def)

lemma device_feature_select_inv [handler_inv]:
  "dev_inv dev \<Longrightarrow> virtio_process_device_feature_select dev sh v = (dev', sh') \<Longrightarrow> dev_inv dev'"
  by (auto simp: virtio_process_device_feature_select_def Let_def split: if_splits)

lemma driver_feature_select_inv [handler_inv]:
  "dev_inv dev \<Longrightarrow> virtio_process_driver_feature_select dev sh v = (dev', sh') \<Longrightarrow> dev_inv dev'"
  by (auto simp: virtio_process_driver_feature_select_def dev_inv_def Let_def split: if_splits)

lemma driver_feature_inv [handler_inv]:
  "dev_inv dev \<Longrightarrow> virtio_process_driver_feature dev sh v = (dev', sh') \<Longrightarrow> dev_inv dev'"
  by (auto simp: virtio_process_driver_feature_def dev_inv_def Let_def split: if_splits)

lemma queues_u16:
  assumes "dev_inv dev"
  shows "unat (word_of_int (max_virtio_queues dev) :: u16) = nat (max_virtio_queues dev)"
    and "nat (max_virtio_queues dev) \<le> 129" and "3 \<le> nat (max_virtio_queues dev)"
proof -
  have b: "3 \<le> max_virtio_queues dev" "max_virtio_queues dev \<le> 129"
    using assms by (simp_all add: dev_inv_def DAO_VIRTIO_MAX_QUEUES_def)
  then have "uint (word_of_int (max_virtio_queues dev) :: u16) = max_virtio_queues dev"
    by (simp add: unsigned_of_int take_bit_int_eq_self)
  then show "unat (word_of_int (max_virtio_queues dev) :: u16) = nat (max_virtio_queues dev)"
    by (metis nat_uint_eq)
  show "nat (max_virtio_queues dev) \<le> 129" "3 \<le> nat (max_virtio_queues dev)" using b by auto
qed

lemma config_populate_runs:
  assumes "dev_inv dev"
  shows "\<exists>dev' w'. virtio_config_populate dev w = Inr (dev', w')"
  using queues_u16 [OF assms] assms
  by (simp add: virtio_config_populate_def dev_inv_def DAO_VIRTIO_MAX_QUEUES_def Let_def)

lemma config_populate_inv [handler_inv]:
  assumes "dev_inv dev" "virtio_config_populate dev w = Inr (dev', w')"
  shows "dev_inv dev'"
  using assms queues_u16 [OF assms(1)]
  by (auto simp: virtio_config_populate_def dev_inv_def DAO_VIRTIO_MAX_QUEUES_def Let_def split: if_splits)

lemma clear_cq_inv [handler_inv]: "dev_inv dev \<Longrightarrow> virtio_clear_cq_info ops this dev p w = (dev', p', w') \<Longrightarrow> dev_inv dev'"
  by (auto simp: virtio_clear_cq_info_def dev_inv_def split: option.splits)

lemma clear_cq_pem: "pem_ok p \<Longrightarrow> virtio_clear_cq_info ops this dev p w = (dev', p', w') \<Longrightarrow> pem_ok p'"
  using unregister_ok by (auto simp: virtio_clear_cq_info_def split: option.splits)

lemma setup_cq_inv [handler_inv]:
  "dev_inv dev \<Longrightarrow> virtio_setup_cq_info ops this dev p w = Inr (rc, dev', p', w') \<Longrightarrow> dev_inv dev'"
  by (auto simp: virtio_setup_cq_info_def dev_inv_def Let_def split: if_splits prod.splits)

lemma setup_cq_pem:
  assumes "pem_ok p" "virtio_setup_cq_info ops this dev p w = Inr (rc, dev', p', w')"
  shows "pem_ok p'"
  using assms register_ok [OF assms(1)]
  by (auto simp: virtio_setup_cq_info_def Let_def split: if_splits prod.splits) (metis snd_conv)+

lemma status_reset_inv [handler_inv]:
  assumes "dev_inv dev" "status_reset ops this dev sh p w = Inr (dev', sh', p', w')"
  shows "dev_inv dev'"
proof -
  obtain dev1 p1 w1 where c: "virtio_clear_cq_info ops this dev p (dev_status (dev_cbs ops (dev_type dev)) dev VIRTIO_DEV_RESET w) = (dev1, p1, w1)"
    by (rule prod_cases3)
  have "dev_inv dev1" using clear_cq_inv [OF assms(1) c] .
  moreover obtain dev2 w2 where "virtio_config_populate dev1 w1 = Inr (dev2, w2)"
    using config_populate_runs [OF \<open>dev_inv dev1\<close>] by blast
  ultimately have "dev_inv dev2" and "dev' = dev2\<lparr>common_cfg := (common_cfg dev2)\<lparr>device_status := VIRTIO_DEV_RESET\<rparr>,
                  driver_ok := False, features_ok := False, acknowledge := False, driver := False\<rparr>"
    using assms(2) c config_populate_inv by (auto simp: status_reset_def Let_def)
  then show ?thesis by (simp add: dev_inv_def)
qed

lemma status_reset_runs:
  assumes "dev_inv dev"
  shows "\<exists>s. status_reset ops this dev sh p w = Inr s"
proof -
  obtain dev1 p1 w1 where c: "virtio_clear_cq_info ops this dev p (dev_status (dev_cbs ops (dev_type dev)) dev VIRTIO_DEV_RESET w) = (dev1, p1, w1)"
    by (rule prod_cases3)
  obtain dev2 w2 where "virtio_config_populate dev1 w1 = Inr (dev2, w2)"
    using config_populate_runs [OF clear_cq_inv [OF assms c]] by blast
  then show ?thesis using c by (simp add: status_reset_def Let_def)
qed

lemma status_features_inv [handler_inv]: "dev_inv dev \<Longrightarrow> status_features ops dev sh = (dev', sh') \<Longrightarrow> dev_inv dev'"
  by (auto simp: status_features_def dev_inv_def Let_def split: if_splits option.splits)

lemma status_driver_ok_inv [handler_inv]:
  assumes "dev_inv dev" "status_driver_ok ops this dev sh p w = Inr (dev', sh', p', w')"
  shows "dev_inv dev'"
proof -
  have "dev_inv (dev\<lparr>driver_ok_pend := 0, driver_ok := True\<rparr>)" using assms(1) by (simp add: dev_inv_def)
  then show ?thesis using assms(2) setup_cq_inv by (auto simp: status_driver_ok_def Let_def rbind_Inr_iff)
qed

lemma status_rest_inv [handler_inv]: "dev_inv dev \<Longrightarrow> status_rest st dev sh = (dev', sh') \<Longrightarrow> dev_inv dev'"
  by (auto simp: status_rest_def dev_inv_def Let_def split: if_splits)

lemma pend_next: "(x :: u8) < 3 \<Longrightarrow> x + 1 \<le> 3"
  by (metis add.commute add_0 inc_le numeral_3_eq_3 plus_1_eq_Suc word_le_less_eq)


lemma device_status_inv [handler_inv]:
  assumes "dev_inv dev" "virtio_process_device_status ops this dev sh st p w = Inr (rc, dev', sh', p', w')"
  shows "dev_inv dev'"
proof -
  let ?s = "st AND 0x7f"
  obtain dev1 sh1 p1 w1 where r: "(if ?s = VIRTIO_DEV_RESET then status_reset ops this dev sh p w else Inr (dev, sh, p, w)) =
      Inr (dev1, sh1, p1, w1)"
    using assms(2) by (auto simp: virtio_process_device_status_def Let_def rbind_Inr_iff)
  have 1: "dev_inv dev1" using r assms(1) status_reset_inv by (auto split: if_splits)
  obtain dev2 sh2 where f: "(if ?s AND VIRTIO_DEV_FEATURES_OK \<noteq> 0 \<and> \<not> features_ok dev1 then status_features ops dev1 sh1
      else (dev1, sh1)) = (dev2, sh2)" by fastforce
  have 2: "dev_inv dev2" using f 1 status_features_inv by (auto split: if_splits)
  show ?thesis
  proof (cases "?s AND VIRTIO_DEV_DRIVER_OK \<noteq> 0 \<and> \<not> driver_ok dev2 \<and> driver_ok_pend dev2 < 3")
    case True
    then have "dev' = dev2\<lparr>driver_ok_pend := driver_ok_pend dev2 + 1\<rparr>"
      using assms(2) r f by (simp add: virtio_process_device_status_def Let_def)
    then show ?thesis using 2 True pend_next [of "driver_ok_pend dev2"] by (simp add: dev_inv_def)
  next
    case False
    have e: "rbind (if ?s AND VIRTIO_DEV_DRIVER_OK \<noteq> 0 \<and> \<not> driver_ok dev2
        then status_driver_ok ops this dev2 sh2 p1 w1 else Inr (dev2, sh2, p1, w1))
        (\<lambda>(dev3, sh3, p2, w2). case status_rest ?s dev3 sh3 of (dev4, sh4) \<Rightarrow> Inr (0, dev4, sh4, p2, w2)) =
        Inr (rc, dev', sh', p', w')"
      using assms(2)
      by (simp only: virtio_process_device_status_def Let_def r rbind_simps prod.case f if_not_P [OF False])
    obtain dev3 sh3 p3 w3 where d: "(if ?s AND VIRTIO_DEV_DRIVER_OK \<noteq> 0 \<and> \<not> driver_ok dev2
        then status_driver_ok ops this dev2 sh2 p1 w1 else Inr (dev2, sh2, p1, w1)) = Inr (dev3, sh3, p3, w3)"
      using e by (auto simp: rbind_Inr_iff)
    obtain dev4 sh4 where r4: "status_rest ?s dev3 sh3 = (dev4, sh4)" by fastforce
    have "dev_inv dev3" using d 2 status_driver_ok_inv by (auto split: if_splits)
    moreover have "dev' = dev4" using e by (simp add: d r4)
    ultimately show ?thesis using r4 status_rest_inv by blast
  qed
qed

lemma queue_select_inv [handler_inv]:
  assumes "dev_inv dev" "virtio_process_queue_select dev sh qs = Inr (rc, dev', sh')"
  shows "dev_inv dev'"
  using assms pend_next [of "queue_select_pend dev"]
  by (auto simp: virtio_process_queue_select_def dev_inv_def VIRTIO_QUEUE_SELECT_DELAY_def Let_def split: if_splits)

lemma queue_select_runs: "dev_inv dev \<Longrightarrow> \<exists>s. virtio_process_queue_select dev sh qs = Inr s"
  by (auto simp: virtio_process_queue_select_def dev_inv_def Let_def)

lemma with_queue_inv [handler_inv]: "dev_inv dev \<Longrightarrow> with_queue dev f = Inr (rc, dev') \<Longrightarrow> dev_inv dev'"
  by (auto simp: with_queue_def dev_inv_def Let_def split: if_splits)

lemma with_queue_runs: "dev_inv dev \<Longrightarrow> \<exists>rc dev'. with_queue dev f = Inr (rc, dev')"
  by (auto simp: with_queue_def dev_inv_def Let_def)

lemma conf_pending_runs: "dev_inv dev \<Longrightarrow> \<exists>b. virtio_queue_conf_pending dev = Inr b"
  by (auto simp: virtio_queue_conf_pending_def dev_inv_def Let_def)

lemma queue_enable_inv [handler_inv]:
  assumes "dev_inv dev" "virtio_process_queue_enable ops this dev v p w = Inr (rc, dev', p', w')"
  shows "dev_inv dev'"
proof -
  obtain rc1 dev1 where 1: "with_queue dev (\<lambda>q. q\<lparr>qc_enable := v\<rparr>) = Inr (rc1, dev1)"
    using with_queue_runs [OF assms(1)] by blast
  have "dev_inv dev1" using with_queue_inv [OF assms(1) 1] .
  then show ?thesis
    using assms(2) 1 setup_cq_inv
    by (auto simp: virtio_process_queue_enable_def Let_def rbind_Inr_iff split: if_splits)
qed

section \<open>Handlers do not fault\<close>

definition cq_ids_ok :: "'x virtio_ops \<Rightarrow> bool" where
  "cq_ids_ok ops \<longleftrightarrow>
     (\<forall>dev bits. dev_inv dev \<longrightarrow> unat (cq_id_get (dev_cbs ops (dev_type dev)) dev bits) < DAO_VIRTIO_MAX_QUEUES)"

lemma setup_cq_runs:
  assumes "cq_ids_ok ops" "dev_inv dev"
  shows "\<exists>rc dev' p' w'. virtio_setup_cq_info ops this dev p w = Inr (rc, dev', p', w')"
proof -
  have "unat (cq_id_get (dev_cbs ops (dev_type dev)) dev (feature_bits dev)) < length (queue_conf dev)"
    using assms by (simp add: cq_ids_ok_def dev_inv_def)
  then show ?thesis by (simp add: virtio_setup_cq_info_def Let_def split: prod.splits)
qed

lemma status_driver_ok_runs:
  assumes "cq_ids_ok ops" "dev_inv dev"
  shows "\<exists>s. status_driver_ok ops this dev sh p w = Inr s"
proof -
  have i: "dev_inv (dev\<lparr>driver_ok_pend := 0, driver_ok := True\<rparr>)" using assms(2) by (simp add: dev_inv_def)
  let ?d = "dev\<lparr>driver_ok_pend := 0, driver_ok := True\<rparr>"
  obtain rc dev' p' w' where "virtio_setup_cq_info ops this ?d p
      (dev_status (dev_cbs ops (dev_type ?d)) ?d VIRTIO_DEV_DRIVER_OK w) = Inr (rc, dev', p', w')"
    using setup_cq_runs [OF assms(1) i] by blast
  then show ?thesis by (simp add: status_driver_ok_def Let_def)
qed

lemma device_status_runs:
  assumes "cq_ids_ok ops" "dev_inv dev"
  shows "\<exists>s. virtio_process_device_status ops this dev sh st p w = Inr s"
proof -
  let ?s = "st AND 0x7f"
  obtain dev1 sh1 p1 w1 where r: "(if ?s = VIRTIO_DEV_RESET then status_reset ops this dev sh p w else Inr (dev, sh, p, w)) =
      Inr (dev1, sh1, p1, w1)"
    using status_reset_runs [OF assms(2)] by (metis prod_cases4)
  have 1: "dev_inv dev1" using r assms(2) status_reset_inv by (auto split: if_splits)
  obtain dev2 sh2 where f: "(if ?s AND VIRTIO_DEV_FEATURES_OK \<noteq> 0 \<and> \<not> features_ok dev1 then status_features ops dev1 sh1
      else (dev1, sh1)) = (dev2, sh2)" by fastforce
  have 2: "dev_inv dev2" using f 1 status_features_inv by (auto split: if_splits)
  obtain dev3 sh3 p2 w2 where d: "(if ?s AND VIRTIO_DEV_DRIVER_OK \<noteq> 0 \<and> \<not> driver_ok dev2
        then status_driver_ok ops this dev2 sh2 p1 w1 else Inr (dev2, sh2, p1, w1)) = Inr (dev3, sh3, p2, w2)"
    using status_driver_ok_runs [OF assms(1) 2] by (metis prod_cases4)
  show ?thesis using r f d
    by (simp add: virtio_process_device_status_def Let_def split: prod.splits)
qed

lemma queue_enable_runs:
  assumes "cq_ids_ok ops" "dev_inv dev"
  shows "\<exists>rc dev' p' w'. virtio_process_queue_enable ops this dev v p w = Inr (rc, dev', p', w')"
proof -
  obtain rc1 dev1 where 1: "with_queue dev (\<lambda>q. q\<lparr>qc_enable := v\<rparr>) = Inr (rc1, dev1)"
    using with_queue_runs [OF assms(2)] by blast
  have "dev_inv dev1" using with_queue_inv [OF assms(2) 1] .
  then obtain rc2 dev2 p2 w2 where "virtio_setup_cq_info ops this dev1 p w = Inr (rc2, dev2, p2, w2)"
    using setup_cq_runs [OF assms(1)] by blast
  then show ?thesis using 1 by (simp add: virtio_process_queue_enable_def Let_def)
qed


section \<open>The callback\<close>

lemma cb_words_0_1_inv: "dev_inv dev \<Longrightarrow> cb_words_0_1 dev sh i v sv = (dev', sh') \<Longrightarrow> dev_inv dev'"
  by (auto simp: cb_words_0_1_def Let_def split: if_splits prod.split_asm intro: handler_inv)

lemma cb_word_2_inv:
  assumes "dev_inv dev" "cb_word_2 ops this dev sh v sv p w = Inr (dev', sh', p', w')"
  shows "dev_inv dev'"
  using assms by (auto simp: cb_word_2_def Let_def rbind_Inr_iff split: if_splits intro: handler_inv)

lemma cb_word_2_runs:
  assumes "cq_ids_ok ops" "dev_inv dev"
  shows "\<exists>s. cb_word_2 ops this dev sh v sv p w = Inr s"
proof -
  let ?up = "cfg_set_word zero_cfg 2 v" and ?shd = "cfg_set_word zero_cfg 2 sv"
  obtain rc dev1 sh1 p1 w1 where 1: "(if device_status ?up \<noteq> device_status ?shd
      then virtio_process_device_status ops this dev sh (device_status ?up) p w else Inr (0, dev, sh, p, w)) = Inr (rc, dev1, sh1, p1, w1)"
    using device_status_runs [OF assms] by (metis prod_cases5)
  have i: "dev_inv dev1" using 1 assms(2) device_status_inv by (auto split: if_splits)
  obtain rc2 dev2 sh2 where 2: "(if queue_select ?up \<noteq> queue_select ?shd
      then virtio_process_queue_select dev1 sh1 (queue_select ?up) else Inr (0, dev1, sh1)) = Inr (rc2, dev2, sh2)"
    using queue_select_runs [OF i] by (metis prod_cases3)
  show ?thesis using 1 2 by (simp add: cb_word_2_def Let_def)
qed

definition queue_step :: "virtio_dev \<Rightarrow> fault + int \<times> virtio_dev \<Rightarrow> bool" where
  "queue_step dev r \<longleftrightarrow> (dev_inv dev \<longrightarrow> (\<exists>rc dev'. r = Inr (rc, dev') \<and> dev_inv dev'))"

lemma queue_step_with: "queue_step dev (with_queue dev f)"
  unfolding queue_step_def using with_queue_runs with_queue_inv by blast

lemmas queue_handlers =
  virtio_process_queue_size_def virtio_process_queue_msix_vector_def virtio_process_queue_desc_lo_def
  virtio_process_queue_desc_hi_def virtio_process_queue_driver_lo_def virtio_process_queue_driver_hi_def
  virtio_process_queue_device_lo_def virtio_process_queue_device_hi_def

lemma queue_opt:
  assumes "dev_inv dev"
  obtains rc dev' where "(if b then with_queue dev f else Inr (0, dev)) = Inr (rc, dev')" "dev_inv dev'"
  using assms queue_step_with [of dev f] unfolding queue_step_def by (cases b) auto

lemma cb_words_4_6_step:
  assumes "dev_inv dev"
  shows "\<exists>dev'. cb_words_4_6 dev i v sv = Inr dev' \<and> dev_inv dev'"
proof -
  have "\<exists>dev'. rbind (if a then with_queue dev f else Inr (0, dev)) (\<lambda>(_, dev1).
      rbind (if b then with_queue dev1 g else Inr (0, dev1)) (\<lambda>(_, dev2). Inr dev2)) = Inr dev' \<and> dev_inv dev'" for a b f g
  proof -
    obtain rc dev1 where 1: "(if a then with_queue dev f else Inr (0, dev)) = Inr (rc, dev1)" "dev_inv dev1"
      using queue_opt [OF assms] by blast
    obtain rc2 dev2 where 2: "(if b then with_queue dev1 g else Inr (0, dev1)) = Inr (rc2, dev2)" "dev_inv dev2"
      using queue_opt [OF 1(2)] by blast
    show ?thesis by (simp only: 1(1) 2 rbind_simps prod.case simp_thms) (use 2(2) in simp)
  qed
  then show ?thesis by (simp only: cb_words_4_6_def queue_handlers Let_def split: if_split) blast
qed

lemma cb_word_3_parts:
  assumes "dev_inv dev"
  obtains dev2 b where "dev_inv dev2" and
    "cb_word_3 ops this dev sh v sv p w =
      (let up = cfg_set_word zero_cfg 3 v in
       if queue_enable up \<noteq> queue_enable (cfg_set_word zero_cfg 3 sv)
       then if b \<and> queue_enable up \<noteq> 0 then Inr (dev2, sh, p, w)
            else rbind (virtio_process_queue_enable ops this dev2 (queue_enable up) p w) (\<lambda>(_, dev3, p1, w1).
              Inr (dev3, cfg_set_word sh 3 v, p1, w1))
       else Inr (dev2, cfg_set_word sh 3 v, p, w))"
proof -
  let ?up = "cfg_set_word zero_cfg 3 v" and ?shd = "cfg_set_word zero_cfg 3 sv"
  obtain rc dev1 where 1: "(if queue_size ?up \<noteq> queue_size ?shd then virtio_process_queue_size dev (queue_size ?up)
      else Inr (0, dev)) = Inr (rc, dev1)" "dev_inv dev1"
    unfolding queue_handlers using queue_opt [OF assms] by blast
  obtain rc2 dev2 where 2: "(if queue_msix_vector ?up \<noteq> queue_msix_vector ?shd
      then virtio_process_queue_msix_vector dev1 (queue_msix_vector ?up) else Inr (0, dev1)) = Inr (rc2, dev2)" "dev_inv dev2"
    unfolding queue_handlers using queue_opt [OF 1(2)] by blast
  obtain b where 3: "virtio_queue_conf_pending dev2 = Inr b" using conf_pending_runs [OF 2(2)] by blast
  show ?thesis
    by (rule that [OF 2(2), of b]) (simp only: cb_word_3_def Let_def 1(1) 2(1) 3 rbind_simps prod.case)
qed

lemma cb_word_3_step:
  assumes "cq_ids_ok ops" "dev_inv dev"
  shows "\<exists>s. cb_word_3 ops this dev sh v sv p w = Inr s"
proof (rule cb_word_3_parts [OF assms(2), of ops this sh v sv p w])
  fix dev2 b
  let ?up = "cfg_set_word zero_cfg 3 v"
  assume i: "dev_inv dev2" and e: "cb_word_3 ops this dev sh v sv p w =
      (let up = ?up in
       if queue_enable up \<noteq> queue_enable (cfg_set_word zero_cfg 3 sv)
       then if b \<and> queue_enable up \<noteq> 0 then Inr (dev2, sh, p, w)
            else rbind (virtio_process_queue_enable ops this dev2 (queue_enable up) p w) (\<lambda>(_, dev3, p1, w1).
              Inr (dev3, cfg_set_word sh 3 v, p1, w1))
       else Inr (dev2, cfg_set_word sh 3 v, p, w))"
  obtain rc3 dev3 p3 w3 where "virtio_process_queue_enable ops this dev2 (queue_enable ?up) p w = Inr (rc3, dev3, p3, w3)"
    using queue_enable_runs [OF assms(1) i] by blast
  then show ?thesis unfolding e Let_def by (simp split: if_split)
qed

lemma cb_word_3_inv:
  assumes "dev_inv dev" "cb_word_3 ops this dev sh v sv p w = Inr (dev', sh', p', w')"
  shows "dev_inv dev'"
proof (rule cb_word_3_parts [OF assms(1), of ops this sh v sv p w])
  fix dev2 b
  assume i: "dev_inv dev2" and e: "cb_word_3 ops this dev sh v sv p w =
      (let up = cfg_set_word zero_cfg 3 v in
       if queue_enable up \<noteq> queue_enable (cfg_set_word zero_cfg 3 sv)
       then if b \<and> queue_enable up \<noteq> 0 then Inr (dev2, sh, p, w)
            else rbind (virtio_process_queue_enable ops this dev2 (queue_enable up) p w) (\<lambda>(_, dev3, p1, w1).
              Inr (dev3, cfg_set_word sh 3 v, p1, w1))
       else Inr (dev2, cfg_set_word sh 3 v, p, w))"
  show ?thesis
    using assms(2) i queue_enable_inv [OF i] unfolding e Let_def by (auto simp: rbind_Inr_iff split: if_split_asm)
qed

lemma cfg_cb_step:
  assumes "cq_ids_ok ops" "dev_inv dev" "i < 8"
  shows "\<exists>dev' sh' p' w'. dao_virtio_common_cfg_cb ops this dev sh i v sv p w = Inr (dev', sh', p', w') \<and> dev_inv dev'"
proof -
  consider "i < 2" | "i = 2" | "i = 3" | "4 \<le> i" "i < 7" | "i = 7" using assms(3) by linarith
  then show ?thesis
  proof cases
    case 1
    then show ?thesis using cb_words_0_1_inv [OF assms(2)] by (simp add: dao_virtio_common_cfg_cb_def split: prod.split)
  next
    case 2
    then show ?thesis
      using cb_word_2_runs [OF assms(1,2), of this sh v sv p w] cb_word_2_inv [OF assms(2)]
      by (auto simp: dao_virtio_common_cfg_cb_def)
  next
    case 3
    then show ?thesis
      using cb_word_3_step [OF assms(1,2), of this sh v sv p w] cb_word_3_inv [OF assms(2)]
      by (auto simp: dao_virtio_common_cfg_cb_def)
  next
    case 4
    then show ?thesis using cb_words_4_6_step [OF assms(2), of i v sv] by (auto simp: dao_virtio_common_cfg_cb_def)
  next
    case 5
    then show ?thesis using assms(2) by (simp add: dao_virtio_common_cfg_cb_def)
  qed
qed

end
