(* ===== verification/Virtio_Safe.thy ===== *)
theory Virtio_Safe
  imports Virtio_Facts
begin

text \<open>
  The virtio device and its host as a step relation.  A state is the device, the shadow of its common
  configuration, the region table and the rest of the world.  The host writes the registers and
  the memory at will; the polling thread runs the callback of a word that differs from its shadow,
  the control queue callback, and the mailbox callback.
\<close>

type_synonym 'x vstate = "virtio_dev \<times> virtio_pci_common_cfg \<times> region_cb pem \<times> 'x world"

inductive vstep :: "'x virtio_ops \<Rightarrow> u64 \<Rightarrow> 'x vstate \<Rightarrow> 'x vstate \<Rightarrow> bool" for ops this where
  host_writes: "vstep ops this (dev, sh, p, w) (dev\<lparr>common_cfg := c\<rparr>, sh, p, w')"
| word_polled: "i < 8 \<Longrightarrow> cfg_word (common_cfg dev) i \<noteq> cfg_word sh i \<Longrightarrow>
    dao_virtio_common_cfg_cb ops this dev sh i (cfg_word (common_cfg dev) i) (cfg_word sh i) p w = Inr s \<Longrightarrow>
    vstep ops this (dev, sh, p, w) s"
| cq_polled: "virtio_cq_notify_cb ops junk j v dev p w = Inr (dev', p', w') \<Longrightarrow>
    vstep ops this (dev, sh, p, w) (dev', sh, p', w')"
| mbox_polled: "virtio_mbox_process_cb j v dev p w = Inr (p', w') \<Longrightarrow>
    vstep ops this (dev, sh, p, w) (dev, sh, p', w')"

inductive_cases vstep_cases: "vstep ops this (dev, sh, p, w) s"

text \<open>The device structures are static, hence zeroed before the first set-up.\<close>

definition fresh_dev :: "virtio_dev \<Rightarrow> bool" where
  "fresh_dev dev \<longleftrightarrow>
     queue_conf dev = replicate DAO_VIRTIO_MAX_QUEUES zero_queue_conf \<and> cb_intr_addr dev = replicate 8 None \<and>
     driver_ok_pend dev = 0 \<and> queue_select_pend dev = 0 \<and> cq dev = None \<and>
     \<not> driver_ok dev \<and> \<not> features_ok dev \<and> \<not> acknowledge dev \<and> \<not> driver dev"

definition dev_start :: "'x virtio_ops \<Rightarrow> u64 \<Rightarrow> 'x vstate \<Rightarrow> bool" where
  "dev_start ops this s \<longleftrightarrow>
     (case s of (dev, sh, p, w) \<Rightarrow>
        sh = common_cfg dev \<and>
        (\<exists>dev0 p0 w0. fresh_dev dev0 \<and> virtio_dev_init ops this dev0 p0 w0 = Inr (0, dev, p, w)))"

definition vinv :: "'x vstate \<Rightarrow> bool" where
  "vinv s = dev_inv (fst s)"

lemma dev_queues_bound: "dev_queues size4 page limit \<le> 65535"
proof -
  have "uint limit < 2 ^ 16" using unsigned_less [of limit] by simp
  then show ?thesis by (simp add: dev_queues_def DAO_VIRTIO_MAX_QUEUES_def Let_def min_def)
qed

lemma populate_start:
  assumes "virtio_config_populate dev w = Inr (dev', w')" and "length (queue_conf dev) = DAO_VIRTIO_MAX_QUEUES"
    and "3 \<le> max_virtio_queues dev" "max_virtio_queues dev \<le> 65535"
    and "driver_ok_pend dev = 0" "queue_select_pend dev = 0" "\<not> driver dev"
  shows "dev_inv dev'"
proof -
  have "unat (word_of_int (max_virtio_queues dev) :: u16) = nat (max_virtio_queues dev)"
    using assms(3,4) by (simp add: unsigned_of_int take_bit_int_eq_self nat_uint_eq [symmetric] del: nat_uint_eq)
  then show ?thesis
    using assms by (auto simp: virtio_config_populate_def dev_inv_def DAO_VIRTIO_MAX_QUEUES_def Let_def split: if_splits)
qed

lemma caps_fields:
  assumes "virtio_caps_populate dev base m = (dev', m')"
  shows "queue_conf dev' = queue_conf dev" "max_virtio_queues dev' = max_virtio_queues dev"
    "driver_ok_pend dev' = driver_ok_pend dev" "queue_select_pend dev' = queue_select_pend dev" "driver dev' = driver dev"
  using assms by (auto simp: virtio_caps_populate_def Let_def)

lemma region_info_code: "dao_pem_vf_region_info_get p n 4 = Inr (Inl rc) \<Longrightarrow> rc \<noteq> 0"
  by (auto simp: dao_pem_vf_region_info_get_def Let_def rbind_Inr_iff split: if_splits)

lemma init_parts:
  assumes "virtio_dev_init ops this dev0 p0 w0 = Inr (0, dev, p, w)"
  obtains base size4 dev1 dev2 m1 dev3 w1 n intr w2 where
    "dao_pem_vf_region_info_get p0 (dev_id dev0) 4 = Inr (Inr (base, size4))"
    "dev1 = dev0\<lparr>bar4 := base, bar4_sz := size4, dev_page_sz := host_page_sz p0, notify_off_mltpr := host_page_sz p0,
       max_virtio_queues := dev_queues size4 (host_page_sz p0) (max_virtio_queues_limit dev0)\<rparr>"
    "3 \<le> max_virtio_queues dev1"
    "virtio_caps_populate dev1 base (virtio_dev_signature_add dev1 (wmem w0)) = (dev2, m1)"
    "virtio_config_populate dev2 (w0\<lparr>wmem := m1\<rparr>) = Inr (dev3, w1)"
    "dao_pem_host_interrupt_setup (sdp_regs ops) p0 (uint (dev_id dev3) + 1) (cb_intr_addr dev3) w1 = Inr (n, intr, w2)"
    "dev = dev3\<lparr>dev_feature_bits := default_feature_bits, feature_bits := default_feature_bits, nb_cb_intrs := n, cb_intr_addr := intr\<rparr>"
proof -
  let ?page = "host_page_sz p0"
  obtain info where i: "dao_pem_vf_region_info_get p0 (dev_id dev0) 4 = Inr info"
    using assms by (auto simp: virtio_dev_init_def rbind_Inr_iff)
  have "\<exists>base size4. info = Inr (base, size4)"
    using assms i region_info_code [of p0 "dev_id dev0"] by (cases info) (auto simp: virtio_dev_init_def)
  then obtain base size4 where i2: "info = Inr (base, size4)" by blast
  define dev1 where "dev1 = dev0\<lparr>bar4 := base, bar4_sz := size4, dev_page_sz := ?page, notify_off_mltpr := ?page,
       max_virtio_queues := dev_queues size4 ?page (max_virtio_queues_limit dev0)\<rparr>"
  have g: "?page \<noteq> 0" "\<not> max_virtio_queues dev1 < 3"
    using assms by (auto simp: virtio_dev_init_def i i2 dao_pem_host_page_sz_def dev1_def Let_def split: if_splits)
  obtain dev2 m1 where c: "virtio_caps_populate dev1 base (virtio_dev_signature_add dev1 (wmem w0)) = (dev2, m1)" by fastforce
  note unf = virtio_dev_init_def i i2 rbind_simps sum.case prod.case dao_pem_host_page_sz_def Let_def dev1_def [symmetric]
    if_not_P [OF g(1)] if_not_P [OF g(2)] c
  obtain dev3 w1 where f: "virtio_config_populate dev2 (w0\<lparr>wmem := m1\<rparr>) = Inr (dev3, w1)"
    using assms unfolding unf by (auto simp: rbind_Inr_iff)
  define dev4 where "dev4 = dev3\<lparr>dev_feature_bits := default_feature_bits, feature_bits := default_feature_bits\<rparr>"
  have k: "dev_id dev4 = dev_id dev3" "cb_intr_addr dev4 = cb_intr_addr dev3" by (simp_all add: dev4_def)
  obtain n intr w2 where h: "dao_pem_host_interrupt_setup (sdp_regs ops) p0 (uint (dev_id dev3) + 1) (cb_intr_addr dev3) w1 = Inr (n, intr, w2)"
    using assms unfolding unf f dev4_def [symmetric] k by (auto simp: rbind_Inr_iff)
  have "dev = dev4\<lparr>nb_cb_intrs := n, cb_intr_addr := intr\<rparr>"
    using assms unfolding unf f dev4_def [symmetric] k h by (auto split: if_splits prod.split_asm)
  then have "dev = dev3\<lparr>dev_feature_bits := default_feature_bits, feature_bits := default_feature_bits, nb_cb_intrs := n, cb_intr_addr := intr\<rparr>"
    by (simp add: dev4_def)
  moreover have "3 \<le> max_virtio_queues dev1" using g(2) by simp
  ultimately show ?thesis using that [OF i [unfolded i2] dev1_def _ c f h] by blast
qed

lemma init_inv:
  assumes "fresh_dev dev0" "virtio_dev_init ops this dev0 p0 w0 = Inr (0, dev, p, w)"
  shows "dev_inv dev"
proof -
  obtain base size4 dev1 dev2 m1 dev3 w1 n intr w2 where
    "dao_pem_vf_region_info_get p0 (dev_id dev0) 4 = Inr (Inr (base, size4))"
    and d1: "dev1 = dev0\<lparr>bar4 := base, bar4_sz := size4, dev_page_sz := host_page_sz p0, notify_off_mltpr := host_page_sz p0,
       max_virtio_queues := dev_queues size4 (host_page_sz p0) (max_virtio_queues_limit dev0)\<rparr>"
    and q: "3 \<le> max_virtio_queues dev1"
    and c: "virtio_caps_populate dev1 base (virtio_dev_signature_add dev1 (wmem w0)) = (dev2, m1)"
    and f: "virtio_config_populate dev2 (w0\<lparr>wmem := m1\<rparr>) = Inr (dev3, w1)"
    and "dao_pem_host_interrupt_setup (sdp_regs ops) p0 (uint (dev_id dev3) + 1) (cb_intr_addr dev3) w1 = Inr (n, intr, w2)"
    and d: "dev = dev3\<lparr>dev_feature_bits := default_feature_bits, feature_bits := default_feature_bits, nb_cb_intrs := n, cb_intr_addr := intr\<rparr>"
    by (rule init_parts [OF assms(2)])
  have s: "queue_conf dev1 = queue_conf dev0" "driver_ok_pend dev1 = 0" "queue_select_pend dev1 = 0" "\<not> driver dev1"
    "max_virtio_queues dev1 \<le> 65535"
    using assms(1) dev_queues_bound by (simp_all add: d1 fresh_dev_def)
  have "dev_inv dev3"
    using f by (rule populate_start) (use s q caps_fields [OF c] assms(1) in \<open>simp_all add: fresh_dev_def\<close>)
  then show ?thesis by (simp add: d dev_inv_def)
qed

lemma cq_notify_inv:
  assumes "dev_inv dev" "virtio_cq_notify_cb ops junk j v dev p w = Inr (dev', p', w')"
  shows "dev_inv dev'"
proof -
  obtain w1 where "virtio_cq_cmd_process ops junk dev w = Inr (dev', w1)"
    using assms(2) by (auto simp: virtio_cq_notify_cb_def rbind_Inr_iff)
  then have "dev' = dev \<or> (\<exists>q. dev' = dev\<lparr>cq := q\<rparr>)"
    by (auto simp: virtio_cq_cmd_process_def Let_def rbind_Inr_iff split: option.splits if_splits prod.split_asm)
  then show ?thesis using assms(1) by (auto simp: dev_inv_def)
qed

lemma cfg_cb_inv:
  assumes "dev_inv dev" "dao_virtio_common_cfg_cb ops this dev sh i v sv p w = Inr (dev', sh', p', w')"
  shows "dev_inv dev'"
proof -
  consider "i < 2" | "i = 2" | "i = 3" | "4 \<le> i" "i < 7" | "i = 7" | "7 < i" by linarith
  then show ?thesis
  proof cases
    case 1
    then show ?thesis using assms cb_words_0_1_inv by (auto simp: dao_virtio_common_cfg_cb_def split: prod.split_asm)
  next
    case 2
    then show ?thesis using assms cb_word_2_inv by (auto simp: dao_virtio_common_cfg_cb_def)
  next
    case 3
    then show ?thesis using assms cb_word_3_inv by (auto simp: dao_virtio_common_cfg_cb_def)
  next
    case 4
    then show ?thesis using assms cb_words_4_6_step [OF assms(1), of i v sv] by (auto simp: dao_virtio_common_cfg_cb_def)
  next
    case 5
    then show ?thesis using assms by (simp add: dao_virtio_common_cfg_cb_def)
  next
    case 6
    then show ?thesis using assms by (simp add: dao_virtio_common_cfg_cb_def)
  qed
qed

interpretation virtio_runs: invariant_system "dev_start ops this" "vstep ops this" vinv for ops :: "'x virtio_ops" and this
proof
  fix s :: "'x vstate"
  assume "dev_start ops this s"
  then show "vinv s" using init_inv by (cases s) (auto simp: dev_start_def vinv_def)
next
  fix s t :: "'x vstate"
  assume "vstep ops this s t" "vinv s"
  then show "vinv t"
    by cases (cases t; auto simp: vinv_def intro: cfg_cb_inv cq_notify_inv)+
qed

text \<open>C1: whatever the host writes, and whenever it writes, the callback of the common configuration returns in every
  reachable state of a device: no register value makes it leave the table of queue configurations,
  provided the device class names a control queue inside that table.\<close>

theorem cfg_cb_never_faults:
  assumes "cq_ids_ok ops" and "dev_start ops this s" and "(vstep ops this)\<^sup>*\<^sup>* s (dev, sh, p, w)" and "i < 8"
  shows "\<exists>s'. dao_virtio_common_cfg_cb ops this dev sh i v sv p w = Inr s'"
proof -
  have "dev_inv dev" using virtio_runs.reachable_inv [OF assms(2,3)] by (simp add: vinv_def)
  then show ?thesis using cfg_cb_step [OF assms(1) _ assms(4)] by blast
qed

text \<open>no reachable state of a device has its \<^verbatim>\<open>driver\<close> flag set: the handler of the status bit stores 0 where the
  handlers of the other bits store 1.\<close>

theorem driver_flag_never_set:
  assumes "dev_start ops this s" and "(vstep ops this)\<^sup>*\<^sup>* s (dev, sh, p, w)"
  shows "\<not> driver dev"
  using virtio_runs.reachable_inv [OF assms] by (simp add: vinv_def dev_inv_def)

section \<open>A device\<close>

definition sample_mem :: vfio_device where
  "sample_mem = \<lparr>vfio_name = [], vfio_mem = replicate 5 \<lparr>res_addr = 0x10000, res_len = 0x400000\<rparr>,
     vfio_type = DAO_VFIO_DEV_PCIE, prime = 1, mbar = 4, rbar = 2\<rparr>"

definition sample_pem :: "region_cb pem" where
  "sample_pem = \<lparr>pem_id = 0, host_page_sz = 0x10000, host_pages_per_dev = 8, max_vfs = 8, ctrl_done = False, regions = [],
     region_mask = [], bar4_pdev = sample_mem, sdp_pdev = sample_mem\<rparr>
     \<lparr>regions := replicate DAO_PEM_CTRL_REGION_MAX None, region_mask := replicate DAO_PEM_CTRL_REGION_MASK_MAX 0\<rparr>"

definition sample_cbs :: "unit virtio_dev_cbs" where
  "sample_cbs = \<lparr>cq_cmd_process = (\<lambda>_ _ _ _ w. w), dev_status = (\<lambda>_ _ w. w), cq_id_get = (\<lambda>_ _. 2),
     queue_enable_fn = (\<lambda>_ _ w. w), feature_validate = None\<rparr>"

definition sample_ops :: "unit virtio_ops" where
  "sample_ops = \<lparr>dev_cbs = (\<lambda>_. sample_cbs),
     ctrl_dma = \<lparr>vchan_info_p = (\<lambda>_. None), dma_ctrl_dev2mem_id = 0, dma_ctrl_mem2dev_id = 1\<rparr>,
     ctrl_copy = (\<lambda>_ _ _ _ _ w. (0, w)), ctrl_copy_sg = (\<lambda>_ _ _ _ w. (0, w)), ctrl_completed = (\<lambda>_ _ w. (1, w)),
     heap_zmalloc = (\<lambda>_ w. (0x1000000, w)), heap_free = (\<lambda>_ w. w), region_heap = (\<lambda>_. True),
     sdp_regs = \<lparr>reg_rd = (\<lambda>_ _. 0), reg_wr = (\<lambda>w _ _. w)\<rparr>, cache_line = 128\<rparr>"

definition sample_world :: "unit world" where
  "sample_world = \<lparr>wmem = (\<lambda>_. 0), wext = ()\<rparr>"

definition sample_dev :: virtio_dev where
  "sample_dev = \<lparr>dev_id = 0, dma_vchan = 0, dev_type = VIRTIO_DEV_TYPE_NET, pem_devid = 0, common_cfg = zero_cfg,
     common_cfg_addr = 0, bar4 = 0, bar4_sz = 0, dev_page_sz = 0, notify_off_mltpr = 0, max_virtio_queues = 0,
     max_virtio_queues_limit = 0, notify_base = 0, isr = 0, isr_sz = 0, dev_cfg = 0, mbox = 0, cq = None,
     queue_conf = replicate DAO_VIRTIO_MAX_QUEUES zero_queue_conf, dev_feature_bits = 0, drv_feature_bits_lo = 0,
     drv_feature_bits_hi = 0, feature_bits = 0, prev_queue_select = 0, prev_drv_feature_select = 0,
     cb_intr_addr = replicate 8 None, nb_cb_intrs = 0, driver_ok_pend = 0, queue_select_pend = 0, driver_ok = False,
     features_ok = False, acknowledge = False, driver = False\<rparr>"

lemma sample_ids: "cq_ids_ok sample_ops"
  by (simp add: cq_ids_ok_def sample_ops_def sample_cbs_def DAO_VIRTIO_MAX_QUEUES_def)

lemma sample_fresh: "fresh_dev sample_dev"
  by (simp add: fresh_dev_def sample_dev_def)

lemma sample_pem_ok: "pem_ok sample_pem"
  unfolding sample_pem_def by (rule empty_table)

lemma register_first:
  fixes p :: "'c pem"
  assumes "pem_ok p" "regions p = replicate DAO_PEM_CTRL_REGION_MAX None"
  shows "\<exists>p1. dao_pem_ctrl_region_register True m base n f c s p = (0, p1) \<and> pem_ok p1 \<and> None \<in> set (regions p1)"
proof -
  have s: "region_slots.slot p = 0"
    using assms(2) by (simp add: region_slots.slot_def is_free_def DAO_PEM_CTRL_REGION_MAX_def eval_nat_numeral)
  have "dao_pem_ctrl_region_register True m base n f c s p = (0, pem_put 0 (Some (new_region m base n f c s)) p)"
    by (simp add: register_eq [OF assms(1)] s DAO_PEM_CTRL_REGION_MAX_def)
  moreover have "regions (pem_put 0 (Some (new_region m base n f c s)) p) ! 1 = None"
    "1 < length (regions (pem_put 0 (Some (new_region m base n f c s)) p))"
    by (simp_all add: pem_put_def assms(2) DAO_PEM_CTRL_REGION_MAX_def)
  then have "None \<in> set (regions (pem_put 0 (Some (new_region m base n f c s)) p))" by (metis nth_mem)
  ultimately show ?thesis using register_ok [OF assms(1), of True m base n f c s] by auto
qed

lemma register_free:
  assumes "pem_ok p" "None \<in> set (regions p)"
  shows "\<exists>p1. dao_pem_ctrl_region_register True m base n f c s p = (0, p1)"
  using assms slot_bound [OF assms(1)] by (simp add: register_eq)

lemma sample_populate:
  assumes "max_virtio_queues dev = 7" "length (queue_conf dev) = DAO_VIRTIO_MAX_QUEUES"
  shows "\<exists>dev' w'. virtio_config_populate dev w = Inr (dev', w') \<and> dev_id dev' = dev_id dev \<and>
    cb_intr_addr dev' = cb_intr_addr dev \<and> common_cfg_addr dev' = common_cfg_addr dev"
  using assms by (simp add: virtio_config_populate_def DAO_VIRTIO_MAX_QUEUES_def Let_def)

lemma sample_intr:
  "dao_pem_host_interrupt_setup (sdp_regs sample_ops) sample_pem v a w = Inr (0, a, w)"
  by (simp add: dao_pem_host_interrupt_setup_def sdp_reg_read_def sdp_resource_def sample_pem_def sample_mem_def
      sample_ops_def SDP_VF_MBOX_DATA_def Let_def)

lemma sample_info: "dao_pem_vf_region_info_get sample_pem 0 4 = Inr (Inr (0x10000, 0x80000))"
  by (simp add: dao_pem_vf_region_info_get_def PEM_PFVF_DEV_ID_PF_MASK_def PEM_PFVF_DEV_ID_VF_MASK_def
      bar4_resource_def sample_pem_def sample_mem_def Let_def)

lemma sample_queues: "dev_queues 0x80000 0x10000 0 = 7"
  by (simp add: dev_queues_def c_int_def DAO_VIRTIO_MAX_QUEUES_def Let_def)

lemma sample_regions: "\<exists>p1 w1. dev_regions sample_ops this dev sample_pem w = (0, p1, w1)"
proof -
  have h: "region_heap sample_ops w = True" for w by (simp add: sample_ops_def)
  have r: "regions sample_pem = replicate DAO_PEM_CTRL_REGION_MAX None" by (simp add: sample_pem_def)
  obtain p1 where 1: "dao_pem_ctrl_region_register True (bar_view dev (wmem w)) (common_cfg_addr dev) 64 COMMON_CFG_CB this True sample_pem = (0, p1)"
    and p1: "pem_ok p1" "None \<in> set (regions p1)"
    using register_first [OF sample_pem_ok r] by blast
  obtain p2 where 2: "dao_pem_ctrl_region_register True (store_bytes (wmem w) (mbox dev) (replicate 8 0)) (mbox dev) 8 MBOX_PROCESS_CB this False p1 = (0, p2)"
    using register_free [OF p1] by blast
  show ?thesis by (simp add: dev_regions_def virtio_mbox_init_def h 1 2 Let_def)
qed

lemma sample_init: "\<exists>dev p w. virtio_dev_init sample_ops this sample_dev sample_pem sample_world = Inr (0, dev, p, w)"
proof -
  define dev1 where "dev1 = sample_dev\<lparr>bar4 := 0x10000, bar4_sz := 0x80000, dev_page_sz := 0x10000, notify_off_mltpr := 0x10000,
    max_virtio_queues := 7\<rparr>"
  have d: "dev_id sample_dev = 0" "max_virtio_queues_limit sample_dev = 0" "dao_pem_host_page_sz sample_pem = 0x10000"
    by (simp_all add: sample_dev_def sample_pem_def dao_pem_host_page_sz_def)
  have g: "\<not> max_virtio_queues dev1 < 3" "(0x10000 :: u64) \<noteq> 0" by (simp_all add: dev1_def)
  obtain dev2 m1 where c: "virtio_caps_populate dev1 0x10000 (virtio_dev_signature_add dev1 (wmem sample_world)) = (dev2, m1)"
    by fastforce
  have "max_virtio_queues dev2 = 7" "length (queue_conf dev2) = DAO_VIRTIO_MAX_QUEUES"
    using caps_fields [OF c] by (simp_all add: dev1_def sample_dev_def)
  then obtain dev3 w1 where f: "virtio_config_populate dev2 (sample_world\<lparr>wmem := m1\<rparr>) = Inr (dev3, w1)"
    using sample_populate by blast
  note unf = virtio_dev_init_def d sample_info rbind_simps sum.case prod.case Let_def sample_queues dev1_def [symmetric]
    if_not_P [OF g(1)] if_not_P [OF g(2)] c f sample_intr
  let ?dev4 = "dev3\<lparr>dev_feature_bits := default_feature_bits, feature_bits := default_feature_bits\<rparr>"
  obtain p2 w3 where r: "dev_regions sample_ops this (?dev4\<lparr>nb_cb_intrs := 0, cb_intr_addr := cb_intr_addr ?dev4\<rparr>) sample_pem w1 = (0, p2, w3)"
    using sample_regions by blast
  show ?thesis unfolding unf r by (intro exI) (rule refl)
qed

lemma sample_start:
  obtains dev p w where "dev_start sample_ops this (dev, common_cfg dev, p, w)"
proof -
  obtain dev p w where "virtio_dev_init sample_ops this sample_dev sample_pem sample_world = Inr (0, dev, p, w)"
    using sample_init by blast
  then have "dev_start sample_ops this (dev, common_cfg dev, p, w)"
    using sample_fresh unfolding dev_start_def prod.case by blast
  then show ?thesis by (rule that)
qed

lemma sample_reset_step:
  "vstep ops this (dev, sh, p, w) (dev\<lparr>common_cfg := (common_cfg dev)\<lparr>queue_select := 0x7fff\<rparr>\<rparr>, sh, p, w)"
  by (rule host_writes)

theorem cfg_cb_never_faults_witness:
  "\<exists>dev sh p w s'. dev_start sample_ops 0x5000 (dev, sh, p, w) \<and>
     dao_virtio_common_cfg_cb sample_ops 0x5000 (dev\<lparr>common_cfg := (common_cfg dev)\<lparr>queue_select := 0x7fff\<rparr>\<rparr>) sh 2
       0x7fff000000000000 0 p w = Inr s'"
proof -
  obtain dev p w where s: "dev_start sample_ops 0x5000 (dev, common_cfg dev, p, w)" by (rule sample_start)
  show ?thesis
    using cfg_cb_never_faults [OF sample_ids s r_into_rtranclp [where r = "vstep sample_ops 0x5000", OF sample_reset_step],
        of 2 "0x7fff000000000000" 0] s
    by (intro exI [of _ dev] exI [of _ "common_cfg dev"] exI [of _ p] exI [of _ w]) simp
qed

theorem driver_flag_never_set_witness:
  "\<exists>dev p w. dev_start sample_ops 0x5000 (dev, common_cfg dev, p, w) \<and> \<not> driver dev"
proof -
  obtain dev p w where s: "dev_start sample_ops 0x5000 (dev, common_cfg dev, p, w)" by (rule sample_start)
  show ?thesis using driver_flag_never_set [OF s rtranclp.rtrancl_refl] s by blast
qed

end
