(* ===== verification/Virtio_Props.thy ===== *)
theory Virtio_Props
  imports Virtio_Safe
begin

text \<open>
  What the handlers of the virtio device do: feature negotiation, reset, the start of the driver,
  queue selection, and the bound on the control queue's command arrays.
\<close>

section \<open>Words and registers\<close>

lemma word_parts_32:
  "(ucast ((ucast (a :: u32) :: u64) OR push_bit 32 (ucast (b :: u32))) :: u32) = a"
  "(ucast (drop_bit 32 (ucast (a :: u32) :: u64) OR drop_bit 32 (push_bit 32 (ucast (b :: u32)))) :: u32) = b"
  by (intro bit_eqI; auto simp: bit_simps dest: bit_imp_le_length)+

lemma cfg_decode_1 [simp]:
  "driver_feature_select (cfg_set_word c' (Suc 0) (cfg_word c (Suc 0))) = driver_feature_select c"
  "driver_feature (cfg_set_word c' (Suc 0) (cfg_word c (Suc 0))) = driver_feature c"
  by (simp_all add: cfg_set_word_def cfg_word_def word_parts_32)

lemma cfg_word_1_eq:
  "cfg_word c (Suc 0) = cfg_word c' (Suc 0) \<longleftrightarrow> driver_feature_select c = driver_feature_select c' \<and> driver_feature c = driver_feature c'"
  (is "?l = ?r")
proof
  show "?r \<Longrightarrow> ?l" by (simp add: cfg_word_def)
  show "?l \<Longrightarrow> ?r" using cfg_decode_1 [of zero_cfg c] cfg_decode_1 [of zero_cfg c'] by metis
qed

section \<open>Feature negotiation\<close>

text \<open>The polling thread at word 1 of the configuration.\<close>

definition poll_word_1 :: "virtio_dev \<times> virtio_pci_common_cfg \<Rightarrow> virtio_dev \<times> virtio_pci_common_cfg" where
  "poll_word_1 s =
     (let v = cfg_word (common_cfg (fst s)) 1; sv = cfg_word (snd s) 1
      in if v \<noteq> sv then cb_words_0_1 (fst s) (snd s) 1 v sv else s)"

lemma poll_word_1_cases:
  "poll_word_1 (dev, sh) =
     (let c = common_cfg dev;
          s1 = (if driver_feature c \<noteq> driver_feature sh then virtio_process_driver_feature dev sh (driver_feature c) else (dev, sh))
      in if driver_feature_select c \<noteq> driver_feature_select sh
         then virtio_process_driver_feature_select (fst s1) (snd s1) (driver_feature_select c) else s1)"
  by (simp add: poll_word_1_def cb_words_0_1_def cfg_word_1_eq Let_def split: prod.split)

text \<open>What the host writes: a feature page, with the bit that makes every write a change, and the bits of the page.\<close>

definition write_select :: "u32 \<Rightarrow> virtio_dev \<times> virtio_pci_common_cfg \<Rightarrow> virtio_dev \<times> virtio_pci_common_cfg" where
  "write_select k s = ((fst s)\<lparr>common_cfg := (common_cfg (fst s))\<lparr>driver_feature_select := 0x8000 OR k\<rparr>\<rparr>, snd s)"

definition write_feature :: "u32 \<Rightarrow> virtio_dev \<times> virtio_pci_common_cfg \<Rightarrow> virtio_dev \<times> virtio_pci_common_cfg" where
  "write_feature v s = ((fst s)\<lparr>common_cfg := (common_cfg (fst s))\<lparr>driver_feature := v\<rparr>\<rparr>, snd s)"

definition maybe :: "bool \<Rightarrow> ('s \<Rightarrow> 's) \<Rightarrow> 's \<Rightarrow> 's" where
  "maybe b f s = (if b then f s else s)"

text \<open>The state after a select was acknowledged: the page shown is the page selected.\<close>

definition page_shown :: "u32 \<Rightarrow> virtio_dev \<times> virtio_pci_common_cfg \<Rightarrow> bool" where
  "page_shown k s \<longleftrightarrow>
     prev_drv_feature_select (fst s) = k \<and> driver_feature_select (common_cfg (fst s)) = k \<and> driver_feature_select (snd s) = k \<and>
     driver_feature (snd s) = driver_feature (common_cfg (fst s)) \<and>
     driver_feature (common_cfg (fst s)) = (if k = 0 then drv_feature_bits_lo (fst s) else drv_feature_bits_hi (fst s))"

text \<open>A page that was written, and perhaps not polled yet: the device knows the bits or the difference is pending.\<close>

definition page_written :: "u32 \<Rightarrow> u32 \<Rightarrow> virtio_dev \<times> virtio_pci_common_cfg \<Rightarrow> bool" where
  "page_written k v s \<longleftrightarrow>
     prev_drv_feature_select (fst s) = k \<and> driver_feature_select (common_cfg (fst s)) = k \<and> driver_feature_select (snd s) = k \<and>
     driver_feature (common_cfg (fst s)) = v"

lemma write_page: "page_shown k s \<Longrightarrow> page_written k v (write_feature v s)"
  by (simp add: page_shown_def page_written_def write_feature_def)

lemma poll_page:
  assumes "page_written k v s" "k = 0 \<or> k = 1"
  shows "page_written k v (poll_word_1 s)"
  using assms
  by (cases s) (auto simp: poll_word_1_cases page_written_def virtio_process_driver_feature_def Let_def)

lemma poll_select:
  assumes "page_written k v s" "k = 0 \<or> k = 1" "k' = 0 \<or> k' = 1" "k' \<noteq> k"
  shows "page_shown k' (poll_word_1 (write_select k' s))"
    and "(if k = 0 then drv_feature_bits_lo else drv_feature_bits_hi) (fst (poll_word_1 (write_select k' s))) = v"
  using assms
  by (cases s; auto simp: poll_word_1_cases page_written_def page_shown_def write_select_def virtio_process_driver_feature_def
      virtio_process_driver_feature_select_def VIRTIO_INVALID_FEATURE_SELECT_def Let_def)+


lemma first_select:
  assumes "prev_drv_feature_select (fst s) = VIRTIO_INVALID_FEATURE_SELECT" "driver_feature_select (snd s) \<noteq> 0x8000"
  shows "page_shown 0 (poll_word_1 (write_select 0 s))"
  using assms
  by (cases s) (auto simp: poll_word_1_cases page_shown_def write_select_def virtio_process_driver_feature_def
      virtio_process_driver_feature_select_def VIRTIO_INVALID_FEATURE_SELECT_def Let_def)

lemma last_page:
  assumes "page_shown 1 s"
  shows "drv_feature_bits_hi (fst (poll_word_1 (write_feature v s))) = v"
    and "drv_feature_bits_lo (fst (poll_word_1 (write_feature v s))) = drv_feature_bits_lo (fst s)"
    and "dev_type (fst (poll_word_1 (write_feature v s))) = dev_type (fst s)"
  using assms
  by (cases s; auto simp: poll_word_1_cases page_shown_def write_feature_def virtio_process_driver_feature_def Let_def)+

text \<open>C17: a driver that selects page 0, writes it, selects page 1 and writes it has negotiated exactly these 64 bits,
  whether or not the polling thread ran between the first write and the second select; the only
  rounds the driver has to wait for are those that acknowledge its selects.\<close>

theorem negotiation_any_polling:
  assumes "prev_drv_feature_select (fst s) = VIRTIO_INVALID_FEATURE_SELECT" and "driver_feature_select (snd s) \<noteq> 0x8000"
    and "(dev, sh) = poll_word_1 (write_feature hi (poll_word_1 (write_select 1
           (maybe polled poll_word_1 (write_feature lo (poll_word_1 (write_select 0 s)))))))"
    and "case feature_validate (dev_cbs ops (dev_type dev)) of None \<Rightarrow> True
           | Some f \<Rightarrow> f dev (ucast lo OR push_bit 32 (ucast hi)) = 0"
  shows "feature_bits (fst (status_features ops dev sh)) = ucast lo OR push_bit 32 (ucast hi) \<and>
    features_ok (fst (status_features ops dev sh))"
proof -
  let ?s1 = "poll_word_1 (write_select 0 s)" and ?s2 = "maybe polled poll_word_1 (write_feature lo (poll_word_1 (write_select 0 s)))"
  let ?s3 = "poll_word_1 (write_select 1 ?s2)"
  have "page_written 0 lo ?s2"
    using write_page [OF first_select [OF assms(1,2)]] poll_page by (auto simp: maybe_def)
  then have "page_shown 1 ?s3" "drv_feature_bits_lo (fst ?s3) = lo" using poll_select [of 0 lo ?s2 1] by auto
  then have "drv_feature_bits_hi dev = hi" "drv_feature_bits_lo dev = lo"
    using last_page [of ?s3 hi] assms(3) [symmetric] by (simp_all add: fst_def)
  then show ?thesis using assms(4) by (simp add: status_features_def Let_def split: option.splits)
qed

section \<open>Reset and start\<close>

definition default_queue :: virtio_queue_conf where
  "default_queue = zero_queue_conf\<lparr>qc_size := DAO_VIRTIO_MAX_QUEUE_SZ\<rparr>"

text \<open>The notify words of queues that are at least four bytes apart, byte by byte and as words.\<close>

lemma word_far:
  assumes "4 \<le> d" and "d \<le> 2 ^ 63" and "l < 4"
  shows "\<not> unat (of_nat l - of_nat d :: u64) < 4"
proof -
  have "(of_nat (2 ^ 64) :: u64) = 0" by simp
  then have e: "(of_nat l - of_nat d :: u64) = of_nat (2 ^ 64 + l - d)" using assms(2) by (simp add: of_nat_diff)
  have "2 ^ 64 + l - d < 2 ^ LENGTH(64)" using assms by simp
  then have u: "unat (of_nat (2 ^ 64 + l - d) :: u64) = 2 ^ 64 + l - d" unfolding unat_of_nat by (rule mod_less)
  show ?thesis unfolding e u using assms by simp
qed

lemma notify_reset_byte:
  assumes "4 \<le> unat mltpr" and "n * unat mltpr \<le> 2 ^ 63" and "i < n" and "l < 4"
  shows "notify_reset base mltpr n m (base + of_nat i * mltpr + of_nat l) = ucast (drop_bit (8 * l) (0x80000000 :: u32))"
  using assms(2,3)
proof (induction n)
  case (Suc k)
  let ?x = "base + of_nat i * mltpr + of_nat l" and ?a = "base + of_nat k * mltpr"
  show ?case
  proof (cases "i = k")
    case True
    have "unat (of_nat l :: u64) = l" using assms(4) by (simp add: unat_of_nat)
    then show ?thesis using assms(4) True by (simp add: store32_def)
  next
    case False
    then have ik: "i < k" using Suc(3) by simp
    let ?D = "(k - i) * unat mltpr"
    have D: "4 \<le> ?D" "?D \<le> 2 ^ 63"
    proof -
      have "unat mltpr \<le> ?D" using ik by (cases "k - i") simp_all
      then show "4 \<le> ?D" by (rule order_trans [OF assms(1)])
      have "?D \<le> Suc k * unat mltpr" by (intro mult_right_mono) simp_all
      then show "?D \<le> 2 ^ 63" using Suc(2) by linarith
    qed
    have e: "?x - ?a = of_nat l - of_nat ?D" using ik by (simp add: of_nat_diff algebra_simps)
    have "\<not> unat (?x - ?a) < 4" unfolding e by (rule word_far [OF D assms(4)])
    then show ?thesis using Suc.IH Suc(2) ik by (simp add: store32_def)
  qed
qed simp

lemma notify_reset_word:
  assumes "4 \<le> unat mltpr" and "n * unat mltpr \<le> 2 ^ 63" and "i < n"
  shows "load32 (notify_reset base mltpr n m) (base + of_nat i * mltpr) = 0x80000000"
proof -
  have b: "notify_reset base mltpr n m (base + of_nat i * mltpr + of_nat l) = ucast (drop_bit (8 * l) (0x80000000 :: u32))" if "l < 4" for l
    by (rule notify_reset_byte [OF assms that])
  show ?thesis
    unfolding load32_def using b [of 0] b [of 1] b [of 2] b [of 3] by (simp add: upt_rec)
qed

text \<open>C38: a write of 0 to the device status.  The callback of the device type runs first and a control queue is unregistered and freed.  The state of the
  device then is the old one but for these fields: every queue has the default configuration, the control queue is gone, the offered features are back, no
  page of features and no queue is selected, the status flags are cleared, and the configuration shows the number of queues, no selected page and status 0.
  All other fields stay, among them the feature bits the driver had written, the counters of delayed answers and the registers of the selected queue.  When
  the notify words are at least four bytes apart each of them reads as the first offset of a queue.\<close>

theorem reset_restores:
  assumes "dev_inv dev" and "st AND 0x7f = 0" and "n = nat (max_virtio_queues dev)"
    and "4 \<le> unat (notify_off_mltpr dev)" and "n * unat (notify_off_mltpr dev) \<le> 2 ^ 63"
  shows "\<exists>p' w'. virtio_process_device_status ops this dev sh st p w =
      Inr (0, dev\<lparr>queue_conf := replicate n default_queue @ drop n (queue_conf dev), cq := None, feature_bits := dev_feature_bits dev,
                  prev_queue_select := VIRTIO_INVALID_QUEUE_INDEX, prev_drv_feature_select := VIRTIO_INVALID_FEATURE_SELECT,
                  driver_ok := False, features_ok := False, acknowledge := False, driver := False,
                  common_cfg := (common_cfg dev)\<lparr>num_queues := of_nat n, device_feature_select := VIRTIO_INVALID_FEATURE_SELECT,
                    driver_feature_select := VIRTIO_INVALID_FEATURE_SELECT, device_status := 0\<rparr>\<rparr>,
           sh\<lparr>device_status := 0\<rparr>, p', w') \<and>
    p' = (case cq dev of None \<Rightarrow> p | Some q \<Rightarrow> snd (dao_pem_ctrl_region_unregister (notify_addr q) 8 CQ_NOTIFY_CB this p)) \<and>
    (\<forall>i < n. load32 (wmem w') (notify_base dev + of_nat i * notify_off_mltpr dev) = 0x80000000)"
proof -
  let ?w = "dev_status (dev_cbs ops (dev_type dev)) dev VIRTIO_DEV_RESET w"
  obtain dev1 p1 w1 where c: "virtio_clear_cq_info ops this dev p ?w = (dev1, p1, w1)" by (rule prod_cases3)
  have d1: "dev1 = dev\<lparr>cq := None\<rparr>" "p1 = (case cq dev of None \<Rightarrow> p | Some q \<Rightarrow> snd (dao_pem_ctrl_region_unregister (notify_addr q) 8 CQ_NOTIFY_CB this p))"
    using c by (auto simp: virtio_clear_cq_info_def split: option.splits)
  have u: "unat (word_of_int (max_virtio_queues dev) :: u16) = n" using queues_u16(1) [OF assms(1)] assms(3) by simp
  have l: "\<not> length (queue_conf dev) < n" using queues_u16(2) [OF assms(1)] assms(1,3) by (simp add: dev_inv_def DAO_VIRTIO_MAX_QUEUES_def)
  have "\<exists>w'. virtio_process_device_status ops this dev sh st p w =
      Inr (0, dev\<lparr>queue_conf := replicate n default_queue @ drop n (queue_conf dev), cq := None, feature_bits := dev_feature_bits dev,
                  prev_queue_select := VIRTIO_INVALID_QUEUE_INDEX, prev_drv_feature_select := VIRTIO_INVALID_FEATURE_SELECT,
                  driver_ok := False, features_ok := False, acknowledge := False, driver := False,
                  common_cfg := (common_cfg dev)\<lparr>num_queues := of_nat n, device_feature_select := VIRTIO_INVALID_FEATURE_SELECT,
                    driver_feature_select := VIRTIO_INVALID_FEATURE_SELECT, device_status := 0\<rparr>\<rparr>,
           sh\<lparr>device_status := 0\<rparr>, p1, w') \<and> wmem w' = notify_reset (notify_base dev) (notify_off_mltpr dev) n (wmem w1)"
    using c u l by (simp add: virtio_process_device_status_def status_reset_def virtio_config_populate_def assms(2) VIRTIO_DEV_RESET_def
        status_rest_def Let_def d1(1) default_queue_def)
  then show ?thesis using d1(2) notify_reset_word [OF assms(4,5)] by (metis (no_types, lifting))
qed

text \<open>The status word polled \<open>n\<close> times with the same value.\<close>

fun status_polls ::
  "'x virtio_ops \<Rightarrow> u64 \<Rightarrow> u8 \<Rightarrow> nat \<Rightarrow> 'x vstate \<Rightarrow> fault + 'x vstate" where
  "status_polls ops this st 0 s = Inr s"
| "status_polls ops this st (Suc n) s =
     (case s of (dev, sh, p, w) \<Rightarrow>
        rbind (virtio_process_device_status ops this dev sh st p w) (\<lambda>(_, s'). status_polls ops this st n s'))"

definition starts_driver :: "u8 \<Rightarrow> virtio_dev \<Rightarrow> bool" where
  "starts_driver st dev \<longleftrightarrow> st AND 0x7f \<noteq> 0 \<and> (st AND 0x7f) AND VIRTIO_DEV_DRIVER_OK \<noteq> 0 \<and> \<not> driver_ok dev \<and>
     ((st AND 0x7f) AND VIRTIO_DEV_FEATURES_OK = 0 \<or> features_ok dev)"

lemma status_waits:
  assumes "starts_driver st dev" "driver_ok_pend dev < 3"
  shows "virtio_process_device_status ops this dev sh st p w =
    Inr (1, dev\<lparr>driver_ok_pend := driver_ok_pend dev + 1\<rparr>, sh, p, w)"
  using assms by (auto simp: virtio_process_device_status_def starts_driver_def VIRTIO_DEV_RESET_def Let_def)

lemma starts_pend [simp]: "starts_driver st (dev\<lparr>driver_ok_pend := n\<rparr>) = starts_driver st dev"
  by (simp add: starts_driver_def)

lemma status_waits_three:
  assumes "starts_driver st dev" "driver_ok_pend dev = 0"
  shows "status_polls ops this st 3 (dev, sh, p, w) = Inr (dev\<lparr>driver_ok_pend := 3\<rparr>, sh, p, w)"
  using assms by (simp add: numeral_3_eq_3 status_waits)


lemma status_polls_add:
  "status_polls ops this st (m + n) s = rbind (status_polls ops this st m s) (status_polls ops this st n)"
proof (induction m arbitrary: s)
  case (Suc m)
  obtain dev sh p w where s: "s = (dev, sh, p, w)" by (cases s) auto
  show ?case
    using Suc.IH by (cases "virtio_process_device_status ops this dev sh st p w") (simp_all add: s split: prod.split)
qed simp

lemma setup_cq_keeps:
  assumes "virtio_setup_cq_info ops this dev p w = Inr (rc, dev', p', w')"
  shows "driver_ok dev' = driver_ok dev" "driver_ok_pend dev' = driver_ok_pend dev"
  using assms by (auto simp: virtio_setup_cq_info_def Let_def split: if_splits prod.split_asm)

lemma status_driver_ok_sets:
  assumes "status_driver_ok ops this dev sh p w = Inr (dev', sh', p', w')"
  shows "driver_ok dev'" "driver_ok_pend dev' = 0" "device_status sh' = device_status sh OR VIRTIO_DEV_DRIVER_OK"
proof -
  let ?dev = "dev\<lparr>driver_ok_pend := 0, driver_ok := True\<rparr>"
  obtain rc where e: "virtio_setup_cq_info ops this ?dev p (dev_status (dev_cbs ops (dev_type ?dev)) ?dev VIRTIO_DEV_DRIVER_OK w) =
      Inr (rc, dev', p', w')" and "sh' = sh\<lparr>device_status := device_status sh OR VIRTIO_DEV_DRIVER_OK\<rparr>"
    using assms by (auto simp: status_driver_ok_def Let_def rbind_Inr_iff)
  then show "driver_ok dev'" "driver_ok_pend dev' = 0" "device_status sh' = device_status sh OR VIRTIO_DEV_DRIVER_OK"
    using setup_cq_keeps [OF e] by simp_all
qed

lemma status_rest_keeps:
  assumes "status_rest st dev sh = (dev', sh')"
  shows "driver_ok dev' = driver_ok dev" "driver_ok_pend dev' = driver_ok_pend dev"
    "device_status sh AND v \<noteq> 0 \<Longrightarrow> device_status sh' AND v \<noteq> 0"
  using assms by (auto simp: status_rest_def Let_def bit.conj_disj_distrib2 or_eq_0_iff split: if_splits)

lemma status_starts:
  assumes "cq_ids_ok ops" "dev_inv dev" "starts_driver st dev" "driver_ok_pend dev = 3"
  shows "\<exists>dev' sh' p' w'. virtio_process_device_status ops this dev sh st p w = Inr (0, dev', sh', p', w') \<and>
    driver_ok dev' \<and> driver_ok_pend dev' = 0 \<and> device_status sh' AND VIRTIO_DEV_DRIVER_OK \<noteq> 0"
proof -
  obtain dev1 sh1 p1 w1 where d: "status_driver_ok ops this dev sh p w = Inr (dev1, sh1, p1, w1)"
    using status_driver_ok_runs [OF assms(1,2)] by (metis prod_cases4)
  obtain dev2 sh2 where r: "status_rest (st AND 0x7f) dev1 sh1 = (dev2, sh2)" by fastforce
  have "virtio_process_device_status ops this dev sh st p w = Inr (0, dev2, sh2, p1, w1)"
    using assms(3,4) d r by (auto simp: virtio_process_device_status_def starts_driver_def VIRTIO_DEV_RESET_def Let_def)
  moreover have "device_status sh1 AND VIRTIO_DEV_DRIVER_OK \<noteq> 0"
    using status_driver_ok_sets [OF d] by (simp add: bit.conj_disj_distrib2 or_eq_0_iff VIRTIO_DEV_DRIVER_OK_def)
  ultimately show ?thesis using status_driver_ok_sets [OF d] status_rest_keeps [OF r] by auto
qed

text \<open>a device that sees \<^verbatim>\<open>DRIVER_OK\<close> leaves everything as it is for three polls, so that register writes that
  arrive late are handled first; the fourth poll starts the driver and acknowledges the bit.\<close>

theorem driver_ok_fourth_poll:
  assumes "cq_ids_ok ops" and "dev_inv dev" and "starts_driver st dev" and "driver_ok_pend dev = 0"
  shows "status_polls ops this st 3 (dev, sh, p, w) = Inr (dev\<lparr>driver_ok_pend := 3\<rparr>, sh, p, w) \<and>
    (\<exists>dev' sh' p' w'. status_polls ops this st 4 (dev, sh, p, w) = Inr (dev', sh', p', w') \<and>
       driver_ok dev' \<and> driver_ok_pend dev' = 0 \<and> device_status sh' AND VIRTIO_DEV_DRIVER_OK \<noteq> 0)"
proof -
  have i: "dev_inv (dev\<lparr>driver_ok_pend := 3\<rparr>)" using assms(2) by (simp add: dev_inv_def)
  have "status_polls ops this st (3 + 1) (dev, sh, p, w) = status_polls ops this st 1 (dev\<lparr>driver_ok_pend := 3\<rparr>, sh, p, w)"
    by (simp only: status_polls_add rbind_simps status_waits_three [OF assms(3,4)])
  then show ?thesis
    using status_waits_three [OF assms(3,4)] status_starts [OF assms(1) i, of st this sh p w] assms(3) by auto
qed

section \<open>Queue selection\<close>

definition queue_regs :: "virtio_pci_common_cfg \<Rightarrow> u16 list \<times> u32 list" where
  "queue_regs c =
     ([queue_size c, queue_msix_vector c, queue_enable c],
      [queue_desc_lo c, queue_desc_hi c, queue_avail_lo c, queue_avail_hi c, queue_used_lo c, queue_used_hi c])"

lemma select_effect:
  assumes "dev_inv dev" "queue_select_pend dev = 3" "unat (prev_queue_select dev) < DAO_VIRTIO_MAX_QUEUES"
    "unat (qs AND 0x7fff) < DAO_VIRTIO_MAX_QUEUES" "qs AND 0x7fff \<noteq> prev_queue_select dev"
  shows "\<exists>dev' sh'. virtio_process_queue_select dev sh qs = Inr (1, dev', sh') \<and>
    queue_conf dev' = (queue_conf dev)[unat (prev_queue_select dev) :=
      save_queue (common_cfg dev) (queue_conf dev ! unat (prev_queue_select dev))] \<and>
    prev_queue_select dev' = qs AND 0x7fff \<and>
    common_cfg dev' = (show_queue (qs AND 0x7fff) (queue_conf dev ! unat (qs AND 0x7fff)) (common_cfg dev))\<lparr>queue_select := qs AND 0x7fff\<rparr> \<and>
    sh' = (show_queue (qs AND 0x7fff) (queue_conf dev ! unat (qs AND 0x7fff)) sh)\<lparr>queue_select := qs AND 0x7fff\<rparr>"
proof -
  have v: "prev_queue_select dev \<noteq> VIRTIO_INVALID_QUEUE_INDEX"
    using assms(3) by (auto simp: VIRTIO_INVALID_QUEUE_INDEX_def DAO_VIRTIO_MAX_QUEUES_def)
  have n: "unat (qs AND 0x7fff) \<noteq> unat (prev_queue_select dev)" using assms(5) by (simp add: word_unat_eq_iff)
  show ?thesis
    using assms v n
    by (simp add: virtio_process_queue_select_def dev_inv_def VIRTIO_QUEUE_SELECT_DELAY_def Let_def)
qed

lemma show_saved: "queue_regs (show_queue q (save_queue c qc) c') = queue_regs c"
  by (simp add: queue_regs_def show_queue_def save_queue_def)

text \<open>C27: what a host wrote into the registers of a queue is what it reads, from the registers and from their shadow, when it
  selects that queue again after it has selected and configured another one.\<close>

theorem queue_select_round_trip:
  assumes "dev_inv dev" and "queue_select_pend dev = 3" and "prev_queue_select dev = q1" and "unat q1 < DAO_VIRTIO_MAX_QUEUES"
    and "qs2 AND 0x7fff = q2" and "unat q2 < DAO_VIRTIO_MAX_QUEUES" and "qs1 AND 0x7fff = q1" and "q1 \<noteq> q2"
    and "virtio_process_queue_select dev sh qs2 = Inr (rc, dev1, sh1)"
    and "virtio_process_queue_select (dev1\<lparr>common_cfg := c2, queue_select_pend := 3\<rparr>) sh2 qs1 = Inr (rc', dev3, sh3)"
  shows "queue_regs (common_cfg dev3) = queue_regs (common_cfg dev) \<and> queue_regs sh3 = queue_regs (common_cfg dev) \<and>
    queue_conf dev3 ! unat q2 = save_queue c2 (queue_conf dev ! unat q2)"
proof -
  let ?dev2 = "dev1\<lparr>common_cfg := c2, queue_select_pend := 3\<rparr>"
  have e1: "queue_conf dev1 = (queue_conf dev)[unat q1 := save_queue (common_cfg dev) (queue_conf dev ! unat q1)]"
    "prev_queue_select dev1 = q2"
    using select_effect [OF assms(1,2), of qs2 sh, unfolded assms(3,5), OF assms(4,6)] assms(8,9) by simp_all
  have i: "dev_inv ?dev2" using queue_select_inv [OF assms(1,9)] by (simp add: dev_inv_def)
  have u: "unat q1 \<noteq> unat q2" "unat q1 < length (queue_conf dev)" "unat q2 < length (queue_conf dev)"
    using assms(1,4,6,8) by (simp_all add: dev_inv_def word_unat_eq_iff)
  have e2: "queue_conf dev3 = (queue_conf dev1)[unat q2 := save_queue c2 (queue_conf dev1 ! unat q2)]"
    "common_cfg dev3 = (show_queue q1 (queue_conf dev1 ! unat q1) c2)\<lparr>queue_select := q1\<rparr>"
    "sh3 = (show_queue q1 (queue_conf dev1 ! unat q1) sh2)\<lparr>queue_select := q1\<rparr>"
    using select_effect [OF i, of qs1 sh2, unfolded assms(7)] e1(2) assms(4,6,8,10) by simp_all
  have q: "queue_regs (c\<lparr>queue_select := q\<rparr>) = queue_regs c" for c q by (simp add: queue_regs_def)
  show ?thesis using u by (simp add: e2 e1 q show_saved)
qed

section \<open>Control queue commands\<close>

lemma collect_faults: "length cs < j + n \<Longrightarrow> j \<le> length cs \<Longrightarrow> collect_descs m b i j n cs tot = Inl OutOfBounds"
  by (induction n arbitrary: i j cs tot) (auto simp: Let_def)

lemma collect_runs: "j + n \<le> length cs \<Longrightarrow> \<exists>cs' tot'. collect_descs m b i j n cs tot = Inr (cs', tot')"
  by (induction n arbitrary: i j cs tot) (auto simp: Let_def)

definition cq_pending :: "virtio_ctrl_queue \<Rightarrow> memory \<Rightarrow> u16" where
  "cq_pending q m =
     (let next_off = ucast (drop_bit 16 (load32 m (notify_addr q)))
      in if next_off \<noteq> sd_desc_off q then desc_off_diff_no_wrap next_off (sd_desc_off q) (q_sz q) else 0)"

text \<open>The DMA engine accepts the copy of \<open>n\<close> descriptors to the shadow ring and completes it before the time is over.\<close>

definition descs_fetched :: "'x virtio_ops \<Rightarrow> virtio_ctrl_queue \<Rightarrow> u16 \<Rightarrow> 'x world \<Rightarrow> bool" where
  "descs_fetched ops q n w =
     (let d = dao_dma_ctrl_dev2mem (ctrl_dma ops); off = ucast (DESC_OFF (sd_desc_off q)) :: u16 in
      case ctrl_copy ops d (cq_dma_vchan q) (DESC_PTR_OFF (desc_base q) off 0) (DESC_PTR_OFF (sd_desc_base q) off 0) (16 * unat n) w of (rc, w1) \<Rightarrow>
      0 \<le> rc \<and> fst (dma_wait ops d (cq_dma_vchan q) VIRTIO_DMA_TMO_MS w1))"

lemma process_descs_fault_iff:
  assumes "length src_a = 15"
  shows "process_descs ops q src_a dst_a n w = Inl OutOfBounds \<longleftrightarrow> 15 < unat n \<and> descs_fetched ops q n w"
proof -
  let ?d = "dao_dma_ctrl_dev2mem (ctrl_dma ops)" and ?off = "ucast (DESC_OFF (sd_desc_off q)) :: u16"
  obtain rc w1 where c: "ctrl_copy ops ?d (cq_dma_vchan q) (DESC_PTR_OFF (desc_base q) ?off 0) (DESC_PTR_OFF (sd_desc_base q) ?off 0)
             (16 * unat n) w = (rc, w1)" by fastforce
  obtain ok w2 where d: "dma_wait ops ?d (cq_dma_vchan q) VIRTIO_DMA_TMO_MS w1 = (ok, w2)" by fastforce
  have f: "descs_fetched ops q n w \<longleftrightarrow> \<not> rc < 0 \<and> ok" by (auto simp: descs_fetched_def c d)
  show ?thesis
  proof (cases "\<not> rc < 0 \<and> ok")
    case False
    then have "process_descs ops q src_a dst_a n w \<noteq> Inl OutOfBounds"
      by (cases ok) (simp_all add: process_descs_def Let_def c d)
    then show ?thesis using False f by simp
  next
    case True
    have e: "process_descs ops q src_a dst_a n w = rbind (collect_descs (wmem w2) (sd_desc_base q) (unat ?off) 0 (unat n) src_a 0)
        (\<lambda>(cmd_src1, tot). case heap_zmalloc ops (unat tot) w2 of (a, w3) \<Rightarrow>
            let cmd_dst1 = dst_a[0 := (dst_a ! 0)\<lparr>addr := a\<rparr>] in
            if a = 0 then Inr (- ENOMEM, cmd_src1, cmd_dst1, w3)
            else
              let cmd_dst2 = cmd_dst1[0 := \<lparr>addr = a, len = tot\<rparr>] in
              case ctrl_copy_sg ops ?d (cq_dma_vchan q) (take (unat n) cmd_src1) (take 1 cmd_dst2) w3 of (rc2, w4) \<Rightarrow>
              if rc2 < 0 then Inr (- ENOMEM, cmd_src1, cmd_dst2, heap_free ops a w4)
              else case dma_wait ops ?d (cq_dma_vchan q) VIRTIO_DMA_TMO_MS w4 of
                (False, w5) \<Rightarrow> Inr (- EFAULT, cmd_src1, cmd_dst2, w5)
              | (True, w5) \<Rightarrow> Inr (0, cmd_src1, cmd_dst2, w5))"
      unfolding process_descs_def Let_def c d prod.case if_not_P [OF conjunct1 [OF True]] using True by simp
    show ?thesis
    proof (cases "15 < unat n")
      case big: True
      then show ?thesis using assms True f by (simp add: e collect_faults)
    next
      case False
      then obtain cs tot where "collect_descs (wmem w2) (sd_desc_base q) (unat ?off) 0 (unat n) src_a 0 = Inr (cs, tot)"
        using collect_runs [of 0 "unat n" src_a] assms by fastforce
      then show ?thesis using False by (auto simp: e Let_def split: prod.split bool.split)
    qed
  qed
qed

text \<open>C37: the commands of the control queue are gathered in arrays of fifteen entries, and the number of descriptors comes from the notification word, which
  the host writes: processing a notification leaves the arrays exactly when more than fifteen descriptors are pending, counted up to the end of the ring, and
  the DMA engine has taken and completed the copy of them.  The contents the arrays have before do not matter.\<close>

theorem cq_commands_fault_iff:
  assumes "cq dev = Some q" and "length junk = 15"
  shows "virtio_cq_cmd_process ops junk dev w = Inl OutOfBounds \<longleftrightarrow>
    15 < unat (cq_pending q (wmem w)) \<and> descs_fetched ops q (cq_pending q (wmem w)) w"
proof -
  let ?next = "ucast (drop_bit 16 (load32 (wmem w) (notify_addr q))) :: u16"
  let ?n = "cq_pending q (wmem w)"
  have n: "(if ?next \<noteq> sd_desc_off q then desc_off_diff_no_wrap ?next (sd_desc_off q) (q_sz q) else 0) = ?n"
    by (simp add: cq_pending_def)
  note f = process_descs_fault_iff [OF assms(2), of ops q junk ?n w]
  show ?thesis
  proof (cases "?n = 0")
    case True
    then show ?thesis using n by (simp add: virtio_cq_cmd_process_def assms(1) Let_def)
  next
    case False
    show ?thesis
    proof (cases "process_descs ops q junk junk ?n w")
      case (Inl e)
      have "e = OutOfBounds \<longleftrightarrow> 15 < unat ?n \<and> descs_fetched ops q ?n w" using f Inl by simp
      then show ?thesis unfolding virtio_cq_cmd_process_def Let_def n assms(1) option.case if_not_P [OF False] Inl by simp
    next
      case (Inr r)
      obtain rc cs ds w1 where r: "r = (rc, cs, ds, w1)" by (cases r) auto
      have "\<not> (15 < unat ?n \<and> descs_fetched ops q ?n w)" using f Inr by simp
      then show ?thesis unfolding virtio_cq_cmd_process_def Let_def n assms(1) option.case if_not_P [OF False] Inr r
        by (simp split: prod.split)
    qed
  qed
qed

section \<open>Instances\<close>

definition ready_dev :: virtio_dev where
  "ready_dev = sample_dev\<lparr>max_virtio_queues := 7, notify_base := 0x10000, notify_off_mltpr := 0x1000, queue_select_pend := 3, features_ok := True,
     prev_drv_feature_select := VIRTIO_INVALID_FEATURE_SELECT\<rparr>"

lemma ready_inv: "dev_inv ready_dev"
  by (simp add: dev_inv_def ready_dev_def sample_dev_def DAO_VIRTIO_MAX_QUEUES_def)

theorem negotiation_any_polling_witness:
  "\<exists>dev sh. (dev, sh) = poll_word_1 (write_feature 7 (poll_word_1 (write_select 1
       (maybe False poll_word_1 (write_feature 5 (poll_word_1 (write_select 0 (ready_dev, zero_cfg)))))))) \<and>
     feature_bits (fst (status_features sample_ops dev sh)) = 0x700000005"
proof -
  obtain dev sh where e: "(dev, sh) = poll_word_1 (write_feature 7 (poll_word_1 (write_select 1
       (maybe False poll_word_1 (write_feature 5 (poll_word_1 (write_select 0 (ready_dev, zero_cfg))))))))"
    by (metis surj_pair)
  have v: "feature_validate (dev_cbs sample_ops t) = None" for t by (simp add: sample_ops_def sample_cbs_def)
  have "feature_bits (fst (status_features sample_ops dev sh)) = ucast (5 :: u32) OR push_bit 32 (ucast (7 :: u32))"
    using negotiation_any_polling [OF _ _ e, of sample_ops] by (simp add: v ready_dev_def zero_cfg_def)
  then show ?thesis using e by auto
qed

theorem reset_restores_witness:
  "\<exists>dev' sh' p' w'. virtio_process_device_status sample_ops 0 ready_dev zero_cfg 0x80 sample_pem sample_world = Inr (0, dev', sh', p', w') \<and>
     \<not> features_ok dev' \<and> queue_conf dev' ! 2 = default_queue \<and> load32 (wmem w') (notify_base ready_dev) = 0x80000000"
proof -
  let ?n = "nat (max_virtio_queues ready_dev)"
  have r: "(0x80 :: u8) AND 0x7f = 0" "4 \<le> unat (notify_off_mltpr ready_dev)" "?n * unat (notify_off_mltpr ready_dev) \<le> 2 ^ 63" "2 < ?n"
    by (simp_all add: ready_dev_def sample_dev_def)
  obtain p' w' where e: "virtio_process_device_status sample_ops 0 ready_dev zero_cfg 0x80 sample_pem sample_world =
      Inr (0, ready_dev\<lparr>queue_conf := replicate ?n default_queue @ drop ?n (queue_conf ready_dev), cq := None, feature_bits := dev_feature_bits ready_dev,
                  prev_queue_select := VIRTIO_INVALID_QUEUE_INDEX, prev_drv_feature_select := VIRTIO_INVALID_FEATURE_SELECT,
                  driver_ok := False, features_ok := False, acknowledge := False, driver := False,
                  common_cfg := (common_cfg ready_dev)\<lparr>num_queues := of_nat ?n, device_feature_select := VIRTIO_INVALID_FEATURE_SELECT,
                    driver_feature_select := VIRTIO_INVALID_FEATURE_SELECT, device_status := 0\<rparr>\<rparr>, zero_cfg\<lparr>device_status := 0\<rparr>, p', w')"
    "\<forall>i < ?n. load32 (wmem w') (notify_base ready_dev + of_nat i * notify_off_mltpr ready_dev) = 0x80000000"
    using reset_restores [OF ready_inv r(1) refl r(2,3)] by blast
  have "0 < ?n" using r(4) by simp
  then have "load32 (wmem w') (notify_base ready_dev + of_nat 0 * notify_off_mltpr ready_dev) = 0x80000000" using e(2) by blast
  then have "load32 (wmem w') (notify_base ready_dev) = 0x80000000" by simp
  then show ?thesis using e(1) r(4) by (simp add: nth_append)
qed

theorem driver_ok_fourth_poll_witness:
  "\<exists>dev' sh' p' w'. status_polls sample_ops 0 15 4 (ready_dev, zero_cfg, sample_pem, sample_world) = Inr (dev', sh', p', w') \<and> driver_ok dev'"
proof -
  have "starts_driver 15 ready_dev" "driver_ok_pend ready_dev = 0"
    by (simp_all add: starts_driver_def ready_dev_def sample_dev_def VIRTIO_DEV_DRIVER_OK_def VIRTIO_DEV_FEATURES_OK_def)
  then show ?thesis using driver_ok_fourth_poll [OF sample_ids ready_inv] by blast
qed

theorem queue_select_round_trip_witness:
  "\<exists>dev1 sh1 dev3 sh3. virtio_process_queue_select ready_dev zero_cfg 0x8002 = Inr (1, dev1, sh1) \<and>
     virtio_process_queue_select (dev1\<lparr>common_cfg := zero_cfg, queue_select_pend := 3\<rparr>) sh1 0x8000 = Inr (1, dev3, sh3) \<and>
     queue_regs (common_cfg dev3) = queue_regs (common_cfg ready_dev)"
proof -
  have r: "queue_select_pend ready_dev = 3" "prev_queue_select ready_dev = 0" by (simp_all add: ready_dev_def sample_dev_def)
  obtain dev1 sh1 where 1: "virtio_process_queue_select ready_dev zero_cfg 0x8002 = Inr (1, dev1, sh1)" "prev_queue_select dev1 = 2"
    using select_effect [OF ready_inv r(1), of "0x8002" zero_cfg] r(2) by (auto simp: DAO_VIRTIO_MAX_QUEUES_def)
  let ?dev2 = "dev1\<lparr>common_cfg := zero_cfg, queue_select_pend := 3\<rparr>"
  have i: "dev_inv ?dev2" using queue_select_inv [OF ready_inv 1(1)] by (simp add: dev_inv_def)
  obtain dev3 sh3 where 3: "virtio_process_queue_select ?dev2 sh1 0x8000 = Inr (1, dev3, sh3)"
    using select_effect [OF i, of "0x8000" sh1] 1(2) by (auto simp: DAO_VIRTIO_MAX_QUEUES_def)
  show ?thesis
    using queue_select_round_trip [OF ready_inv r _ _ _ _ _ 1(1) 3] 1(1) 3 by (fastforce simp: DAO_VIRTIO_MAX_QUEUES_def)
qed

definition sample_cq :: virtio_ctrl_queue where
  "sample_cq = \<lparr>desc_base = 0, notify_addr = 0, q_sz = 256, last_off = 0x8000, cq_dma_vchan = 0, sd_desc_off = 0x8000,
     sd_desc_base = 0x2000\<rparr>"

theorem cq_commands_fault_iff_witness:
  "virtio_cq_cmd_process sample_ops (replicate 15 zero_sge) (sample_dev\<lparr>cq := Some sample_cq\<rparr>)
     (sample_world\<lparr>wmem := (\<lambda>_. 0)(2 := 0x10, 3 := 0x80)\<rparr>) = Inl OutOfBounds"
proof -
  have t: "VIRTIO_DMA_TMO_MS = Suc (Suc 2998)" by (simp add: VIRTIO_DMA_TMO_MS_def)
  have "cq_pending sample_cq ((\<lambda>_. 0)(2 := 0x10, 3 := 0x80)) = 16"
    by (simp add: cq_pending_def sample_cq_def load32_def desc_off_diff_no_wrap_def upt_rec RTE_BIT64_def)
  moreover have "fst (dma_wait sample_ops d c VIRTIO_DMA_TMO_MS w)" for d c w
  proof -
    have "ctrl_completed sample_ops d c w = (1, w)" by (simp add: sample_ops_def)
    then show ?thesis unfolding t by (simp only: dma_wait.simps prod.case) simp
  qed
  then have "descs_fetched sample_ops sample_cq n w" for n w by (simp add: descs_fetched_def Let_def sample_ops_def)
  ultimately show ?thesis
    using cq_commands_fault_iff [of "sample_dev\<lparr>cq := Some sample_cq\<rparr>" sample_cq "replicate 15 zero_sge" sample_ops
        "sample_world\<lparr>wmem := (\<lambda>_. 0)(2 := 0x10, 3 := 0x80)\<rparr>"] by simp
qed

end
