(* ===== verification/Virtio_Layout.thy ===== *)
theory Virtio_Layout
  imports Virtio_Safe
begin

text \<open>
  What the host finds in BAR4: the chain of capabilities \<^verbatim>\<open>virtio_caps_populate\<close> writes, read back the way
  a PCI driver walks it, and the answers of the mailbox.
\<close>

section \<open>Reading back bytes\<close>

lemma unat_diff_small:
  fixes a x :: u64
  assumes "unat a < 2 ^ 32" "unat x < 2 ^ 32" "n \<le> 2 ^ 32"
  shows "unat (x - a) < n \<longleftrightarrow> unat a \<le> unat x \<and> unat x < unat a + n"
    and "unat a \<le> unat x \<Longrightarrow> unat (x - a) = unat x - unat a"
proof -
  have le: "unat (x - a) = unat x - unat a" if "unat a \<le> unat x"
    using that by (simp add: unat_sub word_le_nat_alt)
  then show "unat a \<le> unat x \<Longrightarrow> unat (x - a) = unat x - unat a" .
  have "unat (x - a) = 2 ^ 64 + unat x - unat a" if "unat x < unat a"
    using that unat_sub_if' [of x a] by simp
  then show "unat (x - a) < n \<longleftrightarrow> unat a \<le> unat x \<and> unat x < unat a + n"
    using le assms by (cases "unat a \<le> unat x") auto
qed

lemma store_bytes_at:
  fixes a x :: u64
  assumes "unat a < 2 ^ 32" "unat x < 2 ^ 32" "length bs \<le> 2 ^ 32"
  shows "store_bytes m (base + a) bs (base + x) =
    (if unat a \<le> unat x \<and> unat x < unat a + length bs then bs ! (unat x - unat a) else m (base + x))"
  using unat_diff_small [OF assms(1,2,3)] by (simp add: store_bytes_def add_diff_cancel_left)

lemma memset_below:
  fixes a x :: u64
  assumes "unat x < unat a" "unat a < 2 ^ 32" "n \<le> 2 ^ 32"
  shows "dao_dev_memset m (base + a) v n (base + x) = m (base + x)"
proof -
  have "base + x \<noteq> base + a + of_nat i" if "i < n" for i
  proof
    assume "base + x = base + a + of_nat i"
    then have "x = a + of_nat i" by (simp add: add.assoc)
    moreover have "unat (of_nat i :: u64) = i" using that assms(3) by (intro unat_of_nat_small) simp
    moreover have "unat a + i < 2 ^ 64" using that assms(2,3) by simp
    ultimately have "unat x = unat a + i" by (simp add: unat_word_ariths)
    then show False using assms(1) by simp
  qed
  then show ?thesis by (auto simp: dao_dev_memset_def set_bytes_apply)
qed

lemma le_bytes_nth [simp]: "i < n \<Longrightarrow> le_bytes n v ! i = ucast (drop_bit (8 * i) v)"
  by (simp add: le_bytes_def)

lemma length_le_bytes [simp]: "length (le_bytes n v) = n"
  by (simp add: le_bytes_def)

lemma length_caps [simp]:
  "length (virtio_pci_cap a b c d e) = 16" "length (virtio_pci_vndr_data v) = 16"
  by (simp_all add: virtio_pci_cap_def virtio_pci_vndr_data_def)

lemma bytes_word32: "(v :: u64) < 2 ^ 32 \<Longrightarrow>
   ucast (ucast v :: u8) OR push_bit 8 (ucast (ucast (drop_bit 8 v) :: u8)) OR push_bit 16 (ucast (ucast (drop_bit 16 v) :: u8)) OR
   push_bit 24 (ucast (ucast (drop_bit 24 v) :: u8)) = v"
proof (rule bit_word_eqI)
  fix n assume v: "v < 2 ^ 32" and "n < LENGTH(64)"
  have "\<not> bit v n" if "32 \<le> n"
  proof -
    have "unat v < 2 ^ 32" using v by (simp add: word_less_nat_alt)
    then have "drop_bit 32 (unat v) = 0" by (simp add: drop_bit_eq_div)
    then have "unat (drop_bit 32 v) = 0" by (metis unat_drop_bit_eq)
    then have "drop_bit 32 v = 0" by (simp only: unat_eq_zero)
    moreover have "bit v n = bit (drop_bit 32 v) (n - 32)" using that by (simp add: bit_simps)
    ultimately show ?thesis by simp
  qed
  moreover have b: "bit (ucast (ucast (drop_bit k v) :: u8) :: u64) i \<longleftrightarrow> i < 8 \<and> bit v (k + i)" for k i
    by (auto simp: bit_simps dest: bit_imp_le_length)
  have "bit (push_bit k (ucast (ucast (drop_bit k v) :: u8) :: u64)) n \<longleftrightarrow> k \<le> n \<and> n < k + 8 \<and> bit v n" for k
    using \<open>n < LENGTH(64)\<close> by (auto simp: bit_push_bit_iff b dest: bit_imp_le_length)
  note this [of 8] this [of 16] this [of 24] b [of 0 n]
  ultimately show "bit ((ucast (ucast v :: u8) :: u64) OR push_bit 8 (ucast (ucast (drop_bit 8 v) :: u8)) OR push_bit 16 (ucast (ucast (drop_bit 16 v) :: u8)) OR
   push_bit 24 (ucast (ucast (drop_bit 24 v) :: u8))) n = bit v n"
    unfolding bit_or_iff by (simp only: drop_bit_0 id_apply) (cases "n < 8"; cases "n < 16"; cases "n < 24"; cases "n < 32"; simp)
qed


section \<open>The chain of capabilities\<close>

definition load_le32 :: "memory \<Rightarrow> u64 \<Rightarrow> u64" where
  "load_le32 m a = ucast (m a) OR push_bit 8 (ucast (m (a + 1))) OR push_bit 16 (ucast (m (a + 2))) OR push_bit 24 (ucast (m (a + 3)))"

text \<open>A PCI driver starts at the capability pointer, reads type, offset and length of a structure, and goes on with the next
  pointer until that is zero.\<close>

fun cap_walk :: "memory \<Rightarrow> u64 \<Rightarrow> u8 \<Rightarrow> nat \<Rightarrow> (u8 \<times> u64 \<times> u64) list" where
  "cap_walk m base p 0 = []"
| "cap_walk m base p (Suc n) =
     (if p = 0 then []
      else (m (base + (ucast p + 3)), load_le32 m (base + (ucast p + 8)), load_le32 m (base + (ucast p + 12))) #
        cap_walk m base (m (base + (ucast p + 1))) n)"

lemma caps_offsets [simp]:
  "VIRTIO_PCI_CAP_COMMON_CFG_OFFSET = 53" "cap_config_base = 144" "cap_isr_base = 208" "cap_dev_cfg_base = 256"
  by (simp_all add: VIRTIO_PCI_CAP_COMMON_CFG_OFFSET_def VIRTIO_PCI_CAP_PTR_def cap_config_base_def cap_isr_base_def
      cap_dev_cfg_base_def ALIGN64_def)

definition caps_memory :: "virtio_dev \<Rightarrow> u64 \<Rightarrow> memory \<Rightarrow> memory" where
  "caps_memory dev base m = snd (virtio_caps_populate dev base m)"

lemma caps_bytes:
  assumes "144 \<le> unat (cap_notify_base dev)" "unat x < 144"
  shows "caps_memory dev base m (base + x) =
   (if 121 \<le> unat x \<and> unat x < 137 then virtio_pci_vndr_data (ucast (virtio_device_id_get dev)) ! (unat x - 121)
    else if 105 \<le> unat x \<and> unat x < 121 then virtio_pci_cap 121 16 VIRTIO_PCI_CAP_DEVICE_CFG 256 64 ! (unat x - 105)
    else if 89 \<le> unat x \<and> unat x < 105 then virtio_pci_cap 105 16 VIRTIO_PCI_CAP_ISR_CFG 208 4 ! (unat x - 89)
    else if 69 \<le> unat x \<and> unat x < 85
      then virtio_pci_cap 89 20 VIRTIO_PCI_CAP_NOTIFY_CFG (cap_notify_base dev) (ucast (notify_area dev)) ! (unat x - 69)
    else if 85 \<le> unat x \<and> unat x < 89
      then le_bytes 4 (ucast (ucast (notify_off_mltpr dev) :: u32)) ! (unat x - 85)
    else if 53 \<le> unat x \<and> unat x < 69 then virtio_pci_cap 69 16 VIRTIO_PCI_CAP_COMMON_CFG 144 64 ! (unat x - 53)
    else if unat x = 52 then 53
    else m (base + x))"
proof -
  have n: "unat (cap_notify_base dev) < 2 ^ 32"
    unfolding cap_notify_base_def by (simp add: unat_ucast_up unat_less_length [where 'a = 32, simplified])
  have k: "unat (notify_area dev) \<le> 2 ^ 32" using unat_less_length [of "notify_area dev"] by simp
  show ?thesis
    using assms n k
    by (simp add: caps_memory_def virtio_caps_populate_def Let_def VIRTIO_PCI_CAP_PTR_def VIRTIO_PCI_DEV_CFG_LENGTH_def
        store_bytes_at memset_below)
qed


lemma notify_area_small: "(ucast (notify_area dev) :: u64) < 2 ^ 32" "cap_notify_base dev < 2 ^ 32"
  using unat_less_length [of "notify_area dev"]
    unat_less_length [of "ALIGN32 (ucast (cap_dev_cfg_base + VIRTIO_PCI_DEV_CFG_LENGTH)) (ucast (notify_off_mltpr dev))"]
  by (simp_all add: word_less_nat_alt unat_ucast_up cap_notify_base_def)

text \<open>C39: the host that walks the capabilities of BAR4 finds the five structures in their order, with the offsets at which
  the device keeps them, and the chain ends behind the vendor capability with the virtio device id.\<close>

theorem caps_chain:
  assumes "144 \<le> unat (cap_notify_base dev)" and "virtio_caps_populate dev base m = (dev', m')"
  shows "cap_walk m' base (m' (base + VIRTIO_PCI_CAP_PTR)) 8 =
      [(1, 144, 64), (2, cap_notify_base dev, ucast (notify_area dev)), (3, 208, 4), (4, 256, 64),
       (9, ucast (virtio_device_id_get dev), 0)] \<and>
    common_cfg_addr dev' = base + 144 \<and> notify_base dev' = base + cap_notify_base dev \<and> isr dev' = base + 208 \<and>
    dev_cfg dev' = base + 256"
proof -
  have m': "m' = caps_memory dev base m" using assms(2) by (simp add: caps_memory_def)
  note cb = caps_bytes [OF assms(1), of _ base m]
  have 0: "m' (base + VIRTIO_PCI_CAP_PTR) = 53" by (simp add: m' cb VIRTIO_PCI_CAP_PTR_def)
  have c: "caps_memory dev base m (numeral k + base) = caps_memory dev base m (base + numeral k)" for k
    by (simp add: add.commute)
  have 1: "m' (base + 54) = 69" "m' (base + 56) = 1" "load_le32 m' (base + 61) = 144" "load_le32 m' (base + 65) = 64"
    by (simp_all add: m' c cb load_le32_def virtio_pci_cap_def VIRTIO_PCI_CAP_COMMON_CFG_def nth_append)
  have 2: "m' (base + 70) = 89" "m' (base + 72) = 2" "load_le32 m' (base + 77) = cap_notify_base dev"
    "load_le32 m' (base + 81) = ucast (notify_area dev)"
    using bytes_word32 [OF notify_area_small(1), of dev] bytes_word32 [OF notify_area_small(2), of dev]
    by (simp_all add: m' c cb load_le32_def virtio_pci_cap_def VIRTIO_PCI_CAP_NOTIFY_CFG_def nth_append)
  have 3: "m' (base + 90) = 105" "m' (base + 92) = 3" "load_le32 m' (base + 97) = 208" "load_le32 m' (base + 101) = 4"
    by (simp_all add: m' c cb load_le32_def virtio_pci_cap_def VIRTIO_PCI_CAP_ISR_CFG_def nth_append)
  have 4: "m' (base + 106) = 121" "m' (base + 108) = 4" "load_le32 m' (base + 113) = 256" "load_le32 m' (base + 117) = 64"
    by (simp_all add: m' c cb load_le32_def virtio_pci_cap_def VIRTIO_PCI_CAP_DEVICE_CFG_def nth_append)
  have 5: "m' (base + 122) = 0" "m' (base + 124) = 9" "load_le32 m' (base + 129) = ucast (virtio_device_id_get dev)"
    "load_le32 m' (base + 133) = 0"
    by (simp_all add: m' c cb load_le32_def virtio_pci_vndr_data_def VIRTIO_PCI_CAP_VENDOR_CFG_def nth_append virtio_device_id_get_def
        VIRTIO_ID_NET_def VIRTIO_ID_CRYPTO_def split: virtio_dev_type.split)
  have 8: "8 = Suc (Suc (Suc (Suc (Suc (Suc 2)))))" by simp
  have "cap_walk m' base (m' (base + VIRTIO_PCI_CAP_PTR)) 8 =
      [(1, 144, 64), (2, cap_notify_base dev, ucast (notify_area dev)), (3, 208, 4), (4, 256, 64),
       (9, ucast (virtio_device_id_get dev), 0)]"
    unfolding 0 8 cap_walk.simps by (simp add: 1 2 3 4 5)
  moreover have "common_cfg_addr dev' = base + 144 \<and> notify_base dev' = base + cap_notify_base dev \<and> isr dev' = base + 208 \<and>
      dev_cfg dev' = base + 256"
    using assms(2) by (auto simp: virtio_caps_populate_def Let_def)
  ultimately show ?thesis by simp
qed


theorem caps_chain_witness:
  "\<exists>dev' m'. virtio_caps_populate (sample_dev\<lparr>notify_off_mltpr := 0x10000, max_virtio_queues := 7\<rparr>) 0x10000 (\<lambda>_. 0) = (dev', m') \<and>
     cap_walk m' 0x10000 (m' (0x10000 + VIRTIO_PCI_CAP_PTR)) 8 =
      [(1, 144, 64), (2, 0x10000, 0x70000), (3, 208, 4), (4, 256, 64), (9, 1, 0)]"
proof -
  let ?dev = "sample_dev\<lparr>notify_off_mltpr := 0x10000, max_virtio_queues := 7\<rparr>"
  have n: "cap_notify_base ?dev = 0x10000" "notify_area ?dev = 0x70000" "virtio_device_id_get ?dev = 1"
    by (simp_all add: cap_notify_base_def notify_area_def ALIGN32_def VIRTIO_PCI_DEV_CFG_LENGTH_def virtio_device_id_get_def
        sample_dev_def VIRTIO_ID_NET_def)
  obtain dev' m' where e: "virtio_caps_populate ?dev 0x10000 (\<lambda>_. 0) = (dev', m')" by fastforce
  show ?thesis using caps_chain [OF _ e] e by (simp add: n)
qed

section \<open>The mailbox\<close>

lemma mbox_word:
  fixes m :: memory
  shows "load16 (store_bytes m (b + 2) (le_bytes 2 v)) (b + 2) = ucast v"
    and "load16 (store_bytes m (b + 2) (le_bytes 2 v)) (b + 6) = load16 m (b + 6)"
    and "load16 (store_bytes m (b + 2) (le_bytes 2 v)) (b + 8) = load16 m (b + 8)"
    and "load16 (store_bytes m (b + 6) (le_bytes 2 v)) (b + 6) = ucast v"
    and "load16 (store_bytes m (b + 6) (le_bytes 2 v)) (b + 8) = load16 m (b + 8)"
    and "load16 (store_bytes m (b + 8) (le_bytes 2 v)) (b + 8) = ucast v"
proof -
  have c: "f (numeral k + b) = f (b + numeral k)" for f :: memory and k by (simp add: add.commute)
  have u: "(ucast (ucast v :: u8) :: u16) OR push_bit 8 (ucast (ucast (drop_bit 8 v) :: u8)) = ucast v"
    by (intro bit_word_eqI) (auto simp: bit_simps dest: bit_imp_le_length)
  show "load16 (store_bytes m (b + 2) (le_bytes 2 v)) (b + 2) = ucast v"
    "load16 (store_bytes m (b + 2) (le_bytes 2 v)) (b + 6) = load16 m (b + 6)"
    "load16 (store_bytes m (b + 2) (le_bytes 2 v)) (b + 8) = load16 m (b + 8)"
    "load16 (store_bytes m (b + 6) (le_bytes 2 v)) (b + 6) = ucast v"
    "load16 (store_bytes m (b + 6) (le_bytes 2 v)) (b + 8) = load16 m (b + 8)"
    "load16 (store_bytes m (b + 8) (le_bytes 2 v)) (b + 8) = ucast v"
    using u by (simp_all add: load16_def c store_bytes_at)
qed

definition mbox_known :: "virtio_dev \<Rightarrow> memory \<Rightarrow> bool" where
  "mbox_known dev m \<longleftrightarrow> load16 m (mbox dev + 6) = MBOX_REQ_SIG \<and>
     (load16 m (mbox dev + 2) = MBOX_MSG_GET_VQ_STATE \<or> load16 m (mbox dev + 2) = MBOX_MSG_SET_VQ_STATE)"

lemma mbox_answer:
  assumes "m' = virtio_mbox_process dev m"
  shows "load16 m' (mbox dev + 6) = MBOX_RSP_SIG" "load16 m' (mbox dev + 2) = 0"
    "load16 m' (mbox dev + 8) = (if mbox_known dev m then 1 else 45)"
proof -
  obtain rc m1 where r: "(if load16 m (mbox dev + 6) \<noteq> MBOX_REQ_SIG then (22, m)
             else if load16 m (mbox dev + 2) = MBOX_MSG_GET_VQ_STATE then (0, store_bytes m (mbox dev + 28) vq_state_bytes)
             else if load16 m (mbox dev + 2) = MBOX_MSG_SET_VQ_STATE then (0, m)
             else (22, m)) = (rc :: u64, m1)" by fastforce
  have m': "m' = store_bytes (store_bytes (store_bytes m1 (mbox dev + 8) (le_bytes 2 (push_bit 1 rc OR 1))) (mbox dev + 6)
      (le_bytes 2 (ucast MBOX_RSP_SIG))) (mbox dev + 2) (le_bytes 2 0)"
    using assms unfolding virtio_mbox_process_def Let_def r by simp
  have rc: "rc = (if mbox_known dev m then 0 else 22)"
    using r by (auto simp: mbox_known_def split: if_splits)
  show "load16 m' (mbox dev + 6) = MBOX_RSP_SIG" "load16 m' (mbox dev + 2) = 0"
    "load16 m' (mbox dev + 8) = (if mbox_known dev m then 1 else 45)"
    by (simp_all add: m' rc mbox_word MBOX_RSP_SIG_def)
qed

text \<open>a mailbox callback answers the request in place: the response signature and a cleared message id, the response flag with
  return code 0 for the two known requests and \<^verbatim>\<open>EINVAL\<close> for everything else; the shadow equals the
  answered word, so that the polling thread does not take the answer for a new request.\<close>

theorem mbox_answers_once:
  assumes "j < length (regions p)" and "regions p ! j = Some r" and "length (shadow r) = 1"
  shows "\<exists>p' w' r'. virtio_mbox_process_cb j v dev p w = Inr (p', w') \<and> regions p' ! j = Some r' \<and>
    shadow r' = [load64 (wmem w') (mbox dev)] \<and>
    load16 (wmem w') (mbox dev + 6) = MBOX_RSP_SIG \<and> load16 (wmem w') (mbox dev + 2) = 0 \<and>
    load16 (wmem w') (mbox dev + 8) = (if mbox_known dev (wmem w) then 1 else 45)"
proof -
  obtain x where x: "shadow r = [x]" using assms(3) by (cases "shadow r") auto
  let ?m = "virtio_mbox_process dev (wmem w)"
  have s: "set_shadow_word q j u = Inr (q\<lparr>regions := (regions q)[j := Some (r1\<lparr>shadow := [u]\<rparr>)]\<rparr>)"
    if "regions q ! j = Some r1" "length (shadow r1) = 1" for q u r1
    using that by (cases "shadow r1") (auto simp: set_shadow_word_def)
  show ?thesis
    using assms x mbox_answer [OF refl, of dev "wmem w"]
    by (simp add: virtio_mbox_process_cb_def s [of p r] s [of _ "r\<lparr>shadow := [v]\<rparr>"] Let_def)
qed

theorem mbox_answers_once_witness:
  "\<exists>p' w'. virtio_mbox_process_cb 0 0 sample_dev (sample_pem\<lparr>regions := [Some (new_region (\<lambda>_. 0) 0 8 MBOX_PROCESS_CB 0 False)]\<rparr>)
      sample_world = Inr (p', w') \<and> load16 (wmem w') 6 = MBOX_RSP_SIG \<and> load16 (wmem w') 8 = 45"
proof -
  have "\<not> mbox_known sample_dev (wmem sample_world)"
    by (simp add: mbox_known_def sample_world_def load16_def MBOX_REQ_SIG_def)
  moreover have "length (shadow (new_region (\<lambda>_. 0) 0 8 MBOX_PROCESS_CB 0 False)) = 1" by (simp add: new_region_def)
  moreover have "mbox sample_dev = 0" by (simp add: sample_dev_def)
  ultimately show ?thesis
    using mbox_answers_once [of 0 "sample_pem\<lparr>regions := [Some (new_region (\<lambda>_. 0) 0 8 MBOX_PROCESS_CB 0 False)]\<rparr>"
        "new_region (\<lambda>_. 0) 0 8 MBOX_PROCESS_CB 0 False" 0 sample_dev sample_world] by auto
qed

end
