(* ===== verification/Slots.thy ===== *)
theory Slots
  imports Prelude
begin

text \<open>
  The loops over a table of slots that the port groups and the port queue groups share: the search for the next slot in use,
  the iteration that repeats it, and the search by name.
\<close>

section \<open>The next slot in use\<close>

text \<open>\<^verbatim>\<open>while (max > (uint32_t)iter) if (a[iter] == INVALID) iter++; else break;\<close>  The counter is a signed 32 bit integer,
  which is negative as an index from \<open>2 ^ 31\<close> on.\<close>

function next_used :: "('a \<Rightarrow> bool) \<Rightarrow> nat \<Rightarrow> 'a list \<Rightarrow> nat \<Rightarrow> fault + nat" where
  "next_used free lim xs i =
     (if i < lim
      then if length xs \<le> i \<or> 2 ^ 31 \<le> i then Inl OutOfBounds
           else if free (xs ! i) then next_used free lim xs (Suc i)
           else Inr i
      else Inr i)"
  by pat_completeness auto
termination by (relation "measure (\<lambda>(free, lim, xs, i). lim - i)") auto

declare next_used.simps [simp del]

lemma next_used_ok:
  assumes "i \<le> length xs" and "length xs = lim" and "lim < 2 ^ 31"
  shows "next_used free lim xs i = Inr (i + first_free (\<lambda>x. \<not> free x) (drop i xs))"
  using assms
proof (induction free lim xs i rule: next_used.induct)
  case (1 free lim xs i)
  show ?case
  proof (cases "i < length xs")
    case True
    then have d: "drop i xs = xs ! i # drop (Suc i) xs"
      by (rule Cons_nth_drop_Suc [symmetric])
    show ?thesis
      using True 1 by (subst next_used.simps) (auto simp: d)
  next
    case False
    then show ?thesis using 1(3) by (subst next_used.simps) simp
  qed
qed

text \<open>The slots in use with their indices, from index \<open>i\<close> on.\<close>

definition used_from :: "('a \<Rightarrow> bool) \<Rightarrow> nat \<Rightarrow> 'a list \<Rightarrow> (int \<times> 'a) list" where
  "used_from free i xs = map (\<lambda>j. (int j, xs ! j)) (filter (\<lambda>j. \<not> free (xs ! j)) [i..<length xs])"

lemma used_from_step:
  assumes "i \<le> length xs"
  shows "used_from free i xs =
    (let j = i + first_free (\<lambda>x. \<not> free x) (drop i xs)
     in if j < length xs then (int j, xs ! j) # used_from free (Suc j) xs else [])"
  using assms
proof (induction "length xs - i" arbitrary: i)
  case 0
  then show ?case by (simp add: used_from_def Let_def)
next
  case (Suc n)
  then have i: "i < length xs" by simp
  then have d: "drop i xs = xs ! i # drop (Suc i) xs" and u: "[i..<length xs] = i # [Suc i..<length xs]"
    by (simp_all add: Cons_nth_drop_Suc upt_conv_Cons)
  show ?case
  proof (cases "free (xs ! i)")
    case True
    have "used_from free i xs = used_from free (Suc i) xs" using True by (simp add: used_from_def u)
    then show ?thesis using Suc(1) [of "Suc i"] Suc(2) i True by (simp add: d)
  next
    case False
    then show ?thesis using i by (simp add: d used_from_def u Let_def)
  qed
qed

lemma used_from_length: "length (used_from free 0 xs) = occupied free xs"
proof (induction xs rule: rev_induct)
  case (snoc x xs)
  have "filter (\<lambda>j. \<not> free ((xs @ [x]) ! j)) [0..<length xs] = filter (\<lambda>j. \<not> free (xs ! j)) [0..<length xs]"
    by (rule filter_cong) (simp_all add: nth_append)
  then show ?case using snoc by (simp add: used_from_def occupied_def)
qed (simp add: used_from_def)

lemma next_in_use:
  assumes "i + first_free (\<lambda>x. \<not> free x) (drop i xs) < length xs"
  shows "\<not> free (xs ! (i + first_free (\<lambda>x. \<not> free x) (drop i xs)))"
  using nth_first_free [of "\<lambda>x. \<not> free x" "drop i xs"] assms by simp

section \<open>Iteration\<close>

text \<open>The iteration macros call a function \<open>get\<close> for the next index and value; \<open>n\<close> bounds the rounds, and \<open>ok\<close> is the test of the value
  in the loop condition.\<close>

fun foreach_loop :: "(int \<Rightarrow> fault + int \<times> 'a option) \<Rightarrow> ('a \<Rightarrow> bool) \<Rightarrow> int \<Rightarrow> nat \<Rightarrow> fault + (int \<times> 'a) list" where
  "foreach_loop get ok i 0 = Inr []"
| "foreach_loop get ok i (Suc n) =
     rbind (get i) (\<lambda>(j, p).
       case p of
         None \<Rightarrow> Inr []
       | Some v \<Rightarrow>
           if j > - 1 \<and> ok v
           then rbind (foreach_loop get ok j n) (\<lambda>ps. Inr ((j, v) # ps))
           else Inr [])"

lemma foreach_loop_ok:
  assumes get: "\<And>i. i \<le> length xs \<Longrightarrow> get (int i - 1) =
      (let j = i + first_free (\<lambda>x. \<not> free x) (drop i xs) in Inr (if j < length xs then (int j, Some (xs ! j)) else (- 1, None)))"
    and "i \<le> length xs" and "length xs < n + i"
  shows "foreach_loop get (\<lambda>x. \<not> free x) (int i - 1) n = Inr (used_from free i xs)"
  using assms(2,3)
proof (induction n arbitrary: i)
  case (Suc n)
  define j where "j = i + first_free (\<lambda>x. \<not> free x) (drop i xs)"
  have g: "get (int i - 1) = Inr (if j < length xs then (int j, Some (xs ! j)) else (- 1, None))"
    using get [OF Suc(2)] by (simp add: j_def Let_def)
  have s: "used_from free i xs = (if j < length xs then (int j, xs ! j) # used_from free (Suc j) xs else [])"
    using used_from_step [OF Suc(2), of free] by (simp add: j_def Let_def)
  show ?case
  proof (cases "j < length xs")
    case True
    have "\<not> free (xs ! j)" using next_in_use [of i free xs] True by (simp add: j_def)
    moreover have "foreach_loop get (\<lambda>x. \<not> free x) (int j) n = Inr (used_from free (Suc j) xs)"
      using Suc(1) [of "Suc j"] Suc(3) True by (simp add: j_def)
    ultimately show ?thesis using g s True by simp
  next
    case False
    then show ?thesis using g s by simp
  qed
qed simp

section \<open>Search by name\<close>

text \<open>\<^verbatim>\<open>strncmp(a, b, n) == 0\<close> for strings without NUL.\<close>

definition strncmp_eq :: "nat \<Rightarrow> string \<Rightarrow> string \<Rightarrow> bool" where
  "strncmp_eq n a b \<longleftrightarrow> take n a = take n b"

text \<open>\<open>gs\<close> are the names of the entries, \<open>None\<close> for the reserved pointer.\<close>

fun name_loop :: "nat \<Rightarrow> string \<Rightarrow> nat \<Rightarrow> string option list \<Rightarrow> int \<times> nat option" where
  "name_loop n s i [] = (- 1, None)"
| "name_loop n s i (None # gs) = name_loop n s (Suc i) gs"
| "name_loop n s i (Some g # gs) = (if strncmp_eq n g s then (0, Some i) else name_loop n s (Suc i) gs)"

lemma name_loop_ok:
  assumes "\<forall>g. Some g \<in> set gs \<longrightarrow> length g < n"
  shows "name_loop n s i gs =
    (if length s < n \<and> Some s \<in> set gs then (0, Some (i + first_free (\<lambda>g. g = Some s) gs)) else (- 1, None))"
  using assms
proof (induction n s i gs rule: name_loop.induct)
  case (3 n s i g gs)
  have "strncmp_eq n g s \<longleftrightarrow> length s < n \<and> g = s"
  proof
    assume e: "strncmp_eq n g s"
    have g: "length g < n" using 3(2) by simp
    then have "take n s = g" using e by (simp add: strncmp_eq_def)
    then show "length s < n \<and> g = s" using g by (metis length_take min.strict_boundedE min_def order.irrefl take_all_iff linorder_not_le)
  qed (auto simp: strncmp_eq_def)
  then show ?case using 3 by auto
qed auto

end
