(* ===== verification/Port_Group.thy ===== *)
theory Port_Group
  imports Slots
begin

text \<open>
  The port groups of \<^verbatim>\<open>lib/portgroup/port_group.c\<close>: the table of groups, the ports of a group and their
  iteration.  The static pointer to the table is an option; an entry of the table is \<open>None\<close> for the
  reserved pointer \<^verbatim>\<open>PORT_GROUP_INITIALIZER\<close>, and dereferencing that is a fault.  Whether an allocation
  succeeds is an argument.
\<close>

section \<open>Data\<close>

definition DAO_PORT_GROUP_MAX :: u32 where "DAO_PORT_GROUP_MAX = 8"
definition DAO_PORT_GROUP_NAMELEN :: nat where "DAO_PORT_GROUP_NAMELEN = 64"
definition DAO_PORT_INVALID_VALUE :: u64 where "DAO_PORT_INVALID_VALUE = NOT 0"

record port_group =
  port_group_name :: string
  port_group_index :: u32
  max_ports_supported :: u32
  back_main :: u64
  num_ports :: u32
  ports_list :: "u64 list"

record port_group_main =
  main_addr :: u64
  num_port_groups :: u32
  max_port_groups_supported :: u32
  port_groups :: "port_group option list"

section \<open>Operations\<close>

definition port_group_get :: "port_group_main \<Rightarrow> u32 \<Rightarrow> fault + port_group option" where
  "port_group_get pm epg =
     (if epg < max_port_groups_supported pm
      then (if unat epg < length (port_groups pm) then Inr (port_groups pm ! unat epg) else Inl OutOfBounds)
      else Inl VerifyPanic)"

definition port_group_check_sanity :: "port_group_main option \<Rightarrow> u32 \<Rightarrow> fault + int" where
  "port_group_check_sanity st epg =
     (case st of
        None \<Rightarrow> Inr (- 1)
      | Some pm \<Rightarrow>
          if epg \<ge> max_port_groups_supported pm then Inr (- 1)
          else if epg \<ge> num_port_groups pm then Inr (- 1)
          else rbind (port_group_get pm epg) (\<lambda>pg.
            case pg of
              None \<Rightarrow> Inl WildPointer
            | Some g \<Rightarrow> if back_main g \<noteq> main_addr pm then Inr (- 1) else Inr 0))"

definition port_group_main_init :: "u64 option \<Rightarrow> u32 \<Rightarrow> int \<times> port_group_main option" where
  "port_group_main_init heap n =
     (case heap of
        None \<Rightarrow> (- 1, None)
      | Some a \<Rightarrow> (0, Some \<lparr>main_addr = a, num_port_groups = 0, max_port_groups_supported = n,
                             port_groups = replicate (unat n) None\<rparr>))"

definition dao_port_group_main_init ::
  "u64 option \<Rightarrow> u32 \<Rightarrow> port_group_main option \<Rightarrow> int \<times> port_group_main option" where
  "dao_port_group_main_init heap n st =
     (if n = 0 then (- 1, st)
      else case st of Some pm \<Rightarrow> (- 1, st) | None \<Rightarrow> port_group_main_init heap n)"

text \<open>\<open>heap\<close> is the address \<^verbatim>\<open>malloc\<close> gives the table, \<open>grp\<close> and \<open>lst\<close> say whether the group and its list of ports can be
  allocated.  The result is the return code, the table and the index stored through the pointer.  Here and below
  \<open>out\<close> says that the pointer for the result is not \<^verbatim>\<open>NULL\<close>.\<close>

definition dao_port_group_create ::
  "u64 option \<Rightarrow> bool \<Rightarrow> bool \<Rightarrow> bool \<Rightarrow> string option \<Rightarrow> u32 \<Rightarrow> port_group_main option \<Rightarrow>
    fault + int \<times> port_group_main option \<times> u32 option" where
  "dao_port_group_create heap grp lst out group_name max_num_ports st =
     (if \<not> out then Inr (- 1, st, None)
      else if max_num_ports < 1 then Inr (- 1, st, None)
      else case (case st of None \<Rightarrow> dao_port_group_main_init heap DAO_PORT_GROUP_MAX st | Some pm \<Rightarrow> (0, st)) of
        (rc, st1) \<Rightarrow>
          (case st1 of
             None \<Rightarrow> Inr (- 1, st1, None)
           | Some pm \<Rightarrow>
               if rc < 0 then Inr (- 1, st1, None)
               else if num_port_groups pm = max_port_groups_supported pm - 1 then Inr (- 1, st1, None)
               else if \<not> grp then Inr (- 1, st1, None)
               else if \<not> lst then Inr (- 1, st1, None)
               else
                 let i = num_port_groups pm;
                     pg = \<lparr>port_group_name = (case group_name of None \<Rightarrow> [] | Some s \<Rightarrow> take (DAO_PORT_GROUP_NAMELEN - 1) s),
                           port_group_index = i, max_ports_supported = max_num_ports, back_main = main_addr pm, num_ports = 0,
                           ports_list = replicate (unat max_num_ports) DAO_PORT_INVALID_VALUE\<rparr>
                 in if length (port_groups pm) \<le> unat i then Inl OutOfBounds
                    else Inr (0, Some (pm\<lparr>port_groups := (port_groups pm)[unat i := Some pg], num_port_groups := i + 1\<rparr>), Some i)))"

text \<open>The beginning of every operation on a group: the sanity check, then the group.  The continuation gets the
  group, and the value it returns for it is stored back.\<close>

definition on_group ::
  "port_group_main option \<Rightarrow> u32 \<Rightarrow> 'r \<Rightarrow> (port_group \<Rightarrow> fault + 'r \<times> port_group) \<Rightarrow> fault + 'r \<times> port_group_main option" where
  "on_group st epg bad k =
     rbind (port_group_check_sanity st epg) (\<lambda>rc.
       if rc < 0 then Inr (bad, st)
       else case st of
           None \<Rightarrow> Inl WildPointer
         | Some pm \<Rightarrow>
             rbind (port_group_get pm epg) (\<lambda>pg.
               case pg of
                 None \<Rightarrow> Inl WildPointer
               | Some g \<Rightarrow> rbind (k g) (\<lambda>(r, g'). Inr (r, Some (pm\<lparr>port_groups := (port_groups pm)[unat epg := Some g']\<rparr>)))))"

text \<open>\<open>(rc, index)\<close> is the return code and what is stored through \<^verbatim>\<open>returned_index\<close>.\<close>

definition port_add :: "u64 \<Rightarrow> port_group \<Rightarrow> fault + (int \<times> int option) \<times> port_group" where
  "port_add port g =
     (if num_ports g > max_ports_supported g - 1 then Inr ((- 1, None), g)
      else
        let i = first_free (\<lambda>p. p = DAO_PORT_INVALID_VALUE) (take (unat (max_ports_supported g)) (ports_list g))
        in if unat (max_ports_supported g) \<le> i then Inr ((- 1, None), g)
           else if length (ports_list g) \<le> i then Inl OutOfBounds
           else Inr ((0, Some (sint (of_nat i :: u32))), g\<lparr>ports_list := (ports_list g)[i := port], num_ports := num_ports g + 1\<rparr>))"

definition dao_port_group_port_add ::
  "port_group_main option \<Rightarrow> u32 \<Rightarrow> u64 \<Rightarrow> fault + (int \<times> int option) \<times> port_group_main option" where
  "dao_port_group_port_add st epg port = on_group st epg (- 1, None) (port_add port)"

definition port_at :: "port_group \<Rightarrow> int \<Rightarrow> fault + u64" where
  "port_at g i = (if nat i < length (ports_list g) then Inr (ports_list g ! nat i) else Inl OutOfBounds)"

definition port_get :: "int \<Rightarrow> port_group \<Rightarrow> fault + (int \<times> u64 option) \<times> port_group" where
  "port_get port_index g =
     rbind (port_at g port_index) (\<lambda>v.
       if v = DAO_PORT_INVALID_VALUE then Inr ((- 1, None), g) else Inr ((0, Some v), g))"

definition dao_port_group_port_get ::
  "bool \<Rightarrow> port_group_main option \<Rightarrow> u32 \<Rightarrow> int \<Rightarrow> fault + (int \<times> u64 option) \<times> port_group_main option" where
  "dao_port_group_port_get out st epg port_index =
     (if \<not> out then Inr ((- 1, None), st)
      else if port_index < 0 then Inr ((- 1, None), st) else on_group st epg (- 1, None) (port_get port_index))"

definition dao_port_group_port_get_next ::
  "bool \<Rightarrow> port_group_main option \<Rightarrow> u32 \<Rightarrow> int \<Rightarrow> fault + (int \<times> u64 option) \<times> port_group_main option" where
  "dao_port_group_port_get_next out st epg port_index =
     (if \<not> out then Inr ((- 1, None), st)
      else if port_index < - 1 then Inr ((- 1, Some DAO_PORT_INVALID_VALUE), st)
      else on_group st epg (- 1, Some DAO_PORT_INVALID_VALUE) (\<lambda>g.
        rbind (next_used (\<lambda>p. p = DAO_PORT_INVALID_VALUE) (unat (max_ports_supported g)) (ports_list g) (nat (port_index + 1))) (\<lambda>iter.
          if unat (max_ports_supported g) \<le> iter then Inr ((- 1, None), g)
          else rbind (dao_port_group_port_get out st epg (int iter)) (\<lambda>((rc, p), _).
            if rc < 0 then Inr ((- 1, Some DAO_PORT_INVALID_VALUE), g) else Inr ((int iter, p), g)))))"

definition dao_port_group_port_get_num ::
  "port_group_main option \<Rightarrow> u32 \<Rightarrow> fault + (int \<times> u32 option) \<times> port_group_main option" where
  "dao_port_group_port_get_num st epg = on_group st epg (- 1, None) (\<lambda>g. Inr ((0, Some (num_ports g)), g))"

definition port_delete :: "int \<Rightarrow> port_group \<Rightarrow> fault + int \<times> port_group" where
  "port_delete port_index g =
     (if port_index < 0 then Inr (- 1, g)
      else if unat (num_ports g) \<le> nat port_index then Inr (- 1, g)
      else if length (ports_list g) \<le> nat port_index then Inl OutOfBounds
      else Inr (0, g\<lparr>ports_list := (ports_list g)[nat port_index := DAO_PORT_INVALID_VALUE], num_ports := num_ports g - 1\<rparr>))"

definition dao_port_group_port_delete ::
  "port_group_main option \<Rightarrow> u32 \<Rightarrow> int \<Rightarrow> fault + int \<times> port_group_main option" where
  "dao_port_group_port_delete st epg port_index = on_group st epg (- 1) (port_delete port_index)"

definition dao_port_group_destroy :: "port_group_main option \<Rightarrow> u32 \<Rightarrow> fault + int \<times> port_group_main option" where
  "dao_port_group_destroy st epg =
     rbind (port_group_check_sanity st epg) (\<lambda>rc.
       if rc < 0 then Inr (- 1, st)
       else case st of
           None \<Rightarrow> Inl WildPointer
         | Some pm \<Rightarrow>
             rbind (port_group_get pm epg) (\<lambda>pg.
               case pg of
                 None \<Rightarrow> Inl WildPointer
               | Some g \<Rightarrow>
                   if length (port_groups pm) \<le> unat (port_group_index g) then Inl OutOfBounds
                   else Inr (0, Some (pm\<lparr>port_groups := (port_groups pm)[unat (port_group_index g) := None]\<rparr>))))"

definition dao_port_group_get_by_name :: "bool \<Rightarrow> port_group_main option \<Rightarrow> string option \<Rightarrow> int \<times> nat option" where
  "dao_port_group_get_by_name out st name =
     (case st of
        None \<Rightarrow> (- 1, None)
      | Some pm \<Rightarrow>
          if \<not> out then (- 1, None)
          else (case name of
                  None \<Rightarrow> (- 1, None)
                | Some s \<Rightarrow> name_loop DAO_PORT_GROUP_NAMELEN s 0 (map (map_option port_group_name) (take (unat (max_port_groups_supported pm)) (port_groups pm)))))"

text \<open>The macro \<^verbatim>\<open>DAO_PORT_GROUP_FOREACH_PORT\<close>: the ports the loop body sees, with \<open>n\<close> bounding the rounds.\<close>

definition foreach_port :: "port_group_main option \<Rightarrow> u32 \<Rightarrow> nat \<Rightarrow> fault + (int \<times> u64) list" where
  "foreach_port st epg n =
     foreach_loop (\<lambda>i. rbind (dao_port_group_port_get_next True st epg i) (\<lambda>(r, _). Inr r)) (\<lambda>v. v \<noteq> DAO_PORT_INVALID_VALUE) (- 1) n"

section \<open>The invariant\<close>

definition group_ok :: "port_group \<Rightarrow> bool" where
  "group_ok g \<longleftrightarrow> length (port_group_name g) < DAO_PORT_GROUP_NAMELEN \<and>
     0 < max_ports_supported g \<and> unat (max_ports_supported g) < 2 ^ 31 \<and>
     length (ports_list g) = unat (max_ports_supported g) \<and>
     unat (num_ports g) = occupied (\<lambda>p. p = DAO_PORT_INVALID_VALUE) (ports_list g)"

definition slot_ok :: "u64 \<Rightarrow> u32 \<Rightarrow> nat \<Rightarrow> port_group option \<Rightarrow> bool" where
  "slot_ok a n i pg \<longleftrightarrow>
     (case pg of
        None \<Rightarrow> True
      | Some g \<Rightarrow> i < unat n \<and> back_main g = a \<and> port_group_index g = of_nat i \<and> group_ok g)"

definition main_ok :: "port_group_main \<Rightarrow> bool" where
  "main_ok pm \<longleftrightarrow> 0 < max_port_groups_supported pm \<and> num_port_groups pm < max_port_groups_supported pm \<and>
     length (port_groups pm) = unat (max_port_groups_supported pm) \<and>
     (\<forall>i < length (port_groups pm). slot_ok (main_addr pm) (num_port_groups pm) i (port_groups pm ! i))"

definition live :: "port_group_main \<Rightarrow> u32 \<Rightarrow> port_group \<Rightarrow> bool" where
  "live pm epg g \<longleftrightarrow> epg < max_port_groups_supported pm \<and> port_groups pm ! unat epg = Some g"

interpretation port_slots: slot_table "\<lambda>p. p = DAO_PORT_INVALID_VALUE" ports_list
  "\<lambda>i v g. g\<lparr>ports_list := (ports_list g)[i := v]\<rparr>"
  by unfold_locales simp

lemma main_ok_slot:
  "main_ok pm \<Longrightarrow> i < length (port_groups pm) \<Longrightarrow> slot_ok (main_addr pm) (num_port_groups pm) i (port_groups pm ! i)"
  by (simp add: main_ok_def)

lemma main_ok_store:
  assumes "main_ok pm" and "unat epg < unat (num_port_groups pm) \<Longrightarrow> slot_ok (main_addr pm) (num_port_groups pm) (unat epg) pg"
    and "epg < num_port_groups pm"
  shows "main_ok (pm\<lparr>port_groups := (port_groups pm)[unat epg := pg]\<rparr>)"
  using assms by (simp add: main_ok_def nth_list_update word_less_nat_alt)

lemma live_facts:
  assumes "main_ok pm" and "live pm epg g"
  shows "unat epg < length (port_groups pm)" and "epg < num_port_groups pm" and "back_main g = main_addr pm"
    and "port_group_index g = epg" and "group_ok g"
proof -
  show l: "unat epg < length (port_groups pm)"
    using assms by (simp add: main_ok_def live_def word_less_nat_alt)
  have "slot_ok (main_addr pm) (num_port_groups pm) (unat epg) (Some g)"
    using main_ok_slot [OF assms(1) l] assms(2) by (simp add: live_def)
  then have "unat epg < unat (num_port_groups pm) \<and> back_main g = main_addr pm \<and> port_group_index g = epg \<and> group_ok g"
    by (simp add: slot_ok_def)
  then show "epg < num_port_groups pm" and "back_main g = main_addr pm" and "port_group_index g = epg" and "group_ok g"
    by (simp_all add: word_less_nat_alt)
qed

lemma live_on_group:
  assumes "main_ok pm" and "live pm epg g"
  shows "on_group (Some pm) epg bad k =
    rbind (k g) (\<lambda>(r, g'). Inr (r, Some (pm\<lparr>port_groups := (port_groups pm)[unat epg := Some g']\<rparr>)))"
proof -
  have "port_group_get pm epg = Inr (Some g)" and "port_group_check_sanity (Some pm) epg = Inr 0"
    using assms(2) live_facts [OF assms] by (auto simp: port_group_check_sanity_def port_group_get_def live_def)
  then show ?thesis by (simp add: on_group_def)
qed

lemma live_store:
  assumes "main_ok pm" and "live pm epg g" and "group_ok g'" and "back_main g' = back_main g"
    and "port_group_index g' = port_group_index g"
  shows "main_ok (pm\<lparr>port_groups := (port_groups pm)[unat epg := Some g']\<rparr>)"
    and "live (pm\<lparr>port_groups := (port_groups pm)[unat epg := Some g']\<rparr>) epg g'"
proof -
  note f = live_facts [OF assms(1,2)]
  show "main_ok (pm\<lparr>port_groups := (port_groups pm)[unat epg := Some g']\<rparr>)"
    by (rule main_ok_store [OF assms(1)]) (use assms f in \<open>simp_all add: slot_ok_def\<close>)
  show "live (pm\<lparr>port_groups := (port_groups pm)[unat epg := Some g']\<rparr>) epg g'"
    using assms(2) f by (simp add: live_def)
qed

lemma live_store_same: "live pm epg g \<Longrightarrow> pm\<lparr>port_groups := (port_groups pm)[unat epg := Some g]\<rparr> = pm"
  by (simp add: live_def) (metis list_update_id port_group_main.surjective port_group_main.update_convs(4))

section \<open>Adding a port\<close>

lemma num_ports_room:
  assumes "group_ok g" and "num_ports g < max_ports_supported g"
  shows "\<not> num_ports g > max_ports_supported g - 1" and "port_slots.slot g < length (ports_list g)"
    and "unat (num_ports g + 1) = Suc (unat (num_ports g))"
proof -
  show "\<not> num_ports g > max_ports_supported g - 1"
    using assms(2) by unat_arith
  show "port_slots.slot g < length (ports_list g)"
    using assms port_slots.has_slot [of g] by (simp add: group_ok_def port_slots.used_def word_less_nat_alt)
  show "unat (num_ports g + 1) = Suc (unat (num_ports g))"
    using assms(2) by unat_arith
qed

lemma port_add_ok:
  assumes "group_ok g" and "num_ports g < max_ports_supported g" and "p \<noteq> DAO_PORT_INVALID_VALUE"
  shows "port_add p g = Inr ((0, Some (int (port_slots.slot g))),
           g\<lparr>ports_list := (ports_list g)[port_slots.slot g := p], num_ports := num_ports g + 1\<rparr>)"
    and "group_ok (g\<lparr>ports_list := (ports_list g)[port_slots.slot g := p], num_ports := num_ports g + 1\<rparr>)"
proof -
  note room = num_ports_room [OF assms(1,2)]
  have len: "length (ports_list g) = unat (max_ports_supported g)" and b: "unat (max_ports_supported g) < 2 ^ 31"
    using assms(1) by (simp_all add: group_ok_def)
  then show "port_add p g = Inr ((0, Some (int (port_slots.slot g))),
           g\<lparr>ports_list := (ports_list g)[port_slots.slot g := p], num_ports := num_ports g + 1\<rparr>)"
    using room(1,2) unfolding port_add_def Let_def port_slots.slot_def
    by (simp add: sint_small)
  show "group_ok (g\<lparr>ports_list := (ports_list g)[port_slots.slot g := p], num_ports := num_ports g + 1\<rparr>)"
    using assms room port_slots.put_used [OF room(2), of p] by (simp add: group_ok_def port_slots.used_def)
qed

text \<open>The state after a port was added to a live group.\<close>

definition added :: "port_group_main \<Rightarrow> u32 \<Rightarrow> port_group \<Rightarrow> u64 \<Rightarrow> port_group_main" where
  "added pm epg g p = pm\<lparr>port_groups := (port_groups pm)[unat epg :=
     Some (g\<lparr>ports_list := (ports_list g)[port_slots.slot g := p], num_ports := num_ports g + 1\<rparr>)]\<rparr>"

lemma dao_port_group_port_add_ok:
  assumes "main_ok pm" and "live pm epg g" and "num_ports g < max_ports_supported g" and "p \<noteq> DAO_PORT_INVALID_VALUE"
  shows "dao_port_group_port_add (Some pm) epg p = Inr ((0, Some (int (port_slots.slot g))), Some (added pm epg g p))"
    and "main_ok (added pm epg g p)"
    and "live (added pm epg g p) epg (g\<lparr>ports_list := (ports_list g)[port_slots.slot g := p], num_ports := num_ports g + 1\<rparr>)"
proof -
  note a = port_add_ok [OF live_facts(5) [OF assms(1,2)] assms(3,4)]
  show "dao_port_group_port_add (Some pm) epg p = Inr ((0, Some (int (port_slots.slot g))), Some (added pm epg g p))"
    by (simp add: dao_port_group_port_add_def live_on_group [OF assms(1,2)] a(1) added_def)
  show "main_ok (added pm epg g p)"
    and "live (added pm epg g p) epg (g\<lparr>ports_list := (ports_list g)[port_slots.slot g := p], num_ports := num_ports g + 1\<rparr>)"
    unfolding added_def by (rule live_store [OF assms(1,2) a(2)]; simp)+
qed

lemma port_add_full:
  assumes "main_ok pm" and "live pm epg g" and "max_ports_supported g \<le> num_ports g"
  shows "dao_port_group_port_add (Some pm) epg p = Inr ((- 1, None), Some pm)"
proof -
  have "num_ports g > max_ports_supported g - 1"
    using assms(3) live_facts(5) [OF assms(1,2)] unfolding group_ok_def by unat_arith
  then have "port_add p g = Inr ((- 1, None), g)" by (simp add: port_add_def)
  then show ?thesis
    by (simp add: dao_port_group_port_add_def live_on_group [OF assms(1,2)] live_store_same [OF assms(2)])
qed

section \<open>Reading and iterating\<close>

lemma port_get_ok:
  assumes "main_ok pm" and "live pm epg g" and "i < length (ports_list g)"
  shows "dao_port_group_port_get True (Some pm) epg (int i) =
    (if ports_list g ! i = DAO_PORT_INVALID_VALUE then Inr ((- 1, None), Some pm)
     else Inr ((0, Some (ports_list g ! i)), Some pm))"
  using assms(3)
  by (simp add: dao_port_group_port_get_def live_on_group [OF assms(1,2)] port_get_def port_at_def
      live_store_same [OF assms(2)])

lemma get_next_ok:
  assumes "main_ok pm" and "live pm epg g" and "i \<le> length (ports_list g)"
  defines "j \<equiv> i + first_free (\<lambda>p. p \<noteq> DAO_PORT_INVALID_VALUE) (drop i (ports_list g))"
  shows "dao_port_group_port_get_next True (Some pm) epg (int i - 1) =
    Inr (if j < length (ports_list g) then (int j, Some (ports_list g ! j)) else (- 1, None), Some pm)"
proof -
  note ok = live_facts(5) [OF assms(1,2)]
  have len: "length (ports_list g) = unat (max_ports_supported g)" using ok by (simp add: group_ok_def)
  have n: "next_used (\<lambda>p. p = DAO_PORT_INVALID_VALUE) (unat (max_ports_supported g)) (ports_list g) i = Inr j"
    unfolding j_def by (rule next_used_ok [OF assms(3) len]) (use ok in \<open>simp add: group_ok_def\<close>)
  have v: "ports_list g ! j \<noteq> DAO_PORT_INVALID_VALUE" if "j < length (ports_list g)"
    using next_in_use [of i "\<lambda>p. p = DAO_PORT_INVALID_VALUE" "ports_list g"] that by (simp add: j_def)
  show ?thesis
    using v port_get_ok [OF assms(1,2), of j]
    by (simp add: dao_port_group_port_get_next_def live_on_group [OF assms(1,2)] n [folded len] len [symmetric]
        live_store_same [OF assms(2)])
qed

lemma foreach_ok:
  assumes "main_ok pm" and "live pm epg g" and "length (ports_list g) < n"
  shows "foreach_port (Some pm) epg n = Inr (used_from (\<lambda>p. p = DAO_PORT_INVALID_VALUE) 0 (ports_list g))"
proof -
  have "foreach_loop (\<lambda>i. rbind (dao_port_group_port_get_next True (Some pm) epg i) (\<lambda>(r, _). Inr r))
      (\<lambda>v. v \<noteq> DAO_PORT_INVALID_VALUE) (int 0 - 1) n = Inr (used_from (\<lambda>p. p = DAO_PORT_INVALID_VALUE) 0 (ports_list g))"
    by (rule foreach_loop_ok) (use assms get_next_ok [OF assms(1,2)] in \<open>auto simp: Let_def\<close>)
  then show ?thesis by (simp add: foreach_port_def)
qed

section \<open>Deleting a port\<close>

lemma port_delete_ok:
  assumes "main_ok pm" and "live pm epg g" and "i < unat (num_ports g)" and "ports_list g ! i \<noteq> DAO_PORT_INVALID_VALUE"
  defines "g' \<equiv> g\<lparr>ports_list := (ports_list g)[i := DAO_PORT_INVALID_VALUE], num_ports := num_ports g - 1\<rparr>"
  shows "dao_port_group_port_delete (Some pm) epg (int i) =
      Inr (0, Some (pm\<lparr>port_groups := (port_groups pm)[unat epg := Some g']\<rparr>))"
    and "group_ok g'"
proof -
  note ok = live_facts(5) [OF assms(1,2)]
  have l: "i < length (ports_list g)"
    using assms(3) ok occupied_le [of "\<lambda>p. p = DAO_PORT_INVALID_VALUE" "ports_list g"] by (simp add: group_ok_def)
  show "dao_port_group_port_delete (Some pm) epg (int i) =
      Inr (0, Some (pm\<lparr>port_groups := (port_groups pm)[unat epg := Some g']\<rparr>))"
    using l assms(3) by (simp add: dao_port_group_port_delete_def live_on_group [OF assms(1,2)] port_delete_def g'_def)
  have "unat (num_ports g - 1) = unat (num_ports g) - 1"
    using assms(3) by unat_arith
  then show "group_ok g'"
    using ok port_slots.clear_used [OF l assms(4) refl] by (simp add: group_ok_def g'_def port_slots.used_def)
qed

lemma port_delete_beyond:
  assumes "main_ok pm" and "live pm epg g" and "unat (num_ports g) \<le> i"
  shows "dao_port_group_port_delete (Some pm) epg (int i) = Inr (- 1, Some pm)"
proof -
  have "port_delete (int i) g = Inr (- 1, g)" using assms(3) by (simp add: port_delete_def)
  then show ?thesis
    by (simp add: dao_port_group_port_delete_def live_on_group [OF assms(1,2)] live_store_same [OF assms(2)])
qed

text \<open>The two steps again, for runs: the group after the step and its list of ports.\<close>

lemma add_steps:
  assumes "main_ok pm" and "live pm epg g" and "num_ports g < max_ports_supported g" and "p \<noteq> DAO_PORT_INVALID_VALUE"
  obtains pm' g' where "dao_port_group_port_add (Some pm) epg p = Inr ((0, Some (int (port_slots.slot g))), Some pm')"
    and "main_ok pm'" and "live pm' epg g'" and "ports_list g' = (ports_list g)[port_slots.slot g := p]"
    and "num_ports g' = num_ports g + 1" and "max_ports_supported g' = max_ports_supported g"
  by (rule that [OF dao_port_group_port_add_ok [OF assms]]) simp_all

lemma delete_steps:
  assumes "main_ok pm" and "live pm epg g" and "i < unat (num_ports g)" and "ports_list g ! i \<noteq> DAO_PORT_INVALID_VALUE"
  obtains pm' g' where "dao_port_group_port_delete (Some pm) epg (int i) = Inr (0, Some pm')"
    and "main_ok pm'" and "live pm' epg g'" and "ports_list g' = (ports_list g)[i := DAO_PORT_INVALID_VALUE]"
    and "num_ports g' = num_ports g - 1"
  by (rule that [OF port_delete_ok(1) [OF assms] live_store [OF assms(1,2) port_delete_ok(2) [OF assms]]]) simp_all

section \<open>Creating and destroying groups\<close>

definition fresh_group :: "u64 \<Rightarrow> u32 \<Rightarrow> string option \<Rightarrow> u32 \<Rightarrow> port_group" where
  "fresh_group a i name n = \<lparr>port_group_name = (case name of None \<Rightarrow> [] | Some s \<Rightarrow> take (DAO_PORT_GROUP_NAMELEN - 1) s),
     port_group_index = i, max_ports_supported = n, back_main = a, num_ports = 0,
     ports_list = replicate (unat n) DAO_PORT_INVALID_VALUE\<rparr>"

lemma fresh_group_ok: "0 < n \<Longrightarrow> unat n < 2 ^ 31 \<Longrightarrow> group_ok (fresh_group a i name n)"
  by (auto simp: group_ok_def fresh_group_def occupied_replicate DAO_PORT_GROUP_NAMELEN_def split: option.splits)

lemma main_init_ok:
  "0 < n \<Longrightarrow> \<exists>pm. dao_port_group_main_init (Some a) n None = (0, Some pm) \<and> main_ok pm \<and> num_port_groups pm = 0"
  by (auto simp: dao_port_group_main_init_def port_group_main_init_def main_ok_def slot_ok_def)

lemma create_ok:
  fixes name :: "string option"
  assumes "main_ok pm" and "num_port_groups pm \<noteq> max_port_groups_supported pm - 1" and "0 < n" and "unat n < 2 ^ 31"
  defines "i \<equiv> num_port_groups pm"
  defines "pm' \<equiv> pm\<lparr>port_groups := (port_groups pm)[unat i := Some (fresh_group (main_addr pm) i name n)],
                     num_port_groups := i + 1\<rparr>"
  shows "dao_port_group_create heap True True True name n (Some pm) = Inr (0, Some pm', Some i)"
    and "main_ok pm'"
    and "live pm' i (fresh_group (main_addr pm) i name n)"
proof -
  have lt: "i < max_port_groups_supported pm" and len: "length (port_groups pm) = unat (max_port_groups_supported pm)"
    using assms(1) by (simp_all add: main_ok_def i_def)
  have up: "unat (i + 1) = Suc (unat i)" and lt': "i + 1 < max_port_groups_supported pm"
    using lt assms(2) unfolding i_def by unat_arith+
  have "\<not> n < 1" using assms(3) by unat_arith
  then show "dao_port_group_create heap True True True name n (Some pm) = Inr (0, Some pm', Some i)"
    using assms(2) lt len
    by (simp add: dao_port_group_create_def Let_def pm'_def i_def [symmetric] fresh_group_def word_less_nat_alt not_le)
  show "live pm' i (fresh_group (main_addr pm) i name n)"
    using lt len by (simp add: live_def pm'_def word_less_nat_alt)
  have f: "back_main (fresh_group (main_addr pm) i name n) = main_addr pm" "port_group_index (fresh_group (main_addr pm) i name n) = i"
    by (simp_all add: fresh_group_def)
  show "main_ok pm'"
    unfolding main_ok_def
  proof (intro conjI allI impI)
    show "0 < max_port_groups_supported pm'" using assms(1) by (simp add: main_ok_def pm'_def)
    show "num_port_groups pm' < max_port_groups_supported pm'" using lt' by (simp add: pm'_def)
    show "length (port_groups pm') = unat (max_port_groups_supported pm')" using len by (simp add: pm'_def)
    fix k
    assume "k < length (port_groups pm')"
    then have k: "k < length (port_groups pm)" by (simp add: pm'_def)
    show "slot_ok (main_addr pm') (num_port_groups pm') k (port_groups pm' ! k)"
      using main_ok_slot [OF assms(1) k] k f up fresh_group_ok [OF assms(3,4)]
      by (cases "k = unat i") (auto simp: slot_ok_def pm'_def i_def [symmetric] split: option.splits)
  qed
qed

lemma create_limit:
  assumes "main_ok pm" and "num_port_groups pm = max_port_groups_supported pm - 1" and "0 < n"
  shows "dao_port_group_create heap grp lst True name n (Some pm) = Inr (- 1, Some pm, None)"
    and "port_groups pm ! unat (num_port_groups pm) = None"
proof -
  have "\<not> n < 1" using assms(3) by unat_arith
  then show "dao_port_group_create heap grp lst True name n (Some pm) = Inr (- 1, Some pm, None)"
    using assms(2) by (simp add: dao_port_group_create_def)
  have "unat (num_port_groups pm) < length (port_groups pm)"
    using assms(1) by (simp add: main_ok_def word_less_nat_alt)
  from main_ok_slot [OF assms(1) this]
  show "port_groups pm ! unat (num_port_groups pm) = None"
    by (cases "port_groups pm ! unat (num_port_groups pm)") (simp_all add: slot_ok_def)
qed

lemma destroy_ok:
  assumes "main_ok pm" and "live pm epg g"
  shows "dao_port_group_destroy (Some pm) epg = Inr (0, Some (pm\<lparr>port_groups := (port_groups pm)[unat epg := None]\<rparr>))"
    and "main_ok (pm\<lparr>port_groups := (port_groups pm)[unat epg := None]\<rparr>)"
proof -
  note f = live_facts [OF assms]
  have "port_group_get pm epg = Inr (Some g)" and "port_group_check_sanity (Some pm) epg = Inr 0"
    using assms(2) f by (auto simp: port_group_check_sanity_def port_group_get_def live_def)
  then show "dao_port_group_destroy (Some pm) epg = Inr (0, Some (pm\<lparr>port_groups := (port_groups pm)[unat epg := None]\<rparr>))"
    using f by (simp add: dao_port_group_destroy_def)
  show "main_ok (pm\<lparr>port_groups := (port_groups pm)[unat epg := None]\<rparr>)"
    by (rule main_ok_store [OF assms(1) _ f(2)]) (simp add: slot_ok_def)
qed

lemma dead_sanity:
  assumes "main_ok pm" and "epg < num_port_groups pm" and "port_groups pm ! unat epg = None"
  shows "port_group_check_sanity (Some pm) epg = Inl WildPointer"
proof -
  have m: "epg < max_port_groups_supported pm" using assms(1,2) by (auto simp: main_ok_def)
  then have "unat epg < length (port_groups pm)" using assms(1) by (simp add: main_ok_def word_less_nat_alt)
  then have "port_group_get pm epg = Inr None" using m assms(3) by (simp add: port_group_get_def)
  then show ?thesis using m assms(2) by (auto simp: port_group_check_sanity_def)
qed

section \<open>Looking a group up by name\<close>

lemma main_ok_names:
  assumes "main_ok pm" and "Some g \<in> set (port_groups pm)"
  shows "length (port_group_name g) < DAO_PORT_GROUP_NAMELEN"
proof -
  from assms(2) obtain i where i: "i < length (port_groups pm)" "port_groups pm ! i = Some g"
    by (auto simp: in_set_conv_nth)
  then show ?thesis using main_ok_slot [OF assms(1) i(1)] by (simp add: slot_ok_def group_ok_def)
qed

lemma get_by_name_ok:
  assumes "main_ok pm"
  shows "dao_port_group_get_by_name True (Some pm) (Some s) =
    (if length s < DAO_PORT_GROUP_NAMELEN \<and> Some s \<in> set (map (map_option port_group_name) (port_groups pm))
     then (0, Some (first_free (\<lambda>g. g = Some s) (map (map_option port_group_name) (port_groups pm)))) else (- 1, None))"
proof -
  have t: "take (unat (max_port_groups_supported pm)) (port_groups pm) = port_groups pm"
    using assms by (simp add: main_ok_def)
  have "\<forall>g. Some g \<in> set (map (map_option port_group_name) (port_groups pm)) \<longrightarrow> length g < DAO_PORT_GROUP_NAMELEN"
  proof (intro allI impI)
    fix g
    assume "Some g \<in> set (map (map_option port_group_name) (port_groups pm))"
    then obtain x where "x \<in> set (port_groups pm)" and "map_option port_group_name x = Some g" by (metis image_iff list.set_map)
    then show "length g < DAO_PORT_GROUP_NAMELEN" using main_ok_names [OF assms] by auto
  qed
  from name_loop_ok [OF this, of s 0] show ?thesis
    by (simp add: dao_port_group_get_by_name_def t)
qed

end
