(* ===== verification/Port_Group_Props.thy ===== *)
theory Port_Group_Props
  imports Port_Group
begin

text \<open>
  What the port groups promise to the applications that use them as their list of ports, and two places where they do
  not: a delete that refuses a port that is set, and an operation on a destroyed group.
\<close>

section \<open>Sample state\<close>

definition sample_group :: port_group where
  "sample_group = \<lparr>port_group_name = ''tap'', port_group_index = 0, max_ports_supported = 3, back_main = 0x1000, num_ports = 0,
     ports_list = [DAO_PORT_INVALID_VALUE, DAO_PORT_INVALID_VALUE, DAO_PORT_INVALID_VALUE]\<rparr>"

definition sample_main :: port_group_main where
  "sample_main = \<lparr>main_addr = 0x1000, num_port_groups = 1, max_port_groups_supported = 2, port_groups = [Some sample_group, None]\<rparr>"

lemma sample_main_ok: "main_ok sample_main" "live sample_main 0 sample_group"
  by (simp_all add: main_ok_def live_def slot_ok_def group_ok_def sample_main_def sample_group_def DAO_PORT_GROUP_NAMELEN_def
      nth_Cons split: nat.splits)

lemma sample_group_simps:
  "num_ports sample_group = 0" "max_ports_supported sample_group = 3" "length (ports_list sample_group) = 3"
  by (simp_all add: sample_group_def)

section \<open>Properties\<close>

text \<open>C20: Adding a port to a group that has room returns the lowest free index; the port can be read back at that index, every
  other index reads as before, the number of ports grows by one and the table stays well formed.\<close>

theorem port_add_get:
  assumes "main_ok pm" and "live pm epg g" and "num_ports g < max_ports_supported g" and "p \<noteq> DAO_PORT_INVALID_VALUE"
  shows "\<exists>i pm'. dao_port_group_port_add (Some pm) epg p = Inr ((0, Some (int i)), Some pm') \<and> main_ok pm' \<and>
    (\<forall>j < i. ports_list g ! j \<noteq> DAO_PORT_INVALID_VALUE) \<and>
    dao_port_group_port_get True (Some pm') epg (int i) = Inr ((0, Some p), Some pm') \<and>
    (\<forall>j r. j < length (ports_list g) \<and> j \<noteq> i \<and> dao_port_group_port_get True (Some pm) epg (int j) = Inr (r, Some pm) \<longrightarrow>
       dao_port_group_port_get True (Some pm') epg (int j) = Inr (r, Some pm')) \<and>
    dao_port_group_port_get_num (Some pm') epg = Inr ((0, Some (num_ports g + 1)), Some pm')"
proof -
  note a = dao_port_group_port_add_ok [OF assms]
  note room = num_ports_room [OF live_facts(5) [OF assms(1,2)] assms(3)]
  have n: "dao_port_group_port_get_num (Some (added pm epg g p)) epg =
      Inr ((0, Some (num_ports g + 1)), Some (added pm epg g p))"
    by (simp add: dao_port_group_port_get_num_def live_on_group [OF a(2,3)] live_store_same [OF a(3)])
  have least: "\<forall>j < port_slots.slot g. ports_list g ! j \<noteq> DAO_PORT_INVALID_VALUE"
    using first_free_least [of _ "\<lambda>p. p = DAO_PORT_INVALID_VALUE" "ports_list g"] by (simp add: port_slots.slot_def)
  have own: "dao_port_group_port_get True (Some (added pm epg g p)) epg (int (port_slots.slot g)) =
      Inr ((0, Some p), Some (added pm epg g p))"
    using port_get_ok [OF a(2,3), of "port_slots.slot g"] room(2) assms(4) by simp
  have oth: "dao_port_group_port_get True (Some (added pm epg g p)) epg (int j) = Inr (r, Some (added pm epg g p))"
    if "j < length (ports_list g) \<and> j \<noteq> port_slots.slot g \<and> dao_port_group_port_get True (Some pm) epg (int j) = Inr (r, Some pm)"
    for j r
    using that port_get_ok [OF a(2,3), of j] port_get_ok [OF assms(1,2), of j] by (auto split: if_splits)
  show ?thesis
    by (rule exI [of _ "port_slots.slot g"], rule exI [of _ "added pm epg g p"]) (use a(1,2) least own oth n in blast)
qed

theorem port_add_get_witness:
  "\<exists>i pm'. dao_port_group_port_add (Some sample_main) 0 7 = Inr ((0, Some (int i)), Some pm') \<and>
     dao_port_group_port_get True (Some pm') 0 (int i) = Inr ((0, Some 7), Some pm')"
  using port_add_get [OF sample_main_ok, of 7] by (simp add: sample_group_simps DAO_PORT_INVALID_VALUE_def) blast

text \<open>C35: The iteration macro visits exactly the ports that are set, in the order of their indices, each with its index, and stops;
  it visits as many ports as the group counts.\<close>

theorem foreach_visits_all:
  assumes "main_ok pm" and "live pm epg g" and "unat (max_ports_supported g) < n"
  shows "\<exists>ps. foreach_port (Some pm) epg n = Inr ps \<and>
    ps = map (\<lambda>j. (int j, ports_list g ! j)) (filter (\<lambda>j. ports_list g ! j \<noteq> DAO_PORT_INVALID_VALUE) [0..<length (ports_list g)]) \<and>
    length ps = unat (num_ports g)"
proof -
  note ok = live_facts(5) [OF assms(1,2)]
  have len: "length (ports_list g) = unat (max_ports_supported g)" using ok by (simp add: group_ok_def)
  note fe = foreach_ok [OF assms(1,2), of n, unfolded len, OF assms(3)]
  have "length (used_from (\<lambda>p. p = DAO_PORT_INVALID_VALUE) 0 (ports_list g)) = unat (num_ports g)"
    using ok by (simp add: used_from_length group_ok_def)
  with fe show ?thesis unfolding used_from_def len by blast
qed

theorem foreach_visits_all_witness: "foreach_port (Some sample_main) 0 4 = Inr []"
  using foreach_visits_all [OF sample_main_ok, where n = 4] by (auto simp: sample_group_simps)

text \<open>The delete compares the index with the number of ports and not with the size of the list: after two ports were added
  to an empty group and the first of them was deleted, the second one is refused although it is still set.\<close>

theorem delete_refuses_set_port:
  assumes "main_ok pm" and "live pm epg g" and "num_ports g = 0" and "2 \<le> unat (max_ports_supported g)"
    and "p \<noteq> DAO_PORT_INVALID_VALUE" and "q \<noteq> DAO_PORT_INVALID_VALUE"
  shows "\<exists>pm'. rbind (dao_port_group_port_add (Some pm) epg p) (\<lambda>(_, s).
      rbind (dao_port_group_port_add s epg q) (\<lambda>(_, s).
      rbind (dao_port_group_port_delete s epg 0) (\<lambda>(_, s). dao_port_group_port_delete s epg 1))) = Inr (- 1, Some pm') \<and>
    dao_port_group_port_get True (Some pm') epg 1 = Inr ((0, Some q), Some pm')"
proof -
  let ?P = "\<lambda>p. p = DAO_PORT_INVALID_VALUE"
  note ok = live_facts(5) [OF assms(1,2)]
  have len: "length (ports_list g) = unat (max_ports_supported g)" using ok by (simp add: group_ok_def)
  obtain a b xs where g: "ports_list g = a # b # xs" using len assms(4) by (cases "ports_list g"; cases "tl (ports_list g)") auto
  have inv: "a = DAO_PORT_INVALID_VALUE" "b = DAO_PORT_INVALID_VALUE"
    using ok assms(3) by (auto simp: group_ok_def g split: if_splits)
  then have s0: "port_slots.slot g = 0" by (simp add: port_slots.slot_def g)
  have r: "num_ports g < max_ports_supported g" using assms(3,4) by unat_arith
  obtain pm1 g1 where one:
    "dao_port_group_port_add (Some pm) epg p = Inr ((0, Some (int (port_slots.slot g))), Some pm1)" "main_ok pm1" "live pm1 epg g1"
    "ports_list g1 = (ports_list g)[port_slots.slot g := p]" "num_ports g1 = num_ports g + 1"
    "max_ports_supported g1 = max_ports_supported g"
    by (rule add_steps [OF assms(1,2) r assms(5)])
  have l1: "ports_list g1 = p # b # xs" and n1: "num_ports g1 = 1" using one(4,5) assms(3) by (simp_all add: s0 g)
  have s1: "port_slots.slot g1 = 1" using assms(5) by (simp add: port_slots.slot_def l1 inv)
  have r1: "num_ports g1 < max_ports_supported g1" using assms(4) n1 one(6) by (simp add: word_less_nat_alt)
  obtain pm2 g2 where two:
    "dao_port_group_port_add (Some pm1) epg q = Inr ((0, Some (int (port_slots.slot g1))), Some pm2)" "main_ok pm2" "live pm2 epg g2"
    "ports_list g2 = (ports_list g1)[port_slots.slot g1 := q]" "num_ports g2 = num_ports g1 + 1"
    "max_ports_supported g2 = max_ports_supported g1"
    by (rule add_steps [OF one(2,3) r1 assms(6)])
  have l2: "ports_list g2 = p # q # xs" and n2: "num_ports g2 = 2" using two(4,5) by (simp_all add: s1 l1 n1)
  have d: "0 < unat (num_ports g2)" "ports_list g2 ! 0 \<noteq> DAO_PORT_INVALID_VALUE" using assms(5) l2 n2 by simp_all
  obtain pm3 g3 where three:
    "dao_port_group_port_delete (Some pm2) epg (int 0) = Inr (0, Some pm3)" "main_ok pm3" "live pm3 epg g3"
    "ports_list g3 = (ports_list g2)[0 := DAO_PORT_INVALID_VALUE]" "num_ports g3 = num_ports g2 - 1"
    by (rule delete_steps [OF two(2,3) d])
  have "dao_port_group_port_delete (Some pm3) epg 1 = Inr (- 1, Some pm3)"
    using port_delete_beyond [OF three(2,3), of 1] three(5) n2 by simp
  moreover have "dao_port_group_port_get True (Some pm3) epg 1 = Inr ((0, Some q), Some pm3)"
    using port_get_ok [OF three(2,3), of 1] three(4) l2 assms(6) by simp
  ultimately show ?thesis using one(1) two(1) three(1) by simp
qed

theorem delete_refuses_set_port_witness:
  "\<exists>pm'. rbind (dao_port_group_port_add (Some sample_main) 0 7) (\<lambda>(_, s).
      rbind (dao_port_group_port_add s 0 8) (\<lambda>(_, s).
      rbind (dao_port_group_port_delete s 0 0) (\<lambda>(_, s). dao_port_group_port_delete s 0 1))) = Inr (- 1, Some pm') \<and>
    dao_port_group_port_get True (Some pm') 0 1 = Inr ((0, Some 8), Some pm')"
  by (rule delete_refuses_set_port [OF sample_main_ok]) (simp_all add: sample_group_simps DAO_PORT_INVALID_VALUE_def)

text \<open>A group can be found by the name it was created with if the name fits into the group (63 characters); the index found is
  that of the new group when no other group has the name.  A longer name is never found.\<close>

theorem create_then_find:
  assumes "main_ok pm" and "num_port_groups pm \<noteq> max_port_groups_supported pm - 1" and "0 < n" and "unat n < 2 ^ 31"
    and "Some s \<notin> set (map (map_option port_group_name) (port_groups pm))"
  shows "\<exists>pm' epg. dao_port_group_create heap True True True (Some s) n (Some pm) = Inr (0, Some pm', Some epg) \<and> main_ok pm' \<and>
    dao_port_group_get_by_name True (Some pm') (Some s) = (if length s < 64 then (0, Some (unat epg)) else (- 1, None))"
proof -
  note c = create_ok(1) [OF assms(1-4), of heap "Some s"] create_ok(2) [OF assms(1-4), of "Some s"]
  let ?i = "num_port_groups pm"
  let ?g = "fresh_group (main_addr pm) ?i (Some s) n"
  let ?pm = "pm\<lparr>port_groups := (port_groups pm)[unat ?i := Some ?g], num_port_groups := ?i + 1\<rparr>"
  have l: "unat ?i < length (port_groups pm)" using assms(1) by (simp add: main_ok_def word_less_nat_alt)
  let ?names = "map (map_option port_group_name) (port_groups ?pm)"
  have nm: "?names = (map (map_option port_group_name) (port_groups pm))[unat ?i := Some s]" if "length s < 64"
    using that by (simp add: map_update fresh_group_def DAO_PORT_GROUP_NAMELEN_def)
  have "first_free (\<lambda>g. g = Some s) ?names = unat ?i \<and> Some s \<in> set ?names" if "length s < 64"
  proof
    show "first_free (\<lambda>g. g = Some s) ?names = unat ?i"
      unfolding nm [OF that]
    proof (rule first_free_unique)
      fix k
      assume "k < unat ?i"
      then show "(map (map_option port_group_name) (port_groups pm))[unat ?i := Some s] ! k \<noteq> Some s"
        using assms(5) l by (metis length_map nat_neq_iff nth_list_update_neq nth_mem order_less_trans)
    qed (use l in simp_all)
    show "Some s \<in> set ?names" unfolding nm [OF that] using l by (intro set_update_memI) simp
  qed
  then have "dao_port_group_get_by_name True (Some ?pm) (Some s) = (if length s < 64 then (0, Some (unat ?i)) else (- 1, None))"
    unfolding get_by_name_ok [OF c(2)] DAO_PORT_GROUP_NAMELEN_def by auto
  then show ?thesis using c(1,2) by blast
qed

definition sample_table :: port_group_main where
  "sample_table = \<lparr>main_addr = 0x1000, num_port_groups = 0, max_port_groups_supported = 2, port_groups = [None, None]\<rparr>"

theorem create_then_find_witness:
  "\<exists>pm' epg. dao_port_group_create None True True True (Some ''tap'') 4 (Some sample_table) = Inr (0, Some pm', Some epg) \<and>
    dao_port_group_get_by_name True (Some pm') (Some ''tap'') = (0, Some (unat epg))"
proof -
  have "main_ok sample_table" by (simp add: main_ok_def sample_table_def slot_ok_def nth_Cons split: nat.splits)
  from create_then_find [OF this, where n = 4 and s = "''tap''" and heap = None] show ?thesis
    by (auto simp: sample_table_def)
qed

text \<open>One entry of the table is never used: with one entry left the creation of a group fails, although the entry is free.\<close>

theorem last_group_refused:
  assumes "main_ok pm" and "num_port_groups pm = max_port_groups_supported pm - 1" and "0 < n"
  shows "dao_port_group_create heap True True True name n (Some pm) = Inr (- 1, Some pm, None) \<and>
    port_groups pm ! unat (num_port_groups pm) = None"
  using create_limit [OF assms] by simp

theorem last_group_refused_witness:
  "dao_port_group_create None True True True None 1 (Some sample_main) = Inr (- 1, Some sample_main, None)"
  using last_group_refused [OF sample_main_ok(1), where n = 1 and heap = None and name = None] by (simp add: sample_main_def)

text \<open>After a group was destroyed its number still passes the range checks, so that every later operation on it dereferences the
  reserved pointer instead of failing.\<close>

theorem destroyed_group_faults:
  assumes "main_ok pm" and "live pm epg g"
  shows "\<exists>pm'. dao_port_group_destroy (Some pm) epg = Inr (0, Some pm') \<and> main_ok pm' \<and>
    dao_port_group_port_add (Some pm') epg p = Inl WildPointer \<and> dao_port_group_port_get_num (Some pm') epg = Inl WildPointer \<and>
    dao_port_group_destroy (Some pm') epg = Inl WildPointer"
proof -
  let ?pm = "pm\<lparr>port_groups := (port_groups pm)[unat epg := None]\<rparr>"
  note d = destroy_ok [OF assms]
  have "port_group_check_sanity (Some ?pm) epg = Inl WildPointer"
    by (rule dead_sanity [OF d(2)]) (use live_facts [OF assms] in simp_all)
  then have "dao_port_group_port_add (Some ?pm) epg p = Inl WildPointer" "dao_port_group_port_get_num (Some ?pm) epg = Inl WildPointer"
    "dao_port_group_destroy (Some ?pm) epg = Inl WildPointer"
    by (simp_all add: dao_port_group_port_add_def dao_port_group_port_get_num_def dao_port_group_destroy_def on_group_def)
  then show ?thesis using d by blast
qed

theorem destroyed_group_faults_witness:
  "\<exists>pm'. dao_port_group_destroy (Some sample_main) 0 = Inr (0, Some pm') \<and> dao_port_group_destroy (Some pm') 0 = Inl WildPointer"
  using destroyed_group_faults [OF sample_main_ok, of 7] by blast

end
