(* ===== verification/Portq_Group.thy ===== *)
theory Portq_Group
  imports Slots Util
begin

text \<open>
  The port queue groups of \<^verbatim>\<open>lib/portgroup/portq_group.c\<close> and their worker functions in
  \<^verbatim>\<open>dao_portq_group_worker.h\<close>: per core lists of \<open>(port, queue)\<close> pairs.  The lists of a group follow each other in one block
  of memory; the model keeps them as a list indexed by core, and the section on the layout shows that the byte ranges
  of the cores do not overlap.
\<close>

section \<open>Data\<close>

definition DAO_PORTQ_GROUP_MAX :: u32 where "DAO_PORTQ_GROUP_MAX = 8"
definition DAO_PORTQ_GROUP_NAMELEN :: nat where "DAO_PORTQ_GROUP_NAMELEN = 64"
definition DAO_PORTQ_INVALID_VALUE :: u32 where "DAO_PORTQ_INVALID_VALUE = NOT 1"

record dao_portq =
  rq_id :: u32
  port_id :: u32

record dao_portq_list =
  num_portqs :: u32
  max_portqs_supported :: u32
  portqs :: "dao_portq list"

record dao_portq_group =
  portq_group_name :: string
  pq_num_cores :: u32
  portq_group_index :: u32
  per_core_portq_list_size :: u64
  portq_back_main :: u64
  core_portq_list :: "dao_portq_list list"

record dao_portq_group_main =
  portq_main_addr :: u64
  num_portq_groups :: u32
  max_portq_groups_supported :: u32
  portq_groups :: "dao_portq_group option list"

abbreviation free_portq :: "dao_portq \<Rightarrow> bool" where
  "free_portq q \<equiv> port_id q = DAO_PORTQ_INVALID_VALUE"

section \<open>Operations\<close>

definition dao_portq_group_get :: "dao_portq_group_main \<Rightarrow> u32 \<Rightarrow> fault + dao_portq_group option" where
  "dao_portq_group_get pm epg =
     (if epg < max_portq_groups_supported pm
      then (if unat epg < length (portq_groups pm) then Inr (portq_groups pm ! unat epg) else Inl OutOfBounds)
      else Inl VerifyPanic)"

definition portq_group_check_sanity :: "dao_portq_group_main option \<Rightarrow> u32 \<Rightarrow> fault + int" where
  "portq_group_check_sanity st epg =
     (case st of
        None \<Rightarrow> Inr (- 1)
      | Some pm \<Rightarrow>
          if epg \<ge> max_portq_groups_supported pm then Inr (- 1)
          else if epg \<ge> num_portq_groups pm then Inr (- 1)
          else rbind (dao_portq_group_get pm epg) (\<lambda>pg.
            case pg of
              None \<Rightarrow> Inl WildPointer
            | Some g \<Rightarrow> if portq_back_main g \<noteq> portq_main_addr pm then Inr (- 1) else Inr 0))"

definition portq_group_main_init :: "u64 option \<Rightarrow> u32 \<Rightarrow> int \<times> dao_portq_group_main option" where
  "portq_group_main_init heap n =
     (case heap of
        None \<Rightarrow> (- 1, None)
      | Some a \<Rightarrow> (0, Some \<lparr>portq_main_addr = a, num_portq_groups = 0, max_portq_groups_supported = n,
                             portq_groups = replicate (unat n) None\<rparr>))"

definition dao_portq_group_init ::
  "u64 option \<Rightarrow> u32 \<Rightarrow> dao_portq_group_main option \<Rightarrow> int \<times> dao_portq_group_main option" where
  "dao_portq_group_init heap n st =
     (if n = 0 then (- 1, st)
      else case st of Some pm \<Rightarrow> (- 1, st) | None \<Rightarrow> portq_group_main_init heap n)"

text \<open>The size of the list of one core: the header of the list fills a cache line, an entry has eight bytes.\<close>

definition portq_per_core_sz :: "u64 \<Rightarrow> u32 \<Rightarrow> u64" where
  "portq_per_core_sz cl n = DAO_ROUNDUP (cl + 8 * ucast n) cl"

text \<open>The size of the block of a group: 88 bytes of members up to the aligned lists.\<close>

definition portq_group_sz :: "u64 \<Rightarrow> u32 \<Rightarrow> u32 \<Rightarrow> u64" where
  "portq_group_sz cl cores n = DAO_ROUNDUP 88 cl + portq_per_core_sz cl n * ucast cores"

definition empty_list :: "u32 \<Rightarrow> dao_portq_list" where
  "empty_list n = \<lparr>num_portqs = 0, max_portqs_supported = n,
     portqs = replicate (unat n) \<lparr>rq_id = 0, port_id = DAO_PORTQ_INVALID_VALUE\<rparr>\<rparr>"

text \<open>\<open>cl\<close> is the cache line size; \<open>heap\<close> and \<open>grp\<close> are the outcomes of the allocations; \<open>out\<close> says that the pointer for the
  result is not \<^verbatim>\<open>NULL\<close>.\<close>

definition dao_portq_group_create ::
  "u64 \<Rightarrow> u64 option \<Rightarrow> bool \<Rightarrow> bool \<Rightarrow> string option \<Rightarrow> u32 \<Rightarrow> u32 \<Rightarrow> dao_portq_group_main option \<Rightarrow>
    fault + int \<times> dao_portq_group_main option \<times> u32 option" where
  "dao_portq_group_create cl heap grp out portq_name num_cores n st =
     (if \<not> out then Inr (- 1, st, None)
      else if num_cores < 1 then Inr (- 1, st, None)
      else if n < 1 then Inr (- 1, st, None)
      else case (case st of None \<Rightarrow> dao_portq_group_init heap DAO_PORTQ_GROUP_MAX st | Some pm \<Rightarrow> (0, st)) of
        (rc, st1) \<Rightarrow>
          (case st1 of
             None \<Rightarrow> Inr (- 1, st1, None)
           | Some pm \<Rightarrow>
               if rc < 0 then Inr (- 1, st1, None)
               else if num_portq_groups pm > max_portq_groups_supported pm - 1 then Inr (- 1, st1, None)
               else if \<not> grp then Inr (- 1, st1, None)
               else
                 let i = first_free (\<lambda>g. g = None) (take (unat (max_portq_groups_supported pm)) (portq_groups pm))
                 in if length (portq_groups pm) \<le> i then Inl OutOfBounds
                    else if portq_groups pm ! i \<noteq> None then Inl VerifyPanic
                    else
                      let g = \<lparr>portq_group_name = (case portq_name of None \<Rightarrow> [] | Some s \<Rightarrow> take (DAO_PORTQ_GROUP_NAMELEN - 1) s),
                               pq_num_cores = num_cores, portq_group_index = of_nat i,
                               per_core_portq_list_size = portq_per_core_sz cl n, portq_back_main = portq_main_addr pm,
                               core_portq_list = replicate (unat num_cores) (empty_list n)\<rparr>
                      in Inr (0, Some (pm\<lparr>portq_groups := (portq_groups pm)[i := Some g], num_portq_groups := num_portq_groups pm + 1\<rparr>),
                              Some (of_nat i))))"

text \<open>\<^verbatim>\<open>__dao_portq_group_list_get\<close>: the list of a core, by its number; the offset of the list is in the section on the layout.\<close>

definition portq_group_list_get :: "dao_portq_group \<Rightarrow> u32 \<Rightarrow> fault + nat" where
  "portq_group_list_get g core_id =
     (if core_id < pq_num_cores g
      then if unat core_id < length (core_portq_list g) then Inr (unat core_id) else Inl OutOfBounds
      else Inl VerifyPanic)"

definition dao_portq_group_list_get :: "dao_portq_group_main option \<Rightarrow> u32 \<Rightarrow> u32 \<Rightarrow> fault + dao_portq_list" where
  "dao_portq_group_list_get st epg core_id =
     (case st of
        None \<Rightarrow> Inl WildPointer
      | Some pm \<Rightarrow>
          rbind (dao_portq_group_get pm epg) (\<lambda>pg.
            case pg of
              None \<Rightarrow> Inl WildPointer
            | Some g \<Rightarrow> rbind (portq_group_list_get g core_id) (\<lambda>i. Inr (core_portq_list g ! i))))"

definition portq_list_add :: "dao_portq \<Rightarrow> dao_portq_list \<Rightarrow> fault + (int \<times> int option) \<times> dao_portq_list" where
  "portq_list_add q l =
     (if num_portqs l > max_portqs_supported l - 1 then Inr ((- 1, None), l)
      else
        let i = first_free free_portq (take (unat (max_portqs_supported l)) (portqs l))
        in if unat (max_portqs_supported l) \<le> i then Inr ((- 1, None), l)
           else if length (portqs l) \<le> i then Inl OutOfBounds
           else Inr ((0, Some (sint (of_nat i :: u32))), l\<lparr>portqs := (portqs l)[i := q], num_portqs := num_portqs l + 1\<rparr>))"

definition dao_portq_group_portq_add ::
  "dao_portq_group_main option \<Rightarrow> u32 \<Rightarrow> u32 \<Rightarrow> dao_portq option \<Rightarrow>
    fault + (int \<times> int option) \<times> dao_portq_group_main option" where
  "dao_portq_group_portq_add st epg core_id portq =
     (case portq of
        None \<Rightarrow> Inr ((- 1, None), st)
      | Some q \<Rightarrow>
          rbind (portq_group_check_sanity st epg) (\<lambda>rc.
            if rc < 0 then Inr ((- 1, None), st)
            else case st of
                None \<Rightarrow> Inl WildPointer
              | Some pm \<Rightarrow>
                  rbind (dao_portq_group_get pm epg) (\<lambda>pg.
                    case pg of
                      None \<Rightarrow> Inl WildPointer
                    | Some g \<Rightarrow>
                        if core_id \<ge> pq_num_cores g then Inr ((- 1, None), st)
                        else
                          rbind (portq_group_list_get g core_id) (\<lambda>i.
                          rbind (portq_list_add q (core_portq_list g ! i)) (\<lambda>(r, l).
                            Inr (r, Some (pm\<lparr>portq_groups := (portq_groups pm)[unat epg :=
                                   Some (g\<lparr>core_portq_list := (core_portq_list g)[i := l]\<rparr>)]\<rparr>)))))))"

definition dao_portq_group_portq_get_next ::
  "dao_portq_group_main option \<Rightarrow> u32 \<Rightarrow> u32 \<Rightarrow> int \<Rightarrow> fault + int \<times> dao_portq option" where
  "dao_portq_group_portq_get_next st epg core_id i =
     rbind (dao_portq_group_list_get st epg core_id) (\<lambda>l.
       if i + 1 < 0 then Inr (- 1, None)
       else rbind (next_used free_portq (unat (max_portqs_supported l)) (portqs l) (nat (i + 1))) (\<lambda>iter.
         if iter < unat (max_portqs_supported l) then Inr (int iter, Some (portqs l ! iter)) else Inr (- 1, None)))"

text \<open>The macro \<^verbatim>\<open>DAO_PORTQ_GROUP_FOREACH_CORE\<close>.\<close>

definition foreach_portq :: "dao_portq_group_main option \<Rightarrow> u32 \<Rightarrow> u32 \<Rightarrow> nat \<Rightarrow> fault + (int \<times> dao_portq) list" where
  "foreach_portq st epg core_id n =
     foreach_loop (dao_portq_group_portq_get_next st epg core_id) (\<lambda>q. port_id q \<noteq> DAO_PORTQ_INVALID_VALUE) (- 1) n"

definition dao_portq_group_get_by_name :: "bool \<Rightarrow> dao_portq_group_main option \<Rightarrow> string option \<Rightarrow> int \<times> nat option" where
  "dao_portq_group_get_by_name out st name =
     (case st of
        None \<Rightarrow> (- 1, None)
      | Some pm \<Rightarrow>
          if \<not> out then (- 1, None)
          else (case name of
                  None \<Rightarrow> (- 1, None)
                | Some s \<Rightarrow> name_loop DAO_PORTQ_GROUP_NAMELEN s 0
                    (map (map_option portq_group_name) (take (unat (max_portq_groups_supported pm)) (portq_groups pm)))))"

section \<open>The invariant\<close>

definition list_ok :: "dao_portq_list \<Rightarrow> bool" where
  "list_ok l \<longleftrightarrow> 0 < max_portqs_supported l \<and> unat (max_portqs_supported l) < 2 ^ 31 \<and>
     length (portqs l) = unat (max_portqs_supported l) \<and> unat (num_portqs l) = occupied free_portq (portqs l)"

definition portq_group_ok :: "dao_portq_group \<Rightarrow> bool" where
  "portq_group_ok g \<longleftrightarrow> length (core_portq_list g) = unat (pq_num_cores g) \<and> (\<forall>l \<in> set (core_portq_list g). list_ok l)"

text \<open>A group that can be used: it is below the number of groups, and the lists of its cores are well formed.\<close>

definition portq_live :: "dao_portq_group_main \<Rightarrow> u32 \<Rightarrow> dao_portq_group \<Rightarrow> bool" where
  "portq_live pm epg g \<longleftrightarrow> length (portq_groups pm) = unat (max_portq_groups_supported pm) \<and>
     num_portq_groups pm \<le> max_portq_groups_supported pm \<and> epg < num_portq_groups pm \<and>
     portq_groups pm ! unat epg = Some g \<and> portq_back_main g = portq_main_addr pm \<and> portq_group_ok g"

interpretation portq_slots: slot_table free_portq portqs "\<lambda>i v l. l\<lparr>portqs := (portqs l)[i := v]\<rparr>"
  by unfold_locales simp

section \<open>Adding a queue\<close>

lemma portq_list_add_ok:
  assumes "list_ok l" and "num_portqs l < max_portqs_supported l" and "\<not> free_portq q"
  defines "l' \<equiv> l\<lparr>portqs := (portqs l)[portq_slots.slot l := q], num_portqs := num_portqs l + 1\<rparr>"
  shows "portq_list_add q l = Inr ((0, Some (int (portq_slots.slot l))), l')" and "list_ok l'"
    and "portq_slots.slot l < length (portqs l)"
proof -
  have len: "length (portqs l) = unat (max_portqs_supported l)" and b: "unat (max_portqs_supported l) < 2 ^ 31"
    using assms(1) by (simp_all add: list_ok_def)
  have r: "\<not> num_portqs l > max_portqs_supported l - 1" and up: "unat (num_portqs l + 1) = Suc (unat (num_portqs l))"
    using assms(2) by unat_arith+
  show sl: "portq_slots.slot l < length (portqs l)"
    using assms(1,2) portq_slots.has_slot [of l] by (simp add: list_ok_def portq_slots.used_def word_less_nat_alt)
  then show "portq_list_add q l = Inr ((0, Some (int (portq_slots.slot l))), l')"
    using r len b unfolding portq_list_add_def Let_def portq_slots.slot_def l'_def by (simp add: sint_small)
  show "list_ok l'"
    using assms(1,3) up portq_slots.put_used [OF sl, of q] sl by (simp add: list_ok_def portq_slots.used_def l'_def)
qed

lemma portq_live_get:
  assumes "portq_live pm epg g"
  shows "dao_portq_group_get pm epg = Inr (Some g)" and "portq_group_check_sanity (Some pm) epg = Inr 0"
    and "unat epg < length (portq_groups pm)"
proof -
  have "epg < max_portq_groups_supported pm" using assms by (auto simp: portq_live_def)
  then show l: "unat epg < length (portq_groups pm)" and g: "dao_portq_group_get pm epg = Inr (Some g)"
    using assms by (simp_all add: portq_live_def dao_portq_group_get_def word_less_nat_alt)
  show "portq_group_check_sanity (Some pm) epg = Inr 0"
    using assms g \<open>epg < max_portq_groups_supported pm\<close> by (auto simp: portq_group_check_sanity_def portq_live_def)
qed

lemma portq_live_list:
  assumes "portq_live pm epg g" and "core_id < pq_num_cores g"
  shows "portq_group_list_get g core_id = Inr (unat core_id)" and "unat core_id < length (core_portq_list g)"
    and "list_ok (core_portq_list g ! unat core_id)"
    and "dao_portq_group_list_get (Some pm) epg core_id = Inr (core_portq_list g ! unat core_id)"
proof -
  have ok: "portq_group_ok g" using assms(1) by (simp add: portq_live_def)
  then show l: "unat core_id < length (core_portq_list g)" using assms(2) by (simp add: portq_group_ok_def word_less_nat_alt)
  then show g: "portq_group_list_get g core_id = Inr (unat core_id)" using assms(2) by (simp add: portq_group_list_get_def)
  show "list_ok (core_portq_list g ! unat core_id)" using ok l by (simp add: portq_group_ok_def)
  show "dao_portq_group_list_get (Some pm) epg core_id = Inr (core_portq_list g ! unat core_id)"
    using g portq_live_get [OF assms(1)] by (simp add: dao_portq_group_list_get_def)
qed

definition portq_added :: "dao_portq_group_main \<Rightarrow> u32 \<Rightarrow> dao_portq_group \<Rightarrow> nat \<Rightarrow> dao_portq_list \<Rightarrow> dao_portq_group_main" where
  "portq_added pm epg g c l = pm\<lparr>portq_groups := (portq_groups pm)[unat epg := Some (g\<lparr>core_portq_list := (core_portq_list g)[c := l]\<rparr>)]\<rparr>"

lemma portq_added_live:
  assumes "portq_live pm epg g" and "list_ok l"
  shows "portq_live (portq_added pm epg g c l) epg (g\<lparr>core_portq_list := (core_portq_list g)[c := l]\<rparr>)"
proof -
  have "portq_group_ok (g\<lparr>core_portq_list := (core_portq_list g)[c := l]\<rparr>)"
    using assms set_update_subset_insert [of "core_portq_list g" c l] by (auto simp: portq_live_def portq_group_ok_def)
  then show ?thesis using assms(1) portq_live_get(3) [OF assms(1)] by (simp add: portq_live_def portq_added_def)
qed

lemma portq_added_other:
  assumes "portq_live pm epg g" and "(epg', c') \<noteq> (epg, c)" and "c < pq_num_cores g"
  shows "dao_portq_group_list_get (Some (portq_added pm epg g (unat c) l)) epg' c' = dao_portq_group_list_get (Some pm) epg' c'"
proof (cases "epg' = epg")
  case True
  then have "unat c' \<noteq> unat c" using assms(2) by (simp add: word_unat_eq_iff)
  moreover have "epg < max_portq_groups_supported pm" using assms(1) by (auto simp: portq_live_def)
  ultimately show ?thesis
    using True assms(1) portq_live_get [OF assms(1)]
    by (simp add: dao_portq_group_list_get_def dao_portq_group_get_def portq_added_def portq_group_list_get_def portq_live_def)
next
  case False
  then have "unat epg' \<noteq> unat epg" by (simp add: word_unat_eq_iff)
  then show ?thesis by (simp add: dao_portq_group_list_get_def dao_portq_group_get_def portq_added_def)
qed

section \<open>Iterating over the queues of a core\<close>

lemma foreach_portq_ok:
  assumes "portq_live pm epg g" and "core_id < pq_num_cores g" and "length (portqs (core_portq_list g ! unat core_id)) < n"
  shows "foreach_portq (Some pm) epg core_id n = Inr (used_from free_portq 0 (portqs (core_portq_list g ! unat core_id)))"
proof -
  let ?l = "core_portq_list g ! unat core_id"
  note l = portq_live_list [OF assms(1,2)]
  have len: "length (portqs ?l) = unat (max_portqs_supported ?l)" and b: "unat (max_portqs_supported ?l) < 2 ^ 31"
    using l(3) by (simp_all add: list_ok_def)
  have get: "dao_portq_group_portq_get_next (Some pm) epg core_id (int i - 1) =
      (let j = i + first_free (\<lambda>x. \<not> free_portq x) (drop i (portqs ?l))
       in Inr (if j < length (portqs ?l) then (int j, Some (portqs ?l ! j)) else (- 1, None)))" if "i \<le> length (portqs ?l)" for i
    using next_used_ok [OF that len b, of free_portq] unfolding dao_portq_group_portq_get_next_def l(4) by (simp add: len Let_def)
  have "foreach_loop (dao_portq_group_portq_get_next (Some pm) epg core_id) (\<lambda>x. \<not> free_portq x) (int 0 - 1) n =
      Inr (used_from free_portq 0 (portqs ?l))"
    by (rule foreach_loop_ok [OF get]) (use assms(3) in simp_all)
  then show ?thesis by (simp add: foreach_portq_def)
qed

section \<open>Layout\<close>

text \<open>The offset of the list of a core from the beginning of \<^verbatim>\<open>core_portq_list\<close>.\<close>

definition portq_list_offset :: "dao_portq_group \<Rightarrow> u32 \<Rightarrow> u64" where
  "portq_list_offset g core_id = ucast core_id * per_core_portq_list_size g"

lemma per_core_size:
  assumes "cl = 64 \<or> cl = 128"
  shows "unat cl + 8 * unat n \<le> unat (portq_per_core_sz cl n)" and "unat (portq_per_core_sz cl n) < 2 ^ 36"
proof -
  have "unat n < 2 ^ LENGTH(32)" by (rule unsigned_less)
  then have n: "unat n < 2 ^ 32" by simp
  have c: "unat cl \<le> 128" using assms by auto
  have u: "unat (ucast n :: u64) = unat n" by (simp add: unat_ucast_up)
  have m: "unat (8 * ucast n :: u64) = 8 * unat n" using unat_mult_small [of "8 :: u64" "ucast n"] n u by simp
  have s: "unat (cl + 8 * ucast n) = unat cl + 8 * unat n" using unat_add_small [of cl "8 * ucast n"] n c m by simp
  have b: "unat (cl + 8 * ucast n) < 2 ^ 56" using s n c by simp
  show "unat cl + 8 * unat n \<le> unat (portq_per_core_sz cl n)" and "unat (portq_per_core_sz cl n) < 2 ^ 36"
    using roundup_bounds [OF assms b] s n c by (simp_all add: portq_per_core_sz_def)
qed

lemma unat_offset:
  assumes "unat c \<le> 2 ^ 20" and "unat p < 2 ^ 36"
  shows "unat (ucast (c :: u32) * (p :: u64)) = unat c * unat p"
proof -
  have "unat c * unat p \<le> 2 ^ 20 * unat p" using assms(1) by (rule mult_le_mono1)
  also have "\<dots> < 2 ^ 64" using assms(2) by simp
  finally show ?thesis using unat_mult_small [of "ucast c :: u64" p] by (simp add: unat_ucast_up)
qed

section \<open>Properties\<close>

text \<open>C40: A queue added for a core takes the lowest free index of that core, and the iteration of that core then visits it at that index
  among the queues it visited before; the list of every other core and of every other group is the same as before.\<close>

theorem portq_add_isolated:
  assumes "portq_live pm epg g" and "core_id < pq_num_cores g"
    and "num_portqs (core_portq_list g ! unat core_id) < max_portqs_supported (core_portq_list g ! unat core_id)"
    and "port_id q \<noteq> DAO_PORTQ_INVALID_VALUE" and "length (portqs (core_portq_list g ! unat core_id)) < n"
  shows "\<exists>i pm'. dao_portq_group_portq_add (Some pm) epg core_id (Some q) = Inr ((0, Some (int i)), Some pm') \<and>
    i = first_free free_portq (portqs (core_portq_list g ! unat core_id)) \<and>
    foreach_portq (Some pm') epg core_id n = Inr (used_from free_portq 0 ((portqs (core_portq_list g ! unat core_id))[i := q])) \<and>
    (\<forall>epg' c'. (epg', c') \<noteq> (epg, core_id) \<longrightarrow>
       dao_portq_group_list_get (Some pm') epg' c' = dao_portq_group_list_get (Some pm) epg' c')"
proof -
  let ?l = "core_portq_list g ! unat core_id"
  note l = portq_live_list [OF assms(1,2)] and get = portq_live_get [OF assms(1)]
  note add = portq_list_add_ok [OF l(3) assms(3,4)]
  let ?l' = "?l\<lparr>portqs := (portqs ?l)[portq_slots.slot ?l := q], num_portqs := num_portqs ?l + 1\<rparr>"
  let ?pm = "portq_added pm epg g (unat core_id) ?l'"
  have a: "dao_portq_group_portq_add (Some pm) epg core_id (Some q) = Inr ((0, Some (int (portq_slots.slot ?l))), Some ?pm)"
    using assms(2) get l(1) add(1) by (simp add: dao_portq_group_portq_add_def portq_added_def not_le)
  have lv: "portq_live ?pm epg (g\<lparr>core_portq_list := (core_portq_list g)[unat core_id := ?l']\<rparr>)"
    by (rule portq_added_live [OF assms(1) add(2)])
  have "foreach_portq (Some ?pm) epg core_id n = Inr (used_from free_portq 0 ((portqs ?l)[portq_slots.slot ?l := q]))"
    using foreach_portq_ok [OF lv, of core_id n] assms(2,5) l(2) by simp
  then show ?thesis
    using a portq_added_other [OF assms(1) _ assms(2), of _ _ ?l']
    by (intro exI [of _ "portq_slots.slot ?l"] exI [of _ ?pm]) (simp add: portq_slots.slot_def)
qed

definition sample_portq_main :: dao_portq_group_main where
  "sample_portq_main = \<lparr>portq_main_addr = 4096, num_portq_groups = 1, max_portq_groups_supported = 8,
     portq_groups = [Some \<lparr>portq_group_name = ''eth'', pq_num_cores = 1, portq_group_index = 0, per_core_portq_list_size = 128,
       portq_back_main = 4096, core_portq_list = [empty_list 2]\<rparr>, None, None, None, None, None, None, None]\<rparr>"

lemma empty_list_ok: "0 < n \<Longrightarrow> unat n < 2 ^ 31 \<Longrightarrow> list_ok (empty_list n)"
  by (simp add: list_ok_def empty_list_def occupied_replicate)

theorem portq_add_isolated_witness:
  "\<exists>i pm'. dao_portq_group_portq_add (Some sample_portq_main) 0 0 (Some \<lparr>rq_id = 1, port_id = 5\<rparr>) = Inr ((0, Some (int i)), Some pm') \<and>
    foreach_portq (Some pm') 0 0 3 = Inr [(0, \<lparr>rq_id = 1, port_id = 5\<rparr>)]"
proof -
  define g where "g = \<lparr>portq_group_name = ''eth'', pq_num_cores = 1, portq_group_index = 0, per_core_portq_list_size = 128,
       portq_back_main = 4096, core_portq_list = [empty_list 2]\<rparr>"
  have lv: "portq_live sample_portq_main 0 g"
    using empty_list_ok [of 2] by (simp add: portq_live_def sample_portq_main_def g_def portq_group_ok_def)
  have p: "portqs (core_portq_list g ! unat 0) = [\<lparr>rq_id = 0, port_id = DAO_PORTQ_INVALID_VALUE\<rparr>, \<lparr>rq_id = 0, port_id = DAO_PORTQ_INVALID_VALUE\<rparr>]"
    by (simp add: g_def empty_list_def replicate_two)
  let ?q = "\<lparr>rq_id = 1, port_id = 5\<rparr>"
  have h: "0 < pq_num_cores g" "num_portqs (core_portq_list g ! unat 0) < max_portqs_supported (core_portq_list g ! unat 0)"
    "port_id ?q \<noteq> DAO_PORTQ_INVALID_VALUE" "length (portqs (core_portq_list g ! unat 0)) < 3"
    by (simp_all add: g_def empty_list_def DAO_PORTQ_INVALID_VALUE_def)
  have u: "used_from free_portq 0 [?q, \<lparr>rq_id = 0, port_id = DAO_PORTQ_INVALID_VALUE\<rparr>] = [(0, ?q)]"
    using h(3) by (simp add: used_from_def upt_rec)
  obtain i pm' where "dao_portq_group_portq_add (Some sample_portq_main) 0 0 (Some ?q) = Inr ((0, Some (int i)), Some pm')"
    and "i = 0" and "foreach_portq (Some pm') 0 0 3 = Inr (used_from free_portq 0 ([\<lparr>rq_id = 0, port_id = DAO_PORTQ_INVALID_VALUE\<rparr>,
      \<lparr>rq_id = 0, port_id = DAO_PORTQ_INVALID_VALUE\<rparr>][i := ?q]))"
    using portq_add_isolated [OF lv h] unfolding p by auto
  then show ?thesis using u by auto
qed

text \<open>The lists of the cores of a group do not overlap: with up to a million cores, the header and the entries of a core end before
  the list of the next core begins, and the last list ends inside of the block the group was allocated with.\<close>

theorem portq_lists_disjoint:
  assumes "cl = 64 \<or> cl = 128" and "per_core_portq_list_size g = portq_per_core_sz cl n" and "unat cores \<le> 2 ^ 20"
    and "i < j" and "j < cores"
  shows "unat (portq_list_offset g i) + 8 + 8 * unat n \<le> unat (portq_list_offset g j) \<and>
    unat (DAO_ROUNDUP 88 cl) + unat (portq_list_offset g j) + 8 + 8 * unat n \<le> unat (portq_group_sz cl cores n)"
proof -
  let ?p = "portq_per_core_sz cl n"
  note p = per_core_size [OF assms(1), of n]
  have ij: "unat i < unat j" "unat j < unat cores" using assms(4,5) by (simp_all add: word_less_nat_alt)
  have o: "unat (portq_list_offset g i) = unat i * unat ?p" "unat (portq_list_offset g j) = unat j * unat ?p"
    "unat (?p * ucast cores) = unat cores * unat ?p"
    using unat_offset [OF _ p(2)] ij assms(2,3) by (simp_all add: portq_list_offset_def mult.commute [of ?p])
  have le: "unat i * unat ?p + unat ?p \<le> unat j * unat ?p" "unat j * unat ?p + unat ?p \<le> unat cores * unat ?p"
    using ij mult_le_mono1 [of "Suc (unat i)" "unat j" "unat ?p"] mult_le_mono1 [of "Suc (unat j)" "unat cores" "unat ?p"] by simp_all
  have r: "unat (DAO_ROUNDUP 88 cl) \<le> 256" using assms(1) by (auto simp: DAO_ROUNDUP_def)
  have "unat cores * unat ?p \<le> 2 ^ 20 * 2 ^ 36" using assms(3) p(2) by (intro mult_le_mono) simp_all
  then have t: "unat (portq_group_sz cl cores n) = unat (DAO_ROUNDUP 88 cl) + unat cores * unat ?p"
    using unat_add_small [of "DAO_ROUNDUP 88 cl" "?p * ucast cores"] r o(3) by (simp add: portq_group_sz_def)
  have h: "8 + 8 * unat n \<le> unat ?p" using p(1) assms(1) by auto
  show ?thesis unfolding o t using le h by linarith
qed

theorem portq_lists_disjoint_witness:
  "unat (portq_list_offset \<lparr>portq_group_name = [], pq_num_cores = 2, portq_group_index = 0,
       per_core_portq_list_size = portq_per_core_sz 64 3, portq_back_main = 0, core_portq_list = []\<rparr> 0) + 8 + 8 * 3 \<le>
   unat (portq_list_offset \<lparr>portq_group_name = [], pq_num_cores = 2, portq_group_index = 0,
       per_core_portq_list_size = portq_per_core_sz 64 3, portq_back_main = 0, core_portq_list = []\<rparr> 1)"
  using portq_lists_disjoint [of 64 "\<lparr>portq_group_name = [], pq_num_cores = 2, portq_group_index = 0,
       per_core_portq_list_size = portq_per_core_sz 64 3, portq_back_main = 0, core_portq_list = []\<rparr>" 3 2 0 1] by simp

end
