(* ===== verification/Workers.thy ===== *)
theory Workers
  imports Util
begin

text \<open>
  The worker cores of \<^verbatim>\<open>lib/workers\<close>: \<^verbatim>\<open>dao_workers_init\<close> with the table of workers it lays out behind
  \<^verbatim>\<open>dao_workers_main_t\<close>, and the lookups of \<^verbatim>\<open>dao_workers.h\<close>.  A pointer to a worker is its byte offset from the
  beginning of the array \<^verbatim>\<open>workers[]\<close>; reading through an offset at which no worker begins is a fault.  The lcore
  functions of DPDK, its cache line size and its bound on lcores are parameters.
\<close>

section \<open>Data\<close>

definition DAO_WORKER_INVALID_INDEX :: u32 where "DAO_WORKER_INVALID_INDEX = NOT 0"

definition LCORE_ID_ANY :: u32 where "LCORE_ID_ANY = 0xffffffff"

record lcore_ops =
  rte_lcore_is_enabled :: "nat \<Rightarrow> bool"
  rte_lcore_to_cpu_id :: "nat \<Rightarrow> int"
  rte_lcore_index :: "nat \<Rightarrow> int"
  rte_lcore_to_socket_id :: "nat \<Rightarrow> int"
  rte_popcount64 :: "u64 \<Rightarrow> u64"
  RTE_MAX_LCORE :: nat
  RTE_CACHE_LINE_SIZE :: u64

record dao_worker =
  dpdk_lcore_id :: u32
  dpdk_cpu_id :: int
  dpdk_core_index :: int
  worker_index :: u32
  core_index :: u32
  dpdk_numa_id :: int
  is_main :: int
  back_workers :: u64
  app_private_size :: u64

record dao_workers_main =
  wm_addr :: u64
  num_cores :: u16
  num_workers :: u16
  core_mask :: u64
  control_core_index :: u32
  per_worker_sz :: u64
  workers_main_sz :: u64
  barrier_recursion_level :: int
  parked_at_barrier :: u64
  barrier_count :: u64
  workers :: "dao_worker list"

definition zero_worker :: dao_worker where
  "zero_worker = \<lparr>dpdk_lcore_id = 0, dpdk_cpu_id = 0, dpdk_core_index = 0, worker_index = 0, core_index = 0, dpdk_numa_id = 0,
     is_main = 0, back_workers = 0, app_private_size = 0\<rparr>"

text \<open>The sizes of the two structures: 48 bytes of members up to the aligned private area of a worker, and the three cache
  lines in front of \<^verbatim>\<open>workers[]\<close>.\<close>

definition sizeof_dao_worker :: "lcore_ops \<Rightarrow> u64" where
  "sizeof_dao_worker ops = DAO_ROUNDUP 48 (RTE_CACHE_LINE_SIZE ops)"

definition sizeof_dao_workers_main :: "lcore_ops \<Rightarrow> u64" where
  "sizeof_dao_workers_main ops = 3 * RTE_CACHE_LINE_SIZE ops"

section \<open>Lookups\<close>

definition dao_workers_worker_get :: "dao_workers_main option \<Rightarrow> u8 \<Rightarrow> fault + u64" where
  "dao_workers_worker_get dwm i =
     (case dwm of
        None \<Rightarrow> Inl VerifyPanic
      | Some m \<Rightarrow> if ucast i \<le> num_workers m then Inr (ucast i * per_worker_sz m) else Inl VerifyPanic)"

text \<open>The worker a pointer points to.\<close>

definition worker_slot :: "dao_workers_main \<Rightarrow> u64 \<Rightarrow> fault + nat" where
  "worker_slot m off =
     (if off mod per_worker_sz m = 0 \<and> unat (off div per_worker_sz m) < length (workers m)
      then Inr (unat (off div per_worker_sz m)) else Inl OutOfBounds)"

definition load_worker :: "dao_workers_main \<Rightarrow> u64 \<Rightarrow> fault + dao_worker" where
  "load_worker m off = rbind (worker_slot m off) (\<lambda>i. Inr (workers m ! i))"

definition store_worker :: "dao_workers_main \<Rightarrow> u64 \<Rightarrow> dao_worker \<Rightarrow> fault + dao_workers_main" where
  "store_worker m off w = rbind (worker_slot m off) (\<lambda>i. Inr (m\<lparr>workers := (workers m)[i := w]\<rparr>))"

definition dao_workers_app_data_get :: "dao_worker option \<Rightarrow> int \<times> u64 option" where
  "dao_workers_app_data_get wrkr = (case wrkr of None \<Rightarrow> (- 1, None) | Some w \<Rightarrow> (0, Some (app_private_size w)))"

definition dao_workers_core_index_get :: "dao_worker \<Rightarrow> int" where
  "dao_workers_core_index_get w = sint (core_index w)"

definition dao_workers_worker_index_get :: "dao_worker \<Rightarrow> int" where
  "dao_workers_worker_index_get w = sint (worker_index w)"

definition dao_workers_numa_get :: "dao_worker \<Rightarrow> int" where
  "dao_workers_numa_get w = dpdk_numa_id w"

definition dao_workers_is_control_worker :: "dao_worker \<Rightarrow> int" where
  "dao_workers_is_control_worker w = is_main w"

text \<open>The pointer arithmetic of \<^verbatim>\<open>dao_workers_control_worker_get\<close> steps over elements of the declared type.\<close>

definition dao_workers_control_worker_get :: "lcore_ops \<Rightarrow> dao_workers_main option \<Rightarrow> u64 option" where
  "dao_workers_control_worker_get ops dwm =
     (case dwm of
        None \<Rightarrow> None
      | Some m \<Rightarrow> if control_core_index m \<noteq> DAO_WORKER_INVALID_INDEX
                  then Some (ucast (control_core_index m) * sizeof_dao_worker ops) else None)"

definition dao_workers_num_workers_get :: "dao_workers_main \<Rightarrow> int" where
  "dao_workers_num_workers_get m = uint (num_workers m)"

definition dao_workers_num_cores_get :: "dao_workers_main \<Rightarrow> int" where
  "dao_workers_num_cores_get m = uint (num_cores m)"

text \<open>The loop of \<^verbatim>\<open>dao_workers_self_worker_get\<close> over the remaining indices; the result is the index it stops at.\<close>

fun self_loop :: "dao_workers_main \<Rightarrow> u32 \<Rightarrow> nat list \<Rightarrow> fault + nat option" where
  "self_loop m lcore_id [] = Inr None"
| "self_loop m lcore_id (i # is) =
     rbind (dao_workers_worker_get (Some m) (of_nat i)) (\<lambda>off.
     rbind (load_worker m off) (\<lambda>w.
       if core_index w \<noteq> of_nat i then Inl AssertFailed
       else if wm_addr m \<noteq> back_workers w then Inl AssertFailed
       else if dpdk_lcore_id w \<noteq> lcore_id then self_loop m lcore_id is
       else if LCORE_ID_ANY = lcore_id then self_loop m lcore_id is
       else Inr (Some i)))"

definition dao_workers_self_worker_get :: "dao_workers_main option \<Rightarrow> u32 \<Rightarrow> fault + u64 option" where
  "dao_workers_self_worker_get wm lcore_id =
     (case wm of
        None \<Rightarrow> Inl WildPointer
      | Some m \<Rightarrow>
          rbind (self_loop m lcore_id [0..<unat (num_cores m)]) (\<lambda>i.
            case i of
              None \<Rightarrow> Inr None
            | Some i \<Rightarrow> rbind (dao_workers_worker_get (Some m) (of_nat i)) (\<lambda>off. Inr (Some off))))"

section \<open>Initialisation\<close>

text \<open>The loop of \<^verbatim>\<open>dao_workers_init\<close> over the remaining lcores, with the counters \<open>j\<close> of cores and \<open>k\<close> of workers.
  The shift of \<^verbatim>\<open>RTE_BIT64\<close> is undefined from 64 on.\<close>

fun init_lcores ::
  "lcore_ops \<Rightarrow> u64 \<Rightarrow> u32 \<Rightarrow> u64 \<Rightarrow> nat list \<Rightarrow> dao_workers_main \<Rightarrow> nat \<Rightarrow> nat \<Rightarrow> fault + dao_workers_main \<times> nat \<times> nat" where
  "init_lcores ops cmask control app [] m j k = Inr (m, j, k)"
| "init_lcores ops cmask control app (i # is) m j k =
     (if \<not> rte_lcore_is_enabled ops i then init_lcores ops cmask control app is m j k
      else if 64 \<le> i then Inl BadShift
      else if RTE_BIT64 i AND cmask = 0 then init_lcores ops cmask control app is m j k
      else
        rbind (dao_workers_worker_get (Some m) (of_nat j)) (\<lambda>off.
          let w = zero_worker\<lparr>dpdk_lcore_id := of_nat i, dpdk_cpu_id := rte_lcore_to_cpu_id ops i,
                    dpdk_core_index := rte_lcore_index ops i, dpdk_numa_id := rte_lcore_to_socket_id ops i,
                    back_workers := wm_addr m, core_index := of_nat j, app_private_size := app\<rparr>
          in if (of_nat i :: u64) = ucast control
             then rbind (store_worker m off (w\<lparr>is_main := 1, worker_index := DAO_WORKER_INVALID_INDEX\<rparr>)) (\<lambda>m.
                    init_lcores ops cmask control app is (m\<lparr>control_core_index := of_nat j\<rparr>) (Suc j) k)
             else rbind (store_worker m off (w\<lparr>worker_index := of_nat k, is_main := 0\<rparr>)) (\<lambda>m.
                    init_lcores ops cmask control app is m (Suc j) (Suc k))))"

text \<open>\<open>heap\<close> is the address \<^verbatim>\<open>malloc\<close> returns; the block has room for one worker per bit of the mask.\<close>

definition dao_workers_init ::
  "lcore_ops \<Rightarrow> u64 option \<Rightarrow> u64 \<Rightarrow> u32 \<Rightarrow> u64 \<Rightarrow> dao_workers_main option \<Rightarrow> fault + int \<times> dao_workers_main option" where
  "dao_workers_init ops heap cmask control app st =
     (let num_bits = rte_popcount64 ops cmask
      in if num_bits = 0 then Inr (- 1, st)
         else if st \<noteq> None then Inr (- 1, st)
         else if control \<noteq> DAO_WORKER_INVALID_INDEX \<and> 64 \<le> unat control then Inl BadShift
         else if control \<noteq> DAO_WORKER_INVALID_INDEX \<and> RTE_BIT64 (unat control) AND cmask = 0 then Inr (- 1, st)
         else
           let worker_sz = sizeof_dao_worker ops + DAO_ROUNDUP app (RTE_CACHE_LINE_SIZE ops);
               total_sz = sizeof_dao_workers_main ops + num_bits * worker_sz
           in case heap of
                None \<Rightarrow> Inr (- 1, st)
              | Some a \<Rightarrow>
                  let m = \<lparr>wm_addr = a, num_cores = ucast num_bits, num_workers = ucast num_bits, core_mask = cmask,
                           control_core_index = control, per_worker_sz = worker_sz, workers_main_sz = total_sz,
                           barrier_recursion_level = 0, parked_at_barrier = 0, barrier_count = 0,
                           workers = replicate (unat num_bits) zero_worker\<rparr>
                  in rbind (init_lcores ops cmask control app [0..<RTE_MAX_LCORE ops] m 0 0) (\<lambda>(m, j, k).
                       Inr (0, Some (m\<lparr>num_workers := of_nat k\<rparr>))))"

definition dao_workers_fini :: "dao_workers_main option \<Rightarrow> int \<times> dao_workers_main option" where
  "dao_workers_fini st = (case st of None \<Rightarrow> (- 1, None) | Some m \<Rightarrow> (0, None))"

end
