(* ===== verification/Workers_Facts.thy ===== *)
theory Workers_Facts
  imports Workers
begin

text \<open>
  The table \<^verbatim>\<open>dao_workers_init\<close> builds: one worker per bit of the core mask in the order of the bits, the control core
  marked, the others numbered; and what the lookups find in it.
\<close>

section \<open>Sizes and offsets\<close>

text \<open>What the code relies on: the lcores of the mask exist, \<^verbatim>\<open>rte_popcount64\<close> counts bits, a cache line has 64 or 128 bytes.\<close>

definition cores :: "u64 \<Rightarrow> nat list" where
  "cores cmask = filter (bit cmask) [0..<64]"

definition lcores_ok :: "lcore_ops \<Rightarrow> u64 \<Rightarrow> bool" where
  "lcores_ok ops cmask \<longleftrightarrow> RTE_MAX_LCORE ops \<le> 64 \<and> (\<forall>i < 64. bit cmask i \<longrightarrow> i < RTE_MAX_LCORE ops \<and> rte_lcore_is_enabled ops i) \<and>
     rte_popcount64 ops cmask = of_nat (length (cores cmask)) \<and> (RTE_CACHE_LINE_SIZE ops = 64 \<or> RTE_CACHE_LINE_SIZE ops = 128)"

lemma cores_length: "length (cores cmask) \<le> 64"
  unfolding cores_def by (rule order_trans [OF length_filter_le]) simp

lemma cores_distinct: "distinct (cores cmask)"
  by (simp add: cores_def)

lemma cores_less: "i \<in> set (cores cmask) \<Longrightarrow> i < 64"
  by (auto simp: cores_def)

lemma test_bit: "i < 64 \<Longrightarrow> RTE_BIT64 i AND w = 0 \<longleftrightarrow> \<not> bit w i"
proof
  assume i: "i < 64" and z: "RTE_BIT64 i AND w = 0"
  show "\<not> bit w i"
  proof
    assume "bit w i"
    then have "bit (RTE_BIT64 i AND w) i" using i by (simp add: bit_and_iff bit_BIT64)
    then show False using z by simp
  qed
next
  assume "i < 64" and "\<not> bit w i"
  then show "RTE_BIT64 i AND w = 0" by (intro bit_word_eqI) (auto simp: bit_and_iff bit_BIT64)
qed

text \<open>The shape the offsets rely on: at most 64 workers of a size that does not overflow.\<close>

definition table_ok :: "dao_workers_main \<Rightarrow> bool" where
  "table_ok m \<longleftrightarrow> 0 < per_worker_sz m \<and> unat (per_worker_sz m) < 2 ^ 57 \<and> length (workers m) \<le> 64"

lemma offset_slot:
  assumes "table_ok m" and "i < length (workers m)"
  shows "worker_slot m (of_nat i * per_worker_sz m) = Inr i"
proof -
  let ?p = "per_worker_sz m"
  have "i < 64" using assms by (simp add: table_ok_def)
  then have i: "unat (of_nat i :: u64) = i" by (simp add: unat_of_nat)
  have p: "0 < unat ?p" using assms(1) by (simp add: table_ok_def unat_gt_0 word_neq_0_conv)
  have "i * unat ?p < 2 ^ 64"
  proof -
    have "i * unat ?p \<le> 64 * unat ?p" using assms by (intro mult_le_mono1) (simp add: table_ok_def)
    also have "\<dots> < 2 ^ 64" using assms(1) by (simp add: table_ok_def)
    finally show ?thesis .
  qed
  then have o: "unat (of_nat i * ?p) = i * unat ?p" using unat_mult_small [of "of_nat i :: u64" ?p] i by simp
  have "unat (of_nat i * ?p div ?p) = i" using o p by (simp add: unat_div)
  moreover have "of_nat i * ?p mod ?p = 0" using o by (metis mod_mult_self2_is_0 unat_eq_zero unat_mod_distrib)
  ultimately show ?thesis using assms(2) by (simp add: worker_slot_def)
qed

lemma worker_get_ok:
  assumes "i \<le> unat (num_workers m)" and "i < 256"
  shows "dao_workers_worker_get (Some m) (of_nat i) = Inr (of_nat i * per_worker_sz m)"
proof -
  have u: "unat (of_nat i :: u8) = i" using assms(2) by (simp add: unat_of_nat)
  have "unat (ucast (of_nat i :: u8) :: u16) = i" using u by (simp add: unat_ucast_up)
  moreover have "ucast (of_nat i :: u8) = (of_nat i :: u64)"
    using assms(2) by (simp add: unsigned_of_nat take_bit_nat_eq_self)
  ultimately
  show ?thesis using assms(1) by (simp add: dao_workers_worker_get_def word_le_nat_alt)
qed

section \<open>The table after initialisation\<close>

text \<open>The workers for a list of lcores, with the first core and worker number to use.\<close>

definition base_worker :: "lcore_ops \<Rightarrow> u64 \<Rightarrow> u64 \<Rightarrow> nat \<Rightarrow> nat \<Rightarrow> dao_worker" where
  "base_worker ops a app i j = zero_worker\<lparr>dpdk_lcore_id := of_nat i, dpdk_cpu_id := rte_lcore_to_cpu_id ops i,
     dpdk_core_index := rte_lcore_index ops i, dpdk_numa_id := rte_lcore_to_socket_id ops i,
     back_workers := a, core_index := of_nat j, app_private_size := app\<rparr>"

fun assign :: "lcore_ops \<Rightarrow> u64 \<Rightarrow> u64 \<Rightarrow> u32 \<Rightarrow> nat list \<Rightarrow> nat \<Rightarrow> nat \<Rightarrow> dao_worker list" where
  "assign ops a app control [] j k = []"
| "assign ops a app control (i # is) j k =
     (if i = unat control
      then (base_worker ops a app i j)\<lparr>is_main := 1, worker_index := DAO_WORKER_INVALID_INDEX\<rparr> # assign ops a app control is (Suc j) k
      else (base_worker ops a app i j)\<lparr>worker_index := of_nat k, is_main := 0\<rparr> # assign ops a app control is (Suc j) (Suc k))"

lemma assign_length [simp]: "length (assign ops a app control is j k) = length is"
  by (induction ops a app control "is" j k rule: assign.induct) auto

lemma assign_nth:
  assumes "n < length is"
  shows "core_index (assign ops a app control is j k ! n) = of_nat (j + n)"
    and "dpdk_lcore_id (assign ops a app control is j k ! n) = of_nat (is ! n)"
    and "back_workers (assign ops a app control is j k ! n) = a"
    and "app_private_size (assign ops a app control is j k ! n) = app"
    and "is_main (assign ops a app control is j k ! n) = (if is ! n = unat control then 1 else 0)"
    and "worker_index (assign ops a app control is j k ! n) =
      (if is ! n = unat control then DAO_WORKER_INVALID_INDEX
       else of_nat (k + length (filter (\<lambda>i. i \<noteq> unat control) (take n is))))"
  using assms
  by (induction ops a app control "is" j k arbitrary: n rule: assign.induct)
    (auto simp: nth_Cons base_worker_def zero_worker_def split: nat.splits)

definition control_slot :: "u32 \<Rightarrow> nat list \<Rightarrow> nat \<Rightarrow> u32 \<Rightarrow> u32" where
  "control_slot control is j c = (if unat control \<in> set is then of_nat (j + first_free (\<lambda>i. i = unat control) is) else c)"

lemma store_ok:
  assumes "table_ok m" and "j < length (workers m)" and "length (workers m) \<le> unat (num_workers m)"
  shows "\<exists>off. dao_workers_worker_get (Some m) (of_nat j) = Inr off \<and>
    store_worker m off w = Inr (m\<lparr>workers := (workers m)[j := w]\<rparr>)"
proof -
  have "dao_workers_worker_get (Some m) (of_nat j) = Inr (of_nat j * per_worker_sz m)"
    by (rule worker_get_ok) (use assms in \<open>auto simp: table_ok_def\<close>)
  then show ?thesis using offset_slot [OF assms(1,2)] by (simp add: store_worker_def)
qed

lemma init_lcores_ok:
  assumes "table_ok m" and "length (workers m) \<le> unat (num_workers m)" and "\<forall>i \<in> set is. i < 64 \<and> (bit cmask i \<longrightarrow> rte_lcore_is_enabled ops i)"
    and "j + length (filter (bit cmask) is) \<le> length (workers m)" and "distinct is"
  defines "cs \<equiv> filter (bit cmask) is"
  shows "init_lcores ops cmask control app is m j k =
    Inr (m\<lparr>workers := take j (workers m) @ assign ops (wm_addr m) app control cs j k @ drop (j + length cs) (workers m),
           control_core_index := control_slot control cs j (control_core_index m)\<rparr>,
         j + length cs, k + length (filter (\<lambda>i. i \<noteq> unat control) cs))"
  using assms(1-5) unfolding cs_def
proof (induction "is" arbitrary: m j k)
  case Nil
  then show ?case by (simp add: control_slot_def)
next
  case (Cons i ls)
  show ?case
  proof (cases "bit cmask i")
    case False
    then show ?thesis using Cons by (auto simp: test_bit)
  next
    case True
    have i: "i < 64" "rte_lcore_is_enabled ops i" "RTE_BIT64 i AND cmask \<noteq> 0" using Cons(4) True by (auto simp: test_bit)
    have j: "j < length (workers m)" using Cons(5) True by simp
    have eq: "(of_nat i :: u64) = ucast control \<longleftrightarrow> i = unat control"
    proof -
      have "unat (of_nat i :: u64) = i" using i(1) by (simp add: unat_of_nat)
      moreover have "unat (ucast control :: u64) = unat control" by (simp add: unat_ucast_up)
      ultimately show ?thesis by (metis word_unat_eq_iff)
    qed
    let ?w = "if i = unat control
      then (base_worker ops (wm_addr m) app i j)\<lparr>is_main := 1, worker_index := DAO_WORKER_INVALID_INDEX\<rparr>
      else (base_worker ops (wm_addr m) app i j)\<lparr>worker_index := of_nat k, is_main := 0\<rparr>"
    let ?m = "m\<lparr>workers := (workers m)[j := ?w], control_core_index := if i = unat control then of_nat j else control_core_index m\<rparr>"
    from store_ok [OF Cons(2) j Cons(3), of ?w] obtain off where off: "dao_workers_worker_get (Some m) (of_nat j) = Inr off"
      "store_worker m off ?w = Inr (m\<lparr>workers := (workers m)[j := ?w]\<rparr>)" by blast
    have step: "init_lcores ops cmask control app (i # ls) m j k =
        init_lcores ops cmask control app ls ?m (Suc j) (if i = unat control then k else Suc k)"
      using i off eq by (simp add: Let_def base_worker_def split: if_splits)
    have IH: "init_lcores ops cmask control app ls ?m (Suc j) k' =
        Inr (?m\<lparr>workers := take (Suc j) (workers ?m) @ assign ops (wm_addr ?m) app control (filter (bit cmask) ls) (Suc j) k' @
                 drop (Suc j + length (filter (bit cmask) ls)) (workers ?m),
               control_core_index := control_slot control (filter (bit cmask) ls) (Suc j) (control_core_index ?m)\<rparr>,
             Suc j + length (filter (bit cmask) ls), k' + length (filter (\<lambda>i. i \<noteq> unat control) (filter (bit cmask) ls)))" for k'
      by (rule Cons(1)) (use Cons(2-6) True in \<open>auto simp: table_ok_def\<close>)
    have t: "take (Suc j) ((workers m)[j := ?w]) = take j (workers m) @ [?w]" using j by (simp add: take_Suc_conv_app_nth)
    have c: "control_slot control (filter (bit cmask) ls) (Suc j) (if i = unat control then of_nat j else control_core_index m) =
        control_slot control (filter (bit cmask) (i # ls)) j (control_core_index m)"
      using True Cons(6) by (auto simp: control_slot_def)
    show ?thesis
      unfolding step IH using True c t by (auto simp: drop_update_cancel)
  qed
qed

end
