(* ===== verification/Workers_Props.thy ===== *)
theory Workers_Props
  imports Workers_Facts
begin

text \<open>
  The initialisation of the workers end to end: the table it publishes, that every core finds its own entry in it, and where
  the lookup of the control core looks.
\<close>

section \<open>The published table\<close>

definition init_main :: "lcore_ops \<Rightarrow> u64 \<Rightarrow> u64 \<Rightarrow> u32 \<Rightarrow> u64 \<Rightarrow> dao_workers_main" where
  "init_main ops a cmask control app =
     (let n = of_nat (length (cores cmask)); sz = sizeof_dao_worker ops + DAO_ROUNDUP app (RTE_CACHE_LINE_SIZE ops)
      in \<lparr>wm_addr = a, num_cores = of_nat (length (cores cmask)),
          num_workers = of_nat (length (filter (\<lambda>i. i \<noteq> unat control) (cores cmask))), core_mask = cmask,
          control_core_index = control_slot control (cores cmask) 0 control, per_worker_sz = sz,
          workers_main_sz = sizeof_dao_workers_main ops + n * sz,
          barrier_recursion_level = 0, parked_at_barrier = 0, barrier_count = 0,
          workers = assign ops a app control (cores cmask) 0 0\<rparr>)"

lemma worker_size:
  assumes "RTE_CACHE_LINE_SIZE ops = 64 \<or> RTE_CACHE_LINE_SIZE ops = 128" and "unat app < 2 ^ 56"
  shows "unat (sizeof_dao_worker ops + DAO_ROUNDUP app (RTE_CACHE_LINE_SIZE ops)) =
      unat (sizeof_dao_worker ops) + unat (DAO_ROUNDUP app (RTE_CACHE_LINE_SIZE ops))"
    and "0 < unat (sizeof_dao_worker ops)" and "unat (sizeof_dao_worker ops) \<le> 128"
    and "unat (DAO_ROUNDUP app (RTE_CACHE_LINE_SIZE ops)) < 2 ^ 56 + 128"
proof -
  have s: "unat (sizeof_dao_worker ops) = 64 \<or> unat (sizeof_dao_worker ops) = 128"
    using assms(1) by (auto simp: sizeof_dao_worker_def DAO_ROUNDUP_def)
  then show "0 < unat (sizeof_dao_worker ops)" and l: "unat (sizeof_dao_worker ops) \<le> 128" by auto
  show r: "unat (DAO_ROUNDUP app (RTE_CACHE_LINE_SIZE ops)) < 2 ^ 56 + 128"
    using roundup_bounds(2) [OF assms] assms by auto
  have "unat (sizeof_dao_worker ops) + unat (DAO_ROUNDUP app (RTE_CACHE_LINE_SIZE ops)) < 2 ^ LENGTH(64)"
    using l r by simp
  then show "unat (sizeof_dao_worker ops + DAO_ROUNDUP app (RTE_CACHE_LINE_SIZE ops)) =
      unat (sizeof_dao_worker ops) + unat (DAO_ROUNDUP app (RTE_CACHE_LINE_SIZE ops))"
    by (rule unat_add_small)
qed

lemma cores_filter: "lcores_ok ops cmask \<Longrightarrow> filter (bit cmask) [0..<RTE_MAX_LCORE ops] = cores cmask"
proof -
  assume ok: "lcores_ok ops cmask"
  then have "[0..<64] = [0..<RTE_MAX_LCORE ops] @ [RTE_MAX_LCORE ops..<64]"
    by (metis lcores_ok_def le_add_diff_inverse upt_add_eq_append zero_le)
  moreover have "filter (bit cmask) [RTE_MAX_LCORE ops..<64] = []"
    using ok by (auto simp: lcores_ok_def filter_empty_conv)
  ultimately show ?thesis by (simp add: cores_def)
qed

definition control_ok :: "u64 \<Rightarrow> u32 \<Rightarrow> bool" where
  "control_ok cmask control \<longleftrightarrow> control = DAO_WORKER_INVALID_INDEX \<or> (unat control < 64 \<and> bit cmask (unat control))"

lemma init_main_table:
  assumes "lcores_ok ops cmask" and "unat app < 2 ^ 56"
  shows "table_ok (init_main ops a cmask control app)"
proof -
  have c: "RTE_CACHE_LINE_SIZE ops = 64 \<or> RTE_CACHE_LINE_SIZE ops = 128" using assms(1) by (simp add: lcores_ok_def)
  let ?p = "sizeof_dao_worker ops + DAO_ROUNDUP app (RTE_CACHE_LINE_SIZE ops)"
  have p: "0 < unat ?p" "unat ?p < 2 ^ 57" using worker_size [OF c assms(2)] by simp_all
  have "0 < ?p" using p(1) by (simp add: word_less_nat_alt)
  then show ?thesis using p(2) cores_length [of cmask] by (simp add: table_ok_def init_main_def Let_def)
qed

lemma init_main_ok:
  assumes "lcores_ok ops cmask" and "cmask \<noteq> 0" and "control_ok cmask control" and "unat app < 2 ^ 56"
  shows "dao_workers_init ops (Some a) cmask control app None = Inr (0, Some (init_main ops a cmask control app))"
proof -
  let ?n = "length (cores cmask)"
  let ?m = "(init_main ops a cmask control app)\<lparr>num_workers := of_nat ?n, control_core_index := control,
     workers := replicate ?n zero_worker\<rparr>"
  have n: "unat (of_nat ?n :: u64) = ?n" "unat (of_nat ?n :: u16) = ?n" "ucast (of_nat ?n :: u64) = (of_nat ?n :: u16)"
    using cores_length [of cmask] by (simp_all add: unat_of_nat unsigned_of_nat take_bit_nat_eq_self)
  have pop: "rte_popcount64 ops cmask = of_nat ?n" using assms(1) by (simp add: lcores_ok_def)
  have "?n \<noteq> 0"
  proof
    assume "?n = 0"
    then have "\<not> bit cmask i" if "i < 64" for i using that by (auto simp: cores_def filter_empty_conv)
    then have "cmask = 0" by (intro bit_word_eqI) simp
    then show False using assms(2) by simp
  qed
  then have nz: "(of_nat ?n :: u64) \<noteq> 0" using n(1) by (metis unat_0)
  have t: "table_ok ?m" using init_main_table [OF assms(1,4), of a control] cores_length [of cmask] by (simp add: table_ok_def)
  have "init_lcores ops cmask control app [0..<RTE_MAX_LCORE ops] ?m 0 0 =
      Inr (?m\<lparr>workers := assign ops a app control (cores cmask) 0 0, control_core_index := control_slot control (cores cmask) 0 control\<rparr>,
           ?n, length (filter (\<lambda>i. i \<noteq> unat control) (cores cmask)))"
    using init_lcores_ok [OF t, of "[0..<RTE_MAX_LCORE ops]" cmask ops 0 control app 0] cores_filter [OF assms(1)] assms(1) n
    by (auto simp: lcores_ok_def init_main_def Let_def)
  moreover have "\<not> (control \<noteq> DAO_WORKER_INVALID_INDEX \<and> 64 \<le> unat control)"
    "\<not> (control \<noteq> DAO_WORKER_INVALID_INDEX \<and> RTE_BIT64 (unat control) AND cmask = 0)"
    using assms(3) by (auto simp: control_ok_def test_bit)
  ultimately show ?thesis
    using n nz unfolding dao_workers_init_def pop Let_def init_main_def by simp
qed

lemma init_main_simps:
  "unat (num_cores (init_main ops a cmask control app)) = length (cores cmask)"
  "length (workers (init_main ops a cmask control app)) = length (cores cmask)"
  "workers (init_main ops a cmask control app) = assign ops a app control (cores cmask) 0 0"
  "wm_addr (init_main ops a cmask control app) = a"
  "num_workers (init_main ops a cmask control app) = of_nat (length (filter (\<lambda>i. i \<noteq> unat control) (cores cmask)))"
  using cores_length [of cmask] by (simp_all add: init_main_def Let_def unat_of_nat)

text \<open>At most one core is the control core, so the worker count bounds the core indices.\<close>

lemma others_length: "distinct xs \<Longrightarrow> length xs \<le> Suc (length (filter (\<lambda>i. i \<noteq> c) xs))"
proof (induction xs)
  case (Cons x xs)
  show ?case
  proof (cases "x = c")
    case True
    then have "filter (\<lambda>i. i \<noteq> c) xs = xs" using Cons(2) by (intro filter_True) auto
    then show ?thesis by (simp add: True)
  qed (use Cons in simp)
qed simp

lemma init_main_bound:
  assumes "n < length (cores cmask)"
  shows "n \<le> unat (num_workers (init_main ops a cmask control app))"
proof -
  have "length (filter (\<lambda>i. i \<noteq> unat control) (cores cmask)) \<le> 64"
    using cores_length [of cmask] order_trans [OF length_filter_le] by blast
  then have "unat (num_workers (init_main ops a cmask control app)) = length (filter (\<lambda>i. i \<noteq> unat control) (cores cmask))"
    by (simp add: init_main_simps unat_of_nat)
  then show ?thesis using assms others_length [OF cores_distinct, of cmask "unat control"] by simp
qed

section \<open>The own worker of a core\<close>

lemma load_init:
  fixes a :: u64 and control :: u32
  assumes "lcores_ok ops cmask" and "unat app < 2 ^ 56" and "n < length (cores cmask)"
  defines "m \<equiv> init_main ops a cmask control app"
  shows "dao_workers_worker_get (Some m) (of_nat n) = Inr (of_nat n * per_worker_sz m)"
    and "load_worker m (of_nat n * per_worker_sz m) = Inr (workers m ! n)"
proof -
  have "n < 256" using assms(3) cores_length [of cmask] by simp
  then show "dao_workers_worker_get (Some m) (of_nat n) = Inr (of_nat n * per_worker_sz m)"
    unfolding m_def by (rule worker_get_ok [OF init_main_bound [OF assms(3)]])
  show "load_worker m (of_nat n * per_worker_sz m) = Inr (workers m ! n)"
    using offset_slot [OF init_main_table [OF assms(1,2)], of n a control] assms(3)
    unfolding m_def load_worker_def by (simp add: init_main_simps(2))
qed

lemma self_loop_ok:
  fixes a :: u64 and control :: u32
  assumes "lcores_ok ops cmask" and "unat app < 2 ^ 56" and "lcore \<noteq> LCORE_ID_ANY" and "i \<le> length (cores cmask)"
  defines "m \<equiv> init_main ops a cmask control app"
  defines "f \<equiv> first_free (\<lambda>c. of_nat c = lcore) (drop i (cores cmask))"
  shows "self_loop m lcore [i..<length (cores cmask)] = Inr (if i + f < length (cores cmask) then Some (i + f) else None)"
  using assms(4) unfolding f_def
proof (induction "length (cores cmask) - i" arbitrary: i)
  case 0
  then show ?case by simp
next
  case (Suc d)
  then have i: "i < length (cores cmask)" by simp
  have u: "[i..<length (cores cmask)] = i # [Suc i..<length (cores cmask)]" using i by (rule upt_conv_Cons)
  have d: "drop i (cores cmask) = cores cmask ! i # drop (Suc i) (cores cmask)" using i by (rule Cons_nth_drop_Suc [symmetric])
  note l = load_init [OF assms(1,2) i, of a control, folded m_def]
  have w: "core_index (workers m ! i) = of_nat i" "back_workers (workers m ! i) = wm_addr m"
    "dpdk_lcore_id (workers m ! i) = of_nat (cores cmask ! i)"
    using assign_nth [OF i] by (simp_all add: m_def init_main_simps)
  have IH: "self_loop m lcore [Suc i..<length (cores cmask)] =
      Inr (if Suc i + first_free (\<lambda>c. of_nat c = lcore) (drop (Suc i) (cores cmask)) < length (cores cmask)
           then Some (Suc i + first_free (\<lambda>c. of_nat c = lcore) (drop (Suc i) (cores cmask))) else None)"
    using Suc(1) [of "Suc i"] Suc(2) i by simp
  show ?case
    using i l w IH assms(3) unfolding u d by auto
qed

section \<open>Sample machine\<close>

text \<open>Four lcores, of which 1 and 3 are in the mask; the instance of \<^verbatim>\<open>rte_popcount64\<close> counts the bits.\<close>

definition sample_lcores :: lcore_ops where
  "sample_lcores = \<lparr>rte_lcore_is_enabled = (\<lambda>i. i < 4), rte_lcore_to_cpu_id = int, rte_lcore_index = int,
     rte_lcore_to_socket_id = (\<lambda>_. 0), rte_popcount64 = (\<lambda>w. of_nat (length (cores w))), RTE_MAX_LCORE = 4, RTE_CACHE_LINE_SIZE = 64\<rparr>"

lemma sample_cores: "cores 10 = [1, 3]"
  by (simp add: cores_def upt_rec bit_numeral_rec)

lemma sample_bits: "i < 64 \<Longrightarrow> bit (10 :: u64) i \<Longrightarrow> i = 1 \<or> i = 3"
proof -
  assume "i < 64" and "bit (10 :: u64) i"
  then have "i \<in> set (cores 10)" by (simp add: cores_def)
  then show ?thesis by (simp add: sample_cores)
qed

lemma sample_lcores_ok: "lcores_ok sample_lcores 10"
  using sample_bits by (fastforce simp: lcores_ok_def sample_lcores_def)

section \<open>Properties\<close>

text \<open>C21: Initialisation succeeds and builds one worker per bit of the core mask, in the order of the bits: the core index counts
  all cores, the control core is marked, the worker index counts the cores other than the control core, and the number of
  workers is their number.\<close>

theorem workers_init_table:
  assumes "lcores_ok ops cmask" and "cmask \<noteq> 0" and "control_ok cmask control" and "unat app < 2 ^ 56"
  shows "\<exists>m. dao_workers_init ops (Some a) cmask control app None = Inr (0, Some m) \<and>
    unat (num_cores m) = length (cores cmask) \<and> length (workers m) = length (cores cmask) \<and>
    unat (num_workers m) = length (filter (\<lambda>i. i \<noteq> unat control) (cores cmask)) \<and>
    (\<forall>n < length (cores cmask).
       dpdk_lcore_id (workers m ! n) = of_nat (cores cmask ! n) \<and> core_index (workers m ! n) = of_nat n \<and>
       (is_main (workers m ! n) = 1 \<longleftrightarrow> cores cmask ! n = unat control) \<and>
       (cores cmask ! n \<noteq> unat control \<longrightarrow>
          worker_index (workers m ! n) = of_nat (length (filter (\<lambda>i. i \<noteq> unat control) (take n (cores cmask))))))"
proof -
  have "length (filter (\<lambda>i. i \<noteq> unat control) (cores cmask)) \<le> 64"
    using cores_length [of cmask] order_trans [OF length_filter_le] by blast
  then have w: "unat (num_workers (init_main ops a cmask control app)) = length (filter (\<lambda>i. i \<noteq> unat control) (cores cmask))"
    by (simp add: init_main_simps unat_of_nat)
  show ?thesis
    using w init_main_ok [OF assms, of a] assign_nth [of _ "cores cmask" ops a app control 0 0]
    by (intro exI [of _ "init_main ops a cmask control app"]) (simp add: init_main_simps)
qed

theorem workers_init_table_witness:
  "\<exists>m. dao_workers_init sample_lcores (Some 4096) 10 1 100 None = Inr (0, Some m) \<and> unat (num_cores m) = 2 \<and> unat (num_workers m) = 1"
  using workers_init_table [OF sample_lcores_ok, of 1 100 4096]
  by (auto simp: sample_cores control_ok_def bit_numeral_rec)

text \<open>C36: On every lcore of the mask the lookup of the own worker returns the entry of that lcore, and no other; on an lcore outside of
  the mask it returns \<^verbatim>\<open>NULL\<close>.  The assertions in its loop hold.\<close>

theorem self_worker_found:
  assumes "lcores_ok ops cmask" and "cmask \<noteq> 0" and "control_ok cmask control" and "unat app < 2 ^ 56" and "c < 2 ^ 32 - 1"
    and "dao_workers_init ops (Some a) cmask control app None = Inr (0, Some m)"
  shows "if c \<in> set (cores cmask)
    then \<exists>n off. n < length (cores cmask) \<and> cores cmask ! n = c \<and>
      dao_workers_self_worker_get (Some m) (of_nat c) = Inr (Some off) \<and> load_worker m off = Inr (workers m ! n) \<and>
      dpdk_lcore_id (workers m ! n) = of_nat c
    else dao_workers_self_worker_get (Some m) (of_nat c) = Inr None"
proof -
  have m: "m = init_main ops a cmask control app" using assms(6) init_main_ok [OF assms(1-4), of a] by simp
  have c32: "unat (of_nat c :: u32) = c" using assms(5) by (simp add: unat_of_nat)
  have any: "of_nat c \<noteq> LCORE_ID_ANY" using assms(5) c32 by (auto simp: LCORE_ID_ANY_def)
  have inj: "of_nat x = (of_nat c :: u32) \<longleftrightarrow> x = c" if "x \<in> set (cores cmask)" for x
  proof -
    have "unat (of_nat x :: u32) = x" using cores_less [OF that] by (simp add: unat_of_nat)
    then show ?thesis using c32 by metis
  qed
  let ?f = "first_free (\<lambda>x. of_nat x = (of_nat c :: u32)) (cores cmask)"
  have loop: "self_loop m (of_nat c) [0..<length (cores cmask)] = Inr (if ?f < length (cores cmask) then Some ?f else None)"
    using self_loop_ok [OF assms(1,4) any, of 0 a control] by (simp add: m)
  have nc: "unat (num_cores m) = length (cores cmask)" by (simp add: m init_main_simps)
  show ?thesis
  proof (cases "c \<in> set (cores cmask)")
    case True
    then have l: "?f < length (cores cmask)" by (auto simp: first_free_less_iff)
    then have e: "cores cmask ! ?f = c" using nth_first_free [OF l] inj [OF nth_mem [OF l]] by blast
    note ld = load_init [OF assms(1,4) l, of a control, folded m]
    have "dpdk_lcore_id (workers m ! ?f) = of_nat c" using assign_nth(2) [OF l] e by (simp add: m init_main_simps)
    then show ?thesis
      using True loop ld l e by (auto simp: dao_workers_self_worker_get_def nc)
  next
    case False
    then have "\<not> ?f < length (cores cmask)" using inj by (auto simp: first_free_less_iff)
    then show ?thesis using False loop by (simp add: dao_workers_self_worker_get_def nc)
  qed
qed

theorem self_worker_found_witness:
  "\<exists>m. dao_workers_init sample_lcores (Some 4096) 10 1 100 None = Inr (0, Some m) \<and>
     dao_workers_self_worker_get (Some m) (of_nat 2) = Inr None"
proof -
  have c: "control_ok 10 1" by (simp add: control_ok_def bit_numeral_rec)
  have i: "dao_workers_init sample_lcores (Some 4096) 10 1 100 None = Inr (0, Some (init_main sample_lcores 4096 10 1 100))"
    by (rule init_main_ok [OF sample_lcores_ok _ c]) simp_all
  show ?thesis
    using self_worker_found [OF sample_lcores_ok _ c _ _ i, of 2] i by (auto simp: sample_cores)
qed

text \<open>The lookup of the control core steps over entries of the size of the structure alone: with private data for the application
  and a control core that is not the first core, the pointer is not that of the control core.\<close>

theorem control_worker_misses:
  assumes "lcores_ok ops cmask" and "control \<noteq> DAO_WORKER_INVALID_INDEX" and "control_ok cmask control"
    and "0 < app" and "unat app < 2 ^ 56" and "n < length (cores cmask)" and "cores cmask ! n = unat control" and "0 < n"
    and "dao_workers_init ops (Some a) cmask control app None = Inr (0, Some m)"
  shows "\<exists>off off'. dao_workers_worker_get (Some m) (of_nat n) = Inr off \<and> is_main (workers m ! n) = 1 \<and>
    load_worker m off = Inr (workers m ! n) \<and>
    dao_workers_control_worker_get ops (Some m) = Some off' \<and> off' \<noteq> off"
proof -
  have nz: "cmask \<noteq> 0" using assms(6) by (auto simp: cores_def)
  have m: "m = init_main ops a cmask control app" using assms(9) init_main_ok [OF assms(1) nz assms(3,5), of a] by simp
  note ld = load_init [OF assms(1,5,6), of a control, folded m]
  have mn: "is_main (workers m ! n) = 1" using assign_nth(5) [OF assms(6)] assms(7) by (simp add: m init_main_simps)
  have n: "n < 64" using assms(6) cores_length [of cmask] by simp
  have "first_free (\<lambda>i. i = unat control) (cores cmask) = n"
  proof (rule first_free_unique)
    fix k
    assume "k < n"
    then show "cores cmask ! k \<noteq> unat control"
      using nth_eq_iff_index_eq [OF cores_distinct [of cmask], of k n] assms(6,7) by simp
  qed (use assms(6,7) in simp_all)
  then have ci: "control_core_index m = of_nat n"
    using nth_mem [OF assms(6)] assms(7) by (simp add: m init_main_def Let_def control_slot_def)
  have ne: "control_core_index m \<noteq> DAO_WORKER_INVALID_INDEX"
  proof
    assume "control_core_index m = DAO_WORKER_INVALID_INDEX"
    then have "unat (of_nat n :: u32) = unat (- 1 :: u32)" by (simp add: ci DAO_WORKER_INVALID_INDEX_def)
    moreover have "unat (of_nat n :: u32) = n" using n by (simp add: unat_of_nat)
    moreover have "unat (- 1 :: u32) = 2 ^ 32 - 1" by (simp add: unsigned_minus_1_eq_mask mask_eq_exp_minus_1)
    ultimately show False using n by simp
  qed
  let ?r = "DAO_ROUNDUP app (RTE_CACHE_LINE_SIZE ops)"
  have cl: "RTE_CACHE_LINE_SIZE ops = 64 \<or> RTE_CACHE_LINE_SIZE ops = 128" using assms(1) by (simp add: lcores_ok_def)
  note sz = worker_size [OF cl assms(5)]
  have r: "0 < unat ?r" using roundup_bounds(1) [OF cl assms(5)] assms(4) by (metis le_zero_eq neq0_conv unat_gt_0 word_greater_zero_iff)
  have un: "unat (of_nat n :: u64) = n" "ucast (control_core_index m) = (of_nat n :: u64)"
    using n ci by (simp_all add: unat_of_nat unsigned_of_nat take_bit_nat_eq_self)
  have p: "per_worker_sz m = sizeof_dao_worker ops + ?r" by (simp add: m init_main_def Let_def)
  have b: "n * x < 2 ^ LENGTH(64)" if "x < 2 ^ 57" for x
  proof -
    have "n * x \<le> 64 * x" using n by (intro mult_le_mono1) simp
    also have "\<dots> < 2 ^ LENGTH(64)" using that by simp
    finally show ?thesis .
  qed
  have "unat (of_nat n * per_worker_sz m) = n * (unat (sizeof_dao_worker ops) + unat ?r)"
    using unat_mult_small [of "of_nat n :: u64" "per_worker_sz m"] b [of "unat (per_worker_sz m)"] sz un(1) by (simp add: p)
  moreover have "unat (of_nat n * sizeof_dao_worker ops) = n * unat (sizeof_dao_worker ops)"
    using unat_mult_small [of "of_nat n :: u64" "sizeof_dao_worker ops"] b [of "unat (sizeof_dao_worker ops)"] sz un(1) by simp
  ultimately have "of_nat n * sizeof_dao_worker ops \<noteq> of_nat n * per_worker_sz m"
    using r assms(8) by (metis add_cancel_left_right less_irrefl mult_cancel_left)
  then show ?thesis using ld mn ne un(2) by (auto simp: dao_workers_control_worker_get_def)
qed

theorem control_worker_misses_witness:
  "\<exists>m. dao_workers_init sample_lcores (Some 4096) 10 3 100 None = Inr (0, Some m) \<and>
    (\<exists>off off'. dao_workers_worker_get (Some m) 1 = Inr off \<and> is_main (workers m ! 1) = 1 \<and>
       dao_workers_control_worker_get sample_lcores (Some m) = Some off' \<and> off' \<noteq> off)"
proof -
  have c: "control_ok 10 3" by (simp add: control_ok_def bit_numeral_rec)
  have i: "dao_workers_init sample_lcores (Some 4096) 10 3 100 None = Inr (0, Some (init_main sample_lcores 4096 10 3 100))"
    by (rule init_main_ok [OF sample_lcores_ok _ c]) simp_all
  show ?thesis
    using control_worker_misses [OF sample_lcores_ok _ c _ _ _ _ _ i, of 1] i
    by (auto simp: sample_cores DAO_WORKER_INVALID_INDEX_def)
qed

end
