(* ===== verification/Barrier.thy ===== *)
theory Barrier
  imports Workers_Facts
begin

text \<open>
  The barrier of \<^verbatim>\<open>lib/workers\<close> as an interleaving of the control core, which runs \<^verbatim>\<open>dao_workers_barrier_sync\<close> and
  \<^verbatim>\<open>dao_workers_barrier_release\<close>, with the worker cores, which run \<^verbatim>\<open>dao_workers_barrier_check\<close> in their loops.  A step
  is the code of one core from one access to the shared words \<^verbatim>\<open>parked_at_barrier\<close> and \<^verbatim>\<open>barrier_count\<close> to the next; the
  accesses themselves are sequentially consistent, which is more than the relaxed accesses of the code promise.
\<close>

section \<open>The code between the accesses\<close>

text \<open>\<^verbatim>\<open>dao_workers_barrier_sync\<close> up to its waiting loop: \<open>Some rc\<close> when it returns before.\<close>

definition barrier_sync_enter :: "dao_worker \<Rightarrow> dao_workers_main \<Rightarrow> int option \<times> dao_workers_main" where
  "barrier_sync_enter w m =
     (if num_workers m < 2 then (Some 0, m)
      else if dao_workers_is_control_worker w = 0 then (Some (- 1), m)
      else if barrier_recursion_level m > 0 then (Some (- 1), m)
      else (None, m\<lparr>parked_at_barrier := 1, barrier_recursion_level := barrier_recursion_level m + 1\<rparr>))"

text \<open>The condition of the waiting loop.\<close>

definition barrier_sync_waits :: "dao_workers_main \<Rightarrow> bool" where
  "barrier_sync_waits m \<longleftrightarrow> barrier_count m \<noteq> of_int (dao_workers_num_workers_get m)"

text \<open>\<^verbatim>\<open>dao_workers_barrier_release\<close> up to the store that releases the workers, and the store after it.\<close>

definition barrier_release_enter :: "dao_worker \<Rightarrow> dao_workers_main \<Rightarrow> int option \<times> dao_workers_main" where
  "barrier_release_enter w m =
     (if num_workers m < 2 then (Some 0, m)
      else if dao_workers_is_control_worker w = 0 then (Some (- 1), m)
      else if barrier_recursion_level m > 1 then (Some (- 1), m)
      else if barrier_recursion_level m < 1 then (Some (- 1), m)
      else (None, m\<lparr>barrier_recursion_level := barrier_recursion_level m - 1, parked_at_barrier := 0\<rparr>))"

definition barrier_release_reset :: "dao_workers_main \<Rightarrow> dao_workers_main" where
  "barrier_release_reset m = m\<lparr>barrier_count := 0\<rparr>"

text \<open>The three accesses of \<^verbatim>\<open>dao_workers_barrier_check\<close>: both loads test the same word.\<close>

definition barrier_check_parked :: "dao_workers_main \<Rightarrow> bool" where
  "barrier_check_parked m \<longleftrightarrow> parked_at_barrier m \<noteq> 0"

definition barrier_check_arrive :: "dao_workers_main \<Rightarrow> dao_workers_main" where
  "barrier_check_arrive m = m\<lparr>barrier_count := barrier_count m + 1\<rparr>"

section \<open>The interleaving\<close>

text \<open>Where the control core is: outside of the barrier, in the waiting loop, after a sync whose waiting loop has ended (with fewer than two
  workers the sync returns before this loop and the control core stays outside), between the two stores of a release.  Where a worker is: outside, after the first load, in the waiting loop.\<close>

datatype control_pc = CRun | CWait | CHeld | CReset

datatype worker_pc = WRun | WEnter | WSpin

record barrier_state =
  bs_main :: dao_workers_main
  bs_ctl :: control_pc
  bs_pcs :: "worker_pc list"

inductive bstep :: "dao_worker \<Rightarrow> barrier_state \<Rightarrow> barrier_state \<Rightarrow> bool" for w where
  sync_returns: "bs_ctl s = CRun \<or> bs_ctl s = CHeld \<Longrightarrow> barrier_sync_enter w (bs_main s) = (Some rc, m) \<Longrightarrow>
    bstep w s (s\<lparr>bs_main := m\<rparr>)"
| sync_parks: "bs_ctl s = CRun \<or> bs_ctl s = CHeld \<Longrightarrow> barrier_sync_enter w (bs_main s) = (None, m) \<Longrightarrow>
    bstep w s (s\<lparr>bs_main := m, bs_ctl := CWait\<rparr>)"
| sync_spins: "bs_ctl s = CWait \<Longrightarrow> barrier_sync_waits (bs_main s) \<Longrightarrow> bstep w s s"
| sync_done: "bs_ctl s = CWait \<Longrightarrow> \<not> barrier_sync_waits (bs_main s) \<Longrightarrow> bstep w s (s\<lparr>bs_ctl := CHeld\<rparr>)"
| release_returns: "bs_ctl s = CRun \<or> bs_ctl s = CHeld \<Longrightarrow> barrier_release_enter w (bs_main s) = (Some rc, m) \<Longrightarrow>
    bstep w s (s\<lparr>bs_main := m\<rparr>)"
| release_unparks: "bs_ctl s = CRun \<or> bs_ctl s = CHeld \<Longrightarrow> barrier_release_enter w (bs_main s) = (None, m) \<Longrightarrow>
    bstep w s (s\<lparr>bs_main := m, bs_ctl := CReset\<rparr>)"
| release_resets: "bs_ctl s = CReset \<Longrightarrow> bstep w s (s\<lparr>bs_main := barrier_release_reset (bs_main s), bs_ctl := CRun\<rparr>)"
| check_passes: "i < length (bs_pcs s) \<Longrightarrow> bs_pcs s ! i = WRun \<Longrightarrow> \<not> barrier_check_parked (bs_main s) \<Longrightarrow> bstep w s s"
| check_enters: "i < length (bs_pcs s) \<Longrightarrow> bs_pcs s ! i = WRun \<Longrightarrow> barrier_check_parked (bs_main s) \<Longrightarrow>
    bstep w s (s\<lparr>bs_pcs := (bs_pcs s)[i := WEnter]\<rparr>)"
| check_arrives: "i < length (bs_pcs s) \<Longrightarrow> bs_pcs s ! i = WEnter \<Longrightarrow>
    bstep w s (s\<lparr>bs_main := barrier_check_arrive (bs_main s), bs_pcs := (bs_pcs s)[i := WSpin]\<rparr>)"
| check_spins: "i < length (bs_pcs s) \<Longrightarrow> bs_pcs s ! i = WSpin \<Longrightarrow> barrier_check_parked (bs_main s) \<Longrightarrow> bstep w s s"
| check_leaves: "i < length (bs_pcs s) \<Longrightarrow> bs_pcs s ! i = WSpin \<Longrightarrow> \<not> barrier_check_parked (bs_main s) \<Longrightarrow>
    bstep w s (s\<lparr>bs_pcs := (bs_pcs s)[i := WRun]\<rparr>)"

inductive_cases bstepE: "bstep w s t"

text \<open>A barrier nobody has used yet, as initialisation leaves it, with one core per worker.\<close>

definition bstart :: "barrier_state \<Rightarrow> bool" where
  "bstart s \<longleftrightarrow> bs_ctl s = CRun \<and> barrier_recursion_level (bs_main s) = 0 \<and> parked_at_barrier (bs_main s) = 0 \<and>
     barrier_count (bs_main s) = 0 \<and> bs_pcs s = replicate (unat (num_workers (bs_main s))) WRun"

section \<open>The invariant\<close>

definition spinning :: "barrier_state \<Rightarrow> nat" where
  "spinning s = occupied (\<lambda>p. p \<noteq> WSpin) (bs_pcs s)"

definition binv :: "barrier_state \<Rightarrow> bool" where
  "binv s \<longleftrightarrow> length (bs_pcs s) = unat (num_workers (bs_main s)) \<and> (bs_ctl s \<noteq> CRun \<longrightarrow> 2 \<le> num_workers (bs_main s)) \<and>
     (case bs_ctl s of
        CRun \<Rightarrow> parked_at_barrier (bs_main s) = 0 \<and> barrier_recursion_level (bs_main s) = 0 \<and>
          barrier_count (bs_main s) = 0 \<and> WEnter \<notin> set (bs_pcs s)
      | CWait \<Rightarrow> parked_at_barrier (bs_main s) = 1 \<and> barrier_recursion_level (bs_main s) = 1 \<and>
          unat (barrier_count (bs_main s)) \<le> spinning s
      | CHeld \<Rightarrow> parked_at_barrier (bs_main s) = 1 \<and> barrier_recursion_level (bs_main s) = 1 \<and>
          unat (barrier_count (bs_main s)) = length (bs_pcs s) \<and> set (bs_pcs s) \<subseteq> {WSpin}
      | CReset \<Rightarrow> parked_at_barrier (bs_main s) = 0 \<and> barrier_recursion_level (bs_main s) = 0 \<and>
          WEnter \<notin> set (bs_pcs s))"

lemma spinning_le: "spinning s \<le> length (bs_pcs s)"
  by (simp add: spinning_def occupied_le)

lemma spinning_all: "spinning s = length (bs_pcs s) \<Longrightarrow> set (bs_pcs s) \<subseteq> {WSpin}"
  using occupied_less_iff [of "\<lambda>p. p \<noteq> WSpin" "bs_pcs s"] by (auto simp: spinning_def)

lemma spinning_keep: "i < length (bs_pcs s) \<Longrightarrow> bs_pcs s ! i \<noteq> WSpin \<Longrightarrow> p \<noteq> WSpin \<Longrightarrow> spinning (s\<lparr>bs_pcs := (bs_pcs s)[i := p]\<rparr>) = spinning s"
  by (simp add: spinning_def occupied_keep)

lemma spinning_arrive: "i < length (bs_pcs s) \<Longrightarrow> bs_pcs s ! i \<noteq> WSpin \<Longrightarrow>
    spinning (s\<lparr>bs_main := m, bs_pcs := (bs_pcs s)[i := WSpin]\<rparr>) = Suc (spinning s)"
  by (simp add: spinning_def occupied_fill)

lemma spinning_update [simp]: "spinning (s\<lparr>bs_main := m\<rparr>) = spinning s" "spinning (s\<lparr>bs_ctl := c\<rparr>) = spinning s"
  by (simp_all add: spinning_def)

lemma waits_iff: "barrier_sync_waits m \<longleftrightarrow> unat (barrier_count m) \<noteq> unat (num_workers m)"
proof -
  have "of_int (dao_workers_num_workers_get m) = (ucast (num_workers m) :: u64)"
    by (simp add: dao_workers_num_workers_get_def)
  then show ?thesis unfolding barrier_sync_waits_def by (simp add: word_unat_eq_iff unat_ucast_up)
qed

lemma count_up:
  assumes "unat (barrier_count m) \<le> 65535"
  shows "unat (barrier_count (barrier_check_arrive m)) = Suc (unat (barrier_count m))"
proof -
  have "unat (barrier_count m) + unat (1 :: u64) < 2 ^ LENGTH(64)" using assms by simp
  from unat_add_small [OF this] show ?thesis by (simp add: barrier_check_arrive_def)
qed

lemma num_workers_bound: "unat (num_workers m) \<le> 65535"
proof -
  have "unat (num_workers m) < 2 ^ LENGTH(16)" by (rule unsigned_less)
  then show ?thesis by simp
qed

lemma bstart_inv: "bstart s \<Longrightarrow> binv s"
  by (auto simp: bstart_def binv_def)

lemma sync_enter_returns: "barrier_sync_enter w m = (Some rc, m') \<Longrightarrow> m' = m"
  by (simp add: barrier_sync_enter_def split: if_splits)

lemma sync_enter_parks: "barrier_sync_enter w m = (None, m') \<longleftrightarrow>
    2 \<le> num_workers m \<and> is_main w \<noteq> 0 \<and> barrier_recursion_level m \<le> 0 \<and>
    m' = m\<lparr>parked_at_barrier := 1, barrier_recursion_level := barrier_recursion_level m + 1\<rparr>"
  by (auto simp: barrier_sync_enter_def dao_workers_is_control_worker_def)

lemma release_enter_returns: "barrier_release_enter w m = (Some rc, m') \<Longrightarrow> m' = m"
  by (simp add: barrier_release_enter_def split: if_splits)

lemma release_enter_unparks: "barrier_release_enter w m = (None, m') \<longleftrightarrow>
    2 \<le> num_workers m \<and> is_main w \<noteq> 0 \<and> barrier_recursion_level m = 1 \<and>
    m' = m\<lparr>barrier_recursion_level := barrier_recursion_level m - 1, parked_at_barrier := 0\<rparr>"
  by (auto simp: barrier_release_enter_def dao_workers_is_control_worker_def)

lemmas enter_facts = sync_enter_returns sync_enter_parks release_enter_returns release_enter_unparks

lemma arrive_simps [simp]:
  "parked_at_barrier (barrier_check_arrive m) = parked_at_barrier m"
  "barrier_recursion_level (barrier_check_arrive m) = barrier_recursion_level m"
  "num_workers (barrier_check_arrive m) = num_workers m"
  by (simp_all add: barrier_check_arrive_def)

lemma set_update_WEnter: "WEnter \<notin> set ps \<Longrightarrow> p \<noteq> WEnter \<Longrightarrow> WEnter \<notin> set (ps[i := p])"
  using set_update_subset_insert [of ps i p] by auto

lemma arrive_inv:
  assumes "binv s" and "i < length (bs_pcs s)" and "bs_pcs s ! i = WEnter"
  shows "binv (s\<lparr>bs_main := barrier_check_arrive (bs_main s), bs_pcs := (bs_pcs s)[i := WSpin]\<rparr>)"
proof -
  have "WEnter \<in> set (bs_pcs s)" using assms(2,3) by (metis nth_mem)
  then have c: "bs_ctl s = CWait" using assms(1) by (auto simp: binv_def split: control_pc.splits)
  then have le: "unat (barrier_count (bs_main s)) \<le> spinning s" using assms(1) by (simp add: binv_def)
  then have b: "unat (barrier_count (bs_main s)) \<le> 65535"
    using spinning_le [of s] num_workers_bound [of "bs_main s"] assms(1) by (simp add: binv_def)
  show ?thesis
    using assms le c count_up [OF b] spinning_arrive [OF assms(2), of "barrier_check_arrive (bs_main s)"] by (simp add: binv_def)
qed

lemma step_keeps_binv:
  assumes "bstep w s t" and "binv s"
  shows "binv t"
  using assms(1)
proof (cases rule: bstep.cases)
  case (sync_returns rc m)
  then show ?thesis using assms(2) sync_enter_returns [of w "bs_main s" rc m] by simp
next
  case (sync_parks m)
  then show ?thesis using assms(2) by (auto simp: binv_def sync_enter_parks)
next
  case sync_done
  then have "unat (barrier_count (bs_main s)) = length (bs_pcs s)" using assms(2) by (simp add: waits_iff binv_def)
  then have "spinning s = length (bs_pcs s)" using sync_done assms(2) spinning_le [of s] by (simp add: binv_def)
  then show ?thesis
    using sync_done assms(2) spinning_all [of s] by (auto simp: binv_def waits_iff)
next
  case (release_returns rc m)
  then show ?thesis using assms(2) release_enter_returns [of w "bs_main s" rc m] by simp
next
  case (release_unparks m)
  then show ?thesis using assms(2) by (auto simp: binv_def release_enter_unparks)
next
  case release_resets
  then show ?thesis using assms(2) by (simp add: binv_def barrier_release_reset_def)
next
  case (check_enters i)
  have "WRun \<in> set (bs_pcs s)" using check_enters by (metis nth_mem)
  then have "bs_ctl s = CWait" using assms(2) check_enters(4) by (auto simp: binv_def barrier_check_parked_def split: control_pc.splits)
  then show ?thesis using assms(2) check_enters by (simp add: binv_def spinning_keep)
next
  case (check_arrives i)
  then show ?thesis using arrive_inv [OF assms(2)] by simp
next
  case (check_leaves i)
  then have "bs_ctl s = CRun \<or> bs_ctl s = CReset" using assms(2) by (auto simp: binv_def barrier_check_parked_def split: control_pc.splits)
  then show ?thesis using assms(2) check_leaves by (auto simp: binv_def set_update_WEnter)
qed (use assms(2) in simp_all)

interpretation barrier_runs: invariant_system bstart "bstep w" binv for w
  by unfold_locales (auto intro: bstart_inv step_keeps_binv)

section \<open>When a sync can complete\<close>

text \<open>The workers that still have to come, weighted with their steps.\<close>

definition missing :: "barrier_state \<Rightarrow> nat" where
  "missing s = sum_list (map (\<lambda>p. case p of WRun \<Rightarrow> 2 | WEnter \<Rightarrow> 1 | WSpin \<Rightarrow> 0) (bs_pcs s))"

lemma missing_update:
  assumes "i < length ps"
  shows "sum_list (map f (ps[i := p])) + f (ps ! i) = sum_list (map f ps) + (f p :: nat)"
  using assms by (induction ps arbitrary: i) (auto simp: nth_Cons split: nat.splits)

lemma sync_completes:
  assumes "binv s" and "bs_ctl s = CWait" and "unat (barrier_count (bs_main s)) = spinning s"
  shows "\<exists>t. (bstep w)\<^sup>*\<^sup>* s t \<and> bs_ctl t = CHeld \<and> num_workers (bs_main t) = num_workers (bs_main s)"
  using assms
proof (induction "missing s" arbitrary: s rule: less_induct)
  case less
  have park: "barrier_check_parked (bs_main s)" using less(2,3) by (simp add: binv_def barrier_check_parked_def)
  show ?case
  proof (cases "set (bs_pcs s) \<subseteq> {WSpin}")
    case True
    then have "spinning s = length (bs_pcs s)"
      using occupied_less_iff [of "\<lambda>p. p \<noteq> WSpin" "bs_pcs s"] spinning_le [of s] by (fastforce simp: spinning_def)
    then have "\<not> barrier_sync_waits (bs_main s)" using less(2,4) by (simp add: waits_iff binv_def)
    then have "bstep w s (s\<lparr>bs_ctl := CHeld\<rparr>)" using less(3) by (intro bstep.sync_done)
    then show ?thesis by (intro exI [of _ "s\<lparr>bs_ctl := CHeld\<rparr>"]) auto
  next
    case False
    then obtain i where i: "i < length (bs_pcs s)" "bs_pcs s ! i \<noteq> WSpin" unfolding subset_iff by (metis in_set_conv_nth singletonI)
    show ?thesis
    proof (cases "bs_pcs s ! i")
      case WRun
      let ?t = "s\<lparr>bs_pcs := (bs_pcs s)[i := WEnter]\<rparr>"
      have st: "bstep w s ?t" using i(1) WRun park by (intro bstep.check_enters)
      have "missing ?t < missing s" using missing_update [OF i(1), of "\<lambda>p. case p of WRun \<Rightarrow> 2 | WEnter \<Rightarrow> 1 | WSpin \<Rightarrow> 0" WEnter] WRun
        by (simp add: missing_def)
      from less(1) [OF this step_keeps_binv [OF st less(2)]] show ?thesis
        using less(3,4) st spinning_keep [OF i(1), of WEnter] WRun by (auto intro: converse_rtranclp_into_rtranclp)
    next
      case WEnter
      let ?t = "s\<lparr>bs_main := barrier_check_arrive (bs_main s), bs_pcs := (bs_pcs s)[i := WSpin]\<rparr>"
      have st: "bstep w s ?t" using i(1) WEnter by (intro bstep.check_arrives)
      have "missing ?t < missing s" using missing_update [OF i(1), of "\<lambda>p. case p of WRun \<Rightarrow> 2 | WEnter \<Rightarrow> 1 | WSpin \<Rightarrow> 0" WSpin] WEnter
        by (simp add: missing_def)
      note ih = less(1) [OF this step_keeps_binv [OF st less(2)]]
      have b: "unat (barrier_count (bs_main s)) \<le> 65535"
        using less(2,4) spinning_le [of s] num_workers_bound [of "bs_main s"] by (simp add: binv_def)
      show ?thesis
        using ih less(3,4) st count_up [OF b] spinning_arrive [OF i(1), of "barrier_check_arrive (bs_main s)"] WEnter
        by (auto intro: converse_rtranclp_into_rtranclp)
    qed (use i(2) in simp)
  qed
qed

text \<open>A worker that still spins in the loop of an earlier barrier is never counted.\<close>

definition stale :: "barrier_state \<Rightarrow> bool" where
  "stale s \<longleftrightarrow> binv s \<and> bs_ctl s = CWait \<and> unat (barrier_count (bs_main s)) < spinning s"

lemma stale_step:
  assumes "bstep w s t" and "stale s"
  shows "stale t"
proof -
  have s: "binv s" "bs_ctl s = CWait" "unat (barrier_count (bs_main s)) < spinning s" using assms(2) by (simp_all add: stale_def)
  have t: "binv t" by (rule step_keeps_binv [OF assms(1) s(1)])
  have w: "barrier_sync_waits (bs_main s)"
    using s spinning_le [of s] by (simp add: waits_iff binv_def)
  have p: "barrier_check_parked (bs_main s)" using s by (simp add: binv_def barrier_check_parked_def)
  from assms(1) show ?thesis
  proof (cases rule: bstep.cases)
    case (check_enters i)
    then show ?thesis using t s by (simp add: stale_def spinning_keep)
  next
    case (check_arrives i)
    have b: "unat (barrier_count (bs_main s)) \<le> 65535"
      using s spinning_le [of s] num_workers_bound [of "bs_main s"] by (simp add: binv_def)
    show ?thesis
      using t s count_up [OF b] check_arrives spinning_arrive [of i s "barrier_check_arrive (bs_main s)"] by (simp add: stale_def)
  qed (use s w p assms(2) in auto)
qed

lemma stale_steps: "(bstep w)\<^sup>*\<^sup>* s t \<Longrightarrow> stale s \<Longrightarrow> stale t"
  by (induction rule: rtranclp_induct) (auto intro: stale_step)

lemma parks_run:
  assumes "binv s" and "bs_ctl s = CRun" and "2 \<le> num_workers (bs_main s)" and "is_main w \<noteq> 0"
  obtains t where "bstep w s t" and "bs_ctl t = CWait" and "binv t" and "bs_pcs t = bs_pcs s"
    and "barrier_count (bs_main t) = 0" and "num_workers (bs_main t) = num_workers (bs_main s)"
    and "barrier_sync_enter w (bs_main s) = (None, bs_main t)"
proof -
  let ?m = "(bs_main s)\<lparr>parked_at_barrier := 1, barrier_recursion_level := barrier_recursion_level (bs_main s) + 1\<rparr>"
  have en: "barrier_sync_enter w (bs_main s) = (None, ?m)" using assms by (simp add: sync_enter_parks binv_def)
  then have st: "bstep w s (s\<lparr>bs_main := ?m, bs_ctl := CWait\<rparr>)" using assms(2) by (intro bstep.sync_parks) simp
  show thesis
    by (rule that [OF st _ step_keeps_binv [OF st assms(1)]]) (use assms(1,2) en in \<open>simp_all add: binv_def\<close>)
qed

lemma release_run:
  assumes "binv s" and "bs_ctl s = CHeld" and "is_main w \<noteq> 0"
  obtains q t where "bstep w s q" and "barrier_release_enter w (bs_main s) = (None, bs_main q)"
    and "bstep w q t" and "bs_main t = barrier_release_reset (bs_main q)" and "bs_ctl t = CRun" and "bs_pcs t = bs_pcs s"
    and "num_workers (bs_main t) = num_workers (bs_main s)"
proof -
  let ?m = "(bs_main s)\<lparr>barrier_recursion_level := barrier_recursion_level (bs_main s) - 1, parked_at_barrier := 0\<rparr>"
  let ?s = "s\<lparr>bs_main := ?m, bs_ctl := CReset\<rparr>"
  let ?t = "?s\<lparr>bs_main := barrier_release_reset (bs_main ?s), bs_ctl := CRun\<rparr>"
  have en: "barrier_release_enter w (bs_main s) = (None, ?m)" using assms by (simp add: release_enter_unparks binv_def)
  then have one: "bstep w s ?s" using assms(2) by (intro bstep.release_unparks) simp
  have two: "bstep w ?s ?t" by (rule bstep.release_resets) simp
  show thesis by (rule that [OF one _ two]) (simp_all add: en barrier_release_reset_def)
qed

section \<open>Properties\<close>

definition sample_control :: dao_worker where
  "sample_control = zero_worker\<lparr>is_main := 1\<rparr>"

definition sample_barrier :: barrier_state where
  "sample_barrier = \<lparr>bs_main = \<lparr>wm_addr = 4096, num_cores = 3, num_workers = 2, core_mask = 7, control_core_index = 0,
     per_worker_sz = 64, workers_main_sz = 384, barrier_recursion_level = 0, parked_at_barrier = 0, barrier_count = 0,
     workers = []\<rparr>, bs_ctl = CRun, bs_pcs = [WRun, WRun]\<rparr>"

lemma sample_barrier_start: "bstart sample_barrier" "2 \<le> num_workers (bs_main sample_barrier)" "is_main sample_control \<noteq> 0"
  by (simp_all add: bstart_def sample_barrier_def sample_control_def replicate_two)

text \<open>C7: In every interleaving of a control core with two or more workers, when the waiting loop of the sync has ended all workers wait in their
  barrier loop; they stay there, whatever step is taken next, unless that step is the release.  With fewer than two workers the control core
  never gets that far: the sync returns 0 at once, without a change to the shared words, and stops nobody.\<close>

theorem barrier_stops_workers:
  assumes "bstart s" and "(bstep w)\<^sup>*\<^sup>* s t"
  shows "(bs_ctl t = CHeld \<longrightarrow> 2 \<le> num_workers (bs_main t) \<and> bs_pcs t = replicate (unat (num_workers (bs_main t))) WSpin \<and>
      (\<forall>u. bstep w t u \<longrightarrow> bs_ctl u = CReset \<or> u = t)) \<and>
    (num_workers (bs_main t) < 2 \<longrightarrow> bs_ctl t = CRun \<and> barrier_sync_enter w (bs_main t) = (Some 0, bs_main t) \<and> \<not> barrier_check_parked (bs_main t))"
proof (intro conjI impI)
  have inv: "binv t" by (rule barrier_runs.reachable_inv [OF assms])
  show "bs_ctl t = CRun" and "barrier_sync_enter w (bs_main t) = (Some 0, bs_main t)" and "\<not> barrier_check_parked (bs_main t)"
    if "num_workers (bs_main t) < 2"
    using inv that by (auto simp: binv_def barrier_sync_enter_def barrier_check_parked_def not_less [symmetric])
  assume held: "bs_ctl t = CHeld"
  then have all: "set (bs_pcs t) \<subseteq> {WSpin}" and len: "length (bs_pcs t) = unat (num_workers (bs_main t))"
    and rec: "barrier_recursion_level (bs_main t) = 1" and p: "barrier_check_parked (bs_main t)"
    using inv by (simp_all add: binv_def barrier_check_parked_def)
  show "2 \<le> num_workers (bs_main t)" using inv held by (simp add: binv_def)
  have nth: "bs_pcs t ! i = WSpin" if "i < length (bs_pcs t)" for i using all nth_mem [OF that] by blast
  show "bs_pcs t = replicate (unat (num_workers (bs_main t))) WSpin"
    using all len by (intro replicate_eqI) auto
  show "\<forall>u. bstep w t u \<longrightarrow> bs_ctl u = CReset \<or> u = t"
  proof (intro allI impI)
    fix u
    assume "bstep w t u"
    then show "bs_ctl u = CReset \<or> u = t"
    proof (cases rule: bstep.cases)
      case (sync_returns rc m)
      then show ?thesis using sync_enter_returns [of w "bs_main t" rc m] by simp
    next
      case (sync_parks m)
      then show ?thesis using rec by (simp add: sync_enter_parks)
    next
      case (release_returns rc m)
      then show ?thesis using release_enter_returns [of w "bs_main t" rc m] by simp
    qed (use held nth p in auto)
  qed
qed

theorem barrier_stops_workers_witness:
  "\<exists>t. (bstep sample_control)\<^sup>*\<^sup>* sample_barrier t \<and> bs_pcs t = [WSpin, WSpin]"
proof -
  note st = sample_barrier_start
  obtain p where p: "bstep sample_control sample_barrier p" "bs_ctl p = CWait" "binv p" "bs_pcs p = bs_pcs sample_barrier"
    "barrier_count (bs_main p) = 0" "num_workers (bs_main p) = num_workers (bs_main sample_barrier)"
    by (rule parks_run [OF bstart_inv [OF st(1)] _ st(2,3)]) (simp add: sample_barrier_def)
  have "spinning p = 0" by (simp add: spinning_def p(4) sample_barrier_def)
  then obtain t where t: "(bstep sample_control)\<^sup>*\<^sup>* p t" "bs_ctl t = CHeld" "num_workers (bs_main t) = num_workers (bs_main p)"
    using sync_completes [OF p(3,2)] p(5) by auto
  have r: "(bstep sample_control)\<^sup>*\<^sup>* sample_barrier t" using p(1) t(1) by (rule converse_rtranclp_into_rtranclp)
  show ?thesis
    using barrier_stops_workers [OF st(1) r] t(2) r t(3) p(6) by (auto simp: sample_barrier_def replicate_two)
qed

text \<open>C16: A waiting sync can complete exactly when every worker in the waiting loop was counted for this barrier; a worker that has not
  yet left the loop of the previous barrier keeps the control core waiting for ever.\<close>

theorem sync_completes_iff:
  assumes "bstart s" and "(bstep w)\<^sup>*\<^sup>* s t" and "bs_ctl t = CWait"
  shows "(\<exists>u. (bstep w)\<^sup>*\<^sup>* t u \<and> bs_ctl u = CHeld) \<longleftrightarrow>
    unat (barrier_count (bs_main t)) = length (filter (\<lambda>p. p = WSpin) (bs_pcs t))"
proof -
  have inv: "binv t" by (rule barrier_runs.reachable_inv [OF assms(1,2)])
  have sp: "length (filter (\<lambda>p. p = WSpin) (bs_pcs t)) = spinning t" by (simp add: spinning_def occupied_def)
  show ?thesis
  proof (cases "unat (barrier_count (bs_main t)) = spinning t")
    case True
    then show ?thesis using sync_completes [OF inv assms(3)] sp by auto
  next
    case False
    then have "stale t" using inv assms(3) by (simp add: stale_def binv_def)
    then have "\<not> (\<exists>u. (bstep w)\<^sup>*\<^sup>* t u \<and> bs_ctl u = CHeld)" using stale_steps [of w t] by (fastforce simp: stale_def)
    then show ?thesis using False sp by simp
  qed
qed

theorem sync_completes_iff_witness:
  "\<exists>t. bstep sample_control sample_barrier t \<and> bs_ctl t = CWait \<and>
    (\<exists>u. (bstep sample_control)\<^sup>*\<^sup>* t u \<and> bs_ctl u = CHeld)"
proof -
  note st = sample_barrier_start
  obtain p where p: "bstep sample_control sample_barrier p" "bs_ctl p = CWait" "binv p" "bs_pcs p = bs_pcs sample_barrier"
    "barrier_count (bs_main p) = 0" "num_workers (bs_main p) = num_workers (bs_main sample_barrier)"
    by (rule parks_run [OF bstart_inv [OF st(1)] _ st(2,3)]) (simp add: sample_barrier_def)
  have r: "(bstep sample_control)\<^sup>*\<^sup>* sample_barrier p" using p(1) by (rule r_into_rtranclp)
  show ?thesis
    using sync_completes_iff [OF st(1) r p(2)] p by (auto simp: sample_barrier_def)
qed

text \<open>C22: A second sync can be started so early that the system hangs.  With two or more workers there is an interleaving in which a sync of the
  control core parks the workers and returns, the release stores both its words, and a second sync enters its waiting loop, after which the control
  core waits in every continuation, since no worker has left the loop of the first barrier.\<close>

theorem second_sync_may_hang:
  assumes "bstart s" and "2 \<le> num_workers (bs_main s)" and "is_main w \<noteq> 0"
  shows "\<exists>p h q r t. barrier_sync_enter w (bs_main s) = (None, bs_main p) \<and> bstep w s p \<and> (bstep w)\<^sup>*\<^sup>* p h \<and> bs_ctl h = CHeld \<and>
    barrier_release_enter w (bs_main h) = (None, bs_main q) \<and> bstep w h q \<and> bs_main r = barrier_release_reset (bs_main q) \<and> bstep w q r \<and>
    bs_ctl r = CRun \<and> barrier_sync_enter w (bs_main r) = (None, bs_main t) \<and> bstep w r t \<and>
    (\<forall>u. (bstep w)\<^sup>*\<^sup>* t u \<longrightarrow> bs_ctl u = CWait)"
proof -
  note inv = bstart_inv [OF assms(1)]
  have run: "bs_ctl s = CRun" using assms(1) by (simp add: bstart_def)
  obtain p where p: "bstep w s p" "bs_ctl p = CWait" "binv p" "bs_pcs p = bs_pcs s"
    "barrier_count (bs_main p) = 0" "num_workers (bs_main p) = num_workers (bs_main s)" "barrier_sync_enter w (bs_main s) = (None, bs_main p)"
    by (rule parks_run [OF inv run assms(2,3)])
  have "spinning p = 0" using assms(1) p(4) by (simp add: spinning_def bstart_def occupied_replicate)
  then obtain h where h: "(bstep w)\<^sup>*\<^sup>* p h" "bs_ctl h = CHeld" "num_workers (bs_main h) = num_workers (bs_main s)"
    using sync_completes [OF p(3,2), of w] p(5,6) by auto
  have ih: "binv h" by (rule barrier_runs.steps_inv [OF h(1) p(3)])
  obtain q r where r: "bstep w h q" "barrier_release_enter w (bs_main h) = (None, bs_main q)" "bstep w q r"
    "bs_main r = barrier_release_reset (bs_main q)" "bs_ctl r = CRun" "bs_pcs r = bs_pcs h" "num_workers (bs_main r) = num_workers (bs_main h)"
    by (rule release_run [OF ih h(2) assms(3)])
  have ir: "binv r" by (rule step_keeps_binv [OF r(3) step_keeps_binv [OF r(1) ih]])
  obtain t where t: "bstep w r t" "bs_ctl t = CWait" "binv t" "bs_pcs t = bs_pcs r"
    "barrier_count (bs_main t) = 0" "num_workers (bs_main t) = num_workers (bs_main r)" "barrier_sync_enter w (bs_main r) = (None, bs_main t)"
    by (rule parks_run [OF ir r(5) _ assms(3)]) (use h(3) r(7) assms(2) in simp)
  have all: "set (bs_pcs t) \<subseteq> {WSpin}" using ih h(2) r(6) t(4) by (simp add: binv_def)
  have "length (bs_pcs t) = unat (num_workers (bs_main s))" using t(3,6) r(7) h(3) by (simp add: binv_def)
  moreover have "0 < unat (num_workers (bs_main s))" using assms(2) by (auto simp: word_le_nat_alt)
  ultimately have "0 < spinning t" using all by (cases "bs_pcs t") (auto simp: spinning_def)
  then have "stale t" using t by (simp add: stale_def)
  then have "\<forall>u. (bstep w)\<^sup>*\<^sup>* t u \<longrightarrow> bs_ctl u = CWait" using stale_steps [of w t] by (auto simp: stale_def)
  then show ?thesis using p(1,7) h(1,2) r(1-5) t(1,7) by blast
qed

theorem second_sync_may_hang_witness:
  "\<exists>p h q r t. bstep sample_control sample_barrier p \<and> (bstep sample_control)\<^sup>*\<^sup>* p h \<and> bs_ctl h = CHeld \<and>
    bstep sample_control h q \<and> bstep sample_control q r \<and> bs_ctl r = CRun \<and> bstep sample_control r t \<and>
    (\<forall>u. (bstep sample_control)\<^sup>*\<^sup>* t u \<longrightarrow> bs_ctl u = CWait)"
  using second_sync_may_hang [OF sample_barrier_start] by blast

text \<open>With a control core and a single worker the sync returns success at once: nothing is written, and the worker passes its check.\<close>

theorem single_worker_not_stopped:
  assumes "num_workers m = 1" and "parked_at_barrier m = 0"
  shows "barrier_sync_enter w m = (Some 0, m) \<and> \<not> barrier_check_parked m"
  using assms by (simp add: barrier_sync_enter_def barrier_check_parked_def)

theorem single_worker_not_stopped_witness:
  "\<exists>m. num_workers m = 1 \<and> barrier_sync_enter sample_control m = (Some 0, m) \<and> \<not> barrier_check_parked m"
  using single_worker_not_stopped [of "(bs_main sample_barrier)\<lparr>num_workers := 1\<rparr>" sample_control]
  by (intro exI [of _ "(bs_main sample_barrier)\<lparr>num_workers := 1\<rparr>"]) (simp add: sample_barrier_def)

end
