(* ===== verification/Feature_Arc.thy ===== *)
theory Feature_Arc
  imports Util
begin

text \<open>
  The feature arcs of \<^verbatim>\<open>lib/featurearc\<close>: \<^verbatim>\<open>feature_arc.c\<close> and the fast path of \<^verbatim>\<open>dao_graph_feature_arc_worker.h\<close>.  An arc
  is a list of features, the nodes of a packet processing graph, and for every interface (index) a mask of the enabled
  features with the edges that lead from one enabled feature to the next.  The graph itself, and the bit searches of DPDK,
  are parameters; an arc handle is the address of the arc, and dereferencing an address without an arc is a fault.
\<close>

section \<open>Data\<close>

definition DAO_GRAPH_FEATURE_ARC_MAX :: int where "DAO_GRAPH_FEATURE_ARC_MAX = 32"
definition DAO_GRAPH_FEATURE_MAX_PER_ARC :: nat where "DAO_GRAPH_FEATURE_MAX_PER_ARC = 64"
definition DAO_GRAPH_FEATURE_INVALID_VALUE :: u8 where "DAO_GRAPH_FEATURE_INVALID_VALUE = 255"

record rte_node =
  node_name :: string
  node_id :: u32

text \<open>\<open>rte_node_edge_get\<close> gives the names of the edges of a node, \<open>None\<close> for an id without a node; \<open>malloc_ok n\<close> says that
  \<^verbatim>\<open>malloc(n)\<close> succeeds.\<close>

record 'g graph_ops =
  rte_node_id_to_name :: "'g \<Rightarrow> u32 \<Rightarrow> string"
  rte_node_edge_get :: "'g \<Rightarrow> u32 \<Rightarrow> string list option"
  rte_node_edge_update :: "'g \<Rightarrow> u32 \<Rightarrow> u16 \<Rightarrow> string \<Rightarrow> u16 \<times> 'g"
  rte_node_edge_count :: "'g \<Rightarrow> u32 \<Rightarrow> u16"
  rte_fls_u64 :: "u64 \<Rightarrow> u32"
  rte_bsf64_safe :: "u64 \<Rightarrow> u32 option"
  rte_ctz64 :: "u64 \<Rightarrow> u32"
  malloc_ok :: "nat \<Rightarrow> bool"
  RTE_GRAPH_NAMESIZE :: nat
  RTE_NODE_NAMESIZE :: nat
  RTE_NODE_ID_INVALID :: u32
  RTE_EDGE_ID_INVALID :: u16

record dao_graph_feature_node_list =
  feature_node :: rte_node
  ref_count :: int
  fi_arc :: u64
  fi_edge :: u16

record dao_graph_feature_data =
  fd_data :: int
  feature_data_index :: u32
  edge_to_this_feature :: u16
  edge_to_next_feature :: u16
  node_info :: "rte_node option"

record dao_graph_feature =
  num_enabled_features :: u32
  feature_data :: "dao_graph_feature_data list"

record dao_graph_feature_arc =
  arc_addr :: u64
  all_features :: "dao_graph_feature_node_list list"
  feature_arc_name :: string
  feature_arc_index :: u32
  feature_arc_main :: u64
  start_node :: rte_node
  max_features :: u32
  max_indexes :: u32
  runtime_enabled_features :: int
  features_by_index :: "dao_graph_feature list"
  feature_bit_mask_by_index :: "u64 list"

record dao_graph_feature_arc_main =
  am_addr :: u64
  num_feature_arcs :: u32
  max_feature_arcs :: u32
  feature_arcs :: "dao_graph_feature_arc option list"

section \<open>Names and edges\<close>

text \<open>\<^verbatim>\<open>strstr(a, b) != NULL\<close>.\<close>

fun strstr :: "string \<Rightarrow> string \<Rightarrow> bool" where
  "strstr [] b = (b = [])"
| "strstr (c # cs) b = (take (length b) (c # cs) = b \<or> strstr cs b)"

definition same_name :: "'g graph_ops \<Rightarrow> string \<Rightarrow> string \<Rightarrow> bool" where
  "same_name ops a b \<longleftrightarrow> take (RTE_GRAPH_NAMESIZE ops) a = take (RTE_GRAPH_NAMESIZE ops) b"

text \<open>The loop of \<^verbatim>\<open>feature_lookup\<close>, which counts the features it passes: \<open>Inl slot\<close> for a feature that was found at this
  slot, \<open>Inr slot\<close> for the number of features when there is none with the name.  No feature has the name \<^verbatim>\<open>NULL\<close>.\<close>

fun lookup_loop :: "'g graph_ops \<Rightarrow> 'g \<Rightarrow> u64 \<Rightarrow> string \<Rightarrow> nat \<Rightarrow> dao_graph_feature_node_list list \<Rightarrow> fault + (nat + nat)" where
  "lookup_loop ops gr a name slot [] = Inr (Inr slot)"
| "lookup_loop ops gr a name slot (f # fs) =
     (if fi_arc f \<noteq> a then Inl VerifyPanic
      else if same_name ops (rte_node_id_to_name ops gr (node_id (feature_node f))) name then Inr (Inl slot)
      else lookup_loop ops gr a name (Suc slot) fs)"

definition feature_lookup :: "'g graph_ops \<Rightarrow> 'g \<Rightarrow> dao_graph_feature_arc \<Rightarrow> string option \<Rightarrow> fault + (nat + nat)" where
  "feature_lookup ops gr dfl name =
     (case name of None \<Rightarrow> Inr (Inr 0) | Some nm \<Rightarrow> lookup_loop ops gr (arc_addr dfl) nm 0 (all_features dfl))"

text \<open>Called without a buffer, \<^verbatim>\<open>rte_node_edge_get\<close> returns the size of the buffer in bytes, one pointer per edge, and with a buffer the number of
  edges.  For an id without a node both calls return \<^verbatim>\<open>RTE_NODE_ID_INVALID\<close> and nothing is stored, so that the loop follows pointers nobody wrote.\<close>

definition get_existing_edge :: "'g graph_ops \<Rightarrow> 'g \<Rightarrow> rte_node \<Rightarrow> rte_node \<Rightarrow> fault + u16 option" where
  "get_existing_edge ops gr parent child =
     (case rte_node_edge_get ops gr (node_id parent) of
        None \<Rightarrow> if malloc_ok ops (unat (RTE_NODE_ID_INVALID ops)) then Inl WildPointer else Inr None
      | Some names \<Rightarrow>
          if \<not> malloc_ok ops (8 * length names) then Inr None
          else
            let i = first_free (\<lambda>e. strstr (node_name child) e) names
            in Inr (if i < length names then Some (of_nat i) else None))"

definition connect_graph_nodes :: "'g graph_ops \<Rightarrow> 'g \<Rightarrow> rte_node \<Rightarrow> rte_node \<Rightarrow> fault + u16 option \<times> 'g" where
  "connect_graph_nodes ops gr parent child =
     rbind (get_existing_edge ops gr parent child) (\<lambda>e.
       case e of
         Some edge \<Rightarrow> Inr (Some edge, gr)
       | None \<Rightarrow>
           (case rte_node_edge_update ops gr (node_id parent) (RTE_EDGE_ID_INVALID ops) (node_name child) of
              (edge, gr1) \<Rightarrow>
                if edge = RTE_EDGE_ID_INVALID ops then Inr (None, gr1)
                else Inr (Some (rte_node_edge_count ops gr1 (node_id parent) - 1), gr1)))"

section \<open>Arcs\<close>

definition feature_arc_init :: "u64 option \<Rightarrow> u32 \<Rightarrow> int \<times> dao_graph_feature_arc_main option" where
  "feature_arc_init heap n =
     (case heap of
        None \<Rightarrow> (- 1, None)
      | Some a \<Rightarrow> (0, Some \<lparr>am_addr = a, num_feature_arcs = 0, max_feature_arcs = n, feature_arcs = replicate (unat n) None\<rparr>))"

definition dao_graph_feature_arc_init ::
  "u64 option \<Rightarrow> int \<Rightarrow> dao_graph_feature_arc_main option \<Rightarrow> int \<times> dao_graph_feature_arc_main option" where
  "dao_graph_feature_arc_init heap n st =
     (if n = 0 then (- 1, st)
      else case st of Some m \<Rightarrow> (- 1, st) | None \<Rightarrow> feature_arc_init heap (of_int n))"

text \<open>What \<^verbatim>\<open>rte_malloc\<close> returned for the features of the interfaces: the counter and the data of each.  The \<^verbatim>\<open>memset\<close> behind it clears one
  byte per interface and no more; \<open>cleared n sz i v\<close> is the counter of interface \<open>i\<close> after it (little endian, 16 bytes behind the
  beginning of the structure of \<open>sz\<close> bytes).\<close>

definition cleared :: "nat \<Rightarrow> nat \<Rightarrow> nat \<Rightarrow> u32 \<Rightarrow> u32" where
  "cleared n sz i v = (let z = min 4 (n - (i * sz + 16)) in push_bit (8 * z) (drop_bit (8 * z) v))"

definition fresh_feature :: "nat \<Rightarrow> nat \<Rightarrow> nat \<Rightarrow> dao_graph_feature \<Rightarrow> nat \<Rightarrow> dao_graph_feature" where
  "fresh_feature n sz feats raw i =
     \<lparr>num_enabled_features = cleared n sz i (num_enabled_features raw),
      feature_data = map (\<lambda>j. if j < feats then (feature_data raw ! j)\<lparr>feature_data_index := ucast DAO_GRAPH_FEATURE_INVALID_VALUE\<rparr>
                              else feature_data raw ! j) [0..<DAO_GRAPH_FEATURE_MAX_PER_ARC]\<rparr>"

text \<open>\<open>arc\<close> is the address \<^verbatim>\<open>rte_malloc\<close> gives the arc, \<open>raw\<close> the contents of the features when they can be allocated, \<open>sz\<close> the size of one of
  them.\<close>

definition dao_graph_feature_arc_create ::
  "'g graph_ops \<Rightarrow> u64 option \<Rightarrow> u64 option \<Rightarrow> (nat \<Rightarrow> dao_graph_feature) option \<Rightarrow> nat \<Rightarrow> bool \<Rightarrow> string option \<Rightarrow> int \<Rightarrow> int \<Rightarrow>
    rte_node option \<Rightarrow> dao_graph_feature_arc_main option \<Rightarrow> fault + int \<times> dao_graph_feature_arc_main option \<times> u64 option" where
  "dao_graph_feature_arc_create ops heap arc raw sz out name feats idxs start st =
     (if \<not> out then Inr (- 1, st, None)
      else if feats < 1 then Inr (- 1, st, None)
      else case start of
        None \<Rightarrow> Inr (- 1, st, None)
      | Some sn \<Rightarrow>
          (case name of
             None \<Rightarrow> Inr (- 1, st, None)
           | Some nm \<Rightarrow>
               if feats > int DAO_GRAPH_FEATURE_MAX_PER_ARC then Inr (- 1, st, None)
               else case (case st of None \<Rightarrow> dao_graph_feature_arc_init heap DAO_GRAPH_FEATURE_ARC_MAX st | Some m \<Rightarrow> (0, st)) of
                 (rc, st1) \<Rightarrow>
                   (case st1 of
                      None \<Rightarrow> Inr (- 1, st1, None)
                    | Some m \<Rightarrow>
                        if rc < 0 then Inr (- 1, st1, None)
                        else if num_feature_arcs m > max_feature_arcs m - 1 then Inr (- 1, st1, None)
                        else
                          let i = first_free (\<lambda>a. a = None) (take (unat (max_feature_arcs m)) (feature_arcs m))
                          in if unat (max_feature_arcs m) \<le> i then Inr (- 1, st1, None)
                             else case arc of
                                 None \<Rightarrow> Inr (- 1, st1, None)
                               | Some a \<Rightarrow>
                                   (case raw of
                                      None \<Rightarrow> Inr (- ENOMEM, st1, None)
                                    | Some r \<Rightarrow>
                                        if idxs < 0 then Inl OutOfBounds
                                        else let dfl = \<lparr>arc_addr = a, all_features = [],
                                                   feature_arc_name = take (RTE_NODE_NAMESIZE ops - 1) nm,
                                                   feature_arc_index = of_nat i, feature_arc_main = am_addr m, start_node = sn,
                                                   max_features = of_int feats, max_indexes = of_int idxs,
                                                   runtime_enabled_features = 0,
                                                   features_by_index = map (\<lambda>k. fresh_feature (nat idxs) sz (nat feats) (r k) k) [0..<nat idxs],
                                                   feature_bit_mask_by_index = replicate (nat idxs) 0\<rparr>
                                        in Inr (0, Some (m\<lparr>feature_arcs := (feature_arcs m)[i := Some dfl],
                                                             num_feature_arcs := num_feature_arcs m + 1\<rparr>), Some a)))))"

text \<open>The arc behind a handle: its slot in the table.\<close>

definition arc_slot :: "dao_graph_feature_arc_main \<Rightarrow> u64 \<Rightarrow> nat" where
  "arc_slot m h = first_free (\<lambda>a. case a of None \<Rightarrow> False | Some dfl \<Rightarrow> arc_addr dfl = h) (feature_arcs m)"

definition arc_deref :: "dao_graph_feature_arc_main option \<Rightarrow> u64 \<Rightarrow> fault + dao_graph_feature_arc" where
  "arc_deref st h =
     (case st of
        None \<Rightarrow> Inl WildPointer
      | Some m \<Rightarrow>
          if arc_slot m h < length (feature_arcs m)
          then (case feature_arcs m ! arc_slot m h of None \<Rightarrow> Inl WildPointer | Some dfl \<Rightarrow> Inr dfl)
          else Inl WildPointer)"

definition arc_store :: "dao_graph_feature_arc_main option \<Rightarrow> u64 \<Rightarrow> dao_graph_feature_arc \<Rightarrow> dao_graph_feature_arc_main option" where
  "arc_store st h dfl = map_option (\<lambda>m. m\<lparr>feature_arcs := (feature_arcs m)[arc_slot m h := Some dfl]\<rparr>) st"

definition feature_arc_lookup :: "dao_graph_feature_arc_main option \<Rightarrow> u64 \<Rightarrow> int" where
  "feature_arc_lookup st h =
     (case st of
        None \<Rightarrow> - 1
      | Some m \<Rightarrow> if arc_slot m h < unat (max_feature_arcs m) then 0 else - 1)"

section \<open>Adding features\<close>

text \<open>The two loops that connect a new feature: in front of the feature \<open>before\<close>, and from the feature \<open>after\<close> on.  Failures to connect
  are ignored, apart from the flag.\<close>

fun connect_before ::
  "'g graph_ops \<Rightarrow> rte_node \<Rightarrow> string \<Rightarrow> bool \<Rightarrow> dao_graph_feature_node_list list \<Rightarrow> 'g \<Rightarrow> fault + 'g" where
  "connect_before ops new before add [] gr = Inr gr"
| "connect_before ops new before add (f # fs) gr =
     rbind (if same_name ops (node_name (feature_node f)) before
            then rbind (connect_graph_nodes ops gr new (feature_node f)) (\<lambda>(e, gr). Inr (if e \<noteq> None then False else add, gr))
            else Inr (add, gr)) (\<lambda>(add, gr).
     rbind (if add then rbind (connect_graph_nodes ops gr (feature_node f) new) (\<lambda>(_, gr). Inr gr) else Inr gr) (\<lambda>gr.
       connect_before ops new before add fs gr))"

fun connect_after ::
  "'g graph_ops \<Rightarrow> rte_node \<Rightarrow> string \<Rightarrow> bool \<Rightarrow> dao_graph_feature_node_list list \<Rightarrow> 'g \<Rightarrow> fault + 'g" where
  "connect_after ops new after add [] gr = Inr gr"
| "connect_after ops new after add (f # fs) gr =
     rbind (if add then rbind (connect_graph_nodes ops gr new (feature_node f)) (\<lambda>(_, gr). Inr gr) else Inr gr) (\<lambda>gr.
     rbind (if same_name ops (node_name (feature_node f)) after
            then rbind (connect_graph_nodes ops gr (feature_node f) new) (\<lambda>(e, gr). Inr (if e \<noteq> None then True else add, gr))
            else Inr (add, gr)) (\<lambda>(add, gr).
       connect_after ops new after add fs gr))"

text \<open>\<^verbatim>\<open>STAILQ_INSERT_AFTER\<close> and the insertion in front of a feature, by slot.\<close>

definition insert_at :: "nat \<Rightarrow> 'a \<Rightarrow> 'a list \<Rightarrow> 'a list" where
  "insert_at n x xs = take n xs @ x # drop n xs"

text \<open>The names are given with their addresses, since the code compares the pointers; \<open>mem\<close> says that the node of the list can be
  allocated.  The arc and the graph are returned also when the operation fails, since the edges stay.\<close>

definition add_constrained ::
  "'g graph_ops \<Rightarrow> rte_node \<Rightarrow> (u64 \<times> string) option \<Rightarrow> (u64 \<times> string) option \<Rightarrow> dao_graph_feature_node_list \<Rightarrow>
    dao_graph_feature_arc \<Rightarrow> 'g \<Rightarrow> fault + int \<times> dao_graph_feature_arc \<times> 'g" where
  "add_constrained ops node after before new dfl gr =
     rbind (case before of
              None \<Rightarrow> Inr (Some None, gr)
            | Some (_, b) \<Rightarrow>
                rbind (feature_lookup ops gr dfl (Some b)) (\<lambda>l.
                  case l of
                    Inr _ \<Rightarrow> Inr (None, gr)
                  | Inl s \<Rightarrow> rbind (connect_before ops node b True (all_features dfl) gr) (\<lambda>gr. Inr (Some (Some s), gr)))) (\<lambda>(bs, gr).
       case bs of
         None \<Rightarrow> Inr (- 1, dfl, gr)
       | Some bslot \<Rightarrow>
           (case after of
              Some (_, a) \<Rightarrow>
                rbind (feature_lookup ops gr dfl (Some a)) (\<lambda>l.
                  case l of
                    Inr _ \<Rightarrow> Inr (- 1, dfl, gr)
                  | Inl s \<Rightarrow>
                      rbind (connect_after ops node a False (all_features dfl) gr) (\<lambda>gr.
                        Inr (0, dfl\<lparr>all_features := insert_at (Suc s) new (all_features dfl)\<rparr>, gr)))
            | None \<Rightarrow>
                (case bslot of
                   Some s \<Rightarrow> Inr (0, dfl\<lparr>all_features := insert_at s new (all_features dfl)\<rparr>, gr)
                 | None \<Rightarrow> Inr (0, dfl\<lparr>all_features := all_features dfl @ [new]\<rparr>, gr))))"

definition feature_add ::
  "'g graph_ops \<Rightarrow> bool \<Rightarrow> rte_node option \<Rightarrow> (u64 \<times> string) option \<Rightarrow> (u64 \<times> string) option \<Rightarrow> dao_graph_feature_arc \<Rightarrow> 'g \<Rightarrow>
    fault + int \<times> dao_graph_feature_arc \<times> 'g" where
  "feature_add ops mem feature after before dfl gr =
     (if runtime_enabled_features dfl \<noteq> 0 then Inr (- 1, dfl, gr)
      else if after \<noteq> None \<and> before \<noteq> None \<and> map_option fst after = map_option fst before then Inr (- 1, dfl, gr)
      else case feature of
        None \<Rightarrow> Inr (- 1, dfl, gr)
      | Some node \<Rightarrow>
          if node_id node = RTE_NODE_ID_INVALID ops then Inr (- 1, dfl, gr)
          else rbind (feature_lookup ops gr dfl (Some (node_name node))) (\<lambda>l.
            case l of
              Inl _ \<Rightarrow> Inr (- 1, dfl, gr)
            | Inr slot \<Rightarrow>
                if DAO_GRAPH_FEATURE_MAX_PER_ARC \<le> slot then Inr (- 1, dfl, gr)
                else if strstr (node_name node) (node_name (start_node dfl)) then Inr (- 1, dfl, gr)
                else rbind (connect_graph_nodes ops gr (start_node dfl) node) (\<lambda>(e, gr).
                  case e of
                    None \<Rightarrow> Inr (- 1, dfl, gr)
                  | Some edge \<Rightarrow>
                      if \<not> mem then Inr (- 1, dfl, gr)
                      else add_constrained ops node after before
                             \<lparr>feature_node = node, ref_count = 0, fi_arc = arc_addr dfl, fi_edge = edge\<rparr> dfl gr)))"

definition dao_graph_feature_add ::
  "'g graph_ops \<Rightarrow> bool \<Rightarrow> u64 \<Rightarrow> rte_node option \<Rightarrow> (u64 \<times> string) option \<Rightarrow> (u64 \<times> string) option \<Rightarrow>
    dao_graph_feature_arc_main option \<Rightarrow> 'g \<Rightarrow> fault + int \<times> dao_graph_feature_arc_main option \<times> 'g" where
  "dao_graph_feature_add ops mem h feature after before st gr =
     rbind (arc_deref st h) (\<lambda>dfl.
       if map_option am_addr st \<noteq> Some (feature_arc_main dfl) then Inl VerifyPanic
       else if feature_arc_lookup st h \<noteq> 0 then Inr (- 1, st, gr)
       else rbind (feature_add ops mem feature after before dfl gr) (\<lambda>(rc, dfl, gr). Inr (rc, arc_store st h dfl, gr)))"

definition dao_graph_feature_destroy :: "u64 \<Rightarrow> string \<Rightarrow> int" where
  "dao_graph_feature_destroy h name = 0"

definition dao_graph_feature_arc_destroy :: "u64 \<Rightarrow> int" where
  "dao_graph_feature_arc_destroy h = 0"

definition dao_graph_feature_arc_cleanup :: "dao_graph_feature_arc_main option \<Rightarrow> int" where
  "dao_graph_feature_arc_cleanup st = (case st of None \<Rightarrow> - 1 | Some m \<Rightarrow> 0)"

definition dao_graph_feature_arc_lookup_by_name :: "dao_graph_feature_arc_main option \<Rightarrow> string \<Rightarrow> int \<times> u64 option" where
  "dao_graph_feature_arc_lookup_by_name st name =
     (case st of
        None \<Rightarrow> (- 1, None)
      | Some m \<Rightarrow>
          (case find (\<lambda>a. case a of None \<Rightarrow> False | Some dfl \<Rightarrow> strstr name (feature_arc_name dfl))
                  (take (unat (max_feature_arcs m)) (feature_arcs m)) of
             Some (Some dfl) \<Rightarrow> (0, Some (arc_addr dfl))
           | _ \<Rightarrow> (- 1, None)))"

section \<open>Access to the features of an interface\<close>

definition dao_graph_feature_get :: "dao_graph_feature_arc \<Rightarrow> u32 \<Rightarrow> fault + dao_graph_feature" where
  "dao_graph_feature_get dfl i =
     (if unat i < length (features_by_index dfl) then Inr (features_by_index dfl ! unat i) else Inl OutOfBounds)"

definition dao_graph_feature_data_get :: "dao_graph_feature \<Rightarrow> u8 \<Rightarrow> fault + dao_graph_feature_data" where
  "dao_graph_feature_data_get df j =
     (if unat j < length (feature_data df) then Inr (feature_data df ! unat j) else Inl OutOfBounds)"

definition feature_mask :: "dao_graph_feature_arc \<Rightarrow> u32 \<Rightarrow> fault + u64" where
  "feature_mask dfl i =
     (if unat i < length (feature_bit_mask_by_index dfl) then Inr (feature_bit_mask_by_index dfl ! unat i) else Inl OutOfBounds)"

text \<open>Stores to the data of slot \<open>j\<close> of interface \<open>i\<close>.\<close>

definition put_data :: "nat \<Rightarrow> nat \<Rightarrow> (dao_graph_feature_data \<Rightarrow> dao_graph_feature_data) \<Rightarrow> dao_graph_feature_arc \<Rightarrow> dao_graph_feature_arc" where
  "put_data i j f dfl =
     (let df = features_by_index dfl ! i
      in dfl\<lparr>features_by_index := (features_by_index dfl)[i := df\<lparr>feature_data := (feature_data df)[j := f (feature_data df ! j)]\<rparr>]\<rparr>)"

section \<open>Enabling and disabling\<close>

definition feature_validate ::
  "'g graph_ops \<Rightarrow> 'g \<Rightarrow> u64 option \<Rightarrow> u32 \<Rightarrow> string option \<Rightarrow> bool \<Rightarrow> dao_graph_feature_arc \<Rightarrow> fault + int" where
  "feature_validate ops gr am i name enable dfl =
     (if am \<noteq> Some (feature_arc_main dfl) then Inr (- EINVAL)
      else if i \<ge> max_indexes dfl then Inr (- 1)
      else rbind (feature_lookup ops gr dfl name) (\<lambda>l.
        case l of
          Inr _ \<Rightarrow> Inr (- EINVAL)
        | Inl slot \<Rightarrow>
            if unat (max_features dfl) \<le> slot then Inr (- EINVAL)
            else rbind (dao_graph_feature_get dfl i) (\<lambda>df.
              if enable \<and> num_enabled_features df \<ge> max_features dfl then Inr (- EINVAL)
              else rbind (dao_graph_feature_data_get df (of_nat slot)) (\<lambda>dfd.
              rbind (feature_mask dfl i) (\<lambda>m.
                if enable \<and> m AND RTE_BIT64 slot \<noteq> 0 then Inr (- 1)
                else if \<not> enable \<and> m AND RTE_BIT64 slot = 0 then Inr (- 1)
                else if enable \<and> feature_data_index dfd \<noteq> ucast DAO_GRAPH_FEATURE_INVALID_VALUE then Inr (- 1)
                else if \<not> enable \<and> feature_data_index dfd = ucast DAO_GRAPH_FEATURE_INVALID_VALUE then Inr (- 1)
                else Inr 0)))))"

definition dao_graph_feature_validate ::
  "'g graph_ops \<Rightarrow> 'g \<Rightarrow> u64 \<Rightarrow> u32 \<Rightarrow> string option \<Rightarrow> bool \<Rightarrow> dao_graph_feature_arc_main option \<Rightarrow> fault + int" where
  "dao_graph_feature_validate ops gr h i name enable st =
     rbind (arc_deref st h) (\<lambda>dfl. feature_validate ops gr (map_option am_addr st) i name enable dfl)"

text \<open>The enabled features below and above a slot.\<close>

definition lower_feature_mask :: "nat \<Rightarrow> u64 \<Rightarrow> u64" where
  "lower_feature_mask slot m = (if slot \<noteq> 0 then RTE_BIT64 slot - 1 else 0) AND m"

definition upper_feature_mask :: "nat \<Rightarrow> u64 \<Rightarrow> u64" where
  "upper_feature_mask slot m = NOT (RTE_BIT64 slot) AND NOT (if slot \<noteq> 0 then RTE_BIT64 slot - 1 else 0) AND m"

definition dfd_node :: "dao_graph_feature_data \<Rightarrow> fault + rte_node" where
  "dfd_node d = (case node_info d of None \<Rightarrow> Inl WildPointer | Some n \<Rightarrow> Inr n)"

text \<open>The two parts of enabling that look for an edge: from the previous enabled feature to this one, and from this one to the next.
  The result \<open>None\<close> is the early return of \<^verbatim>\<open>-1\<close>; what was stored until then stays.\<close>

definition link_prev :: "'g graph_ops \<Rightarrow> 'g \<Rightarrow> nat \<Rightarrow> nat \<Rightarrow> u64 \<Rightarrow> rte_node \<Rightarrow> dao_graph_feature_arc \<Rightarrow> fault + bool \<times> dao_graph_feature_arc" where
  "link_prev ops gr i slot m node dfl =
     (let p = rte_fls_u64 ops (lower_feature_mask slot m)
      in if p = 0 then Inr (True, dfl)
         else rbind (dao_graph_feature_get dfl (of_nat i)) (\<lambda>df.
              rbind (dao_graph_feature_data_get df (ucast (p - 1))) (\<lambda>prev.
                if feature_data_index prev = ucast DAO_GRAPH_FEATURE_INVALID_VALUE then Inl VerifyPanic
                else rbind (dfd_node prev) (\<lambda>pn.
                rbind (get_existing_edge ops gr pn node) (\<lambda>e.
                  case e of
                    None \<Rightarrow> Inr (False, dfl)
                  | Some edge \<Rightarrow> Inr (True, put_data i (unat (p - 1)) (\<lambda>d. d\<lparr>edge_to_next_feature := edge\<rparr>) dfl))))))"

definition link_next :: "'g graph_ops \<Rightarrow> 'g \<Rightarrow> nat \<Rightarrow> nat \<Rightarrow> u64 \<Rightarrow> rte_node \<Rightarrow> dao_graph_feature_arc \<Rightarrow> fault + bool \<times> dao_graph_feature_arc" where
  "link_next ops gr i slot m node dfl =
     (case rte_bsf64_safe ops (upper_feature_mask slot m) of
        None \<Rightarrow> Inr (True, dfl)
      | Some n \<Rightarrow>
          rbind (dao_graph_feature_get dfl (of_nat i)) (\<lambda>df.
          rbind (dao_graph_feature_data_get df (ucast n)) (\<lambda>next.
            if feature_data_index next = ucast DAO_GRAPH_FEATURE_INVALID_VALUE then Inl VerifyPanic
            else rbind (dfd_node next) (\<lambda>nn.
            rbind (get_existing_edge ops gr node nn) (\<lambda>e.
              case e of
                None \<Rightarrow> Inr (False, dfl)
              | Some edge \<Rightarrow> Inr (True, put_data i slot (\<lambda>d. d\<lparr>edge_to_next_feature := edge\<rparr>) dfl))))))"

definition feature_enable ::
  "'g graph_ops \<Rightarrow> 'g \<Rightarrow> u64 option \<Rightarrow> u32 \<Rightarrow> string option \<Rightarrow> int \<Rightarrow> dao_graph_feature_arc \<Rightarrow> fault + int \<times> dao_graph_feature_arc" where
  "feature_enable ops gr am i name data dfl =
     rbind (feature_validate ops gr am i name True dfl) (\<lambda>rc.
       if rc \<noteq> 0 then Inr (- 1, dfl)
       else rbind (feature_lookup ops gr dfl name) (\<lambda>l.
         case l of
           Inr _ \<Rightarrow> Inr (- 1, dfl)
         | Inl slot \<Rightarrow>
             rbind (dao_graph_feature_get dfl i) (\<lambda>df.
             rbind (dao_graph_feature_data_get df (of_nat slot)) (\<lambda>_.
               if unat (of_nat slot :: u8) \<noteq> slot then Inl VerifyPanic
               else
                 let info = all_features dfl ! slot;
                     dfl1 = put_data (unat i) slot (\<lambda>_. \<lparr>fd_data = data, feature_data_index = ucast DAO_GRAPH_FEATURE_INVALID_VALUE,
                              edge_to_this_feature = fi_edge info, edge_to_next_feature = ucast DAO_GRAPH_FEATURE_INVALID_VALUE,
                              node_info = Some (feature_node info)\<rparr>) dfl
                 in rbind (feature_mask dfl i) (\<lambda>m.
                    rbind (link_prev ops gr (unat i) slot m (feature_node info) dfl1) (\<lambda>(ok, dfl2).
                      if \<not> ok then Inr (- 1, dfl2)
                      else rbind (link_next ops gr (unat i) slot m (feature_node info) dfl2) (\<lambda>(ok, dfl3).
                        if \<not> ok then Inr (- 1, dfl3)
                        else
                          let dfl4 = put_data (unat i) slot (\<lambda>d. d\<lparr>feature_data_index := of_nat slot\<rparr>) dfl3;
                              dfl5 = dfl4\<lparr>all_features := (all_features dfl4)[slot := info\<lparr>ref_count := ref_count info + 1\<rparr>],
                                features_by_index := (features_by_index dfl4)[unat i :=
                                  (features_by_index dfl4 ! unat i)\<lparr>num_enabled_features := num_enabled_features (features_by_index dfl4 ! unat i) + 1\<rparr>],
                                runtime_enabled_features := runtime_enabled_features dfl4 + 1,
                                feature_bit_mask_by_index := (feature_bit_mask_by_index dfl4)[unat i := m OR RTE_BIT64 slot]\<rparr>
                          in Inr (0, dfl5))))))))"

definition dao_graph_feature_enable ::
  "'g graph_ops \<Rightarrow> 'g \<Rightarrow> u64 \<Rightarrow> u32 \<Rightarrow> string option \<Rightarrow> int \<Rightarrow> dao_graph_feature_arc_main option \<Rightarrow>
    fault + int \<times> dao_graph_feature_arc_main option" where
  "dao_graph_feature_enable ops gr h i name data st =
     rbind (arc_deref st h) (\<lambda>dfl.
     rbind (feature_enable ops gr (map_option am_addr st) i name data dfl) (\<lambda>(rc, dfl). Inr (rc, arc_store st h dfl)))"

text \<open>The part of disabling that adjusts the edge of the previous enabled feature.  The test of the return code in it compares with 9, so
  that it returns \<^verbatim>\<open>-1\<close> whenever there is a next enabled feature.\<close>

definition unlink_prev :: "'g graph_ops \<Rightarrow> 'g \<Rightarrow> nat \<Rightarrow> nat \<Rightarrow> u64 \<Rightarrow> dao_graph_feature_arc \<Rightarrow> fault + bool \<times> dao_graph_feature_arc" where
  "unlink_prev ops gr i slot m dfl =
     (let p = rte_fls_u64 ops (lower_feature_mask slot m)
      in if p = 0 then Inr (True, dfl)
         else rbind (dao_graph_feature_get dfl (of_nat i)) (\<lambda>df.
              rbind (dao_graph_feature_data_get df (ucast (p - 1))) (\<lambda>prev.
                let dfl1 = put_data i (unat (p - 1)) (\<lambda>d. d\<lparr>edge_to_next_feature := ucast DAO_GRAPH_FEATURE_INVALID_VALUE\<rparr>) dfl
                in case rte_bsf64_safe ops (upper_feature_mask slot m) of
                     None \<Rightarrow> Inr (True, dfl1)
                   | Some n \<Rightarrow>
                       rbind (dao_graph_feature_data_get df (ucast n)) (\<lambda>next.
                       rbind (dfd_node prev) (\<lambda>pn.
                       rbind (dfd_node next) (\<lambda>nn.
                       rbind (get_existing_edge ops gr pn nn) (\<lambda>e.
                         let rc = (if e = None then - 1 else (0 :: int));
                             dfl2 = (case e of None \<Rightarrow> dfl1
                                     | Some edge \<Rightarrow> put_data i (unat (p - 1)) (\<lambda>d. d\<lparr>edge_to_next_feature := edge\<rparr>) dfl1)
                         in if rc < 9 then Inr (False, dfl2) else Inr (True, dfl2))))))))"

definition feature_disable ::
  "'g graph_ops \<Rightarrow> 'g \<Rightarrow> u64 option \<Rightarrow> u32 \<Rightarrow> string option \<Rightarrow> dao_graph_feature_arc \<Rightarrow> fault + int \<times> dao_graph_feature_arc" where
  "feature_disable ops gr am i name dfl =
     rbind (feature_validate ops gr am i name False dfl) (\<lambda>rc.
       if rc \<noteq> 0 then Inr (- 1, dfl)
       else rbind (feature_lookup ops gr dfl name) (\<lambda>l.
         case l of
           Inr _ \<Rightarrow> Inr (- 1, dfl)
         | Inl slot \<Rightarrow>
             rbind (dao_graph_feature_get dfl i) (\<lambda>df.
             rbind (dao_graph_feature_data_get df (of_nat slot)) (\<lambda>_.
               if unat (of_nat slot :: u8) \<noteq> slot then Inl VerifyPanic
               else
                 rbind (feature_mask dfl i) (\<lambda>m.
                 rbind (unlink_prev ops gr (unat i) slot m dfl) (\<lambda>(ok, dfl1).
                   if \<not> ok then Inr (- 1, dfl1)
                   else
                     let info = all_features dfl1 ! slot;
                         dfl2 = put_data (unat i) slot (\<lambda>d. d\<lparr>feature_data_index := ucast DAO_GRAPH_FEATURE_INVALID_VALUE,
                                  edge_to_this_feature := ucast DAO_GRAPH_FEATURE_INVALID_VALUE,
                                  edge_to_next_feature := ucast DAO_GRAPH_FEATURE_INVALID_VALUE\<rparr>) dfl1;
                         dfl3 = dfl2\<lparr>all_features := (all_features dfl2)[slot := info\<lparr>ref_count := ref_count info - 1\<rparr>],
                           features_by_index := (features_by_index dfl2)[unat i :=
                             (features_by_index dfl2 ! unat i)\<lparr>num_enabled_features := num_enabled_features (features_by_index dfl2 ! unat i) + 1\<rparr>],
                           feature_bit_mask_by_index := (feature_bit_mask_by_index dfl2)[unat i := m AND NOT (RTE_BIT64 slot)]\<rparr>
                     in Inr (0, dfl3)))))))"

definition dao_graph_feature_disable ::
  "'g graph_ops \<Rightarrow> 'g \<Rightarrow> u64 \<Rightarrow> u32 \<Rightarrow> string option \<Rightarrow> dao_graph_feature_arc_main option \<Rightarrow>
    fault + int \<times> dao_graph_feature_arc_main option" where
  "dao_graph_feature_disable ops gr h i name st =
     rbind (arc_deref st h) (\<lambda>dfl.
     rbind (feature_disable ops gr (map_option am_addr st) i name dfl) (\<lambda>(rc, dfl). Inr (rc, arc_store st h dfl)))"

section \<open>The fast path\<close>

text \<open>The result is the return value and the feature stored through the pointer.\<close>

definition bsf64_safe :: "'g graph_ops \<Rightarrow> u64 \<Rightarrow> u8 \<Rightarrow> int \<times> u8" where
  "bsf64_safe ops v pos = (if v = 0 then (0, pos) else (1, ucast (rte_ctz64 ops v)))"

definition dao_graph_feature_arc_has_first_feature :: "'g graph_ops \<Rightarrow> dao_graph_feature_arc \<Rightarrow> u32 \<Rightarrow> u8 \<Rightarrow> fault + int \<times> u8" where
  "dao_graph_feature_arc_has_first_feature ops dfl i feature = rbind (feature_mask dfl i) (\<lambda>m. Inr (bsf64_safe ops m feature))"

text \<open>The shift by \<^verbatim>\<open>*feature + 1\<close> is undefined from 64 on.\<close>

definition dao_graph_feature_arc_has_next_feature :: "'g graph_ops \<Rightarrow> dao_graph_feature_arc \<Rightarrow> u32 \<Rightarrow> u8 \<Rightarrow> fault + int \<times> u8" where
  "dao_graph_feature_arc_has_next_feature ops dfl i feature =
     (if 64 \<le> unat feature + 1 then Inl BadShift
      else rbind (feature_mask dfl i) (\<lambda>m. Inr (bsf64_safe ops (m AND push_bit (unat feature + 1) (NOT 0)) feature)))"

definition dao_graph_feature_arc_num_enabled_features :: "dao_graph_feature_arc \<Rightarrow> int" where
  "dao_graph_feature_arc_num_enabled_features dfl = runtime_enabled_features dfl"

definition dao_graph_feature_arc_has_feature :: "'g graph_ops \<Rightarrow> dao_graph_feature_arc \<Rightarrow> u32 \<Rightarrow> u8 \<Rightarrow> fault + int \<times> u8" where
  "dao_graph_feature_arc_has_feature ops dfl i feature =
     rbind (feature_mask dfl i) (\<lambda>m.
       if m = 0 then Inr (0, feature)
       else if feature = DAO_GRAPH_FEATURE_INVALID_VALUE then dao_graph_feature_arc_has_first_feature ops dfl i feature
       else dao_graph_feature_arc_has_next_feature ops dfl i feature)"

definition dao_graph_feature_arc_first_feature_data_get :: "dao_graph_feature_arc \<Rightarrow> u8 \<Rightarrow> u32 \<Rightarrow> fault + u16 \<times> int" where
  "dao_graph_feature_arc_first_feature_data_get dfl feature i =
     rbind (dao_graph_feature_get dfl i) (\<lambda>df.
     rbind (dao_graph_feature_data_get df feature) (\<lambda>d. Inr (edge_to_this_feature d, fd_data d)))"

definition dao_graph_feature_arc_next_feature_data_get :: "dao_graph_feature_arc \<Rightarrow> u8 \<Rightarrow> u32 \<Rightarrow> fault + u16 \<times> int" where
  "dao_graph_feature_arc_next_feature_data_get dfl feature i =
     rbind (dao_graph_feature_get dfl i) (\<lambda>df.
     rbind (dao_graph_feature_data_get df feature) (\<lambda>d. Inr (edge_to_next_feature d, fd_data d)))"

definition dao_graph_feature_arc_feature_data_get :: "dao_graph_feature_arc \<Rightarrow> u8 \<Rightarrow> u32 \<Rightarrow> fault + u16 \<times> int" where
  "dao_graph_feature_arc_feature_data_get dfl feature i =
     (if feature = DAO_GRAPH_FEATURE_INVALID_VALUE then dao_graph_feature_arc_first_feature_data_get dfl feature i
      else dao_graph_feature_arc_next_feature_data_get dfl feature i)"

end
