(* ===== verification/Feature_Chain.thy ===== *)
theory Feature_Chain
  imports Feature_Arc
begin

text \<open>
  The chain of enabled features of one interface: the mask of the interface, the data of its 64 slots, and the edges that lead from
  every enabled feature to the next one.  The chain is kept by enabling, and by disabling where disabling succeeds.
\<close>

section \<open>The bit searches\<close>

definition bits_ok :: "'g graph_ops \<Rightarrow> bool" where
  "bits_ok ops \<longleftrightarrow>
     (\<forall>x. (x = 0 \<longrightarrow> rte_fls_u64 ops x = 0) \<and>
          (x \<noteq> 0 \<longrightarrow> 0 < unat (rte_fls_u64 ops x) \<and> unat (rte_fls_u64 ops x) \<le> 64 \<and> bit x (unat (rte_fls_u64 ops x) - 1) \<and>
             (\<forall>k \<ge> unat (rte_fls_u64 ops x). \<not> bit x k))) \<and>
     (\<forall>x. case rte_bsf64_safe ops x of
            None \<Rightarrow> x = 0
          | Some n \<Rightarrow> unat n < 64 \<and> bit x (unat n) \<and> (\<forall>k < unat n. \<not> bit x k)) \<and>
     (\<forall>x. x \<noteq> 0 \<longrightarrow> unat (rte_ctz64 ops x) < 64 \<and> bit x (unat (rte_ctz64 ops x)) \<and> (\<forall>k < unat (rte_ctz64 ops x). \<not> bit x k))"

lemma bits_okD:
  assumes "bits_ok ops"
  shows "rte_fls_u64 ops 0 = 0"
    and "x \<noteq> 0 \<Longrightarrow> 0 < unat (rte_fls_u64 ops x) \<and> unat (rte_fls_u64 ops x) \<le> 64 \<and> bit x (unat (rte_fls_u64 ops x) - 1) \<and>
      (\<forall>k \<ge> unat (rte_fls_u64 ops x). \<not> bit x k)"
    and "rte_bsf64_safe ops x = None \<Longrightarrow> x = 0"
    and "rte_bsf64_safe ops x = Some n \<Longrightarrow> unat n < 64 \<and> bit x (unat n) \<and> (\<forall>k < unat n. \<not> bit x k)"
    and "x \<noteq> 0 \<Longrightarrow> unat (rte_ctz64 ops x) < 64 \<and> bit x (unat (rte_ctz64 ops x)) \<and> (\<forall>k < unat (rte_ctz64 ops x). \<not> bit x k)"
proof -
  show "rte_fls_u64 ops 0 = 0" using assms unfolding bits_ok_def by blast
  show "x \<noteq> 0 \<Longrightarrow> 0 < unat (rte_fls_u64 ops x) \<and> unat (rte_fls_u64 ops x) \<le> 64 \<and> bit x (unat (rte_fls_u64 ops x) - 1) \<and>
      (\<forall>k \<ge> unat (rte_fls_u64 ops x). \<not> bit x k)" using assms unfolding bits_ok_def by blast
  have b: "case rte_bsf64_safe ops x of None \<Rightarrow> x = 0 | Some n \<Rightarrow> unat n < 64 \<and> bit x (unat n) \<and> (\<forall>k < unat n. \<not> bit x k)"
    using assms unfolding bits_ok_def by blast
  then show "rte_bsf64_safe ops x = None \<Longrightarrow> x = 0"
    and "rte_bsf64_safe ops x = Some n \<Longrightarrow> unat n < 64 \<and> bit x (unat n) \<and> (\<forall>k < unat n. \<not> bit x k)" by simp_all
  show "x \<noteq> 0 \<Longrightarrow> unat (rte_ctz64 ops x) < 64 \<and> bit x (unat (rte_ctz64 ops x)) \<and> (\<forall>k < unat (rte_ctz64 ops x). \<not> bit x k)"
    using assms unfolding bits_ok_def by blast
qed

text \<open>The enabled feature before and behind a slot.\<close>

definition prev_bit :: "u64 \<Rightarrow> nat \<Rightarrow> nat \<Rightarrow> bool" where
  "prev_bit m s p \<longleftrightarrow> p < s \<and> bit m p \<and> (\<forall>k. p < k \<and> k < s \<longrightarrow> \<not> bit m k)"

definition next_bit :: "u64 \<Rightarrow> nat \<Rightarrow> nat \<Rightarrow> bool" where
  "next_bit m s n \<longleftrightarrow> s < n \<and> bit m n \<and> (\<forall>k. s < k \<and> k < n \<longrightarrow> \<not> bit m k)"

lemma bit64: "bit (m :: u64) k \<Longrightarrow> k < 64"
  using bit_imp_le_length [of m k] by simp

lemma bit_low_mask: "s < 64 \<Longrightarrow> bit (RTE_BIT64 s - 1) k \<longleftrightarrow> k < s"
proof -
  assume s: "s < 64"
  have "RTE_BIT64 s - 1 = (mask s :: u64)" by (simp add: RTE_BIT64_def mask_eq_exp_minus_1 push_bit_eq_mult)
  then show ?thesis using s by (auto simp: bit_mask_iff)
qed

lemma bit_lower: "s < 64 \<Longrightarrow> bit (lower_feature_mask s m) k \<longleftrightarrow> k < s \<and> bit m k"
  by (auto simp: lower_feature_mask_def bit_and_iff bit_low_mask)

lemma bit_upper: "s < 64 \<Longrightarrow> bit (upper_feature_mask s m) k \<longleftrightarrow> s < k \<and> bit m k"
  using bit64 [of m k] by (auto simp: upper_feature_mask_def bit_and_iff bit_not_iff bit_low_mask bit_BIT64)

lemma fls_prev:
  assumes "bits_ok ops" and "s < 64"
  shows "if rte_fls_u64 ops (lower_feature_mask s m) = 0 then (\<forall>p. \<not> prev_bit m s p)
    else prev_bit m s (unat (rte_fls_u64 ops (lower_feature_mask s m) - 1)) \<and> unat (rte_fls_u64 ops (lower_feature_mask s m) - 1) < 64"
proof (cases "lower_feature_mask s m = 0")
  case True
  then have "\<not> (k < s \<and> bit m k)" for k using bit_lower [OF assms(2), of m k] by simp
  then show ?thesis using bits_okD(1) [OF assms(1)] True by (auto simp: prev_bit_def)
next
  case False
  let ?f = "rte_fls_u64 ops (lower_feature_mask s m)"
  have f: "0 < unat ?f" "unat ?f \<le> 64" "bit (lower_feature_mask s m) (unat ?f - 1)" "\<And>k. unat ?f \<le> k \<Longrightarrow> \<not> bit (lower_feature_mask s m) k"
    using bits_okD(2) [OF assms(1) False] by auto
  have u: "unat (?f - 1) = unat ?f - 1" using f(1) by unat_arith
  have nz: "?f \<noteq> 0" using f(1) by auto
  have "prev_bit m s (unat ?f - 1)"
    unfolding prev_bit_def using f(3,4) bit_lower [OF assms(2), of m] by (auto simp: Suc_le_eq [symmetric])
  then show ?thesis using nz u f(1,2) by simp
qed

lemma bsf_next:
  assumes "bits_ok ops" and "s < 64"
  shows "case rte_bsf64_safe ops (upper_feature_mask s m) of
      None \<Rightarrow> (\<forall>n. \<not> next_bit m s n)
    | Some n \<Rightarrow> next_bit m s (unat n) \<and> unat n < 64"
proof (cases "rte_bsf64_safe ops (upper_feature_mask s m)")
  case None
  then have "upper_feature_mask s m = 0" using bits_okD(3) [OF assms(1)] by blast
  then have "\<not> (s < k \<and> bit m k)" for k using bit_upper [OF assms(2), of m k] by simp
  then show ?thesis using None by (auto simp: next_bit_def)
next
  case (Some n)
  then have "unat n < 64 \<and> bit (upper_feature_mask s m) (unat n) \<and> (\<forall>k < unat n. \<not> bit (upper_feature_mask s m) k)"
    using bits_okD(4) [OF assms(1)] by blast
  then show ?thesis using Some by (auto simp: next_bit_def bit_upper [OF assms(2)])
qed

section \<open>The chain\<close>

definition chain ::
  "'g graph_ops \<Rightarrow> 'g \<Rightarrow> rte_node list \<Rightarrow> u16 list \<Rightarrow> nat \<Rightarrow> u64 \<Rightarrow> dao_graph_feature_data list \<Rightarrow> bool" where
  "chain ops gr ns es feats m fd \<longleftrightarrow> length fd = 64 \<and> feats \<le> 64 \<and>
     (\<forall>s. bit m s \<longrightarrow> s < feats \<and> s < length ns \<and> feature_data_index (fd ! s) = of_nat s \<and> node_info (fd ! s) = Some (ns ! s) \<and>
        edge_to_this_feature (fd ! s) = es ! s) \<and>
     (\<forall>s < feats. \<not> bit m s \<longrightarrow> feature_data_index (fd ! s) = ucast DAO_GRAPH_FEATURE_INVALID_VALUE) \<and>
     (\<forall>a b. bit m a \<and> next_bit m a b \<longrightarrow> get_existing_edge ops gr (ns ! a) (ns ! b) = Inr (Some (edge_to_next_feature (fd ! a)))) \<and>
     (\<forall>a. bit m a \<and> (\<forall>b. \<not> next_bit m a b) \<longrightarrow> edge_to_next_feature (fd ! a) = ucast DAO_GRAPH_FEATURE_INVALID_VALUE)"

lemma bit_enable: "s < 64 \<Longrightarrow> bit (m OR RTE_BIT64 s) k \<longleftrightarrow> bit m k \<or> k = s"
  using bit64 [of m k] bit64 [of "RTE_BIT64 s" k] by (auto simp: bit_or_iff bit_BIT64)

lemma bit_disable: "s < 64 \<Longrightarrow> bit (m AND NOT (RTE_BIT64 s)) k \<longleftrightarrow> bit m k \<and> k \<noteq> s"
  using bit64 [of m k] by (auto simp: bit_and_iff bit_not_iff bit_BIT64)

lemma next_enable_own: "s < 64 \<Longrightarrow> next_bit (m OR RTE_BIT64 s) s b \<longleftrightarrow> next_bit m s b"
  by (auto simp: next_bit_def bit_enable)

lemma next_enable_to: "s < 64 \<Longrightarrow> bit m a \<Longrightarrow> next_bit (m OR RTE_BIT64 s) a s \<longleftrightarrow> prev_bit m s a"
  by (auto simp: next_bit_def prev_bit_def bit_enable)

lemma next_enable_other:
  assumes "s < 64" and "bit m a" and "\<not> bit m s" and "a \<noteq> s" and "b \<noteq> s"
  shows "next_bit (m OR RTE_BIT64 s) a b \<longleftrightarrow> next_bit m a b \<and> \<not> prev_bit m s a"
  using assms by (auto simp: next_bit_def prev_bit_def bit_enable) (metis linorder_neqE_nat order_less_trans)+

lemma chain_enable:
  assumes ch: "chain ops gr ns es feats m fd" and s: "s < 64" "s < feats" "s < length ns" "\<not> bit m s" and len: "length fd' = 64"
    and own: "feature_data_index (fd' ! s) = of_nat s" "node_info (fd' ! s) = Some (ns ! s)" "edge_to_this_feature (fd' ! s) = es ! s"
    and nx: "\<And>b. next_bit m s b \<Longrightarrow> get_existing_edge ops gr (ns ! s) (ns ! b) = Inr (Some (edge_to_next_feature (fd' ! s)))"
      "(\<And>b. \<not> next_bit m s b) \<Longrightarrow> edge_to_next_feature (fd' ! s) = ucast DAO_GRAPH_FEATURE_INVALID_VALUE"
    and pv: "\<And>p. prev_bit m s p \<Longrightarrow> get_existing_edge ops gr (ns ! p) (ns ! s) = Inr (Some (edge_to_next_feature (fd' ! p))) \<and>
        (\<exists>e. fd' ! p = (fd ! p)\<lparr>edge_to_next_feature := e\<rparr>)"
    and oth: "\<And>k. k < 64 \<Longrightarrow> k \<noteq> s \<Longrightarrow> \<not> prev_bit m s k \<Longrightarrow> fd' ! k = fd ! k"
  shows "chain ops gr ns es feats (m OR RTE_BIT64 s) fd'"
proof -
  let ?m = "m OR RTE_BIT64 s"
  have keep: "feature_data_index (fd' ! k) = feature_data_index (fd ! k) \<and> node_info (fd' ! k) = node_info (fd ! k) \<and>
      edge_to_this_feature (fd' ! k) = edge_to_this_feature (fd ! k)" if "k < 64" "k \<noteq> s" for k
    using that pv [of k] oth [OF that] by (cases "prev_bit m s k") auto
  show ?thesis
    unfolding chain_def
  proof (intro conjI allI impI)
    show "length fd' = 64" by (rule len)
    show "feats \<le> 64" using ch by (simp add: chain_def)
  next
    fix k
    assume k: "bit ?m k"
    then show "k < feats" and "k < length ns" and "feature_data_index (fd' ! k) = of_nat k" and "node_info (fd' ! k) = Some (ns ! k)"
      and "edge_to_this_feature (fd' ! k) = es ! k"
      using ch s own keep [of k] bit64 [OF k] by (cases "k = s"; auto simp: bit_enable chain_def)+
  next
    fix k
    assume "k < feats" and "\<not> bit ?m k"
    moreover have "k < 64" using \<open>k < feats\<close> ch by (simp add: chain_def)
    ultimately show "feature_data_index (fd' ! k) = ucast DAO_GRAPH_FEATURE_INVALID_VALUE"
      using ch s keep [of k] by (auto simp: bit_enable chain_def)
  next
    fix a b
    assume "bit ?m a \<and> next_bit ?m a b"
    then have a: "bit ?m a" and b: "next_bit ?m a b" by auto
    show "get_existing_edge ops gr (ns ! a) (ns ! b) = Inr (Some (edge_to_next_feature (fd' ! a)))"
    proof (cases "a = s")
      case True
      then show ?thesis using b nx(1) s by (simp add: next_enable_own)
    next
      case False
      then have ma: "bit m a" using a s by (simp add: bit_enable)
      show ?thesis
      proof (cases "b = s")
        case True
        then show ?thesis using b pv ma s by (simp add: next_enable_to)
      next
        case nb: False
        then have "next_bit m a b" and "\<not> prev_bit m s a" using b ma s False by (simp_all add: next_enable_other)
        then show ?thesis using ch ma oth [OF bit64 [OF ma] False] by (simp add: chain_def)
      qed
    qed
  next
    fix a
    assume h: "bit ?m a \<and> (\<forall>b. \<not> next_bit ?m a b)"
    show "edge_to_next_feature (fd' ! a) = ucast DAO_GRAPH_FEATURE_INVALID_VALUE"
    proof (cases "a = s")
      case True
      then show ?thesis using h nx(2) s by (simp add: next_enable_own)
    next
      case False
      then have ma: "bit m a" using h s by (simp add: bit_enable)
      have np: "\<not> prev_bit m s a" using h ma s next_enable_to by blast
      have "\<not> next_bit m a b" for b
      proof (cases "b = s")
        case True
        then show ?thesis using s(4) by (simp add: next_bit_def)
      next
        case nb: False
        show ?thesis using h next_enable_other [OF s(1) ma s(4) False nb] np by blast
      qed
      then show ?thesis using ch ma oth [OF bit64 [OF ma] False np] by (simp add: chain_def)
    qed
  qed
qed

lemma next_disable:
  assumes "s < 64" and "bit m a" and "a \<noteq> s"
  shows "next_bit (m AND NOT (RTE_BIT64 s)) a b \<longleftrightarrow> (if prev_bit m s a \<and> bit m s then next_bit m s b else next_bit m a b \<and> b \<noteq> s)"
    (is "next_bit ?m a b \<longleftrightarrow> _")
proof (cases "prev_bit m s a \<and> bit m s")
  case True
  then have p: "a < s" "\<And>k. a < k \<Longrightarrow> k < s \<Longrightarrow> \<not> bit m k" "bit m s" by (auto simp: prev_bit_def)
  have "next_bit ?m a b \<longleftrightarrow> next_bit m s b"
  proof
    assume n: "next_bit ?m a b"
    then have "a < b" "bit m b" "b \<noteq> s" by (simp_all add: next_bit_def bit_disable [OF assms(1)])
    then have "s < b" using p(2) [of b] by (metis linorder_neqE_nat)
    moreover have "\<not> bit m k" if k: "s < k" "k < b" for k
    proof -
      have "a < k" using k p(1) by simp
      then have "\<not> bit ?m k" using n k by (simp add: next_bit_def)
      then show ?thesis using k by (simp add: bit_disable [OF assms(1)])
    qed
    ultimately show "next_bit m s b" using \<open>bit m b\<close> by (simp add: next_bit_def)
  next
    assume n: "next_bit m s b"
    have al: "\<not> (bit m k \<and> k \<noteq> s)" if k: "a < k" "k < b" for k
    proof
      assume h: "bit m k \<and> k \<noteq> s"
      then have "s < k" using p(2) [OF k(1)] by (metis linorder_neqE_nat)
      then show False using n k h by (simp add: next_bit_def)
    qed
    have b: "s < b" "bit m b" using n by (simp_all add: next_bit_def)
    show "next_bit ?m a b"
      unfolding next_bit_def bit_disable [OF assms(1)]
    proof (intro conjI allI impI)
      show "a < b" using b p(1) by simp
      show "bit m b" "b \<noteq> s" using b by simp_all
      fix k
      assume "a < k \<and> k < b"
      then show "\<not> (bit m k \<and> k \<noteq> s)" using al by blast
    qed
  qed
  then show ?thesis using True by simp
next
  case False
  have "next_bit ?m a b \<longleftrightarrow> next_bit m a b \<and> b \<noteq> s"
  proof
    assume n: "next_bit ?m a b"
    then have b: "a < b" "bit m b" "b \<noteq> s" "\<And>k. a < k \<Longrightarrow> k < b \<Longrightarrow> bit m k \<Longrightarrow> k = s"
      unfolding next_bit_def bit_disable [OF assms(1)] by blast+
    have "\<not> bit m k" if k: "a < k" "k < b" for k
    proof
      assume m: "bit m k"
      have ks: "k = s" by (rule b(4) [OF k m])
      have "prev_bit m s a"
        unfolding prev_bit_def
      proof (intro conjI allI impI)
        fix j
        assume j: "a < j \<and> j < s"
        then have "j < b" using k ks by simp
        then show "\<not> bit m j" using b(4) [of j] j by auto
      qed (use k ks assms(2) in simp_all)
      then show False using False m ks by simp
    qed
    then show "next_bit m a b \<and> b \<noteq> s" using b by (simp add: next_bit_def)
  next
    assume "next_bit m a b \<and> b \<noteq> s"
    then show "next_bit ?m a b" unfolding next_bit_def bit_disable [OF assms(1)] by blast
  qed
  then show ?thesis unfolding if_not_P [OF False] .
qed

lemma chain_disable:
  assumes ch: "chain ops gr ns es feats m fd" and s: "s < 64" "bit m s" and len: "length fd' = 64"
    and one: "\<And>p n. prev_bit m s p \<Longrightarrow> \<not> next_bit m s n"
    and own: "feature_data_index (fd' ! s) = ucast DAO_GRAPH_FEATURE_INVALID_VALUE"
    and pv: "\<And>p. prev_bit m s p \<Longrightarrow> fd' ! p = (fd ! p)\<lparr>edge_to_next_feature := ucast DAO_GRAPH_FEATURE_INVALID_VALUE\<rparr>"
    and oth: "\<And>k. k < 64 \<Longrightarrow> k \<noteq> s \<Longrightarrow> \<not> prev_bit m s k \<Longrightarrow> fd' ! k = fd ! k"
  shows "chain ops gr ns es feats (m AND NOT (RTE_BIT64 s)) fd'"
proof -
  let ?m = "m AND NOT (RTE_BIT64 s)"
  have keep: "feature_data_index (fd' ! k) = feature_data_index (fd ! k) \<and> node_info (fd' ! k) = node_info (fd ! k) \<and>
      edge_to_this_feature (fd' ! k) = edge_to_this_feature (fd ! k)" if "k < 64" "k \<noteq> s" for k
    using that pv [of k] oth [OF that] by (cases "prev_bit m s k") auto
  show ?thesis
    unfolding chain_def
  proof (intro conjI allI impI)
    show "length fd' = 64" by (rule len)
    show "feats \<le> 64" using ch by (simp add: chain_def)
  next
    fix k
    assume "bit ?m k"
    then have k: "bit m k" "k \<noteq> s" by (simp_all add: bit_disable [OF s(1)])
    then show "k < feats" and "k < length ns" and "feature_data_index (fd' ! k) = of_nat k" and "node_info (fd' ! k) = Some (ns ! k)"
      and "edge_to_this_feature (fd' ! k) = es ! k"
      using ch keep [OF bit64 [OF k(1)] k(2)] by (auto simp: chain_def)
  next
    fix k
    assume k: "k < feats" and nb: "\<not> bit ?m k"
    then have "k < 64" using ch by (simp add: chain_def)
    then show "feature_data_index (fd' ! k) = ucast DAO_GRAPH_FEATURE_INVALID_VALUE"
      using k nb ch own keep [of k] by (cases "k = s") (auto simp: bit_disable [OF s(1)] chain_def)
  next
    fix a b
    assume "bit ?m a \<and> next_bit ?m a b"
    then have a: "bit m a" "a \<noteq> s" and b: "next_bit ?m a b" by (simp_all add: bit_disable [OF s(1)])
    have np: "\<not> prev_bit m s a" using b one [of a b] s next_disable [OF s(1) a] by auto
    then have "next_bit m a b" using b next_disable [OF s(1) a] by simp
    then show "get_existing_edge ops gr (ns ! a) (ns ! b) = Inr (Some (edge_to_next_feature (fd' ! a)))"
      using ch a oth [OF bit64 [OF a(1)] a(2) np] by (simp add: chain_def)
  next
    fix a
    assume h: "bit ?m a \<and> (\<forall>b. \<not> next_bit ?m a b)"
    then have a: "bit m a" "a \<noteq> s" by (simp_all add: bit_disable [OF s(1)])
    show "edge_to_next_feature (fd' ! a) = ucast DAO_GRAPH_FEATURE_INVALID_VALUE"
    proof (cases "prev_bit m s a")
      case True
      then show ?thesis using pv by simp
    next
      case False
      have "\<not> next_bit m a b" for b
      proof (cases "b = s")
        case True
        then show ?thesis using False a by (auto simp: next_bit_def prev_bit_def)
      next
        case nb: False
        show ?thesis using h next_disable [OF s(1) a, of b] False nb by auto
      qed
      then show ?thesis using ch a oth [OF bit64 [OF a(1)] a(2) False] by (simp add: chain_def)
    qed
  qed
qed

section \<open>Arcs\<close>

definition nodes :: "dao_graph_feature_arc \<Rightarrow> rte_node list" where
  "nodes dfl = map feature_node (all_features dfl)"

text \<open>The nodes are registered in the graph, under their own names, and no two of them have the same one.\<close>

definition names_ok :: "'g graph_ops \<Rightarrow> 'g \<Rightarrow> rte_node list \<Rightarrow> bool" where
  "names_ok ops gr ns \<longleftrightarrow> (\<forall>n \<in> set ns. rte_node_id_to_name ops gr (node_id n) = node_name n \<and> rte_node_edge_get ops gr (node_id n) \<noteq> None) \<and>
     (\<forall>t < length ns. \<forall>s < t. \<not> same_name ops (node_name (ns ! s)) (node_name (ns ! t)))"

lemma names_okD: "names_ok ops gr ns \<Longrightarrow> t < length ns \<Longrightarrow> s < t \<Longrightarrow> \<not> same_name ops (node_name (ns ! s)) (node_name (ns ! t))"
  by (simp add: names_ok_def)

text \<open>The data of the slots of an interface.\<close>

definition slots_of :: "dao_graph_feature_arc \<Rightarrow> nat \<Rightarrow> dao_graph_feature_data list" where
  "slots_of dfl i = feature_data (features_by_index dfl ! i)"

definition arc_ok :: "'g graph_ops \<Rightarrow> 'g \<Rightarrow> dao_graph_feature_arc \<Rightarrow> bool" where
  "arc_ok ops gr dfl \<longleftrightarrow> length (features_by_index dfl) = unat (max_indexes dfl) \<and>
     length (feature_bit_mask_by_index dfl) = unat (max_indexes dfl) \<and> names_ok ops gr (nodes dfl) \<and>
     (\<forall>f \<in> set (all_features dfl). fi_arc f = arc_addr dfl) \<and>
     (\<forall>i < unat (max_indexes dfl). chain ops gr (nodes dfl) (map fi_edge (all_features dfl)) (unat (max_features dfl))
        (feature_bit_mask_by_index dfl ! i) (slots_of dfl i))"

lemma lookup_loop_at:
  assumes "s < length fs" and "\<forall>f \<in> set fs. fi_arc f = a" and "names_ok ops gr (map feature_node fs)"
  shows "lookup_loop ops gr a (node_name (feature_node (fs ! s))) n fs = Inr (Inl (n + s))"
  using assms
proof (induction fs arbitrary: s n)
  case (Cons f fs)
  have nm: "rte_node_id_to_name ops gr (node_id (feature_node f)) = node_name (feature_node f)"
    and a: "fi_arc f = a" using Cons(3,4) by (simp_all add: names_ok_def)
  show ?case
  proof (cases s)
    case 0
    then show ?thesis using nm a by (simp add: same_name_def)
  next
    case (Suc t)
    have "\<not> same_name ops (node_name (map feature_node (f # fs) ! 0)) (node_name (map feature_node (f # fs) ! Suc t))"
      by (rule names_okD [OF Cons(4)]) (use Cons(2) Suc in simp_all)
    moreover have "names_ok ops gr (map feature_node fs)"
      unfolding names_ok_def
    proof (intro conjI allI impI ballI)
      fix n
      assume "n \<in> set (map feature_node fs)"
      then have n: "n \<in> set (map feature_node (f # fs))" by simp
      show "rte_node_id_to_name ops gr (node_id n) = node_name n" and "rte_node_edge_get ops gr (node_id n) \<noteq> None"
        using Cons(4) n unfolding names_ok_def by blast+
    next
      fix t s
      assume "t < length (map feature_node fs)" and "s < t"
      then show "\<not> same_name ops (node_name (map feature_node fs ! s)) (node_name (map feature_node fs ! t))"
        using names_okD [OF Cons(4), of "Suc t" "Suc s"] by simp
    qed
    ultimately show ?thesis using Cons Suc nm a by simp
  qed
qed simp

lemma feature_lookup_at:
  assumes "arc_ok ops gr dfl" and "s < length (all_features dfl)"
  shows "feature_lookup ops gr dfl (Some (node_name (feature_node (all_features dfl ! s)))) = Inr (Inl s)"
  using lookup_loop_at [OF assms(2), of "arc_addr dfl" ops gr 0] assms(1) by (simp add: feature_lookup_def arc_ok_def nodes_def)

lemma put_data_fields [simp]:
  "arc_addr (put_data i j f dfl) = arc_addr dfl"
  "all_features (put_data i j f dfl) = all_features dfl"
  "feature_arc_main (put_data i j f dfl) = feature_arc_main dfl"
  "start_node (put_data i j f dfl) = start_node dfl"
  "max_features (put_data i j f dfl) = max_features dfl"
  "max_indexes (put_data i j f dfl) = max_indexes dfl"
  "runtime_enabled_features (put_data i j f dfl) = runtime_enabled_features dfl"
  "feature_bit_mask_by_index (put_data i j f dfl) = feature_bit_mask_by_index dfl"
  "length (features_by_index (put_data i j f dfl)) = length (features_by_index dfl)"
  "nodes (put_data i j f dfl) = nodes dfl"
  by (simp_all add: put_data_def Let_def nodes_def)

lemma put_data_slots:
  assumes "i < length (features_by_index dfl)"
  shows "slots_of (put_data i j f dfl) i = (slots_of dfl i)[j := f (slots_of dfl i ! j)]"
    and "k \<noteq> i \<Longrightarrow> features_by_index (put_data i j f dfl) ! k = features_by_index dfl ! k"
    and "num_enabled_features (features_by_index (put_data i j f dfl) ! i) = num_enabled_features (features_by_index dfl ! i)"
  using assms by (simp_all add: put_data_def Let_def slots_of_def)

lemma unat_u8: "unat (w :: u32) < 256 \<Longrightarrow> unat (ucast w :: u8) = unat w"
  by (simp add: unsigned_ucast_eq take_bit_nat_eq_self)

end
