(* ===== verification/Feature_Facts.thy ===== *)
theory Feature_Facts
  imports Feature_Chain
begin

text \<open>
  Enabling and disabling on a well-formed arc: what they return on every branch, the masks and the chain they leave, and what the
  fast path then reads.
\<close>

section \<open>Linking a feature into the chain\<close>

text \<open>The edges that enabling the feature of slot \<open>s\<close> needs when the features of the mask \<open>m\<close> are enabled: one from the enabled feature before
  it, and one to the enabled feature behind it, where there are such features.\<close>

definition prev_edge :: "'g graph_ops \<Rightarrow> 'g \<Rightarrow> rte_node list \<Rightarrow> u64 \<Rightarrow> nat \<Rightarrow> bool" where
  "prev_edge ops gr ns m s \<longleftrightarrow> (\<forall>p. prev_bit m s p \<longrightarrow> (\<exists>e. get_existing_edge ops gr (ns ! p) (ns ! s) = Inr (Some e)))"

definition next_edge :: "'g graph_ops \<Rightarrow> 'g \<Rightarrow> rte_node list \<Rightarrow> u64 \<Rightarrow> nat \<Rightarrow> bool" where
  "next_edge ops gr ns m s \<longleftrightarrow> (\<forall>n. next_bit m s n \<longrightarrow> (\<exists>e. get_existing_edge ops gr (ns ! s) (ns ! n) = Inr (Some e)))"

lemma prev_unique: "prev_bit m s p \<Longrightarrow> prev_bit m s q \<Longrightarrow> p = q"
  unfolding prev_bit_def by (metis linorder_neqE_nat)

lemma next_unique: "next_bit m s p \<Longrightarrow> next_bit m s q \<Longrightarrow> p = q"
  unfolding next_bit_def by (metis linorder_neqE_nat)

text \<open>The search for an edge of a registered node comes to a result.\<close>

lemma edge_get_total: "rte_node_edge_get ops gr (node_id p) \<noteq> None \<Longrightarrow> \<exists>e. get_existing_edge ops gr p c = Inr e"
  by (auto simp: get_existing_edge_def Let_def)

lemma edge_search_ends: "names_ok ops gr ns \<Longrightarrow> a < length ns \<Longrightarrow> \<exists>e. get_existing_edge ops gr (ns ! a) c = Inr e"
  by (rule edge_get_total) (use nth_mem in \<open>force simp: names_ok_def\<close>)

lemma slot_index_valid: "s < 64 \<Longrightarrow> (of_nat s :: u32) \<noteq> ucast DAO_GRAPH_FEATURE_INVALID_VALUE"
proof
  assume s: "s < 64" and e: "(of_nat s :: u32) = ucast DAO_GRAPH_FEATURE_INVALID_VALUE"
  then have "unat (of_nat s :: u32) = 255" by (simp add: DAO_GRAPH_FEATURE_INVALID_VALUE_def)
  then show False using s by (simp add: unat_of_nat)
qed

lemma data_get_slot:
  "length (feature_data df) = 64 \<Longrightarrow> unat (w :: u32) < 64 \<Longrightarrow> dao_graph_feature_data_get df (ucast w) = Inr (feature_data df ! unat w)"
  by (simp add: dao_graph_feature_data_get_def unat_u8)

text \<open>\<open>dfl\<close> is the arc with slot \<open>s\<close> of interface \<open>i\<close> already filled: all other slots are as in the chain \<open>fd\<close>.\<close>

lemma link_prev_eq:
  fixes i :: u32
  assumes "bits_ok ops" and "chain ops gr ns es feats m fd" and "s < 64"
    and "unat i < length (features_by_index dfl)" and "length (slots_of dfl (unat i)) = 64"
    and oth: "\<And>k. k < 64 \<Longrightarrow> k \<noteq> s \<Longrightarrow> slots_of dfl (unat i) ! k = fd ! k"
  obtains "link_prev ops gr (unat i) s m node dfl = Inr (True, dfl)" and "\<And>p. \<not> prev_bit m s p"
  | p where "prev_bit m s p" and "p < 64" and "link_prev ops gr (unat i) s m node dfl =
      rbind (get_existing_edge ops gr (ns ! p) node) (\<lambda>e. case e of None \<Rightarrow> Inr (False, dfl)
        | Some edge \<Rightarrow> Inr (True, put_data (unat i) p (\<lambda>d. d\<lparr>edge_to_next_feature := edge\<rparr>) dfl))"
proof (cases "rte_fls_u64 ops (lower_feature_mask s m) = 0")
  case True
  show thesis by (rule that(1)) (use True fls_prev [OF assms(1,3), of m] in \<open>simp_all add: link_prev_def\<close>)
next
  case False
  let ?w = "rte_fls_u64 ops (lower_feature_mask s m) - 1"
  let ?p = "unat ?w"
  have p: "prev_bit m s ?p" "?p < 64" using False fls_prev [OF assms(1,3), of m] by simp_all
  then have b: "bit m ?p" "?p \<noteq> s" by (auto simp: prev_bit_def)
  have d: "feature_data_index (fd ! ?p) = of_nat ?p" "node_info (fd ! ?p) = Some (ns ! ?p)"
    using assms(2) b(1) by (simp_all add: chain_def)
  show thesis
    using False assms(4,5) oth [OF p(2) b(2)] d slot_index_valid [OF p(2)] data_get_slot [of "features_by_index dfl ! unat i" ?w] p
    by (intro that(2) [of ?p]) (simp_all add: link_prev_def Let_def dao_graph_feature_get_def dfd_node_def slots_of_def)
qed

lemma link_prev_ok:
  fixes i :: u32
  assumes "bits_ok ops" and "chain ops gr ns es feats m fd" and "prev_edge ops gr ns m s" and "s < 64"
    and "unat i < length (features_by_index dfl)" and "length (slots_of dfl (unat i)) = 64"
    and oth: "\<And>k. k < 64 \<Longrightarrow> k \<noteq> s \<Longrightarrow> slots_of dfl (unat i) ! k = fd ! k"
  obtains "link_prev ops gr (unat i) s m (ns ! s) dfl = Inr (True, dfl)" and "\<And>p. \<not> prev_bit m s p"
  | p e where "link_prev ops gr (unat i) s m (ns ! s) dfl = Inr (True, put_data (unat i) p (\<lambda>d. d\<lparr>edge_to_next_feature := e\<rparr>) dfl)"
      and "prev_bit m s p" and "get_existing_edge ops gr (ns ! p) (ns ! s) = Inr (Some e)" and "p < 64"
proof (rule link_prev_eq [OF assms(1,2,4-6) oth, of "ns ! s"])
  fix p
  assume p: "prev_bit m s p" "p < 64" and l: "link_prev ops gr (unat i) s m (ns ! s) dfl =
      rbind (get_existing_edge ops gr (ns ! p) (ns ! s)) (\<lambda>e. case e of None \<Rightarrow> Inr (False, dfl)
        | Some edge \<Rightarrow> Inr (True, put_data (unat i) p (\<lambda>d. d\<lparr>edge_to_next_feature := edge\<rparr>) dfl))"
  obtain e where e: "get_existing_edge ops gr (ns ! p) (ns ! s) = Inr (Some e)" using assms(3) p(1) unfolding prev_edge_def by blast
  show thesis by (rule that(2) [OF _ p(1) e p(2)]) (simp add: l e)
qed (use that(1) in blast)+

lemma link_prev_missing:
  fixes i :: u32
  assumes "bits_ok ops" and "chain ops gr ns es feats m fd" and "names_ok ops gr ns" and "\<not> prev_edge ops gr ns m s" and "s < 64"
    and "unat i < length (features_by_index dfl)" and "length (slots_of dfl (unat i)) = 64"
    and oth: "\<And>k. k < 64 \<Longrightarrow> k \<noteq> s \<Longrightarrow> slots_of dfl (unat i) ! k = fd ! k"
  shows "link_prev ops gr (unat i) s m (ns ! s) dfl = Inr (False, dfl)"
proof (rule link_prev_eq [OF assms(1,2,5-7) oth, of "ns ! s"])
  fix p
  assume p: "prev_bit m s p" and l: "link_prev ops gr (unat i) s m (ns ! s) dfl =
      rbind (get_existing_edge ops gr (ns ! p) (ns ! s)) (\<lambda>e. case e of None \<Rightarrow> Inr (False, dfl)
        | Some edge \<Rightarrow> Inr (True, put_data (unat i) p (\<lambda>d. d\<lparr>edge_to_next_feature := edge\<rparr>) dfl))"
  have "p < length ns" using assms(2) p by (simp add: chain_def prev_bit_def)
  then obtain e where e: "get_existing_edge ops gr (ns ! p) (ns ! s) = Inr e" using edge_search_ends [OF assms(3)] by blast
  then have "e = None" using assms(4) p prev_unique unfolding prev_edge_def by (metis not_None_eq)
  then show ?thesis by (simp add: l e)
qed (use assms(4) in \<open>auto simp: prev_edge_def\<close>)

lemma link_next_eq:
  fixes i :: u32
  assumes "bits_ok ops" and "chain ops gr ns es feats m fd" and "s < 64"
    and "unat i < length (features_by_index dfl)" and "length (slots_of dfl (unat i)) = 64"
    and oth: "\<And>k. k < 64 \<Longrightarrow> s < k \<Longrightarrow> slots_of dfl (unat i) ! k = fd ! k"
  obtains "link_next ops gr (unat i) s m node dfl = Inr (True, dfl)" and "\<And>n. \<not> next_bit m s n"
  | n where "next_bit m s n" and "n < 64" and "link_next ops gr (unat i) s m node dfl =
      rbind (get_existing_edge ops gr node (ns ! n)) (\<lambda>e. case e of None \<Rightarrow> Inr (False, dfl)
        | Some edge \<Rightarrow> Inr (True, put_data (unat i) s (\<lambda>d. d\<lparr>edge_to_next_feature := edge\<rparr>) dfl))"
proof (cases "rte_bsf64_safe ops (upper_feature_mask s m)")
  case None
  show thesis by (rule that(1)) (use None bsf_next [OF assms(1,3), of m] in \<open>simp_all add: link_next_def\<close>)
next
  case (Some w)
  let ?n = "unat w"
  have n: "next_bit m s ?n" "?n < 64" using Some bsf_next [OF assms(1,3), of m] by simp_all
  then have b: "bit m ?n" "s < ?n" by (auto simp: next_bit_def)
  have d: "feature_data_index (fd ! ?n) = of_nat ?n" "node_info (fd ! ?n) = Some (ns ! ?n)"
    using assms(2) b(1) by (simp_all add: chain_def)
  show thesis
    using Some assms(4,5) oth [OF n(2) b(2)] d slot_index_valid [OF n(2)] data_get_slot [of "features_by_index dfl ! unat i" w] n
    by (intro that(2) [of ?n]) (simp_all add: link_next_def Let_def dao_graph_feature_get_def dfd_node_def slots_of_def)
qed

lemma link_next_ok:
  fixes i :: u32
  assumes "bits_ok ops" and "chain ops gr ns es feats m fd" and "next_edge ops gr ns m s" and "s < 64"
    and "unat i < length (features_by_index dfl)" and "length (slots_of dfl (unat i)) = 64"
    and oth: "\<And>k. k < 64 \<Longrightarrow> s < k \<Longrightarrow> slots_of dfl (unat i) ! k = fd ! k"
  obtains "link_next ops gr (unat i) s m (ns ! s) dfl = Inr (True, dfl)" and "\<And>n. \<not> next_bit m s n"
  | n e where "link_next ops gr (unat i) s m (ns ! s) dfl = Inr (True, put_data (unat i) s (\<lambda>d. d\<lparr>edge_to_next_feature := e\<rparr>) dfl)"
      and "next_bit m s n" and "get_existing_edge ops gr (ns ! s) (ns ! n) = Inr (Some e)" and "n < 64"
proof (rule link_next_eq [OF assms(1,2,4-6) oth, of "ns ! s"])
  fix n
  assume n: "next_bit m s n" "n < 64" and l: "link_next ops gr (unat i) s m (ns ! s) dfl =
      rbind (get_existing_edge ops gr (ns ! s) (ns ! n)) (\<lambda>e. case e of None \<Rightarrow> Inr (False, dfl)
        | Some edge \<Rightarrow> Inr (True, put_data (unat i) s (\<lambda>d. d\<lparr>edge_to_next_feature := edge\<rparr>) dfl))"
  obtain e where e: "get_existing_edge ops gr (ns ! s) (ns ! n) = Inr (Some e)" using assms(3) n(1) unfolding next_edge_def by blast
  show thesis by (rule that(2) [OF _ n(1) e n(2)]) (simp add: l e)
qed (use that(1) in blast)+

lemma link_next_missing:
  fixes i :: u32
  assumes "bits_ok ops" and "chain ops gr ns es feats m fd" and "names_ok ops gr ns" and "\<not> next_edge ops gr ns m s" and "s < 64"
    and "s < length ns" and "unat i < length (features_by_index dfl)" and "length (slots_of dfl (unat i)) = 64"
    and oth: "\<And>k. k < 64 \<Longrightarrow> s < k \<Longrightarrow> slots_of dfl (unat i) ! k = fd ! k"
  shows "link_next ops gr (unat i) s m (ns ! s) dfl = Inr (False, dfl)"
proof (rule link_next_eq [OF assms(1,2,5,7,8) oth, of "ns ! s"])
  fix n
  assume n: "next_bit m s n" and l: "link_next ops gr (unat i) s m (ns ! s) dfl =
      rbind (get_existing_edge ops gr (ns ! s) (ns ! n)) (\<lambda>e. case e of None \<Rightarrow> Inr (False, dfl)
        | Some edge \<Rightarrow> Inr (True, put_data (unat i) s (\<lambda>d. d\<lparr>edge_to_next_feature := edge\<rparr>) dfl))"
  obtain e where e: "get_existing_edge ops gr (ns ! s) (ns ! n) = Inr e" using edge_search_ends [OF assms(3,6)] by blast
  then have "e = None" using assms(4) n next_unique unfolding next_edge_def by (metis not_None_eq)
  then show ?thesis by (simp add: l e)
qed (use assms(4) in \<open>auto simp: next_edge_def\<close>)

section \<open>Changes to one interface\<close>

definition only_slots :: "nat \<Rightarrow> dao_graph_feature_arc \<Rightarrow> dao_graph_feature_arc \<Rightarrow> bool" where
  "only_slots i dfl dfl' \<longleftrightarrow> dfl' = dfl\<lparr>features_by_index := features_by_index dfl'\<rparr> \<and>
     length (features_by_index dfl') = length (features_by_index dfl) \<and>
     (\<forall>k. k \<noteq> i \<longrightarrow> features_by_index dfl' ! k = features_by_index dfl ! k) \<and>
     num_enabled_features (features_by_index dfl' ! i) = num_enabled_features (features_by_index dfl ! i)"

lemma only_slots_refl: "only_slots i dfl dfl"
  by (simp add: only_slots_def)

lemma only_slots_put:
  assumes "only_slots i dfl dfl'" and "i < length (features_by_index dfl)"
  shows "only_slots i dfl (put_data i j f dfl')"
proof -
  obtain fs where fs: "dfl' = dfl\<lparr>features_by_index := fs\<rparr>" using assms(1) unfolding only_slots_def by metis
  have "put_data i j f dfl' = dfl\<lparr>features_by_index := features_by_index (put_data i j f dfl')\<rparr>"
    unfolding fs by (simp add: put_data_def Let_def)
  moreover have "i < length (features_by_index dfl')" using assms by (simp add: only_slots_def)
  ultimately show ?thesis using assms(1) put_data_slots(2,3) [of i dfl'] unfolding only_slots_def put_data_fields by metis
qed

lemma only_slotsD:
  assumes "only_slots i dfl dfl'"
  shows "all_features dfl' = all_features dfl" and "max_features dfl' = max_features dfl" and "max_indexes dfl' = max_indexes dfl"
    and "feature_bit_mask_by_index dfl' = feature_bit_mask_by_index dfl" and "arc_addr dfl' = arc_addr dfl"
    and "feature_arc_main dfl' = feature_arc_main dfl" and "runtime_enabled_features dfl' = runtime_enabled_features dfl"
    and "length (features_by_index dfl') = length (features_by_index dfl)"
    and "k \<noteq> i \<Longrightarrow> features_by_index dfl' ! k = features_by_index dfl ! k"
    and "num_enabled_features (features_by_index dfl' ! i) = num_enabled_features (features_by_index dfl ! i)"
proof -
  have "dfl' = dfl\<lparr>features_by_index := features_by_index dfl'\<rparr>" using assms by (simp add: only_slots_def)
  then show "all_features dfl' = all_features dfl" and "max_features dfl' = max_features dfl" and "max_indexes dfl' = max_indexes dfl"
    and "feature_bit_mask_by_index dfl' = feature_bit_mask_by_index dfl" and "arc_addr dfl' = arc_addr dfl"
    and "feature_arc_main dfl' = feature_arc_main dfl" and "runtime_enabled_features dfl' = runtime_enabled_features dfl"
    by (metis dao_graph_feature_arc.select_convs dao_graph_feature_arc.surjective dao_graph_feature_arc.update_convs(10))+
  show "length (features_by_index dfl') = length (features_by_index dfl)"
    and "k \<noteq> i \<Longrightarrow> features_by_index dfl' ! k = features_by_index dfl ! k"
    and "num_enabled_features (features_by_index dfl' ! i) = num_enabled_features (features_by_index dfl ! i)"
    using assms by (simp_all add: only_slots_def)
qed

section \<open>Enabling\<close>

lemma validate_enable_ok:
  assumes "arc_ok ops gr dfl" and "i < max_indexes dfl" and "s < length (all_features dfl)" and "s < unat (max_features dfl)"
    and "\<not> bit (feature_bit_mask_by_index dfl ! unat i) s"
    and "num_enabled_features (features_by_index dfl ! unat i) < max_features dfl"
  shows "feature_validate ops gr (Some (feature_arc_main dfl)) i (Some (node_name (feature_node (all_features dfl ! s)))) True dfl = Inr 0"
proof -
  have I: "unat i < unat (max_indexes dfl)" using assms(2) by (simp add: word_less_nat_alt)
  have ch: "chain ops gr (nodes dfl) (map fi_edge (all_features dfl)) (unat (max_features dfl))
      (feature_bit_mask_by_index dfl ! unat i) (slots_of dfl (unat i))" using assms(1) I by (simp add: arc_ok_def)
  then have s: "s < 64" and len: "length (slots_of dfl (unat i)) = 64"
    and iv: "feature_data_index (slots_of dfl (unat i) ! s) = ucast DAO_GRAPH_FEATURE_INVALID_VALUE"
    using assms(4,5) by (simp_all add: chain_def)
  have u: "unat (of_nat s :: u8) = s" using s by (simp add: unat_of_nat)
  have t: "feature_bit_mask_by_index dfl ! unat i AND RTE_BIT64 s = 0"
    using assms(5) s by (intro bit_word_eqI) (auto simp: bit_and_iff bit_BIT64)
  have l: "length (features_by_index dfl) = unat (max_indexes dfl)" "length (feature_bit_mask_by_index dfl) = unat (max_indexes dfl)"
    using assms(1) by (simp_all add: arc_ok_def)
  show ?thesis
    using assms(2,4,6) I feature_lookup_at [OF assms(1,3)] l t u iv len s
    by (simp add: feature_validate_def dao_graph_feature_get_def dao_graph_feature_data_get_def feature_mask_def slots_of_def not_le)
qed

text \<open>The slots of an interface in which the feature before slot \<open>s\<close> leads to \<open>s\<close>, and all slots but that one and \<open>s\<close> are those of \<open>fd\<close>.\<close>

definition prev_linked ::
  "'g graph_ops \<Rightarrow> 'g \<Rightarrow> rte_node list \<Rightarrow> u64 \<Rightarrow> nat \<Rightarrow> dao_graph_feature_data list \<Rightarrow> dao_graph_feature_data list \<Rightarrow> bool" where
  "prev_linked ops gr ns m s fd sl \<longleftrightarrow> length sl = 64 \<and>
     (\<forall>p. prev_bit m s p \<longrightarrow> get_existing_edge ops gr (ns ! p) (ns ! s) = Inr (Some (edge_to_next_feature (sl ! p))) \<and>
        (\<exists>e. sl ! p = (fd ! p)\<lparr>edge_to_next_feature := e\<rparr>)) \<and>
     (\<forall>k < 64. k \<noteq> s \<and> \<not> prev_bit m s k \<longrightarrow> sl ! k = fd ! k)"

lemma prev_not_own: "prev_bit m s p \<Longrightarrow> p \<noteq> s \<and> p < s"
  by (auto simp: prev_bit_def)

lemma prev_linked_own: "prev_linked ops gr ns m s fd sl \<Longrightarrow> prev_linked ops gr ns m s fd (sl[s := d])"
proof -
  assume a: "prev_linked ops gr ns m s fd sl"
  have e: "sl[s := d] ! k = sl ! k" if "k \<noteq> s" for k using that by simp
  show ?thesis
    using a prev_not_own [of m s] e unfolding prev_linked_def length_list_update by metis
qed

lemma link_prev_step:
  fixes i :: u32
  assumes "bits_ok ops" and "chain ops gr ns es feats m fd" and "prev_edge ops gr ns m s" and "s < 64"
    and "only_slots (unat i) dfl dfl'" and "unat i < length (features_by_index dfl)" and "slots_of dfl' (unat i) = fd[s := d]"
  obtains dfl2 where "link_prev ops gr (unat i) s m (ns ! s) dfl' = Inr (True, dfl2)" and "only_slots (unat i) dfl dfl2"
    and "prev_linked ops gr ns m s fd (slots_of dfl2 (unat i))" and "slots_of dfl2 (unat i) ! s = d"
proof -
  have l: "unat i < length (features_by_index dfl')" using assms(5,6) by (simp add: only_slots_def)
  have fd: "length fd = 64" using assms(2) by (simp add: chain_def)
  then have len: "length (slots_of dfl' (unat i)) = 64" by (simp add: assms(7))
  have oth: "slots_of dfl' (unat i) ! k = fd ! k" if "k < 64" "k \<noteq> s" for k using that by (simp add: assms(7))
  have own: "slots_of dfl' (unat i) ! s = d" using assms(4) fd by (simp add: assms(7))
  show thesis
  proof (rule link_prev_ok [OF assms(1-4) l len oth])
    assume "link_prev ops gr (unat i) s m (ns ! s) dfl' = Inr (True, dfl')" and "\<And>p. \<not> prev_bit m s p"
    then show thesis using that [of dfl'] assms(5) len oth own by (simp add: prev_linked_def)
  next
    fix p e
    let ?d = "put_data (unat i) p (\<lambda>d. d\<lparr>edge_to_next_feature := e\<rparr>) dfl'"
    assume a: "link_prev ops gr (unat i) s m (ns ! s) dfl' = Inr (True, ?d)" "prev_bit m s p"
      "get_existing_edge ops gr (ns ! p) (ns ! s) = Inr (Some e)" "p < 64"
    have sl: "slots_of ?d (unat i) = (slots_of dfl' (unat i))[p := (slots_of dfl' (unat i) ! p)\<lparr>edge_to_next_feature := e\<rparr>]"
      by (rule put_data_slots(1) [OF l])
    have ps: "p \<noteq> s" using prev_not_own [OF a(2)] by simp
    have "prev_linked ops gr ns m s fd (slots_of ?d (unat i))"
      unfolding prev_linked_def
    proof (intro conjI allI impI)
      show "length (slots_of ?d (unat i)) = 64" by (simp add: sl len)
    next
      fix q
      assume "prev_bit m s q"
      then have q: "q = p" by (rule prev_unique [OF _ a(2)])
      show "get_existing_edge ops gr (ns ! q) (ns ! s) = Inr (Some (edge_to_next_feature (slots_of ?d (unat i) ! q)))"
        and "\<exists>e. slots_of ?d (unat i) ! q = (fd ! q)\<lparr>edge_to_next_feature := e\<rparr>"
        using a(3,4) len oth [OF a(4) ps] by (auto simp: sl q)
    next
      fix k
      assume k: "k < 64" "k \<noteq> s \<and> \<not> prev_bit m s k"
      then have "p \<noteq> k" using a(2) by auto
      then show "slots_of ?d (unat i) ! k = fd ! k" using k oth [of k] by (simp add: sl)
    qed
    moreover have "slots_of ?d (unat i) ! s = d" using ps own by (simp add: sl)
    ultimately show thesis using that [of ?d] a(1) only_slots_put [OF assms(5,6)] by blast
  qed
qed

lemma link_next_step:
  fixes i :: u32
  assumes "bits_ok ops" and "chain ops gr ns es feats m fd" and "next_edge ops gr ns m s" and "s < 64"
    and "only_slots (unat i) dfl dfl'" and "unat i < length (features_by_index dfl)"
    and "prev_linked ops gr ns m s fd (slots_of dfl' (unat i))" and "slots_of dfl' (unat i) ! s = d"
    and "edge_to_next_feature d = ucast DAO_GRAPH_FEATURE_INVALID_VALUE"
  obtains dfl2 where "link_next ops gr (unat i) s m (ns ! s) dfl' = Inr (True, dfl2)" and "only_slots (unat i) dfl dfl2"
    and "prev_linked ops gr ns m s fd (slots_of dfl2 (unat i))" and "\<exists>e. slots_of dfl2 (unat i) ! s = d\<lparr>edge_to_next_feature := e\<rparr>"
    and "\<forall>b. next_bit m s b \<longrightarrow> get_existing_edge ops gr (ns ! s) (ns ! b) = Inr (Some (edge_to_next_feature (slots_of dfl2 (unat i) ! s)))"
    and "(\<forall>b. \<not> next_bit m s b) \<longrightarrow> edge_to_next_feature (slots_of dfl2 (unat i) ! s) = ucast DAO_GRAPH_FEATURE_INVALID_VALUE"
proof -
  have l: "unat i < length (features_by_index dfl')" using assms(5,6) by (simp add: only_slots_def)
  have len: "length (slots_of dfl' (unat i)) = 64" using assms(7) by (simp add: prev_linked_def)
  have oth: "slots_of dfl' (unat i) ! k = fd ! k" if "k < 64" "s < k" for k
    using that assms(7) by (auto simp: prev_linked_def prev_bit_def)
  have same: "d = d\<lparr>edge_to_next_feature := edge_to_next_feature d\<rparr>" by simp
  show thesis
  proof (rule link_next_ok [OF assms(1-4) l len oth])
    assume a: "link_next ops gr (unat i) s m (ns ! s) dfl' = Inr (True, dfl')" and n: "\<And>n. \<not> next_bit m s n"
    have "\<exists>e. slots_of dfl' (unat i) ! s = d\<lparr>edge_to_next_feature := e\<rparr>" using same assms(8) by blast
    then show thesis by (rule that [OF a assms(5,7)]) (use assms(8,9) n in simp_all)
  next
    fix n e
    let ?d = "put_data (unat i) s (\<lambda>d. d\<lparr>edge_to_next_feature := e\<rparr>) dfl'"
    assume a: "link_next ops gr (unat i) s m (ns ! s) dfl' = Inr (True, ?d)" "next_bit m s n"
      "get_existing_edge ops gr (ns ! s) (ns ! n) = Inr (Some e)" "n < 64"
    have sl: "slots_of ?d (unat i) = (slots_of dfl' (unat i))[s := d\<lparr>edge_to_next_feature := e\<rparr>]"
      using put_data_slots(1) [OF l] assms(8) by simp
    have own: "slots_of ?d (unat i) ! s = d\<lparr>edge_to_next_feature := e\<rparr>" using assms(4) len by (simp add: sl)
    have uniq: "b = n" if "next_bit m s b" for b using that a(2) unfolding next_bit_def by (metis linorder_neqE_nat)
    have pl: "prev_linked ops gr ns m s fd (slots_of ?d (unat i))" unfolding sl by (rule prev_linked_own [OF assms(7)])
    have nx: "\<forall>b. next_bit m s b \<longrightarrow> get_existing_edge ops gr (ns ! s) (ns ! b) = Inr (Some (edge_to_next_feature (slots_of ?d (unat i) ! s)))"
      using uniq a(3) by (auto simp: own)
    show thesis
      by (rule that [OF a(1) only_slots_put [OF assms(5,6)] pl _ nx]) (use own a(2) in blast)+
  qed
qed

text \<open>The bookkeeping at the end of enabling and disabling.\<close>

definition book ::
  "nat \<Rightarrow> nat \<Rightarrow> int \<Rightarrow> u32 \<Rightarrow> int \<Rightarrow> u64 \<Rightarrow> dao_graph_feature_arc \<Rightarrow> dao_graph_feature_arc" where
  "book i s rc n run m dfl = dfl\<lparr>all_features := (all_features dfl)[s := (all_features dfl ! s)\<lparr>ref_count := rc\<rparr>],
     features_by_index := (features_by_index dfl)[i := (features_by_index dfl ! i)\<lparr>num_enabled_features := n\<rparr>],
     runtime_enabled_features := run, feature_bit_mask_by_index := (feature_bit_mask_by_index dfl)[i := m]\<rparr>"

lemma map_update_same: "s < length xs \<Longrightarrow> f y = f (xs ! s) \<Longrightarrow> map f (xs[s := y]) = map f xs"
  by (metis list_update_id map_update)

lemma book_ok:
  assumes "arc_ok ops gr dfl" and "only_slots i dfl dfl'" and "i < unat (max_indexes dfl)" and "s < length (all_features dfl)"
    and "chain ops gr (nodes dfl) (map fi_edge (all_features dfl)) (unat (max_features dfl)) m (slots_of dfl' i)"
  shows "arc_ok ops gr (book i s rc n run m dfl')" and "nodes (book i s rc n run m dfl') = nodes dfl"
    and "slots_of (book i s rc n run m dfl') i = slots_of dfl' i"
    and "k \<noteq> i \<Longrightarrow> features_by_index (book i s rc n run m dfl') ! k = features_by_index dfl ! k"
    and "num_enabled_features (features_by_index (book i s rc n run m dfl') ! i) = n"
    and "feature_bit_mask_by_index (book i s rc n run m dfl') = (feature_bit_mask_by_index dfl)[i := m]"
proof -
  note o = only_slotsD [OF assms(2)]
  let ?b = "book i s rc n run m dfl'"
  have len: "length (features_by_index dfl) = unat (max_indexes dfl)" "length (feature_bit_mask_by_index dfl) = unat (max_indexes dfl)"
    using assms(1) by (simp_all add: arc_ok_def)
  have nd: "map feature_node ((all_features dfl)[s := (all_features dfl ! s)\<lparr>ref_count := rc\<rparr>]) = map feature_node (all_features dfl)"
    and ed: "map fi_edge ((all_features dfl)[s := (all_features dfl ! s)\<lparr>ref_count := rc\<rparr>]) = map fi_edge (all_features dfl)"
    and ar: "map fi_arc ((all_features dfl)[s := (all_features dfl ! s)\<lparr>ref_count := rc\<rparr>]) = map fi_arc (all_features dfl)"
    by (rule map_update_same [OF assms(4)]; simp)+
  show n: "nodes ?b = nodes dfl" unfolding nodes_def book_def using nd o(1) by simp
  show sl: "slots_of ?b i = slots_of dfl' i" using assms(3) len o(8) by (simp add: slots_of_def book_def)
  show ot: "features_by_index ?b ! k = features_by_index dfl ! k" if "k \<noteq> i" for k using that o(9) by (simp add: book_def)
  show "num_enabled_features (features_by_index ?b ! i) = n" using assms(3) len o(8) by (simp add: book_def)
  show mk: "feature_bit_mask_by_index ?b = (feature_bit_mask_by_index dfl)[i := m]" using o(4) by (simp add: book_def)
  have f: "max_indexes ?b = max_indexes dfl" "max_features ?b = max_features dfl" "arc_addr ?b = arc_addr dfl"
    "length (features_by_index ?b) = length (features_by_index dfl)" using o by (simp_all add: book_def)
  have e: "map fi_edge (all_features ?b) = map fi_edge (all_features dfl)" "map fi_arc (all_features ?b) = map fi_arc (all_features dfl)"
    using ed ar o(1) by (simp_all add: book_def)
  have a: "\<forall>f \<in> set (all_features ?b). fi_arc f = arc_addr ?b"
  proof
    fix g
    assume "g \<in> set (all_features ?b)"
    then have "fi_arc g \<in> set (map fi_arc (all_features dfl))" using e(2) by (metis image_eqI list.set_map)
    then show "fi_arc g = arc_addr ?b" using assms(1) f(3) by (auto simp: arc_ok_def)
  qed
  have c: "chain ops gr (nodes ?b) (map fi_edge (all_features ?b)) (unat (max_features ?b)) (feature_bit_mask_by_index ?b ! k) (slots_of ?b k)"
    if k: "k < unat (max_indexes ?b)" for k
  proof (cases "k = i")
    case True
    then show ?thesis using assms(3,5) len unfolding n e f sl mk by (simp add: sl)
  next
    case False
    have "slots_of ?b k = slots_of dfl k" using ot [OF False] by (simp add: slots_of_def)
    then show ?thesis using assms(1) k False unfolding n e f mk by (simp add: arc_ok_def)
  qed
  show "arc_ok ops gr ?b"
    unfolding arc_ok_def using a c f len mk n assms(1) by (simp add: arc_ok_def)
qed

lemma enable_ok:
  assumes "bits_ok ops" and "arc_ok ops gr dfl" and "prev_edge ops gr (nodes dfl) (feature_bit_mask_by_index dfl ! unat i) s"
    and "next_edge ops gr (nodes dfl) (feature_bit_mask_by_index dfl ! unat i) s" and "i < max_indexes dfl"
    and "s < length (all_features dfl)" and "s < unat (max_features dfl)"
    and "\<not> bit (feature_bit_mask_by_index dfl ! unat i) s"
    and "num_enabled_features (features_by_index dfl ! unat i) < max_features dfl"
  obtains dfl3 where "feature_enable ops gr (Some (feature_arc_main dfl)) i (Some (node_name (feature_node (all_features dfl ! s)))) data dfl =
      Inr (0, book (unat i) s (ref_count (all_features dfl ! s) + 1) (num_enabled_features (features_by_index dfl ! unat i) + 1)
        (runtime_enabled_features dfl + 1) (feature_bit_mask_by_index dfl ! unat i OR RTE_BIT64 s) dfl3)"
    and "only_slots (unat i) dfl dfl3"
    and "chain ops gr (nodes dfl) (map fi_edge (all_features dfl)) (unat (max_features dfl))
      (feature_bit_mask_by_index dfl ! unat i OR RTE_BIT64 s) (slots_of dfl3 (unat i))"
    and "fd_data (slots_of dfl3 (unat i) ! s) = data"
proof -
  let ?m = "feature_bit_mask_by_index dfl ! unat i"
  let ?fd = "slots_of dfl (unat i)"
  let ?info = "all_features dfl ! s"
  let ?new = "\<lparr>fd_data = data, feature_data_index = ucast DAO_GRAPH_FEATURE_INVALID_VALUE,
    edge_to_this_feature = fi_edge ?info, edge_to_next_feature = ucast DAO_GRAPH_FEATURE_INVALID_VALUE,
    node_info = Some (feature_node ?info)\<rparr>"
  let ?d1 = "put_data (unat i) s (\<lambda>_. ?new) dfl"
  have I: "unat i < unat (max_indexes dfl)" using assms(5) by (simp add: word_less_nat_alt)
  then have l: "unat i < length (features_by_index dfl)" "unat i < length (feature_bit_mask_by_index dfl)"
    using assms(2) by (simp_all add: arc_ok_def)
  have ch: "chain ops gr (nodes dfl) (map fi_edge (all_features dfl)) (unat (max_features dfl)) ?m ?fd"
    using assms(2) I by (simp add: arc_ok_def)
  then have s: "s < 64" and len: "length ?fd = 64" using assms(7) by (simp_all add: chain_def)
  have sn: "s < length (nodes dfl)" and ns: "nodes dfl ! s = feature_node ?info" using assms(6) by (simp_all add: nodes_def)
  have u8: "unat (of_nat s :: u8) = s" using s by (simp add: unat_of_nat)
  have o1: "only_slots (unat i) dfl ?d1" by (rule only_slots_put [OF only_slots_refl l(1)])
  have sl1: "slots_of ?d1 (unat i) = ?fd[s := ?new]" by (rule put_data_slots(1) [OF l(1)])
  obtain d2 where two: "link_prev ops gr (unat i) s ?m (nodes dfl ! s) ?d1 = Inr (True, d2)" "only_slots (unat i) dfl d2"
    "prev_linked ops gr (nodes dfl) ?m s ?fd (slots_of d2 (unat i))" "slots_of d2 (unat i) ! s = ?new"
    by (rule link_prev_step [OF assms(1) ch assms(3) s o1 l(1) sl1])
  have iv: "edge_to_next_feature ?new = ucast DAO_GRAPH_FEATURE_INVALID_VALUE" by simp
  obtain d3 where three: "link_next ops gr (unat i) s ?m (nodes dfl ! s) d2 = Inr (True, d3)" "only_slots (unat i) dfl d3"
    "prev_linked ops gr (nodes dfl) ?m s ?fd (slots_of d3 (unat i))" "\<exists>e. slots_of d3 (unat i) ! s = ?new\<lparr>edge_to_next_feature := e\<rparr>"
    "\<forall>b. next_bit ?m s b \<longrightarrow> get_existing_edge ops gr (nodes dfl ! s) (nodes dfl ! b) = Inr (Some (edge_to_next_feature (slots_of d3 (unat i) ! s)))"
    "(\<forall>b. \<not> next_bit ?m s b) \<longrightarrow> edge_to_next_feature (slots_of d3 (unat i) ! s) = ucast DAO_GRAPH_FEATURE_INVALID_VALUE"
    by (rule link_next_step [OF assms(1) ch assms(4) s two(2) l(1) two(3,4) iv])
  let ?d4 = "put_data (unat i) s (\<lambda>d. d\<lparr>feature_data_index := of_nat s\<rparr>) d3"
  have o4: "only_slots (unat i) dfl ?d4" by (rule only_slots_put [OF three(2) l(1)])
  have l3: "unat i < length (features_by_index d3)" using l(1) three(2) by (simp add: only_slots_def)
  have len3: "length (slots_of d3 (unat i)) = 64" using three(3) by (simp add: prev_linked_def)
  have sl4: "slots_of ?d4 (unat i) = (slots_of d3 (unat i))[s := (slots_of d3 (unat i) ! s)\<lparr>feature_data_index := of_nat s\<rparr>]"
    by (rule put_data_slots(1) [OF l3])
  have pl4: "prev_linked ops gr (nodes dfl) ?m s ?fd (slots_of ?d4 (unat i))"
    unfolding sl4 by (rule prev_linked_own [OF three(3)])
  have own: "slots_of ?d4 (unat i) ! s = (slots_of d3 (unat i) ! s)\<lparr>feature_data_index := of_nat s\<rparr>" using s len3 by (simp add: sl4)
  obtain e where e: "slots_of d3 (unat i) ! s = ?new\<lparr>edge_to_next_feature := e\<rparr>" using three(4) by blast
  have ch4: "chain ops gr (nodes dfl) (map fi_edge (all_features dfl)) (unat (max_features dfl)) (?m OR RTE_BIT64 s) (slots_of ?d4 (unat i))"
  proof (rule chain_enable [OF ch s assms(7) sn assms(8)])
    show "length (slots_of ?d4 (unat i)) = 64" using pl4 by (simp add: prev_linked_def)
    show "feature_data_index (slots_of ?d4 (unat i) ! s) = of_nat s" by (simp add: own)
    show "node_info (slots_of ?d4 (unat i) ! s) = Some (nodes dfl ! s)" by (simp add: own e ns)
    show "edge_to_this_feature (slots_of ?d4 (unat i) ! s) = map fi_edge (all_features dfl) ! s" using assms(6) by (simp add: own e)
    show "get_existing_edge ops gr (nodes dfl ! s) (nodes dfl ! b) = Inr (Some (edge_to_next_feature (slots_of ?d4 (unat i) ! s)))"
      if "next_bit ?m s b" for b using three(5) that by (simp add: own)
    show "edge_to_next_feature (slots_of ?d4 (unat i) ! s) = ucast DAO_GRAPH_FEATURE_INVALID_VALUE" if "\<And>b. \<not> next_bit ?m s b"
      using three(6) that by (simp add: own)
  qed (use pl4 in \<open>simp_all add: prev_linked_def\<close>)
  have dt: "fd_data (slots_of ?d4 (unat i) ! s) = data" by (simp add: own e)
  have val: "feature_validate ops gr (Some (feature_arc_main dfl)) i (Some (node_name (feature_node ?info))) True dfl = Inr 0"
    by (rule validate_enable_ok [OF assms(2,5-9)])
  have "feature_enable ops gr (Some (feature_arc_main dfl)) i (Some (node_name (feature_node ?info))) data dfl =
      Inr (0, book (unat i) s (ref_count ?info + 1) (num_enabled_features (features_by_index dfl ! unat i) + 1)
        (runtime_enabled_features dfl + 1) (?m OR RTE_BIT64 s) ?d4)"
    using l len s u8 two(1) three(1) only_slotsD(1,7,10) [OF o4] unfolding feature_enable_def val rbind_simps feature_lookup_at [OF assms(2,6)] ns
    by (simp add: dao_graph_feature_get_def dao_graph_feature_data_get_def slots_of_def feature_mask_def Let_def book_def)
  then show thesis using that [OF _ o4 ch4 dt] by blast
qed


section \<open>Enabling without an edge\<close>

text \<open>The data of a slot that is not enabled is of no account, as long as it is marked invalid.\<close>

lemma chain_off:
  assumes "chain ops gr ns es feats m fd" and "\<not> bit m s" and "feature_data_index d = ucast DAO_GRAPH_FEATURE_INVALID_VALUE"
  shows "chain ops gr ns es feats m (fd[s := d])"
proof -
  have e: "fd[s := d] ! k = fd ! k" if "bit m k" for k using that assms(2) by (metis nth_list_update_neq)
  have "feature_data_index (fd[s := d] ! k) = ucast DAO_GRAPH_FEATURE_INVALID_VALUE" if "k < feats" "\<not> bit m k" for k
    using that assms(1,3) by (cases "k = s") (simp_all add: chain_def)
  then show ?thesis using assms(1) e unfolding chain_def length_list_update by metis
qed

lemma only_slots_ok:
  assumes "arc_ok ops gr dfl" and "only_slots i dfl dfl'" and "i < unat (max_indexes dfl)"
    and "chain ops gr (nodes dfl) (map fi_edge (all_features dfl)) (unat (max_features dfl)) (feature_bit_mask_by_index dfl ! i) (slots_of dfl' i)"
  shows "arc_ok ops gr dfl'" and "nodes dfl' = nodes dfl"
proof -
  note o = only_slotsD [OF assms(2)]
  show n: "nodes dfl' = nodes dfl" by (simp add: nodes_def o(1))
  have "chain ops gr (nodes dfl) (map fi_edge (all_features dfl)) (unat (max_features dfl)) (feature_bit_mask_by_index dfl ! k) (slots_of dfl' k)"
    if "k < unat (max_indexes dfl)" for k
    using that assms(1,4) o(9) [of k] by (cases "k = i") (simp_all add: arc_ok_def slots_of_def)
  then show "arc_ok ops gr dfl'" using assms(1) unfolding arc_ok_def n o by blast
qed

lemma enable_no_prev:
  assumes "bits_ok ops" and "arc_ok ops gr dfl" and "\<not> prev_edge ops gr (nodes dfl) (feature_bit_mask_by_index dfl ! unat i) s"
    and "i < max_indexes dfl" and "s < length (all_features dfl)" and "s < unat (max_features dfl)"
    and "\<not> bit (feature_bit_mask_by_index dfl ! unat i) s"
    and "num_enabled_features (features_by_index dfl ! unat i) < max_features dfl"
  obtains dfl' where "feature_enable ops gr (Some (feature_arc_main dfl)) i (Some (node_name (feature_node (all_features dfl ! s)))) data dfl = Inr (- 1, dfl')"
    and "only_slots (unat i) dfl dfl'" and "arc_ok ops gr dfl'" and "nodes dfl' = nodes dfl"
proof -
  let ?m = "feature_bit_mask_by_index dfl ! unat i"
  let ?fd = "slots_of dfl (unat i)"
  let ?info = "all_features dfl ! s"
  let ?new = "\<lparr>fd_data = data, feature_data_index = ucast DAO_GRAPH_FEATURE_INVALID_VALUE,
    edge_to_this_feature = fi_edge ?info, edge_to_next_feature = ucast DAO_GRAPH_FEATURE_INVALID_VALUE,
    node_info = Some (feature_node ?info)\<rparr>"
  let ?d1 = "put_data (unat i) s (\<lambda>_. ?new) dfl"
  have I: "unat i < unat (max_indexes dfl)" using assms(4) by (simp add: word_less_nat_alt)
  then have l: "unat i < length (features_by_index dfl)" "unat i < length (feature_bit_mask_by_index dfl)"
    using assms(2) by (simp_all add: arc_ok_def)
  have ch: "chain ops gr (nodes dfl) (map fi_edge (all_features dfl)) (unat (max_features dfl)) ?m ?fd"
    and nm: "names_ok ops gr (nodes dfl)" using assms(2) I by (simp_all add: arc_ok_def)
  then have s: "s < 64" and len: "length ?fd = 64" using assms(6) by (simp_all add: chain_def)
  have ns: "nodes dfl ! s = feature_node ?info" using assms(5) by (simp add: nodes_def)
  have u8: "unat (of_nat s :: u8) = s" using s by (simp add: unat_of_nat)
  have o1: "only_slots (unat i) dfl ?d1" by (rule only_slots_put [OF only_slots_refl l(1)])
  have sl1: "slots_of ?d1 (unat i) = ?fd[s := ?new]" by (rule put_data_slots(1) [OF l(1)])
  have lp: "link_prev ops gr (unat i) s ?m (nodes dfl ! s) ?d1 = Inr (False, ?d1)"
    by (rule link_prev_missing [OF assms(1) ch nm assms(3) s]) (use l(1) len in \<open>simp_all add: sl1\<close>)
  have ch1: "chain ops gr (nodes dfl) (map fi_edge (all_features dfl)) (unat (max_features dfl)) ?m (slots_of ?d1 (unat i))"
    unfolding sl1 by (rule chain_off [OF ch assms(7)]) simp
  have val: "feature_validate ops gr (Some (feature_arc_main dfl)) i (Some (node_name (feature_node ?info))) True dfl = Inr 0"
    by (rule validate_enable_ok [OF assms(2,4-8)])
  have "feature_enable ops gr (Some (feature_arc_main dfl)) i (Some (node_name (feature_node ?info))) data dfl = Inr (- 1, ?d1)"
    using l len s u8 lp unfolding feature_enable_def val rbind_simps feature_lookup_at [OF assms(2,5)] ns
    by (simp add: dao_graph_feature_get_def dao_graph_feature_data_get_def slots_of_def feature_mask_def Let_def)
  then show thesis using that [OF _ o1 only_slots_ok [OF assms(2) o1 I ch1]] by blast
qed

lemma enable_no_next:
  assumes "bits_ok ops" and "arc_ok ops gr dfl" and "prev_edge ops gr (nodes dfl) (feature_bit_mask_by_index dfl ! unat i) s"
    and "\<not> next_edge ops gr (nodes dfl) (feature_bit_mask_by_index dfl ! unat i) s"
    and "i < max_indexes dfl" and "s < length (all_features dfl)" and "s < unat (max_features dfl)"
    and "\<not> bit (feature_bit_mask_by_index dfl ! unat i) s"
    and "num_enabled_features (features_by_index dfl ! unat i) < max_features dfl"
  obtains dfl' where "feature_enable ops gr (Some (feature_arc_main dfl)) i (Some (node_name (feature_node (all_features dfl ! s)))) data dfl = Inr (- 1, dfl')"
    and "only_slots (unat i) dfl dfl'" and "nodes dfl' = nodes dfl"
    and "prev_linked ops gr (nodes dfl) (feature_bit_mask_by_index dfl ! unat i) s (slots_of dfl (unat i)) (slots_of dfl' (unat i))"
proof -
  let ?m = "feature_bit_mask_by_index dfl ! unat i"
  let ?fd = "slots_of dfl (unat i)"
  let ?info = "all_features dfl ! s"
  let ?new = "\<lparr>fd_data = data, feature_data_index = ucast DAO_GRAPH_FEATURE_INVALID_VALUE,
    edge_to_this_feature = fi_edge ?info, edge_to_next_feature = ucast DAO_GRAPH_FEATURE_INVALID_VALUE,
    node_info = Some (feature_node ?info)\<rparr>"
  let ?d1 = "put_data (unat i) s (\<lambda>_. ?new) dfl"
  have I: "unat i < unat (max_indexes dfl)" using assms(5) by (simp add: word_less_nat_alt)
  then have l: "unat i < length (features_by_index dfl)" "unat i < length (feature_bit_mask_by_index dfl)"
    using assms(2) by (simp_all add: arc_ok_def)
  have ch: "chain ops gr (nodes dfl) (map fi_edge (all_features dfl)) (unat (max_features dfl)) ?m ?fd"
    and nm: "names_ok ops gr (nodes dfl)" using assms(2) I by (simp_all add: arc_ok_def)
  then have s: "s < 64" and len: "length ?fd = 64" using assms(7) by (simp_all add: chain_def)
  have sn: "s < length (nodes dfl)" and ns: "nodes dfl ! s = feature_node ?info" using assms(6) by (simp_all add: nodes_def)
  have u8: "unat (of_nat s :: u8) = s" using s by (simp add: unat_of_nat)
  have o1: "only_slots (unat i) dfl ?d1" by (rule only_slots_put [OF only_slots_refl l(1)])
  have sl1: "slots_of ?d1 (unat i) = ?fd[s := ?new]" by (rule put_data_slots(1) [OF l(1)])
  obtain d2 where two: "link_prev ops gr (unat i) s ?m (nodes dfl ! s) ?d1 = Inr (True, d2)" "only_slots (unat i) dfl d2"
    "prev_linked ops gr (nodes dfl) ?m s ?fd (slots_of d2 (unat i))"
    by (rule link_prev_step [OF assms(1) ch assms(3) s o1 l(1) sl1])
  have l2: "unat i < length (features_by_index d2)" using l(1) two(2) by (simp add: only_slots_def)
  have ln: "link_next ops gr (unat i) s ?m (nodes dfl ! s) d2 = Inr (False, d2)"
    by (rule link_next_missing [OF assms(1) ch nm assms(4) s sn l2]) (use two(3) in \<open>auto simp: prev_linked_def prev_bit_def\<close>)
  have val: "feature_validate ops gr (Some (feature_arc_main dfl)) i (Some (node_name (feature_node ?info))) True dfl = Inr 0"
    by (rule validate_enable_ok [OF assms(2,5-9)])
  have "feature_enable ops gr (Some (feature_arc_main dfl)) i (Some (node_name (feature_node ?info))) data dfl = Inr (- 1, d2)"
    using l len s u8 two(1) ln unfolding feature_enable_def val rbind_simps feature_lookup_at [OF assms(2,6)] ns
    by (simp add: dao_graph_feature_get_def dao_graph_feature_data_get_def slots_of_def feature_mask_def Let_def)
  then show thesis by (rule that [OF _ two(2) _ two(3)]) (simp add: nodes_def only_slotsD(1) [OF two(2)])
qed

end
