(* ===== verification/Feature_Disable.thy ===== *)
theory Feature_Disable
  imports Feature_Facts
begin

text \<open>
  Disabling a feature: it is taken out of the chain when it has no enabled feature on one of its sides, and it is refused, with the
  chain already changed, when it has both.
\<close>

section \<open>Disabling\<close>

lemma validate_disable_ok:
  assumes "arc_ok ops gr dfl" and "i < max_indexes dfl" and "s < length (all_features dfl)" and "s < unat (max_features dfl)"
    and "bit (feature_bit_mask_by_index dfl ! unat i) s"
  shows "feature_validate ops gr (Some (feature_arc_main dfl)) i (Some (node_name (feature_node (all_features dfl ! s)))) False dfl = Inr 0"
proof -
  have I: "unat i < unat (max_indexes dfl)" using assms(2) by (simp add: word_less_nat_alt)
  have ch: "chain ops gr (nodes dfl) (map fi_edge (all_features dfl)) (unat (max_features dfl))
      (feature_bit_mask_by_index dfl ! unat i) (slots_of dfl (unat i))" using assms(1) I by (simp add: arc_ok_def)
  then have len: "length (slots_of dfl (unat i)) = 64"
    and ix: "feature_data_index (slots_of dfl (unat i) ! s) = of_nat s"
    using assms(5) by (simp_all add: chain_def)
  have s: "s < 64" by (rule bit64 [OF assms(5)])
  have u: "unat (of_nat s :: u8) = s" using s by (simp add: unat_of_nat)
  have "bit (feature_bit_mask_by_index dfl ! unat i AND RTE_BIT64 s) s" using assms(5) s by (simp add: bit_and_iff bit_BIT64)
  then have t: "feature_bit_mask_by_index dfl ! unat i AND RTE_BIT64 s \<noteq> 0" by auto
  have iv: "feature_data_index (slots_of dfl (unat i) ! s) \<noteq> ucast DAO_GRAPH_FEATURE_INVALID_VALUE"
  proof
    assume "feature_data_index (slots_of dfl (unat i) ! s) = ucast DAO_GRAPH_FEATURE_INVALID_VALUE"
    then have "unat (of_nat s :: u32) = 255" using ix by (simp add: DAO_GRAPH_FEATURE_INVALID_VALUE_def)
    then show False using s by (simp add: unat_of_nat)
  qed
  have l: "length (features_by_index dfl) = unat (max_indexes dfl)" "length (feature_bit_mask_by_index dfl) = unat (max_indexes dfl)"
    using assms(1) by (simp_all add: arc_ok_def)
  show ?thesis
    using assms(2,4) I feature_lookup_at [OF assms(1,3)] l t u iv len s
    by (simp add: feature_validate_def dao_graph_feature_get_def dao_graph_feature_data_get_def feature_mask_def slots_of_def not_le)
qed

lemma unlink_none:
  assumes "bits_ok ops" and "s < 64" and "\<And>p. \<not> prev_bit m s p"
  shows "unlink_prev ops gr i s m dfl = Inr (True, dfl)"
proof -
  have "rte_fls_u64 ops (lower_feature_mask s m) = 0"
    using fls_prev [OF assms(1,2), of m] assms(3) by (auto split: if_splits)
  then show ?thesis by (simp add: unlink_prev_def)
qed

lemma unlink_last:
  fixes i :: u32
  assumes "bits_ok ops" and "s < 64" and "prev_bit m s p" and "\<And>n. \<not> next_bit m s n"
    and "unat i < length (features_by_index dfl)" and "length (slots_of dfl (unat i)) = 64"
  shows "unlink_prev ops gr (unat i) s m dfl =
    Inr (True, put_data (unat i) p (\<lambda>d. d\<lparr>edge_to_next_feature := ucast DAO_GRAPH_FEATURE_INVALID_VALUE\<rparr>) dfl)"
proof -
  let ?w = "rte_fls_u64 ops (lower_feature_mask s m)"
  have w: "?w \<noteq> 0" "unat (?w - 1) = p" "p < 64"
    using fls_prev [OF assms(1,2), of m] assms(3) prev_unique by (auto split: if_splits)
  have "rte_bsf64_safe ops (upper_feature_mask s m) = None"
    using bsf_next [OF assms(1,2), of m] assms(4) by (auto split: option.splits)
  then show ?thesis
    using w assms(5,6) data_get_slot [of "features_by_index dfl ! unat i" "?w - 1"]
    by (simp add: unlink_prev_def Let_def dao_graph_feature_get_def slots_of_def)
qed

lemma unlink_between:
  fixes i :: u32
  assumes "bits_ok ops" and "chain ops gr ns es feats m fd" and "names_ok ops gr ns" and "s < 64"
    and "prev_bit m s p" and "next_bit m s n"
    and "unat i < length (features_by_index dfl)" and "slots_of dfl (unat i) = fd"
  defines "d1 \<equiv> put_data (unat i) p (\<lambda>d. d\<lparr>edge_to_next_feature := ucast DAO_GRAPH_FEATURE_INVALID_VALUE\<rparr>) dfl"
  shows "\<exists>e. get_existing_edge ops gr (ns ! p) (ns ! n) = Inr e \<and>
    unlink_prev ops gr (unat i) s m dfl = Inr (False, case e of None \<Rightarrow> d1
      | Some edge \<Rightarrow> put_data (unat i) p (\<lambda>d. d\<lparr>edge_to_next_feature := edge\<rparr>) d1)"
proof -
  let ?w = "rte_fls_u64 ops (lower_feature_mask s m)"
  have w: "?w \<noteq> 0" "unat (?w - 1) = p" "p < 64"
    using fls_prev [OF assms(1,4), of m] assms(5) prev_unique by (auto split: if_splits)
  obtain v where v: "rte_bsf64_safe ops (upper_feature_mask s m) = Some v" "next_bit m s (unat v)" "unat v < 64"
    using bsf_next [OF assms(1,4), of m] assms(6) by (auto split: option.splits)
  have vn: "unat v = n" by (rule next_unique [OF v(2) assms(6)])
  have b: "bit m p" "bit m n" using assms(5,6) by (auto simp: prev_bit_def next_bit_def)
  have c: "node_info (fd ! p) = Some (ns ! p)" "node_info (fd ! n) = Some (ns ! n)" "p < length ns" "length fd = 64"
    using assms(2) b by (simp_all add: chain_def)
  obtain e where e: "get_existing_edge ops gr (ns ! p) (ns ! n) = Inr e"
    using edge_search_ends [OF assms(3) c(3)] by blast
  have g: "dao_graph_feature_data_get (features_by_index dfl ! unat i) (ucast (?w - 1)) = Inr (fd ! p)"
    "dao_graph_feature_data_get (features_by_index dfl ! unat i) (ucast v) = Inr (fd ! n)"
    using data_get_slot [of "features_by_index dfl ! unat i"] w v vn c(4) assms(8) by (simp_all add: slots_of_def)
  have "unlink_prev ops gr (unat i) s m dfl = Inr (False, case e of None \<Rightarrow> d1
      | Some edge \<Rightarrow> put_data (unat i) p (\<lambda>d. d\<lparr>edge_to_next_feature := edge\<rparr>) d1)"
    using w v(1) e c g assms(7) by (cases e) (simp_all add: unlink_prev_def Let_def dao_graph_feature_get_def dfd_node_def d1_def)
  then show ?thesis using e by blast
qed

text \<open>Disabling a feature that has no enabled feature before it, or none behind it.\<close>

lemma disable_ok:
  assumes "bits_ok ops" and "arc_ok ops gr dfl" and "i < max_indexes dfl"
    and "s < length (all_features dfl)" and "bit (feature_bit_mask_by_index dfl ! unat i) s"
    and one: "\<And>p n. prev_bit (feature_bit_mask_by_index dfl ! unat i) s p \<Longrightarrow> \<not> next_bit (feature_bit_mask_by_index dfl ! unat i) s n"
  obtains dfl2 where "feature_disable ops gr (Some (feature_arc_main dfl)) i (Some (node_name (feature_node (all_features dfl ! s)))) dfl =
      Inr (0, book (unat i) s (ref_count (all_features dfl ! s) - 1) (num_enabled_features (features_by_index dfl ! unat i) + 1)
        (runtime_enabled_features dfl) (feature_bit_mask_by_index dfl ! unat i AND NOT (RTE_BIT64 s)) dfl2)"
    and "only_slots (unat i) dfl dfl2"
    and "chain ops gr (nodes dfl) (map fi_edge (all_features dfl)) (unat (max_features dfl))
      (feature_bit_mask_by_index dfl ! unat i AND NOT (RTE_BIT64 s)) (slots_of dfl2 (unat i))"
proof -
  let ?m = "feature_bit_mask_by_index dfl ! unat i"
  let ?fd = "slots_of dfl (unat i)"
  let ?iv = "ucast DAO_GRAPH_FEATURE_INVALID_VALUE"
  have I: "unat i < unat (max_indexes dfl)" using assms(3) by (simp add: word_less_nat_alt)
  then have l: "unat i < length (features_by_index dfl)" "unat i < length (feature_bit_mask_by_index dfl)"
    using assms(2) by (simp_all add: arc_ok_def)
  have ch: "chain ops gr (nodes dfl) (map fi_edge (all_features dfl)) (unat (max_features dfl)) ?m ?fd"
    using assms(2) I by (simp add: arc_ok_def)
  then have len: "length ?fd = 64" and sf: "s < unat (max_features dfl)" using assms(5) by (simp_all add: chain_def)
  have s: "s < 64" by (rule bit64 [OF assms(5)])
  have u8: "unat (of_nat s :: u8) = s" using s by (simp add: unat_of_nat)
  obtain d1 where d1: "unlink_prev ops gr (unat i) s ?m dfl = Inr (True, d1)" "only_slots (unat i) dfl d1"
    "length (slots_of d1 (unat i)) = 64"
    "\<forall>p. prev_bit ?m s p \<longrightarrow> slots_of d1 (unat i) ! p = (?fd ! p)\<lparr>edge_to_next_feature := ?iv\<rparr>"
    "\<forall>k. \<not> prev_bit ?m s k \<longrightarrow> slots_of d1 (unat i) ! k = ?fd ! k"
  proof (cases "\<exists>p. prev_bit ?m s p")
    case True
    then obtain p where p: "prev_bit ?m s p" by blast
    let ?d = "put_data (unat i) p (\<lambda>d. d\<lparr>edge_to_next_feature := ?iv\<rparr>) dfl"
    have sl: "slots_of ?d (unat i) = ?fd[p := (?fd ! p)\<lparr>edge_to_next_feature := ?iv\<rparr>]" by (rule put_data_slots(1) [OF l(1)])
    have p64: "p < 64" using prev_not_own [OF p] s by simp
    show thesis
    proof (rule that [of ?d])
      show "unlink_prev ops gr (unat i) s ?m dfl = Inr (True, ?d)"
        by (rule unlink_last [OF assms(1) s p one [OF p] l(1) len])
      show "only_slots (unat i) dfl ?d" by (rule only_slots_put [OF only_slots_refl l(1)])
      show "length (slots_of ?d (unat i)) = 64" by (simp add: sl len)
      show "\<forall>q. prev_bit ?m s q \<longrightarrow> slots_of ?d (unat i) ! q = (?fd ! q)\<lparr>edge_to_next_feature := ?iv\<rparr>"
        unfolding sl using prev_unique [OF p] p64 len by (metis nth_list_update_eq)
      show "\<forall>k. \<not> prev_bit ?m s k \<longrightarrow> slots_of ?d (unat i) ! k = ?fd ! k"
        using p by (metis nth_list_update_neq sl)
    qed
  next
    case False
    then show thesis using that [of dfl] unlink_none [OF assms(1) s] only_slots_refl len by blast
  qed
  let ?d2 = "put_data (unat i) s (\<lambda>d. d\<lparr>feature_data_index := ?iv, edge_to_this_feature := ?iv, edge_to_next_feature := ?iv\<rparr>) d1"
  have o2: "only_slots (unat i) dfl ?d2" by (rule only_slots_put [OF d1(2) l(1)])
  have l1: "unat i < length (features_by_index d1)" using l(1) d1(2) by (simp add: only_slots_def)
  have sl2: "slots_of ?d2 (unat i) = (slots_of d1 (unat i))[s := (slots_of d1 (unat i) ! s)\<lparr>feature_data_index := ?iv,
      edge_to_this_feature := ?iv, edge_to_next_feature := ?iv\<rparr>]"
    by (rule put_data_slots(1) [OF l1])
  have ch2: "chain ops gr (nodes dfl) (map fi_edge (all_features dfl)) (unat (max_features dfl)) (?m AND NOT (RTE_BIT64 s)) (slots_of ?d2 (unat i))"
  proof (rule chain_disable [OF ch s assms(5) _ one])
    show "length (slots_of ?d2 (unat i)) = 64" by (simp add: sl2 d1(3))
    show "feature_data_index (slots_of ?d2 (unat i) ! s) = ?iv" using s d1(3) by (simp add: sl2)
    show "slots_of ?d2 (unat i) ! p = (?fd ! p)\<lparr>edge_to_next_feature := ?iv\<rparr>" if "prev_bit ?m s p" for p
      using d1(4) that prev_not_own [OF that] by (simp add: sl2)
    show "slots_of ?d2 (unat i) ! k = ?fd ! k" if "k < 64" "k \<noteq> s" "\<not> prev_bit ?m s k" for k
      using d1(5) that by (simp add: sl2)
  qed
  have val: "feature_validate ops gr (Some (feature_arc_main dfl)) i (Some (node_name (feature_node (all_features dfl ! s)))) False dfl = Inr 0"
    by (rule validate_disable_ok [OF assms(2-4) sf assms(5)])
  have run: "book (unat i) s (ref_count (all_features dfl ! s) - 1) (num_enabled_features (features_by_index dfl ! unat i) + 1)
      (runtime_enabled_features dfl) (?m AND NOT (RTE_BIT64 s)) ?d2 =
    ?d2\<lparr>all_features := (all_features ?d2)[s := (all_features ?d2 ! s)\<lparr>ref_count := ref_count (all_features dfl ! s) - 1\<rparr>],
       features_by_index := (features_by_index ?d2)[unat i := (features_by_index ?d2 ! unat i)\<lparr>num_enabled_features :=
         num_enabled_features (features_by_index dfl ! unat i) + 1\<rparr>],
       feature_bit_mask_by_index := (feature_bit_mask_by_index ?d2)[unat i := ?m AND NOT (RTE_BIT64 s)]\<rparr>"
    using only_slotsD(7) [OF o2] unfolding book_def by simp
  have "feature_disable ops gr (Some (feature_arc_main dfl)) i (Some (node_name (feature_node (all_features dfl ! s)))) dfl =
      Inr (0, book (unat i) s (ref_count (all_features dfl ! s) - 1) (num_enabled_features (features_by_index dfl ! unat i) + 1)
        (runtime_enabled_features dfl) (?m AND NOT (RTE_BIT64 s)) ?d2)"
    using l len s u8 d1(1) only_slotsD(1,10) [OF o2] only_slotsD(1) [OF d1(2)]
    unfolding run feature_disable_def val rbind_simps feature_lookup_at [OF assms(2,4)]
    by (simp add: dao_graph_feature_get_def dao_graph_feature_data_get_def slots_of_def feature_mask_def Let_def)
  then show thesis using that [OF _ o2 ch2] by blast
qed

lemma disable_between:
  assumes "bits_ok ops" and "arc_ok ops gr dfl" and "i < max_indexes dfl"
    and "s < length (all_features dfl)" and "bit (feature_bit_mask_by_index dfl ! unat i) s"
    and "prev_bit (feature_bit_mask_by_index dfl ! unat i) s p" and "next_bit (feature_bit_mask_by_index dfl ! unat i) s n"
  obtains dfl' e where "feature_disable ops gr (Some (feature_arc_main dfl)) i (Some (node_name (feature_node (all_features dfl ! s)))) dfl = Inr (- 1, dfl')"
    and "feature_bit_mask_by_index dfl' = feature_bit_mask_by_index dfl"
    and "get_existing_edge ops gr (nodes dfl ! p) (nodes dfl ! n) = Inr e"
    and "edge_to_next_feature (slots_of dfl' (unat i) ! p) = (case e of None \<Rightarrow> ucast DAO_GRAPH_FEATURE_INVALID_VALUE | Some edge \<Rightarrow> edge)"
proof -
  let ?m = "feature_bit_mask_by_index dfl ! unat i"
  have I: "unat i < unat (max_indexes dfl)" using assms(3) by (simp add: word_less_nat_alt)
  then have l: "unat i < length (features_by_index dfl)" "unat i < length (feature_bit_mask_by_index dfl)"
    using assms(2) by (simp_all add: arc_ok_def)
  have ch: "chain ops gr (nodes dfl) (map fi_edge (all_features dfl)) (unat (max_features dfl)) ?m (slots_of dfl (unat i))"
    and nm: "names_ok ops gr (nodes dfl)" using assms(2) I by (simp_all add: arc_ok_def)
  then have len: "length (slots_of dfl (unat i)) = 64" and sf: "s < unat (max_features dfl)" using assms(5) by (simp_all add: chain_def)
  have s: "s < 64" by (rule bit64 [OF assms(5)])
  have u8: "unat (of_nat s :: u8) = s" using s by (simp add: unat_of_nat)
  let ?d1 = "put_data (unat i) p (\<lambda>d. d\<lparr>edge_to_next_feature := ucast DAO_GRAPH_FEATURE_INVALID_VALUE\<rparr>) dfl"
  let ?d2 = "\<lambda>e. case e of None \<Rightarrow> ?d1 | Some edge \<Rightarrow> put_data (unat i) p (\<lambda>d. d\<lparr>edge_to_next_feature := edge\<rparr>) ?d1"
  obtain e where e: "get_existing_edge ops gr (nodes dfl ! p) (nodes dfl ! n) = Inr e"
    "unlink_prev ops gr (unat i) s ?m dfl = Inr (False, ?d2 e)"
    using unlink_between [OF assms(1) ch nm s assms(6,7) l(1) refl] by blast
  have val: "feature_validate ops gr (Some (feature_arc_main dfl)) i (Some (node_name (feature_node (all_features dfl ! s)))) False dfl = Inr 0"
    by (rule validate_disable_ok [OF assms(2-4) sf assms(5)])
  have p64: "p < 64" using prev_not_own [OF assms(6)] s by simp
  have sl: "slots_of ?d1 (unat i) = (slots_of dfl (unat i))[p := (slots_of dfl (unat i) ! p)\<lparr>edge_to_next_feature := ucast DAO_GRAPH_FEATURE_INVALID_VALUE\<rparr>]"
    by (rule put_data_slots(1) [OF l(1)])
  have "slots_of (put_data (unat i) p f ?d1) (unat i) = (slots_of ?d1 (unat i))[p := f (slots_of ?d1 (unat i) ! p)]" for f
    by (rule put_data_slots(1)) (simp add: l(1))
  then have "edge_to_next_feature (slots_of (?d2 e) (unat i) ! p) = (case e of None \<Rightarrow> ucast DAO_GRAPH_FEATURE_INVALID_VALUE | Some edge \<Rightarrow> edge)"
    using p64 len sl by (cases e) simp_all
  moreover have "feature_disable ops gr (Some (feature_arc_main dfl)) i (Some (node_name (feature_node (all_features dfl ! s)))) dfl = Inr (- 1, ?d2 e)"
    using l len s u8 e(2) unfolding feature_disable_def val rbind_simps feature_lookup_at [OF assms(2,4)]
    by (simp add: dao_graph_feature_get_def dao_graph_feature_data_get_def slots_of_def feature_mask_def)
  moreover have "feature_bit_mask_by_index (?d2 e) = feature_bit_mask_by_index dfl" by (cases e) simp_all
  ultimately show thesis using that e(1) by blast
qed

end
