(* ===== verification/Feature_Props.thy ===== *)
theory Feature_Props
  imports Feature_Disable
begin

text \<open>
  Feature arcs end to end: when enabling succeeds and what it leaves for the fast path, where disabling does not work, the counter that
  wears out, and the order in which features are added.
\<close>

section \<open>Handles\<close>

lemma arc_deref_addr:
  assumes "arc_deref st h = Inr dfl"
  shows "arc_addr dfl = h"
proof -
  obtain m where m: "st = Some m" "arc_slot m h < length (feature_arcs m)" "feature_arcs m ! arc_slot m h = Some dfl"
    using assms by (auto simp: arc_deref_def split: option.splits if_splits)
  then show ?thesis
    using nth_first_free [of "\<lambda>a. case a of None \<Rightarrow> False | Some dfl \<Rightarrow> arc_addr dfl = h" "feature_arcs m"] by (simp add: arc_slot_def)
qed

lemma arc_deref_store:
  assumes "arc_deref st h = Inr dfl" and "arc_addr dfl' = h"
  shows "arc_deref (arc_store st h dfl') h = Inr dfl'"
proof -
  let ?P = "\<lambda>a. case a of None \<Rightarrow> False | Some dfl \<Rightarrow> arc_addr dfl = h"
  obtain m where m: "st = Some m" "arc_slot m h < length (feature_arcs m)"
    using assms(1) by (auto simp: arc_deref_def split: option.splits if_splits)
  let ?m = "m\<lparr>feature_arcs := (feature_arcs m)[arc_slot m h := Some dfl']\<rparr>"
  have "arc_slot ?m h = arc_slot m h"
    unfolding arc_slot_def [of ?m]
  proof (rule first_free_unique)
    fix k
    assume k: "k < arc_slot m h"
    then have "\<not> ?P (feature_arcs m ! k)" unfolding arc_slot_def by (rule first_free_least)
    then show "\<not> ?P (feature_arcs ?m ! k)" using k by simp
  qed (use m(2) assms(2) in simp_all)
  then show ?thesis using m by (simp add: arc_deref_def arc_store_def)
qed

section \<open>The fast path\<close>

lemma bit_above: "f < 63 \<Longrightarrow> bit (m AND push_bit (f + 1) (NOT 0) :: u64) k \<longleftrightarrow> f < k \<and> bit m k"
proof (cases "bit m k")
  case True
  then have "k < 64" by (rule bit64)
  then show ?thesis using True by (cases "f < k") (simp_all add: bit_and_iff bit_push_bit_iff bit_not_iff bit_mask_iff Suc_le_eq)
qed (simp add: bit_and_iff)

lemma u8_slot: "f < 64 \<Longrightarrow> unat (of_nat f :: u8) = f \<and> of_nat f \<noteq> DAO_GRAPH_FEATURE_INVALID_VALUE"
proof -
  assume f: "f < 64"
  then have u: "unat (of_nat f :: u8) = f" by (simp add: unat_of_nat)
  moreover have "of_nat f \<noteq> DAO_GRAPH_FEATURE_INVALID_VALUE"
  proof
    assume "of_nat f = DAO_GRAPH_FEATURE_INVALID_VALUE"
    then have "unat (of_nat f :: u8) = 255" by (simp add: DAO_GRAPH_FEATURE_INVALID_VALUE_def)
    then show False using u f by simp
  qed
  ultimately show ?thesis by blast
qed

lemma bsf_least:
  assumes "bits_ok ops" and "bit x f" and "\<And>k. k < f \<Longrightarrow> \<not> bit x k"
  shows "bsf64_safe ops x pos = (1, of_nat f)"
proof -
  have x: "x \<noteq> 0" using assms(2) by auto
  note c = bits_okD(5) [OF assms(1) x]
  have "unat (rte_ctz64 ops x) = f" using c assms(2,3) by (metis linorder_neqE_nat)
  then have "ucast (rte_ctz64 ops x) = (of_nat f :: u8)" by (metis of_nat_unat ucast_id unsigned_of_nat unsigned_ucast_eq word_of_nat_eq_iff take_bit_of_nat ucast_eq of_nat_take_bit)
  then show ?thesis using x by (simp add: bsf64_safe_def)
qed

lemma has_next_ok:
  assumes "bits_ok ops" and "unat i < length (feature_bit_mask_by_index dfl)" and "bit (feature_bit_mask_by_index dfl ! unat i) f"
  defines "m \<equiv> feature_bit_mask_by_index dfl ! unat i"
  shows "next_bit m f n \<Longrightarrow> dao_graph_feature_arc_has_feature ops dfl i (of_nat f) = Inr (1, of_nat n)"
    and "f < 63 \<Longrightarrow> (\<And>n. \<not> next_bit m f n) \<Longrightarrow> dao_graph_feature_arc_has_feature ops dfl i (of_nat f) = Inr (0, of_nat f)"
    and "f = 63 \<Longrightarrow> dao_graph_feature_arc_has_feature ops dfl i (of_nat f) = Inl BadShift"
proof -
  have m0: "m \<noteq> 0" using assms(3) unfolding m_def by auto
  have mk: "feature_mask dfl i = Inr m" using assms(2) by (simp add: feature_mask_def m_def)
  have u: "unat (of_nat f :: u8) = f" "of_nat f \<noteq> DAO_GRAPH_FEATURE_INVALID_VALUE" using u8_slot [OF bit64 [OF assms(3)]] by simp_all
  have hf: "dao_graph_feature_arc_has_feature ops dfl i (of_nat f) =
      Inr (bsf64_safe ops (m AND push_bit (f + 1) (NOT 0)) (of_nat f))" if "f < 63"
    using that u m0 mk by (simp add: dao_graph_feature_arc_has_feature_def dao_graph_feature_arc_has_next_feature_def)
  show "dao_graph_feature_arc_has_feature ops dfl i (of_nat f) = Inl BadShift" if "f = 63"
    using u m0 mk unfolding that by (simp add: dao_graph_feature_arc_has_feature_def dao_graph_feature_arc_has_next_feature_def)
  show "dao_graph_feature_arc_has_feature ops dfl i (of_nat f) = Inr (1, of_nat n)" if n: "next_bit m f n"
  proof -
    have f: "f < 63" using n bit64 [of m n] by (simp add: next_bit_def)
    have "bsf64_safe ops (m AND push_bit (f + 1) (NOT 0)) (of_nat f) = (1, of_nat n)"
      by (rule bsf_least [OF assms(1)]) (use n in \<open>simp_all only: bit_above [OF f], simp_all add: next_bit_def\<close>)
    then show ?thesis using hf [OF f] by simp
  qed
  show "dao_graph_feature_arc_has_feature ops dfl i (of_nat f) = Inr (0, of_nat f)" if f: "f < 63" and n: "\<And>n. \<not> next_bit m f n"
  proof -
    have "m AND push_bit (f + 1) (NOT 0) = 0"
    proof (rule ccontr)
      assume "m AND push_bit (f + 1) (NOT 0) \<noteq> 0"
      note c = bits_okD(5) [OF assms(1) this]
      then have "next_bit m f (unat (rte_ctz64 ops (m AND push_bit (f + 1) (NOT 0))))"
        unfolding bit_above [OF f] next_bit_def by blast
      then show False using n by blast
    qed
    then show ?thesis using hf [OF f] by (simp add: bsf64_safe_def)
  qed
qed

lemma has_first_ok:
  assumes "bits_ok ops" and "unat i < length (feature_bit_mask_by_index dfl)"
    and "bit (feature_bit_mask_by_index dfl ! unat i) f" and "\<And>k. k < f \<Longrightarrow> \<not> bit (feature_bit_mask_by_index dfl ! unat i) k"
  shows "dao_graph_feature_arc_has_feature ops dfl i DAO_GRAPH_FEATURE_INVALID_VALUE = Inr (1, of_nat f)"
proof -
  let ?m = "feature_bit_mask_by_index dfl ! unat i"
  have "?m \<noteq> 0" using assms(3) by auto
  moreover have "feature_mask dfl i = Inr ?m" using assms(2) by (simp add: feature_mask_def)
  ultimately show ?thesis
    using bsf_least [OF assms(1,3,4)] by (simp add: dao_graph_feature_arc_has_feature_def dao_graph_feature_arc_has_first_feature_def)
qed

lemma slot_data:
  assumes "unat i < length (features_by_index dfl)" and "length (slots_of dfl (unat i)) = 64" and "f < 64"
  shows "dao_graph_feature_arc_next_feature_data_get dfl (of_nat f) i =
      Inr (edge_to_next_feature (slots_of dfl (unat i) ! f), fd_data (slots_of dfl (unat i) ! f))"
    and "dao_graph_feature_arc_first_feature_data_get dfl (of_nat f) i =
      Inr (edge_to_this_feature (slots_of dfl (unat i) ! f), fd_data (slots_of dfl (unat i) ! f))"
  using assms u8_slot [OF assms(3)]
  by (simp_all add: dao_graph_feature_arc_next_feature_data_get_def dao_graph_feature_arc_first_feature_data_get_def
      dao_graph_feature_get_def dao_graph_feature_data_get_def slots_of_def)

section \<open>Enabling and disabling an arc\<close>

text \<open>Two arcs that agree in everything but the bookkeeping of interface \<open>i\<close>, whose mask is \<open>m\<close> and whose counter is \<open>n\<close> in the second.\<close>

definition moved :: "nat \<Rightarrow> u64 \<Rightarrow> u32 \<Rightarrow> dao_graph_feature_arc \<Rightarrow> dao_graph_feature_arc \<Rightarrow> bool" where
  "moved i m n dfl dfl' \<longleftrightarrow> nodes dfl' = nodes dfl \<and> arc_addr dfl' = arc_addr dfl \<and> feature_arc_main dfl' = feature_arc_main dfl \<and>
     max_features dfl' = max_features dfl \<and> max_indexes dfl' = max_indexes dfl \<and>
     feature_bit_mask_by_index dfl' = (feature_bit_mask_by_index dfl)[i := m] \<and>
     num_enabled_features (features_by_index dfl' ! i) = n \<and>
     (\<forall>k. k \<noteq> i \<longrightarrow> features_by_index dfl' ! k = features_by_index dfl ! k)"

lemma book_moved:
  assumes "arc_ok ops gr dfl" and "only_slots i dfl dfl'" and "i < unat (max_indexes dfl)" and "s < length (all_features dfl)"
    and "chain ops gr (nodes dfl) (map fi_edge (all_features dfl)) (unat (max_features dfl)) m (slots_of dfl' i)"
  shows "moved i m n dfl (book i s rc n run m dfl')"
proof -
  note b = book_ok(2-6) [OF assms]
  note o = only_slotsD [OF assms(2)]
  show ?thesis
    unfolding moved_def using b o by (simp add: book_def)
qed

lemma enable_arc:
  assumes "bits_ok ops" and "arc_ok ops gr dfl" and "prev_edge ops gr (nodes dfl) (feature_bit_mask_by_index dfl ! unat i) s"
    and "next_edge ops gr (nodes dfl) (feature_bit_mask_by_index dfl ! unat i) s" and "i < max_indexes dfl"
    and "s < length (nodes dfl)" and "s < unat (max_features dfl)"
    and "\<not> bit (feature_bit_mask_by_index dfl ! unat i) s"
    and "num_enabled_features (features_by_index dfl ! unat i) < max_features dfl"
  obtains dfl' where "feature_enable ops gr (Some (feature_arc_main dfl)) i (Some (node_name (nodes dfl ! s))) data dfl = Inr (0, dfl')"
    and "arc_ok ops gr dfl'" and "fd_data (slots_of dfl' (unat i) ! s) = data"
    and "moved (unat i) (feature_bit_mask_by_index dfl ! unat i OR RTE_BIT64 s) (num_enabled_features (features_by_index dfl ! unat i) + 1) dfl dfl'"
proof -
  have s: "s < length (all_features dfl)" and ns: "nodes dfl ! s = feature_node (all_features dfl ! s)" using assms(6) by (simp_all add: nodes_def)
  have I: "unat i < unat (max_indexes dfl)" using assms(5) by (simp add: word_less_nat_alt)
  obtain d3 where d: "feature_enable ops gr (Some (feature_arc_main dfl)) i (Some (node_name (feature_node (all_features dfl ! s)))) data dfl =
      Inr (0, book (unat i) s (ref_count (all_features dfl ! s) + 1) (num_enabled_features (features_by_index dfl ! unat i) + 1)
        (runtime_enabled_features dfl + 1) (feature_bit_mask_by_index dfl ! unat i OR RTE_BIT64 s) d3)"
    "only_slots (unat i) dfl d3"
    "chain ops gr (nodes dfl) (map fi_edge (all_features dfl)) (unat (max_features dfl))
      (feature_bit_mask_by_index dfl ! unat i OR RTE_BIT64 s) (slots_of d3 (unat i))"
    "fd_data (slots_of d3 (unat i) ! s) = data"
    by (rule enable_ok [OF assms(1-5) s assms(7-9)])
  show thesis
  proof (rule that)
    show "feature_enable ops gr (Some (feature_arc_main dfl)) i (Some (node_name (nodes dfl ! s))) data dfl =
      Inr (0, book (unat i) s (ref_count (all_features dfl ! s) + 1) (num_enabled_features (features_by_index dfl ! unat i) + 1)
        (runtime_enabled_features dfl + 1) (feature_bit_mask_by_index dfl ! unat i OR RTE_BIT64 s) d3)"
      unfolding ns by (rule d(1))
  qed (use book_ok(1,3) [OF assms(2) d(2) I s d(3)] book_moved [OF assms(2) d(2) I s d(3)] d(4) in simp_all)
qed

lemma disable_arc:
  assumes "bits_ok ops" and "arc_ok ops gr dfl" and "i < max_indexes dfl"
    and "s < length (nodes dfl)" and "bit (feature_bit_mask_by_index dfl ! unat i) s"
    and one: "\<And>p n. prev_bit (feature_bit_mask_by_index dfl ! unat i) s p \<Longrightarrow> \<not> next_bit (feature_bit_mask_by_index dfl ! unat i) s n"
  obtains dfl' where "feature_disable ops gr (Some (feature_arc_main dfl)) i (Some (node_name (nodes dfl ! s))) dfl = Inr (0, dfl')"
    and "arc_ok ops gr dfl'"
    and "moved (unat i) (feature_bit_mask_by_index dfl ! unat i AND NOT (RTE_BIT64 s)) (num_enabled_features (features_by_index dfl ! unat i) + 1) dfl dfl'"
proof -
  have s: "s < length (all_features dfl)" and ns: "nodes dfl ! s = feature_node (all_features dfl ! s)" using assms(4) by (simp_all add: nodes_def)
  have I: "unat i < unat (max_indexes dfl)" using assms(3) by (simp add: word_less_nat_alt)
  obtain d3 where d: "feature_disable ops gr (Some (feature_arc_main dfl)) i (Some (node_name (feature_node (all_features dfl ! s)))) dfl =
      Inr (0, book (unat i) s (ref_count (all_features dfl ! s) - 1) (num_enabled_features (features_by_index dfl ! unat i) + 1)
        (runtime_enabled_features dfl) (feature_bit_mask_by_index dfl ! unat i AND NOT (RTE_BIT64 s)) d3)"
    "only_slots (unat i) dfl d3"
    "chain ops gr (nodes dfl) (map fi_edge (all_features dfl)) (unat (max_features dfl))
      (feature_bit_mask_by_index dfl ! unat i AND NOT (RTE_BIT64 s)) (slots_of d3 (unat i))"
    by (rule disable_ok [OF assms(1-3) s assms(5) one])
  show thesis
  proof (rule that)
    show "feature_disable ops gr (Some (feature_arc_main dfl)) i (Some (node_name (nodes dfl ! s))) dfl =
      Inr (0, book (unat i) s (ref_count (all_features dfl ! s) - 1) (num_enabled_features (features_by_index dfl ! unat i) + 1)
        (runtime_enabled_features dfl) (feature_bit_mask_by_index dfl ! unat i AND NOT (RTE_BIT64 s)) d3)"
      unfolding ns by (rule d(1))
  qed (use book_ok(1,3) [OF assms(2) d(2) I s d(3)] book_moved [OF assms(2) d(2) I s d(3)] in simp_all)
qed

lemma enable_exhausted:
  assumes "num_enabled_features (features_by_index dfl ! unat i) \<ge> max_features dfl" and "arc_ok ops gr dfl" and "i < max_indexes dfl"
    and "s < length (nodes dfl)"
  shows "feature_enable ops gr (Some (feature_arc_main dfl)) i (Some (node_name (nodes dfl ! s))) data dfl = Inr (- 1, dfl)"
proof -
  have s: "s < length (all_features dfl)" and ns: "nodes dfl ! s = feature_node (all_features dfl ! s)" using assms(4) by (simp_all add: nodes_def)
  have I: "unat i < length (features_by_index dfl)" using assms(2,3) by (simp add: word_less_nat_alt arc_ok_def)
  have "feature_lookup ops gr dfl (Some (node_name (nodes dfl ! s))) = Inr (Inl s)" unfolding ns by (rule feature_lookup_at [OF assms(2) s])
  then have "feature_validate ops gr (Some (feature_arc_main dfl)) i (Some (node_name (nodes dfl ! s))) True dfl = Inr (- EINVAL)"
    using assms(1,3) I by (simp add: feature_validate_def dao_graph_feature_get_def)
  then show ?thesis by (simp add: feature_enable_def)
qed

section \<open>Adding features\<close>

text \<open>What adding relies on: adding an edge to a node renames no node of the graph and removes none.\<close>

definition frame :: "'g graph_ops \<Rightarrow> 'g \<Rightarrow> 'g \<Rightarrow> bool" where
  "frame ops gr gr' \<longleftrightarrow> rte_node_id_to_name ops gr' = rte_node_id_to_name ops gr \<and>
     (\<forall>k. rte_node_edge_get ops gr k \<noteq> None \<longrightarrow> rte_node_edge_get ops gr' k \<noteq> None)"

definition graph_ok :: "'g graph_ops \<Rightarrow> bool" where
  "graph_ok ops \<longleftrightarrow> (\<forall>gr j nm. frame ops gr (snd (rte_node_edge_update ops gr j (RTE_EDGE_ID_INVALID ops) nm)))"

abbreviation registered :: "'g graph_ops \<Rightarrow> 'g \<Rightarrow> rte_node \<Rightarrow> bool" where
  "registered ops gr n \<equiv> rte_node_edge_get ops gr (node_id n) \<noteq> None"

lemma frame_refl: "frame ops gr gr"
  by (simp add: frame_def)

lemma frame_trans: "frame ops gr gr1 \<Longrightarrow> frame ops gr1 gr2 \<Longrightarrow> frame ops gr gr2"
  by (simp add: frame_def)

lemma frame_registered: "frame ops gr gr' \<Longrightarrow> registered ops gr n \<Longrightarrow> registered ops gr' n"
  by (simp add: frame_def)

lemma connect_total:
  assumes "graph_ok ops" and "registered ops gr p"
  obtains e gr' where "connect_graph_nodes ops gr p c = Inr (e, gr')" and "frame ops gr gr'"
proof -
  let ?u = "rte_node_edge_update ops gr (node_id p) (RTE_EDGE_ID_INVALID ops) (node_name c)"
  have u: "frame ops gr (snd ?u)" using assms(1) unfolding graph_ok_def by blast
  obtain e where "get_existing_edge ops gr p c = Inr e" using edge_get_total [OF assms(2)] by blast
  then have "\<exists>e gr'. connect_graph_nodes ops gr p c = Inr (e, gr') \<and> frame ops gr gr'"
    using u frame_refl by (cases e) (auto simp: connect_graph_nodes_def prod.case_eq_if)
  then show thesis using that by blast
qed

text \<open>The two ways in which the loops connect nodes, where the result is used and where it is not.\<close>

lemma connect_flag:
  assumes "graph_ok ops" and "registered ops gr p"
  shows "\<exists>x' gr'. (if c then rbind (connect_graph_nodes ops gr p q) (\<lambda>(e, gr). Inr (if e \<noteq> None then y else x, gr)) else Inr (x, gr)) = Inr (x', gr') \<and>
    frame ops gr gr'"
  by (rule connect_total [OF assms, of q]; cases c) (simp_all add: frame_refl)

lemma connect_quiet:
  assumes "graph_ok ops" and "registered ops gr p"
  shows "\<exists>gr'. (if c then rbind (connect_graph_nodes ops gr p q) (\<lambda>(_, gr). Inr gr) else Inr gr) = Inr gr' \<and> frame ops gr gr'"
  by (rule connect_total [OF assms, of q]; cases c) (simp_all add: frame_refl)

lemma connect_before_total:
  assumes "graph_ok ops" and "registered ops gr new" and "\<forall>f \<in> set fs. registered ops gr (feature_node f)"
  shows "\<exists>gr'. connect_before ops new b add fs gr = Inr gr' \<and> frame ops gr gr'"
  using assms(2,3)
proof (induction fs arbitrary: add gr)
  case (Cons f fs)
  obtain add' g1 where 1: "(if same_name ops (node_name (feature_node f)) b
      then rbind (connect_graph_nodes ops gr new (feature_node f)) (\<lambda>(e, gr). Inr (if e \<noteq> None then False else add, gr))
      else Inr (add, gr)) = Inr (add', g1)" "frame ops gr g1"
    using connect_flag [OF assms(1) Cons(2), where c = "same_name ops (node_name (feature_node f)) b" and q = "feature_node f" and x = add and y = False] by blast
  have f: "registered ops g1 (feature_node f)" by (rule frame_registered [OF 1(2)]) (use Cons(3) in simp)
  obtain g2 where 2: "(if add' then rbind (connect_graph_nodes ops g1 (feature_node f) new) (\<lambda>(_, gr). Inr gr) else Inr g1) = Inr g2" "frame ops g1 g2"
    using connect_quiet [OF assms(1) f, where c = add' and q = new] by blast
  have fr: "frame ops gr g2" by (rule frame_trans [OF 1(2) 2(2)])
  have st: "connect_before ops new b add (f # fs) gr = connect_before ops new b add' fs g2"
    unfolding connect_before.simps 1(1) rbind_simps prod.case 2(1) ..
  have "\<exists>gr'. connect_before ops new b add' fs g2 = Inr gr' \<and> frame ops g2 gr'"
    by (rule Cons.IH) (use Cons(2,3) frame_registered [OF fr] in simp_all)
  then show ?case unfolding st using frame_trans [OF fr] by blast
qed (simp add: frame_refl)

lemma connect_after_total:
  assumes "graph_ok ops" and "registered ops gr new" and "\<forall>f \<in> set fs. registered ops gr (feature_node f)"
  shows "\<exists>gr'. connect_after ops new a add fs gr = Inr gr' \<and> frame ops gr gr'"
  using assms(2,3)
proof (induction fs arbitrary: add gr)
  case (Cons f fs)
  obtain g1 where 1: "(if add then rbind (connect_graph_nodes ops gr new (feature_node f)) (\<lambda>(_, gr). Inr gr) else Inr gr) = Inr g1" "frame ops gr g1"
    using connect_quiet [OF assms(1) Cons(2), where c = add and q = "feature_node f"] by blast
  have f: "registered ops g1 (feature_node f)" by (rule frame_registered [OF 1(2)]) (use Cons(3) in simp)
  obtain add' g2 where 2: "(if same_name ops (node_name (feature_node f)) a
      then rbind (connect_graph_nodes ops g1 (feature_node f) new) (\<lambda>(e, gr). Inr (if e \<noteq> None then True else add, gr))
      else Inr (add, g1)) = Inr (add', g2)" "frame ops g1 g2"
    using connect_flag [OF assms(1) f, where c = "same_name ops (node_name (feature_node f)) a" and q = new and x = add and y = True] by blast
  have fr: "frame ops gr g2" by (rule frame_trans [OF 1(2) 2(2)])
  have st: "connect_after ops new a add (f # fs) gr = connect_after ops new a add' fs g2"
    unfolding connect_after.simps 1(1) rbind_simps 2(1) prod.case ..
  have "\<exists>gr'. connect_after ops new a add' fs g2 = Inr gr' \<and> frame ops g2 gr'"
    by (rule Cons.IH) (use Cons(2,3) frame_registered [OF fr] in simp_all)
  then show ?case unfolding st using frame_trans [OF fr] by blast
qed (simp add: frame_refl)

lemma lookup_names:
  "rte_node_id_to_name ops gr' = rte_node_id_to_name ops gr \<Longrightarrow> feature_lookup ops gr' dfl nm = feature_lookup ops gr dfl nm"
proof -
  assume n: "rte_node_id_to_name ops gr' = rte_node_id_to_name ops gr"
  have "lookup_loop ops gr' a x k fs = lookup_loop ops gr a x k fs" for a x k fs by (induction fs arbitrary: k) (simp_all add: n)
  then show ?thesis by (cases nm) (simp_all add: feature_lookup_def)
qed

lemma lookup_absent:
  assumes "\<forall>f \<in> set fs. fi_arc f = a \<and> \<not> same_name ops (rte_node_id_to_name ops gr (node_id (feature_node f))) nm"
  shows "lookup_loop ops gr a nm n fs = Inr (Inr (n + length fs))"
  using assms by (induction fs arbitrary: n) simp_all

text \<open>The place the constraints name, as slots of the features there are.\<close>

definition placed :: "nat option \<Rightarrow> nat option \<Rightarrow> 'a \<Rightarrow> 'a list \<Rightarrow> 'a list" where
  "placed after before x xs =
     (case after of
        Some a \<Rightarrow> insert_at (Suc a) x xs
      | None \<Rightarrow> (case before of Some b \<Rightarrow> insert_at b x xs | None \<Rightarrow> xs @ [x]))"

lemma map_insert_at: "map f (insert_at n x xs) = insert_at n (f x) (map f xs)"
  by (simp add: insert_at_def take_map drop_map)

lemma constrained_places:
  assumes "graph_ok ops" and "arc_ok ops gr0 dfl" and "frame ops gr0 gr" and "registered ops gr0 node"
    and "\<forall>a. after = Some a \<longrightarrow> a < length (nodes dfl)" and "\<forall>b. before = Some b \<longrightarrow> b < length (nodes dfl)"
  shows "\<exists>gr'. add_constrained ops node (map_option (\<lambda>a. (pa, node_name (nodes dfl ! a))) after)
      (map_option (\<lambda>b. (pb, node_name (nodes dfl ! b))) before) new dfl gr =
    Inr (0, dfl\<lparr>all_features := placed after before new (all_features dfl)\<rparr>, gr')"
proof -
  have lk: "feature_lookup ops g dfl (Some (node_name (nodes dfl ! s))) = Inr (Inl s)" if "s < length (nodes dfl)" "frame ops gr0 g" for g s
    using that feature_lookup_at [OF assms(2), of s] lookup_names [of ops g gr0] by (simp add: nodes_def frame_def)
  have reg: "registered ops g node" "\<forall>f \<in> set (all_features dfl). registered ops g (feature_node f)" if "frame ops gr0 g" for g
    using frame_registered [OF that] assms(2,4) by (auto simp: arc_ok_def names_ok_def nodes_def)
  obtain g where b: "(case map_option (\<lambda>b. (pb, node_name (nodes dfl ! b))) before of
        None \<Rightarrow> Inr (Some None, gr)
      | Some (_, b) \<Rightarrow> rbind (feature_lookup ops gr dfl (Some b)) (\<lambda>l. case l of
            Inl s \<Rightarrow> rbind (connect_before ops node b True (all_features dfl) gr) (\<lambda>gr. Inr (Some (Some s), gr))
          | Inr _ \<Rightarrow> Inr (None, gr))) = Inr (Some before, g)"
    and fr: "frame ops gr0 g"
  proof (cases before)
    case None
    then show thesis using that [of gr] assms(3) by simp
  next
    case (Some b)
    obtain g where g: "connect_before ops node (node_name (nodes dfl ! b)) True (all_features dfl) gr = Inr g" "frame ops gr g"
      using connect_before_total [OF assms(1) reg [OF assms(3)]] by blast
    have "b < length (nodes dfl)" using assms(6) Some by simp
    then have "feature_lookup ops gr dfl (Some (node_name (nodes dfl ! b))) = Inr (Inl b)" by (rule lk [OF _ assms(3)])
    then show thesis by (intro that [of g] frame_trans [OF assms(3) g(2)]) (simp add: Some g(1))
  qed
  show ?thesis
  proof (cases after)
    case None
    then show ?thesis
      unfolding add_constrained_def b rbind_simps prod.case by (cases before) (simp_all add: placed_def)
  next
    case (Some a)
    obtain g' where g': "connect_after ops node (node_name (nodes dfl ! a)) False (all_features dfl) g = Inr g'"
      using connect_after_total [OF assms(1) reg [OF fr]] by blast
    have "a < length (nodes dfl)" using assms(5) Some by simp
    then have "feature_lookup ops g dfl (Some (node_name (nodes dfl ! a))) = Inr (Inl a)" by (rule lk [OF _ fr])
    then show ?thesis
      unfolding add_constrained_def b rbind_simps prod.case by (simp add: Some placed_def g')
  qed
qed

section \<open>The data of no feature\<close>

lemma invalid_feature_data:
  assumes "arc_ok ops gr dfl" and "i < max_indexes dfl"
  shows "dao_graph_feature_arc_feature_data_get dfl DAO_GRAPH_FEATURE_INVALID_VALUE i = Inl OutOfBounds"
proof -
  have "unat i < unat (max_indexes dfl)" using assms(2) by (simp add: word_less_nat_alt)
  then have "unat i < length (features_by_index dfl)" "length (feature_data (features_by_index dfl ! unat i)) = 64"
    using assms(1) by (auto simp: arc_ok_def chain_def slots_of_def)
  then show ?thesis
    by (simp add: dao_graph_feature_arc_feature_data_get_def dao_graph_feature_arc_first_feature_data_get_def dao_graph_feature_get_def
        dao_graph_feature_data_get_def DAO_GRAPH_FEATURE_INVALID_VALUE_def)
qed

section \<open>A concrete graph\<close>

definition set_bits :: "u64 \<Rightarrow> nat list" where
  "set_bits x = filter (bit x) [0..<64]"

lemma set_bits_nil: "set_bits x = [] \<longleftrightarrow> x = 0"
proof
  assume n: "set_bits x = []"
  then have "\<not> bit x k" for k using bit64 [of x k] by (auto simp: set_bits_def filter_empty_conv)
  then show "x = 0" by (simp add: bit_eq_iff)
qed (simp add: set_bits_def)

lemma set_bits_ends:
  assumes "x \<noteq> 0"
  shows "bit x (hd (set_bits x))" and "\<forall>k < hd (set_bits x). \<not> bit x k"
    and "bit x (last (set_bits x))" and "\<forall>k > last (set_bits x). \<not> bit x k"
proof -
  have n: "set_bits x \<noteq> []" using assms set_bits_nil by blast
  have st: "set (set_bits x) = {k. bit x k}" using bit64 by (auto simp: set_bits_def)
  have so: "sorted (set_bits x)" by (simp add: set_bits_def sorted_wrt_filter)
  show "bit x (hd (set_bits x))" "bit x (last (set_bits x))" using hd_in_set [OF n] last_in_set [OF n] st by auto
  show "\<forall>k < hd (set_bits x). \<not> bit x k"
  proof (intro allI impI notI)
    fix k
    assume k: "k < hd (set_bits x)" and "bit x k"
    then have "k \<in> set (set_bits x)" using st by simp
    then show False using k so n by (cases "set_bits x") auto
  qed
  show "\<forall>k > last (set_bits x). \<not> bit x k"
  proof (intro allI impI notI)
    fix k
    assume k: "k > last (set_bits x)" and "bit x k"
    then have m: "k \<in> set (set_bits x)" using st by simp
    have "sorted (butlast (set_bits x) @ [last (set_bits x)])" using so n by simp
    then have "\<forall>j \<in> set (butlast (set_bits x)). j \<le> last (set_bits x)" by (simp add: sorted_append)
    moreover have "set (set_bits x) = insert (last (set_bits x)) (set (butlast (set_bits x)))"
      using append_butlast_last_id [OF n] by (metis insert_is_Un list.set(1) list.simps(15) set_append sup_commute)
    ultimately show False using m k by auto
  qed
qed

definition three_nodes :: "rte_node list" where
  "three_nodes = [\<lparr>node_name = ''a'', node_id = 1\<rparr>, \<lparr>node_name = ''b'', node_id = 2\<rparr>, \<lparr>node_name = ''c'', node_id = 3\<rparr>]"

text \<open>A graph of the nodes 0 to 4 is given by the names of their edges.\<close>

definition three_graph :: "u32 \<Rightarrow> string list" where
  "three_graph j = (if j = 1 then [''b'', ''c''] else if j = 2 then [''c''] else [])"

definition three_ops :: "(u32 \<Rightarrow> string list) graph_ops" where
  "three_ops = \<lparr>rte_node_id_to_name = (\<lambda>_ j. if j = 1 then ''a'' else if j = 2 then ''b'' else if j = 3 then ''c'' else []),
     rte_node_edge_get = (\<lambda>gr j. if j \<le> 4 then Some (gr j) else None),
     rte_node_edge_update = (\<lambda>gr j _ nm. (1, gr(j := gr j @ [nm]))), rte_node_edge_count = (\<lambda>gr j. of_nat (length (gr j))),
     rte_fls_u64 = (\<lambda>x. if x = 0 then 0 else of_nat (Suc (last (set_bits x)))),
     rte_bsf64_safe = (\<lambda>x. if x = 0 then None else Some (of_nat (hd (set_bits x)))),
     rte_ctz64 = (\<lambda>x. of_nat (hd (set_bits x))),
     malloc_ok = (\<lambda>_. True), RTE_GRAPH_NAMESIZE = 64, RTE_NODE_NAMESIZE = 64,
     RTE_NODE_ID_INVALID = 4294967295, RTE_EDGE_ID_INVALID = 65535\<rparr>"

definition three_arc :: dao_graph_feature_arc where
  "three_arc = \<lparr>arc_addr = 100, all_features = map (\<lambda>n. \<lparr>feature_node = n, ref_count = 0, fi_arc = 100, fi_edge = ucast (node_id n - 1)\<rparr>) three_nodes,
     feature_arc_name = ''arc'', feature_arc_index = 0, feature_arc_main = 7, start_node = \<lparr>node_name = ''s'', node_id = 0\<rparr>,
     max_features = 3, max_indexes = 2, runtime_enabled_features = 0,
     features_by_index = replicate 2 \<lparr>num_enabled_features = 0, feature_data = replicate 64 \<lparr>fd_data = 0,
       feature_data_index = ucast DAO_GRAPH_FEATURE_INVALID_VALUE, edge_to_this_feature = 0, edge_to_next_feature = 0, node_info = None\<rparr>\<rparr>,
     feature_bit_mask_by_index = replicate 2 0\<rparr>"

definition three_main :: "dao_graph_feature_arc_main option" where
  "three_main = Some \<lparr>am_addr = 7, num_feature_arcs = 1, max_feature_arcs = 2, feature_arcs = [Some three_arc, None]\<rparr>"

lemma three_bits_ok: "bits_ok three_ops"
proof -
  have lo: "unat (of_nat (hd (set_bits x)) :: u32) = hd (set_bits x)" "hd (set_bits x) < 64" if "x \<noteq> 0" for x
    using bit64 [OF set_bits_ends(1) [OF that]] by (simp_all add: unat_of_nat)
  have hi: "unat (of_nat (Suc (last (set_bits x))) :: u32) = Suc (last (set_bits x))" "last (set_bits x) < 64" if "x \<noteq> 0" for x
    using bit64 [OF set_bits_ends(3) [OF that]] unfolding unat_of_nat by simp_all
  have "unat (rte_fls_u64 three_ops x) = Suc (last (set_bits x))" if "x \<noteq> 0" for x using hi [OF that] that by (simp only: three_ops_def graph_ops.simps if_False)
  moreover have "rte_bsf64_safe three_ops x = (if x = 0 then None else Some (of_nat (hd (set_bits x))))" for x by (simp add: three_ops_def)
  moreover have "rte_ctz64 three_ops x = of_nat (hd (set_bits x))" "rte_fls_u64 three_ops 0 = 0" for x by (simp_all add: three_ops_def)
  ultimately show ?thesis
    unfolding bits_ok_def using set_bits_ends lo hi by (simp add: Suc_le_eq less_Suc_eq_le)
qed

lemma three_nodes_arc: "nodes three_arc = three_nodes" "max_indexes three_arc = 2" "max_features three_arc = 3"
  by (simp_all add: nodes_def three_arc_def comp_def)

lemma three_arc_ok: "arc_ok three_ops three_graph three_arc"
proof -
  have "names_ok three_ops three_graph three_nodes"
    by (simp add: names_ok_def three_nodes_def three_ops_def same_name_def less_Suc_eq)
  moreover have "chain three_ops three_graph ns es 3 0 (replicate 64 \<lparr>fd_data = 0,
       feature_data_index = ucast DAO_GRAPH_FEATURE_INVALID_VALUE, edge_to_this_feature = 0, edge_to_next_feature = 0, node_info = None\<rparr>)" for ns es
    by (simp add: chain_def)
  ultimately show ?thesis
    unfolding arc_ok_def three_nodes_arc
    by (simp add: three_arc_def slots_of_def)
qed

lemma three_connected:
  assumes "a < b" and "b < 3"
  shows "\<exists>e. get_existing_edge three_ops three_graph (three_nodes ! a) (three_nodes ! b) = Inr (Some e)"
proof -
  have "(a = 0 \<and> b = 1) \<or> (a = 0 \<and> b = 2) \<or> (a = 1 \<and> b = 2)" using assms by linarith
  then show ?thesis by (elim disjE) (simp_all add: three_nodes_def three_ops_def three_graph_def get_existing_edge_def)
qed

lemma three_edges:
  assumes "\<And>k. bit m k \<Longrightarrow> k < 3" and "s < 3"
  shows "prev_edge three_ops three_graph three_nodes m s" and "next_edge three_ops three_graph three_nodes m s"
  using three_connected assms by (auto simp: prev_edge_def next_edge_def prev_bit_def next_bit_def)

lemma three_graph_ok: "graph_ok three_ops"
  by (simp add: graph_ok_def frame_def three_ops_def)

lemma three_handle: "arc_deref three_main 100 = Inr three_arc" "map_option am_addr three_main = Some (feature_arc_main three_arc)"
  by (simp_all add: three_main_def arc_deref_def arc_slot_def) (simp_all add: three_arc_def)

lemma three_all_enabled:
  obtains dfl where "arc_ok three_ops three_graph dfl" and "nodes dfl = three_nodes" and "max_indexes dfl = 2" and "max_features dfl = 3"
    and "feature_bit_mask_by_index dfl = [7, 0]"
proof -
  have l: "length three_nodes = 3" by (simp add: three_nodes_def)
  have f: "feature_bit_mask_by_index three_arc = [0, 0]" "num_enabled_features (features_by_index three_arc ! 0) = 0"
    by (simp_all add: three_arc_def replicate_two)
  have b: "k < 3" if "bit (0 :: u64) k \<or> bit (1 :: u64) k \<or> bit (3 :: u64) k" for k
    using that by (auto simp: bit_numeral_rec bit_1_iff split: nat.splits)
  have e: "prev_edge three_ops three_graph three_nodes m s" "next_edge three_ops three_graph three_nodes m s"
    if "s < 3" "m \<in> {0, 1, 3}" for m s using three_edges [of m s] b that by blast+
  obtain d1 where 1: "arc_ok three_ops three_graph d1" "moved 0 1 1 three_arc d1"
    by (rule enable_arc [OF three_bits_ok three_arc_ok, of 0 0 0]) (simp_all add: three_nodes_arc l f RTE_BIT64_def e)
  then have m1: "nodes d1 = three_nodes" "max_indexes d1 = 2" "max_features d1 = 3" "feature_bit_mask_by_index d1 = [1, 0]"
    "num_enabled_features (features_by_index d1 ! 0) = 1" by (simp_all add: moved_def three_nodes_arc f)
  obtain d2 where 2: "arc_ok three_ops three_graph d2" "moved 0 3 2 d1 d2"
    by (rule enable_arc [OF three_bits_ok 1(1), of 0 1 0]) (simp_all add: m1 e l RTE_BIT64_def)
  then have m2: "nodes d2 = three_nodes" "max_indexes d2 = 2" "max_features d2 = 3" "feature_bit_mask_by_index d2 = [3, 0]"
    "num_enabled_features (features_by_index d2 ! 0) = 2" by (simp_all add: moved_def m1)
  obtain d3 where 3: "arc_ok three_ops three_graph d3" "moved 0 7 3 d2 d3"
    by (rule enable_arc [OF three_bits_ok 2(1), of 0 2 0]) (simp_all add: m2 e l RTE_BIT64_def bit_numeral_rec)
  then show thesis by (intro that [of d3]) (simp_all add: moved_def m2)
qed

section \<open>Properties\<close>

text \<open>C3: Enabling, through the handle of a well formed arc, a feature that is not enabled on the interface and for which the count of the interface leaves
  room comes to a result that depends on two edges of the graph only: from the enabled feature before it and to the enabled feature behind it.  With both
  (or without such neighbours) it returns 0 and leaves a well formed arc with the bit of the feature set and its data stored.  Without the first it
  returns -1 and the arc stays well formed, with its masks.  With the first but not the second it returns -1 and keeps the masks too, but the feature
  before already leads to the one that was not enabled.  The data of the other interfaces is kept in all cases.\<close>

theorem enable_well_formed:
  assumes "bits_ok ops" and "arc_deref st h = Inr dfl" and "map_option am_addr st = Some (feature_arc_main dfl)"
    and "arc_ok ops gr dfl" and "i < max_indexes dfl"
    and "s < length (nodes dfl)" and "s < unat (max_features dfl)" and "\<not> bit (feature_bit_mask_by_index dfl ! unat i) s"
    and "num_enabled_features (features_by_index dfl ! unat i) < max_features dfl"
  shows "\<exists>rc st' dfl'. dao_graph_feature_enable ops gr h i (Some (node_name (nodes dfl ! s))) data st = Inr (rc, st') \<and>
    arc_deref st' h = Inr dfl' \<and> nodes dfl' = nodes dfl \<and> (\<forall>k. k \<noteq> unat i \<longrightarrow> features_by_index dfl' ! k = features_by_index dfl ! k) \<and>
    (if \<not> prev_edge ops gr (nodes dfl) (feature_bit_mask_by_index dfl ! unat i) s
     then rc = - 1 \<and> arc_ok ops gr dfl' \<and> feature_bit_mask_by_index dfl' = feature_bit_mask_by_index dfl
     else if \<not> next_edge ops gr (nodes dfl) (feature_bit_mask_by_index dfl ! unat i) s
     then rc = - 1 \<and> feature_bit_mask_by_index dfl' = feature_bit_mask_by_index dfl \<and>
       (\<forall>p. prev_bit (feature_bit_mask_by_index dfl ! unat i) s p \<longrightarrow>
         get_existing_edge ops gr (nodes dfl ! p) (nodes dfl ! s) = Inr (Some (edge_to_next_feature (slots_of dfl' (unat i) ! p))))
     else rc = 0 \<and> arc_ok ops gr dfl' \<and>
       feature_bit_mask_by_index dfl' = (feature_bit_mask_by_index dfl)[unat i := feature_bit_mask_by_index dfl ! unat i OR RTE_BIT64 s] \<and>
       fd_data (slots_of dfl' (unat i) ! s) = data)"
proof -
  let ?m = "feature_bit_mask_by_index dfl ! unat i"
  let ?en = "feature_enable ops gr (Some (feature_arc_main dfl)) i (Some (node_name (nodes dfl ! s))) data dfl"
  have s: "s < length (all_features dfl)" and ns: "nodes dfl ! s = feature_node (all_features dfl ! s)" using assms(6) by (simp_all add: nodes_def)
  have run: "dao_graph_feature_enable ops gr h i (Some (node_name (nodes dfl ! s))) data st = Inr (rc, arc_store st h d) \<and>
      arc_deref (arc_store st h d) h = Inr d" if "?en = Inr (rc, d)" "arc_addr d = arc_addr dfl" for rc d
  proof -
    have "arc_addr d = h" using that(2) arc_deref_addr [OF assms(2)] by simp
    then have "arc_deref (arc_store st h d) h = Inr d" by (rule arc_deref_store [OF assms(2)])
    then show ?thesis unfolding dao_graph_feature_enable_def assms(2,3) using that(1) by simp
  qed
  consider (a) "\<not> prev_edge ops gr (nodes dfl) ?m s" | (b) "prev_edge ops gr (nodes dfl) ?m s" "\<not> next_edge ops gr (nodes dfl) ?m s"
    | (c) "prev_edge ops gr (nodes dfl) ?m s" "next_edge ops gr (nodes dfl) ?m s" by blast
  then show ?thesis
  proof cases
    case a
    obtain d where d: "?en = Inr (- 1, d)" "only_slots (unat i) dfl d" "arc_ok ops gr d" "nodes d = nodes dfl"
      unfolding ns by (rule enable_no_prev [OF assms(1,4) a assms(5) s assms(7-9)])
    note o = only_slotsD [OF d(2)]
    show ?thesis unfolding if_P [OF a] using run [OF d(1) o(5)] d(3,4) o(4,9) by blast
  next
    case b
    obtain d where d: "?en = Inr (- 1, d)" "only_slots (unat i) dfl d" "nodes d = nodes dfl"
      "prev_linked ops gr (nodes dfl) ?m s (slots_of dfl (unat i)) (slots_of d (unat i))"
      unfolding ns by (rule enable_no_next [OF assms(1,4) b assms(5) s assms(7-9)])
    note o = only_slotsD [OF d(2)]
    have "\<forall>p. prev_bit ?m s p \<longrightarrow> get_existing_edge ops gr (nodes dfl ! p) (nodes dfl ! s) = Inr (Some (edge_to_next_feature (slots_of d (unat i) ! p)))"
      using d(4) unfolding prev_linked_def by blast
    then show ?thesis using b run [OF d(1) o(5)] d(3) o(4,9) by (intro exI [of _ "- 1"] exI [of _ "arc_store st h d"] exI [of _ d]) simp
  next
    case c
    obtain d where d: "?en = Inr (0, d)" "arc_ok ops gr d" "fd_data (slots_of d (unat i) ! s) = data"
      "moved (unat i) (?m OR RTE_BIT64 s) (num_enabled_features (features_by_index dfl ! unat i) + 1) dfl d"
      by (rule enable_arc [OF assms(1,4) c assms(5-9)])
    note m = d(4) [unfolded moved_def]
    show ?thesis using c run [of 0 d] d m by (intro exI [of _ 0] exI [of _ "arc_store st h d"] exI [of _ d]) simp
  qed
qed

theorem enable_well_formed_witness:
  "\<exists>st' dfl'. dao_graph_feature_enable three_ops three_graph 100 1 (Some ''b'') 9 three_main = Inr (0, st') \<and> arc_deref st' 100 = Inr dfl' \<and>
    arc_ok three_ops three_graph dfl' \<and> feature_bit_mask_by_index dfl' = [0, 2]"
proof -
  have n: "length three_nodes = 3" "node_name (three_nodes ! Suc 0) = ''b''" by (simp_all add: three_nodes_def)
  have f: "feature_bit_mask_by_index three_arc = [0, 0]" "num_enabled_features (features_by_index three_arc ! Suc 0) = 0"
    by (simp_all add: three_arc_def replicate_two)
  have e: "prev_edge three_ops three_graph three_nodes 0 (Suc 0)" "next_edge three_ops three_graph three_nodes 0 (Suc 0)"
    by (simp_all add: prev_edge_def next_edge_def prev_bit_def next_bit_def)
  show ?thesis
    using enable_well_formed [OF three_bits_ok three_handle three_arc_ok, of 1 1 9] by (simp add: n f e three_nodes_arc RTE_BIT64_def) blast
qed

text \<open>C6: On a well formed arc the fast path finds the enabled features of an interface in the order of their slots.  From the start node it finds the
  lowest one, with the edge from the start node and its data.  From an enabled feature it finds the next one \<open>n\<close>.  The edge between the two nodes is then
  what the data of the feature it comes from has, together with that feature's own data; the call with \<open>n\<close>, which the comments of the header ask for, gives
  the data of \<open>n\<close> but the edge out of \<open>n\<close>, to the feature behind it, or the invalid value 255 when \<open>n\<close> is the last.  Behind the last feature nothing is
  found, and in slot 63 the search shifts a word of 64 bits by 64.\<close>

theorem fast_path_walks:
  assumes "bits_ok ops" and "arc_ok ops gr dfl" and "i < max_indexes dfl" and "bit (feature_bit_mask_by_index dfl ! unat i) f"
  shows "((\<forall>k < f. \<not> bit (feature_bit_mask_by_index dfl ! unat i) k) \<longrightarrow>
      dao_graph_feature_arc_has_feature ops dfl i DAO_GRAPH_FEATURE_INVALID_VALUE = Inr (1, of_nat f) \<and>
      dao_graph_feature_arc_first_feature_data_get dfl (of_nat f) i = Inr (fi_edge (all_features dfl ! f), fd_data (slots_of dfl (unat i) ! f))) \<and>
    (\<forall>n. next_bit (feature_bit_mask_by_index dfl ! unat i) f n \<longrightarrow>
      dao_graph_feature_arc_has_feature ops dfl i (of_nat f) = Inr (1, of_nat n) \<and>
      (\<exists>e. dao_graph_feature_arc_feature_data_get dfl (of_nat f) i = Inr (e, fd_data (slots_of dfl (unat i) ! f)) \<and>
        get_existing_edge ops gr (nodes dfl ! f) (nodes dfl ! n) = Inr (Some e)) \<and>
      (\<exists>e. dao_graph_feature_arc_feature_data_get dfl (of_nat n) i = Inr (e, fd_data (slots_of dfl (unat i) ! n)) \<and>
        (\<forall>k. next_bit (feature_bit_mask_by_index dfl ! unat i) n k \<longrightarrow> get_existing_edge ops gr (nodes dfl ! n) (nodes dfl ! k) = Inr (Some e)) \<and>
        ((\<forall>k. \<not> next_bit (feature_bit_mask_by_index dfl ! unat i) n k) \<longrightarrow> e = ucast DAO_GRAPH_FEATURE_INVALID_VALUE))) \<and>
    ((\<forall>n. \<not> next_bit (feature_bit_mask_by_index dfl ! unat i) f n) \<longrightarrow>
      dao_graph_feature_arc_has_feature ops dfl i (of_nat f) = (if f = 63 then Inl BadShift else Inr (0, of_nat f)))"
proof -
  let ?m = "feature_bit_mask_by_index dfl ! unat i"
  have I: "unat i < unat (max_indexes dfl)" using assms(3) by (simp add: word_less_nat_alt)
  have l: "unat i < length (features_by_index dfl)" "unat i < length (feature_bit_mask_by_index dfl)" using assms(2) I by (simp_all add: arc_ok_def)
  have ch: "chain ops gr (nodes dfl) (map fi_edge (all_features dfl)) (unat (max_features dfl)) ?m (slots_of dfl (unat i))"
    using assms(2) I by (simp add: arc_ok_def)
  then have c: "length (slots_of dfl (unat i)) = 64" "f < length (nodes dfl)"
    "edge_to_this_feature (slots_of dfl (unat i) ! f) = map fi_edge (all_features dfl) ! f"
    using assms(4) by (simp_all add: chain_def)
  have nx: "get_existing_edge ops gr (nodes dfl ! a) (nodes dfl ! b) = Inr (Some (edge_to_next_feature (slots_of dfl (unat i) ! a)))"
    if "bit ?m a" "next_bit ?m a b" for a b using ch that by (simp add: chain_def)
  have la: "edge_to_next_feature (slots_of dfl (unat i) ! a) = ucast DAO_GRAPH_FEATURE_INVALID_VALUE"
    if "bit ?m a" "\<forall>b. \<not> next_bit ?m a b" for a using ch that by (simp add: chain_def)
  have dg: "dao_graph_feature_arc_feature_data_get dfl (of_nat a) i =
      Inr (edge_to_next_feature (slots_of dfl (unat i) ! a), fd_data (slots_of dfl (unat i) ! a))" if "bit ?m a" for a
    using slot_data(1) [OF l(1) c(1) bit64 [OF that]] u8_slot [OF bit64 [OF that]] by (simp add: dao_graph_feature_arc_feature_data_get_def)
  have fe: "edge_to_this_feature (slots_of dfl (unat i) ! f) = fi_edge (all_features dfl ! f)" using c(2,3) by (simp add: nodes_def)
  have first: "dao_graph_feature_arc_has_feature ops dfl i DAO_GRAPH_FEATURE_INVALID_VALUE = Inr (1, of_nat f)" if "\<forall>k < f. \<not> bit ?m k"
    using that by (intro has_first_ok [OF assms(1) l(2) assms(4)]) blast
  have last: "dao_graph_feature_arc_has_feature ops dfl i (of_nat f) = (if f = 63 then Inl BadShift else Inr (0, of_nat f))"
    if "\<forall>n. \<not> next_bit ?m f n"
    using that has_next_ok(2,3) [OF assms(1) l(2) assms(4)] bit64 [OF assms(4)] by (cases "f = 63") simp_all
  have nb: "bit ?m n" if "next_bit ?m f n" for n using that by (simp add: next_bit_def)
  show ?thesis
    using first last slot_data(2) [OF l(1) c(1) bit64 [OF assms(4)]] fe has_next_ok(1) [OF assms(1) l(2) assms(4)] dg nx la nb assms(4)
    by (intro conjI allI impI) (metis dg nx la nb assms(4))+
qed

theorem fast_path_walks_witness:
  "\<exists>dfl e. arc_ok three_ops three_graph dfl \<and> feature_bit_mask_by_index dfl = [7, 0] \<and>
    dao_graph_feature_arc_has_feature three_ops dfl 0 0 = Inr (1, 1) \<and>
    get_existing_edge three_ops three_graph (three_nodes ! 0) (three_nodes ! 1) = Inr (Some e)"
proof -
  obtain dfl where d: "arc_ok three_ops three_graph dfl" "nodes dfl = three_nodes" "max_indexes dfl = 2" "max_features dfl = 3"
    "feature_bit_mask_by_index dfl = [7, 0]" by (rule three_all_enabled)
  have n: "next_bit (feature_bit_mask_by_index dfl ! unat (0 :: u32)) 0 1" using d(5) by (auto simp: next_bit_def bit_numeral_rec)
  have b: "bit (feature_bit_mask_by_index dfl ! unat (0 :: u32)) 0" using d(5) by simp
  have "(0 :: u32) < max_indexes dfl" using d(3) by simp
  from fast_path_walks [OF three_bits_ok d(1) this b] n d(2)
  have "dao_graph_feature_arc_has_feature three_ops dfl 0 0 = Inr (1, 1)"
    and "\<exists>e. get_existing_edge three_ops three_graph (three_nodes ! 0) (three_nodes ! 1) = Inr (Some e)" by fastforce+
  then show ?thesis using d(1,5) by blast
qed

text \<open>C25: On a well formed arc a feature between two enabled ones cannot be disabled: the operation returns -1, since it compares the return code of the
  search for an edge with 9 instead of 0.  The masks still have its bit, but the feature in front of it no longer leads to it: its edge leads to the feature
  behind when the graph has such an edge, and is the invalid value 255 otherwise.\<close>

theorem disable_between_fails:
  assumes "bits_ok ops" and "arc_ok ops gr dfl" and "i < max_indexes dfl"
    and "s < length (nodes dfl)" and "bit (feature_bit_mask_by_index dfl ! unat i) s"
    and "prev_bit (feature_bit_mask_by_index dfl ! unat i) s p" and "next_bit (feature_bit_mask_by_index dfl ! unat i) s n"
  shows "\<exists>dfl' e. feature_disable ops gr (Some (feature_arc_main dfl)) i (Some (node_name (nodes dfl ! s))) dfl = Inr (- 1, dfl') \<and>
    feature_bit_mask_by_index dfl' = feature_bit_mask_by_index dfl \<and>
    get_existing_edge ops gr (nodes dfl ! p) (nodes dfl ! n) = Inr e \<and>
    edge_to_next_feature (slots_of dfl' (unat i) ! p) = (case e of None \<Rightarrow> ucast DAO_GRAPH_FEATURE_INVALID_VALUE | Some edge \<Rightarrow> edge)"
proof -
  have s: "s < length (all_features dfl)" and ns: "nodes dfl ! s = feature_node (all_features dfl ! s)" using assms(4) by (simp_all add: nodes_def)
  obtain dfl' e where
    "feature_disable ops gr (Some (feature_arc_main dfl)) i (Some (node_name (feature_node (all_features dfl ! s)))) dfl = Inr (- 1, dfl')"
    "feature_bit_mask_by_index dfl' = feature_bit_mask_by_index dfl"
    "get_existing_edge ops gr (nodes dfl ! p) (nodes dfl ! n) = Inr e"
    "edge_to_next_feature (slots_of dfl' (unat i) ! p) = (case e of None \<Rightarrow> ucast DAO_GRAPH_FEATURE_INVALID_VALUE | Some edge \<Rightarrow> edge)"
    by (rule disable_between [OF assms(1-3) s assms(5-7)])
  then show ?thesis unfolding ns by blast
qed

theorem disable_between_fails_witness:
  "\<exists>dfl dfl'. arc_ok three_ops three_graph dfl \<and> feature_bit_mask_by_index dfl = [7, 0] \<and>
    feature_disable three_ops three_graph (Some (feature_arc_main dfl)) 0 (Some ''b'') dfl = Inr (- 1, dfl') \<and> feature_bit_mask_by_index dfl' = [7, 0]"
proof -
  obtain dfl where d: "arc_ok three_ops three_graph dfl" "nodes dfl = three_nodes" "max_indexes dfl = 2" "max_features dfl = 3"
    "feature_bit_mask_by_index dfl = [7, 0]" by (rule three_all_enabled)
  have n: "length three_nodes = 3" "node_name (three_nodes ! 1) = ''b''" by (simp_all add: three_nodes_def)
  have "prev_bit 7 1 0" "next_bit 7 1 2" by (auto simp: prev_bit_def next_bit_def bit_numeral_rec)
  then show ?thesis
    using disable_between_fails [OF three_bits_ok d(1), of 0 1 0 2] d n by (simp add: bit_numeral_rec) blast
qed

text \<open>C26: The count of enabled features of an interface goes up when a feature is disabled too.  On an interface of a well formed arc on which no feature is
  enabled and whose count is below the number of features of the arc, enabling a feature and disabling it again both succeed and leave the masks as they were
  and the count two higher; and when the count has then reached the number of features of the arc no feature can be enabled on the interface any more,
  although none is.\<close>

theorem enable_disable_counts:
  assumes "bits_ok ops" and "arc_ok ops gr dfl" and "i < max_indexes dfl"
    and "s < length (nodes dfl)" and "s < unat (max_features dfl)" and "feature_bit_mask_by_index dfl ! unat i = 0"
    and "num_enabled_features (features_by_index dfl ! unat i) < max_features dfl"
  shows "\<exists>d1 d2. feature_enable ops gr (Some (feature_arc_main dfl)) i (Some (node_name (nodes dfl ! s))) data dfl = Inr (0, d1) \<and>
    feature_disable ops gr (Some (feature_arc_main dfl)) i (Some (node_name (nodes dfl ! s))) d1 = Inr (0, d2) \<and>
    feature_bit_mask_by_index d2 = feature_bit_mask_by_index dfl \<and>
    num_enabled_features (features_by_index d2 ! unat i) = num_enabled_features (features_by_index dfl ! unat i) + 2 \<and>
    (max_features dfl \<le> num_enabled_features (features_by_index d2 ! unat i) \<longrightarrow>
      (\<forall>t < length (nodes dfl). \<forall>x. feature_enable ops gr (Some (feature_arc_main dfl)) i (Some (node_name (nodes dfl ! t))) x d2 = Inr (- 1, d2)))"
proof -
  let ?n = "num_enabled_features (features_by_index dfl ! unat i)"
  have I: "unat i < length (feature_bit_mask_by_index dfl)" using assms(2,3) by (simp add: word_less_nat_alt arc_ok_def)
  have s: "s < 64" using assms(2,3,5) by (auto simp: arc_ok_def chain_def word_less_nat_alt)
  have b: "bit (RTE_BIT64 s) k \<longleftrightarrow> k = s" for k using bit_enable [OF s, of 0 k] by simp
  obtain d1 where d1: "feature_enable ops gr (Some (feature_arc_main dfl)) i (Some (node_name (nodes dfl ! s))) data dfl = Inr (0, d1)"
    "arc_ok ops gr d1" "moved (unat i) (RTE_BIT64 s) (?n + 1) dfl d1"
  proof (rule enable_arc [OF assms(1,2) _ _ assms(3-5) _ assms(7), of data])
    show "prev_edge ops gr (nodes dfl) (feature_bit_mask_by_index dfl ! unat i) s" "next_edge ops gr (nodes dfl) (feature_bit_mask_by_index dfl ! unat i) s"
      "\<not> bit (feature_bit_mask_by_index dfl ! unat i) s" by (simp_all add: assms(6) prev_edge_def next_edge_def prev_bit_def next_bit_def)
  qed (use that assms(6) in simp)
  have m1: "nodes d1 = nodes dfl" "feature_arc_main d1 = feature_arc_main dfl" "max_indexes d1 = max_indexes dfl" "max_features d1 = max_features dfl"
    "feature_bit_mask_by_index d1 ! unat i = RTE_BIT64 s" "feature_bit_mask_by_index d1 = (feature_bit_mask_by_index dfl)[unat i := RTE_BIT64 s]"
    "num_enabled_features (features_by_index d1 ! unat i) = ?n + 1"
    using d1(3) I by (simp_all add: moved_def)
  obtain d2 where d2: "feature_disable ops gr (Some (feature_arc_main dfl)) i (Some (node_name (nodes dfl ! s))) d1 = Inr (0, d2)"
    "arc_ok ops gr d2" "moved (unat i) 0 (?n + 2) d1 d2"
  proof (rule disable_arc [OF assms(1) d1(2), of i s])
    show "i < max_indexes d1" "s < length (nodes d1)" "bit (feature_bit_mask_by_index d1 ! unat i) s" using assms(3,4) m1 b by simp_all
    show "\<not> next_bit (feature_bit_mask_by_index d1 ! unat i) s n" if "prev_bit (feature_bit_mask_by_index d1 ! unat i) s p" for p n
      using m1(5) b by (simp add: next_bit_def)
  qed (use m1 that in \<open>simp add: add.assoc\<close>)
  have m2: "nodes d2 = nodes dfl" "feature_arc_main d2 = feature_arc_main dfl" "max_indexes d2 = max_indexes dfl" "max_features d2 = max_features dfl"
    "feature_bit_mask_by_index d2 = feature_bit_mask_by_index dfl" "num_enabled_features (features_by_index d2 ! unat i) = ?n + 2"
    using d2(3) m1 assms(6) by (simp_all add: moved_def) (metis list_update_id)
  have "feature_enable ops gr (Some (feature_arc_main dfl)) i (Some (node_name (nodes dfl ! t))) x d2 = Inr (- 1, d2)"
    if "max_features dfl \<le> ?n + 2" "t < length (nodes dfl)" for t x
    using enable_exhausted [OF _ d2(2), of i t x] that assms(3) m2 by simp
  then show ?thesis using d1(1) d2(1) m2(5,6) by auto
qed

theorem enable_disable_counts_witness:
  "\<exists>d1 d2. feature_enable three_ops three_graph (Some 7) 0 (Some ''a'') 5 three_arc = Inr (0, d1) \<and>
    feature_disable three_ops three_graph (Some 7) 0 (Some ''a'') d1 = Inr (0, d2) \<and> feature_bit_mask_by_index d2 = [0, 0] \<and>
    num_enabled_features (features_by_index d2 ! 0) = 2"
proof -
  have n: "three_nodes \<noteq> []" "node_name (three_nodes ! 0) = ''a''" by (simp_all add: three_nodes_def)
  have f: "feature_bit_mask_by_index three_arc = [0, 0]" "num_enabled_features (features_by_index three_arc ! 0) = 0" "feature_arc_main three_arc = 7"
    by (simp_all add: three_arc_def replicate_two)
  show ?thesis
    using enable_disable_counts [OF three_bits_ok three_arc_ok, of 0 0 5]
    by (simp add: n f three_nodes_arc) blast
qed

text \<open>C34: Adding, to a well formed arc on which nothing is enabled and which has room, a registered node with a new name that does not contain the name of
  the start node.  When the start node can be connected to it and the memory for it is there, the operation returns 0 and puts the feature directly behind
  the feature it shall follow; without such a constraint directly in front of the feature it shall precede; and without both at the end; with the edge from
  the start node.  Otherwise it returns -1 and leaves the arc as it was.  The constraints, when given, name features of the arc, by different pointers.\<close>

theorem add_places:
  assumes "graph_ok ops" and "arc_ok ops gr dfl" and "runtime_enabled_features dfl = 0" and "length (nodes dfl) < 64"
    and "node_id node \<noteq> RTE_NODE_ID_INVALID ops" and "registered ops gr node" and "registered ops gr (start_node dfl)"
    and "\<not> strstr (node_name node) (node_name (start_node dfl))"
    and "\<forall>f \<in> set (nodes dfl). \<not> same_name ops (node_name f) (node_name node)" and "pa \<noteq> pb"
    and "\<forall>a. after = Some a \<longrightarrow> a < length (nodes dfl)" and "\<forall>b. before = Some b \<longrightarrow> b < length (nodes dfl)"
  shows "\<exists>e gr1 gr'. connect_graph_nodes ops gr (start_node dfl) node = Inr (e, gr1) \<and>
    feature_add ops mem (Some node) (map_option (\<lambda>a. (pa, node_name (nodes dfl ! a))) after)
      (map_option (\<lambda>b. (pb, node_name (nodes dfl ! b))) before) dfl gr =
    Inr (case (mem, e) of
           (True, Some edge) \<Rightarrow> (0, dfl\<lparr>all_features := placed after before
             \<lparr>feature_node = node, ref_count = 0, fi_arc = arc_addr dfl, fi_edge = edge\<rparr> (all_features dfl)\<rparr>, gr')
         | _ \<Rightarrow> (- 1, dfl, gr'))"
proof -
  let ?after = "map_option (\<lambda>a. (pa, node_name (nodes dfl ! a))) after"
  let ?before = "map_option (\<lambda>b. (pb, node_name (nodes dfl ! b))) before"
  have "\<forall>f \<in> set (all_features dfl). fi_arc f = arc_addr dfl \<and>
      \<not> same_name ops (rte_node_id_to_name ops gr (node_id (feature_node f))) (node_name node)"
    using assms(2,9) by (simp add: arc_ok_def names_ok_def nodes_def)
  then have lk: "feature_lookup ops gr dfl (Some (node_name node)) = Inr (Inr (length (nodes dfl)))"
    using lookup_absent [of "all_features dfl" "arc_addr dfl" ops gr _ 0] by (simp add: feature_lookup_def nodes_def)
  obtain e g where e: "connect_graph_nodes ops gr (start_node dfl) node = Inr (e, g)" "frame ops gr g"
    by (rule connect_total [OF assms(1,7)])
  have cmp: "\<not> (?after \<noteq> None \<and> ?before \<noteq> None \<and> map_option fst ?after = map_option fst ?before)"
    using assms(10) by (cases after; cases before) simp_all
  have add: "feature_add ops mem (Some node) ?after ?before dfl gr = (case e of None \<Rightarrow> Inr (- 1, dfl, g)
      | Some edge \<Rightarrow> if \<not> mem then Inr (- 1, dfl, g) else
          add_constrained ops node ?after ?before \<lparr>feature_node = node, ref_count = 0, fi_arc = arc_addr dfl, fi_edge = edge\<rparr> dfl g)"
    unfolding feature_add_def if_not_P [OF cmp] using assms(3-5,8) lk e(1) by (simp add: DAO_GRAPH_FEATURE_MAX_PER_ARC_def)
  show ?thesis
  proof (cases "\<exists>edge. e = Some edge \<and> mem")
    case True
    then obtain edge where ed: "e = Some edge" "mem" by blast
    let ?new = "\<lparr>feature_node = node, ref_count = 0, fi_arc = arc_addr dfl, fi_edge = edge\<rparr>"
    obtain g' where "add_constrained ops node ?after ?before ?new dfl g =
        Inr (0, dfl\<lparr>all_features := placed after before ?new (all_features dfl)\<rparr>, g')"
      using constrained_places [OF assms(1,2) e(2) assms(6,11,12)] by blast
    then show ?thesis using e(1) add ed by simp
  next
    case False
    then show ?thesis using e(1) add by (cases e; cases mem) simp_all
  qed
qed

theorem add_places_witness:
  "\<exists>dfl' gr'. feature_add three_ops True (Some \<lparr>node_name = ''d'', node_id = 4\<rparr>) (Some (1, ''a'')) (Some (2, ''c'')) three_arc three_graph = Inr (0, dfl', gr') \<and>
    map node_name (nodes dfl') = [''a'', ''d'', ''b'', ''c'']"
proof -
  let ?d = "\<lparr>node_name = ''d'', node_id = 4 :: u32\<rparr>"
  have n: "three_nodes ! 0 = \<lparr>node_name = ''a'', node_id = 1\<rparr>" "three_nodes ! 2 = \<lparr>node_name = ''c'', node_id = 3\<rparr>" "length three_nodes = 3"
    by (simp_all add: three_nodes_def)
  have o: "RTE_NODE_ID_INVALID three_ops = 4294967295" "\<forall>f \<in> set three_nodes. \<not> same_name three_ops (node_name f) ''d''"
    "registered three_ops three_graph ?d" "registered three_ops three_graph (start_node three_arc)"
    by (simp_all add: three_ops_def three_nodes_def same_name_def three_arc_def)
  have a: "runtime_enabled_features three_arc = 0" "node_name (start_node three_arc) = ''s''" by (simp_all add: three_arc_def)
  obtain edge gr1 where c: "connect_graph_nodes three_ops three_graph (start_node three_arc) ?d = Inr (Some edge, gr1)"
    by (simp add: connect_graph_nodes_def get_existing_edge_def three_ops_def three_graph_def three_arc_def)
  have p: "map node_name (nodes (three_arc\<lparr>all_features := placed (Some 0) (Some 2) \<lparr>feature_node = ?d, ref_count = 0, fi_arc = x, fi_edge = edge\<rparr>
      (all_features three_arc)\<rparr>)) = [''a'', ''d'', ''b'', ''c'']" for x
    by (simp add: placed_def insert_at_def nodes_def three_arc_def three_nodes_def)
  show ?thesis
    using add_places [OF three_graph_ok three_arc_ok a(1), of ?d 1 2 "Some 0" "Some 2" True]
    unfolding three_nodes_arc c using o a(2) n p by fastforce
qed

end
