(* ===== verification/Net_Queue.thy ===== *)
theory Net_Queue
  imports Virtio_Dev
begin

text \<open>
  The descriptor management of the virtio net device, run by a service core: \<^verbatim>\<open>lib/virtio_net/virtio_net_priv.h\<close> and
  \<^verbatim>\<open>virtio_net_desc_manage\<close> of \<^verbatim>\<open>virtio_netdev.c\<close>.  The service core copies the descriptors the host made available into a
  shadow ring and copies the used ones back, both with the DMA helper of \<open>Dma\<close>.

  The offsets of a queue that a completion of the DMA stores to are 16-bit cells; the record of a queue has their addresses.
  Descriptors and the words the host writes are in byte addressed memory.  Pointers to packet buffers are words; the buffer pools,
  and the callbacks of the application that provide external buffers, are parameters.
\<close>

section \<open>Data\<close>

record virtio_net_queue =
  nq_desc_base :: u64
  nq_notify_addr :: u64
  nq_data_off :: u16
  nq_buf_len :: u16
  nq_q_sz :: u16
  nq_dma_vchan :: u16
  nq_netdev_id :: u16
  nq_virtio_hdr_sz :: u8
  nq_auto_free :: bool
  nq_qid :: u16
  nq_pend_sd_mbuf_idx :: u16
  nq_pend_sd_desc_idx :: u16
  nq_pend_compl_idx :: u16
  nq_pend_compl :: bool
  nq_compl_off :: u16
  nq_cb_notify_addr :: u64
  nq_cb_intr_addr :: "u64 option"
  nq_mp :: u64
  nq_buf_arr :: "u64 list"
  nq_driver_area :: u64
  nq_sd_driver_area :: u64
  nq_sd_desc_base :: u64
  nq_sd_desc_off :: u64
  nq_pend_sd_desc :: u64
  nq_sd_mbuf_off :: u64
  nq_pend_sd_mbuf :: u64
  nq_last_off :: u64

text \<open>The calls that fill slots of an array return the slots as they are after the call.\<close>

record 'x buf_ops =
  extbuf_get :: "u16 \<Rightarrow> nat \<Rightarrow> 'x \<Rightarrow> int \<times> u64 list \<times> 'x"
  extbuf_put :: "u16 \<Rightarrow> u64 list \<Rightarrow> 'x \<Rightarrow> 'x"
  mempool_get_bulk :: "u64 \<Rightarrow> nat \<Rightarrow> 'x \<Rightarrow> int \<times> u64 list \<times> 'x"
  mempool_put_bulk :: "u64 \<Rightarrow> u64 list \<Rightarrow> 'x \<Rightarrow> 'x"
  pktmbuf_free_bulk :: "u64 list \<Rightarrow> 'x \<Rightarrow> 'x"
  mbuf_pool :: "'x \<Rightarrow> u64 \<Rightarrow> u64"

definition VIRTIO_NET_DESC_MANAGE_NOINORDER :: u16 where "VIRTIO_NET_DESC_MANAGE_NOINORDER = 1"
definition VIRTIO_NET_DESC_MANAGE_MSEG :: u16 where "VIRTIO_NET_DESC_MANAGE_MSEG = 2"
definition VIRTIO_NET_DESC_MANAGE_EXTBUF :: u16 where "VIRTIO_NET_DESC_MANAGE_EXTBUF = 4"

definition VIRT_PACKED_RING_DESC_F_AVAIL :: u64 where "VIRT_PACKED_RING_DESC_F_AVAIL = push_bit 48 (push_bit 7 1)"
definition VIRT_PACKED_RING_DESC_F_USED :: u64 where "VIRT_PACKED_RING_DESC_F_USED = push_bit 48 (push_bit 15 1)"

section \<open>Buffers of a part of the ring\<close>

text \<open>The slots \<open>off\<close>, \<open>off + 1\<close>, ... of the array of buffers.\<close>

definition slots_at :: "u64 list \<Rightarrow> nat \<Rightarrow> nat \<Rightarrow> fault + u64 list" where
  "slots_at arr off n = (if off + n \<le> length arr then Inr (take n (drop off arr)) else Inl OutOfBounds)"

definition put_slots :: "'a list \<Rightarrow> nat \<Rightarrow> 'a list \<Rightarrow> 'a list" where
  "put_slots arr off bs = take off arr @ bs @ drop (off + length bs) arr"

text \<open>The number of slots until the end of the ring, and the offset behind them.\<close>

definition first_run :: "u16 \<Rightarrow> u16 \<Rightarrow> u16 \<Rightarrow> u16" where
  "first_run off qn num = (if unat off + unat num > unat qn then qn - off else num)"

definition second_off :: "u16 \<Rightarrow> u16 \<Rightarrow> u16 \<Rightarrow> u16" where
  "second_off off qn num = (off + first_run off qn num) AND (qn - 1)"

text \<open>Two calls, the second one only when the slots pass the end of the ring.  \<open>get\<close> returns whether it was successful.\<close>

definition alloc_bufs ::
  "(nat \<Rightarrow> 'x \<Rightarrow> bool \<times> u64 list \<times> 'x) \<Rightarrow> u64 list \<Rightarrow> u16 \<Rightarrow> u16 \<Rightarrow> u16 \<Rightarrow> 'x \<Rightarrow> fault + u16 \<times> u64 list \<times> 'x" where
  "alloc_bufs get arr off qn num x =
     (let cnt = first_run off qn num
      in rbind (slots_at arr (unat off) (unat cnt)) (\<lambda>_.
         case get (unat cnt) x of (ok, bs, x1) \<Rightarrow>
           let arr1 = put_slots arr (unat off) bs
           in if \<not> ok then Inr (0, arr1, x1)
              else
                let off2 = second_off off qn num;
                    cnt2 = num - cnt
                in if cnt2 = 0 then Inr (num, arr1, x1)
                   else rbind (slots_at arr1 (unat off2) (unat cnt2)) (\<lambda>_.
                        case get (unat cnt2) x1 of (ok2, bs2, x2) \<Rightarrow>
                          Inr (if ok2 then num else num - cnt2, put_slots arr1 (unat off2) bs2, x2))))"

definition alloc_extbufs :: "'x buf_ops \<Rightarrow> virtio_net_queue \<Rightarrow> u16 \<Rightarrow> u16 \<Rightarrow> u16 \<Rightarrow> 'x \<Rightarrow> fault + u16 \<times> u64 list \<times> 'x" where
  "alloc_extbufs bo q off qn num x =
     alloc_bufs (\<lambda>n x. case extbuf_get bo (ucast (ucast (nq_netdev_id q) :: u8)) n x of (rc, bs, x) \<Rightarrow> (\<not> rc < 0, bs, x))
       (nq_buf_arr q) off qn num x"

definition alloc_mbufs :: "'x buf_ops \<Rightarrow> u64 list \<Rightarrow> u64 \<Rightarrow> u16 \<Rightarrow> u16 \<Rightarrow> u16 \<Rightarrow> 'x \<Rightarrow> fault + u16 \<times> u64 list \<times> 'x" where
  "alloc_mbufs bo arr mp off qn nb x =
     alloc_bufs (\<lambda>n x. case mempool_get_bulk bo mp n x of (rc, bs, x) \<Rightarrow> (rc = 0, bs, x)) arr off qn nb x"

definition free_bufs :: "(u64 list \<Rightarrow> 'x \<Rightarrow> 'x) \<Rightarrow> u64 list \<Rightarrow> u16 \<Rightarrow> u16 \<Rightarrow> u16 \<Rightarrow> 'x \<Rightarrow> fault + 'x" where
  "free_bufs put arr off qn num x =
     (let cnt = first_run off qn num
      in rbind (slots_at arr (unat off) (unat cnt)) (\<lambda>bs.
         let x1 = put bs x;
             off2 = second_off off qn num;
             cnt2 = num - cnt
         in if cnt2 = 0 then Inr x1
            else rbind (slots_at arr (unat off2) (unat cnt2)) (\<lambda>bs2. Inr (put bs2 x1))))"

definition free_extbufs :: "'x buf_ops \<Rightarrow> virtio_net_queue \<Rightarrow> u16 \<Rightarrow> u16 \<Rightarrow> u16 \<Rightarrow> 'x \<Rightarrow> fault + 'x" where
  "free_extbufs bo q off qn num x = free_bufs (extbuf_put bo (ucast (ucast (nq_netdev_id q) :: u8))) (nq_buf_arr q) off qn num x"

text \<open>The buffers are returned in groups of four, until a group has an empty slot; the rest is freed as a bulk.\<close>

fun mseg_groups :: "'x buf_ops \<Rightarrow> u64 \<Rightarrow> u64 list \<Rightarrow> 'x \<Rightarrow> 'x" where
  "mseg_groups bo mp (a # b # c # d # bs) x =
     (if a = 0 \<or> b = 0 \<or> c = 0 \<or> d = 0 then pktmbuf_free_bulk bo (a # b # c # d # bs) x
      else mseg_groups bo mp bs (mempool_put_bulk bo mp [a, b, c, d] x))"
| "mseg_groups bo mp bs x = pktmbuf_free_bulk bo bs x"

text \<open>The pool of the buffer in the first slot, which must not be empty.\<close>

definition first_pool :: "'x buf_ops \<Rightarrow> u64 list \<Rightarrow> u16 \<Rightarrow> 'x \<Rightarrow> fault + u64" where
  "first_pool bo arr off x =
     (if length arr \<le> unat off then Inl OutOfBounds
      else if arr ! unat off = 0 then Inl WildPointer
      else Inr (mbuf_pool bo x (arr ! unat off)))"

definition free_mseg_mbufs :: "'x buf_ops \<Rightarrow> u64 list \<Rightarrow> u16 \<Rightarrow> u16 \<Rightarrow> u16 \<Rightarrow> 'x \<Rightarrow> fault + 'x" where
  "free_mseg_mbufs bo arr off qn nb x = rbind (first_pool bo arr off x) (\<lambda>mp. free_bufs (mseg_groups bo mp) arr off qn nb x)"

definition free_mbufs :: "'x buf_ops \<Rightarrow> u64 list \<Rightarrow> u16 \<Rightarrow> u16 \<Rightarrow> u16 \<Rightarrow> u16 \<Rightarrow> 'x \<Rightarrow> fault + 'x" where
  "free_mbufs bo arr off qn nb flags x =
     (if flags AND VIRTIO_NET_DESC_MANAGE_MSEG \<noteq> 0 then free_mseg_mbufs bo arr off qn nb x
      else rbind (first_pool bo arr off x) (\<lambda>mp. free_bufs (mempool_put_bulk bo mp) arr off qn nb x))"

section \<open>Fetching descriptors\<close>

text \<open>The offset the host notified, with the wrap bit.\<close>

definition notified :: "memory \<Rightarrow> virtio_net_queue \<Rightarrow> u16" where
  "notified m q = ucast (drop_bit 16 (load32 m (nq_notify_addr q)))"

text \<open>The loop that fills the \<open>j\<close>-th and following entries behind the pointers the channel already holds.  The numbers are of type
  \<^verbatim>\<open>int\<close>.\<close>

function fetch_loop ::
  "virtio_net_queue \<Rightarrow> vchan_state \<Rightarrow> u16 \<Rightarrow> int \<Rightarrow> nat \<Rightarrow> int \<Rightarrow> fault + vchan_state \<times> nat \<times> int" where
  "fetch_loop q v off nb j count =
     (let i = (if uint off + nb > uint (nq_q_sz q) then uint (nq_q_sz q) - uint off else nb);
          l = word_of_int (i * 16);
          s = \<lparr>addr = DESC_PTR_OFF (nq_desc_base q) off 0, len = l\<rparr>;
          d = \<lparr>addr = DESC_PTR_OFF (nq_sd_desc_base q) off 0, len = l\<rparr>
      in if length (src v) \<le> unat (src_i v) + j \<or> length (dst v) \<le> unat (dst_i v) + j then Inl OutOfBounds
         else
           let v1 = v\<lparr>src := (src v)[unat (src_i v) + j := s], dst := (dst v)[unat (dst_i v) + j := d]\<rparr>
           in if nb - i = 0 then Inr (v1, j + 1, count + i)
              else fetch_loop q v1 ((off + word_of_int i) AND (nq_q_sz q - 1)) (nb - i) (j + 1) (count + i))"
  by pat_completeness auto
termination
  by (relation "measure (\<lambda>(q, v, off, nb, j, count). length (src v) - (unat (src_i v) + j))") auto

declare fetch_loop.simps [simp del]

text \<open>The common part of the two operations from the loop on: the entries, the number of pending descriptors, and what a completion shall
  store.\<close>

definition fetch_commit ::
  "virtio_net_queue \<Rightarrow> vchan_state \<Rightarrow> u16 \<Rightarrow> int \<Rightarrow> cells \<Rightarrow> fault + nat \<times> vchan_state \<times> cells" where
  "fetch_commit q v off nb c =
     rbind (fetch_loop q v off nb 0 0) (\<lambda>(v1, j, count).
       let pend = c (nq_pend_sd_desc q);
           sd_val = desc_off_add (c (nq_sd_desc_off q)) (word_of_int count + pend) (nq_q_sz q);
           c1 = c(nq_pend_sd_desc q := pend + word_of_int count)
       in rbind (dao_dma_update_cmpl_meta v1 (nq_sd_desc_off q) sd_val (nq_pend_sd_desc q) (word_of_int count) (tail v1)) (\<lambda>v2.
          Inr (j, v2, c1)))"

definition desc_pending :: "virtio_net_queue \<Rightarrow> u16 \<Rightarrow> cells \<Rightarrow> int" where
  "desc_pending q next c =
     uint (desc_off_diff next (c (nq_sd_desc_off q)) (nq_q_sz q)) - uint (c (nq_pend_sd_desc q))"

definition fetch_off :: "virtio_net_queue \<Rightarrow> cells \<Rightarrow> u16" where
  "fetch_off q c = ucast (DESC_OFF (desc_off_add (c (nq_sd_desc_off q)) (c (nq_pend_sd_desc q)) (nq_q_sz q)))"

definition fetch_enq_desc_prep ::
  "virtio_net_queue \<Rightarrow> vchan_state \<Rightarrow> memory \<Rightarrow> cells \<Rightarrow> fault + nat \<times> virtio_net_queue \<times> vchan_state \<times> cells" where
  "fetch_enq_desc_prep q v m c =
     (let next = notified m q;
          nb = desc_pending q next c
      in if next = c (nq_sd_desc_off q) then Inr (0, q, v, c)
         else if nb = 0 then Inr (0, q, v, c)
         else rbind (fetch_commit q v (fetch_off q c) nb c) (\<lambda>(j, v1, c1).
              Inr (j, q\<lparr>nq_pend_sd_desc_idx := tail v\<rparr>, v1, c1)))"

definition fetch_deq_desc_prep ::
  "'x buf_ops \<Rightarrow> virtio_net_queue \<Rightarrow> vchan_state \<Rightarrow> u16 \<Rightarrow> memory \<Rightarrow> cells \<Rightarrow> 'x \<Rightarrow>
    fault + nat \<times> virtio_net_queue \<times> vchan_state \<times> cells \<times> 'x" where
  "fetch_deq_desc_prep bo q v flags m c x =
     (let next = notified m q;
          nb = desc_pending q next c
      in if next = c (nq_sd_desc_off q) then Inr (0, q, v, c, x)
         else if nb = 0 then Inr (0, q, v, c, x)
         else
           let off = fetch_off q c
           in rbind (if flags AND VIRTIO_NET_DESC_MANAGE_EXTBUF \<noteq> 0
                     then alloc_extbufs bo q off (nq_q_sz q) (word_of_int nb) x
                     else alloc_mbufs bo (nq_buf_arr q) (nq_mp q) off (nq_q_sz q) (word_of_int nb) x) (\<lambda>(n, arr, x1).
              let q1 = q\<lparr>nq_buf_arr := arr\<rparr>
              in if n = 0 then Inr (0, q1, v, c, x1)
                 else rbind (fetch_commit q1 v off (uint n) c) (\<lambda>(j, v1, c1). Inr (j, q1, v1, c1, x1))))"

section \<open>Marking descriptors as used\<close>

text \<open>The DMA of the descriptors from \<open>start\<close> to \<open>stop\<close> of the shadow ring back to the ring of the host.\<close>

definition copy_back :: "virtio_net_queue \<Rightarrow> vchan_state \<Rightarrow> u16 \<Rightarrow> u16 \<Rightarrow> fault + vchan_state" where
  "copy_back q v start n =
     (let off = ucast (DESC_OFF start) :: u16;
          l = ucast (DESC_ENTRY_SZ * ucast n) :: u32
      in dao_dma_enq_x1 v \<lparr>addr = DESC_PTR_OFF (nq_sd_desc_base q) off 0, len = l\<rparr>
           \<lparr>addr = DESC_PTR_OFF (nq_desc_base q) off 0, len = l\<rparr>)"

definition copy_back_range :: "virtio_net_queue \<Rightarrow> vchan_state \<Rightarrow> u16 \<Rightarrow> u16 \<Rightarrow> fault + vchan_state" where
  "copy_back_range q v start stop =
     (let pend = desc_off_diff_no_wrap stop start (nq_q_sz q)
      in rbind (copy_back q v start pend) (\<lambda>v1.
         let start2 = desc_off_add start pend (nq_q_sz q);
             pend2 = stop - start2
         in if pend2 \<noteq> 0 then copy_back q v1 start2 pend2 else Inr v1))"

definition mark_deq_compl_no_inorder :: "virtio_net_queue \<Rightarrow> vchan_state \<Rightarrow> u16 \<Rightarrow> u16 \<Rightarrow> fault + vchan_state" where
  "mark_deq_compl_no_inorder q v start nb_desc = copy_back_range q v start (desc_off_add start nb_desc (nq_q_sz q))"

definition mark_deq_compl ::
  "virtio_net_queue \<Rightarrow> vchan_state \<Rightarrow> u16 \<Rightarrow> u16 \<Rightarrow> u16 \<Rightarrow> memory \<Rightarrow> fault + vchan_state \<times> memory" where
  "mark_deq_compl q v start nb_desc flags m =
     (if flags AND VIRTIO_NET_DESC_MANAGE_NOINORDER \<noteq> 0
      then rbind (mark_deq_compl_no_inorder q v start nb_desc) (\<lambda>v1. Inr (v1, m))
      else
        let stop = desc_off_add start (nb_desc - 1) (nq_q_sz q);
            last_id = drop_bit 32 (load64 m (DESC_PTR_OFF (nq_sd_desc_base q) stop 8)) AND 0xFFFF;
            sa = DESC_PTR_OFF (nq_sd_desc_base q) start 8;
            first = load64 m sa AND NOT 0xFFFF00000000;
            used = drop_bit 55 first AND 1;
            first = first AND NOT (RTE_BIT64 63);
            m1 = store64 m sa (first OR push_bit 63 used OR push_bit 32 last_id)
        in rbind (dao_dma_enq_x1 v \<lparr>addr = sa, len = 8\<rparr> \<lparr>addr = DESC_PTR_OFF (nq_desc_base q) start 8, len = 8\<rparr>) (\<lambda>v1.
           Inr (v1, m1)))"

definition mark_enq_compl ::
  "'x buf_ops \<Rightarrow> virtio_net_queue \<Rightarrow> vchan_state \<Rightarrow> u16 \<Rightarrow> u16 \<Rightarrow> u16 \<Rightarrow> 'x \<Rightarrow> fault + vchan_state \<times> 'x" where
  "mark_enq_compl bo q v start stop flags x =
     rbind (if \<not> nq_auto_free q then
              (if flags AND VIRTIO_NET_DESC_MANAGE_EXTBUF \<noteq> 0
               then free_extbufs bo q (ucast (DESC_OFF start)) (nq_q_sz q) (desc_off_diff stop start (nq_q_sz q)) x
               else free_mbufs bo (nq_buf_arr q) (ucast (DESC_OFF start)) (nq_q_sz q) (desc_off_diff stop start (nq_q_sz q)) flags x)
            else Inr x) (\<lambda>x1.
     rbind (copy_back_range q v start stop) (\<lambda>v1. Inr (v1, x1)))"

section \<open>The service core\<close>

record ('x, 'd) svc =
  sv_dev2mem :: vchan_state
  sv_mem2dev :: vchan_state
  sv_cells :: cells
  sv_mem :: memory
  sv_qs :: "virtio_net_queue option list"
  sv_x :: 'x
  sv_d :: 'd

definition svc_queue :: "('x, 'd) svc \<Rightarrow> nat \<Rightarrow> fault + virtio_net_queue" where
  "svc_queue s i =
     (if length (sv_qs s) \<le> i then Inl OutOfBounds
      else case sv_qs s ! i of None \<Rightarrow> Inl WildPointer | Some q \<Rightarrow> Inr q)"

definition svc_flush_d2m :: "'d dma_ops \<Rightarrow> ('x, 'd) svc \<Rightarrow> u8 \<Rightarrow> bool \<times> ('x, 'd) svc" where
  "svc_flush_d2m ops s n =
     (case dao_dma_flush ops (sv_dev2mem s) n (sv_d s) of (ok, v, d) \<Rightarrow> (ok, s\<lparr>sv_dev2mem := v, sv_d := d\<rparr>))"

definition svc_flush_m2d :: "'d dma_ops \<Rightarrow> ('x, 'd) svc \<Rightarrow> u8 \<Rightarrow> bool \<times> ('x, 'd) svc" where
  "svc_flush_m2d ops s n =
     (case dao_dma_flush ops (sv_mem2dev s) n (sv_d s) of (ok, v, d) \<Rightarrow> (ok, s\<lparr>sv_mem2dev := v, sv_d := d\<rparr>))"

text \<open>The pointers that were filled in are counted by the caller.\<close>

definition bump :: "vchan_state \<Rightarrow> nat \<Rightarrow> vchan_state" where
  "bump v j = v\<lparr>src_i := src_i v + of_nat j, dst_i := dst_i v + of_nat j\<rparr>"

definition fetch_rx_queue :: "'x buf_ops \<Rightarrow> nat \<Rightarrow> ('x, 'd) svc \<Rightarrow> fault + ('x, 'd) svc" where
  "fetch_rx_queue bo i s =
     rbind (svc_queue s (i * 2)) (\<lambda>q.
     rbind (fetch_enq_desc_prep q (sv_dev2mem s) (sv_mem s) (sv_cells s)) (\<lambda>(j, q1, v, c).
       Inr (s\<lparr>sv_dev2mem := bump v j, sv_cells := c, sv_qs := (sv_qs s)[i * 2 := Some q1]\<rparr>)))"

definition fetch_tx_queue :: "'x buf_ops \<Rightarrow> u16 \<Rightarrow> nat \<Rightarrow> ('x, 'd) svc \<Rightarrow> fault + ('x, 'd) svc" where
  "fetch_tx_queue bo flags i s =
     rbind (svc_queue s (i * 2 + 1)) (\<lambda>q.
     rbind (fetch_deq_desc_prep bo q (sv_dev2mem s) flags (sv_mem s) (sv_cells s) (sv_x s)) (\<lambda>(j, q1, v, c, x).
       Inr (s\<lparr>sv_dev2mem := bump v j, sv_cells := c, sv_qs := (sv_qs s)[i * 2 + 1 := Some q1], sv_x := x\<rparr>)))"

text \<open>The loops over the queue pairs leave as soon as the channel cannot be flushed.\<close>

fun fetch_pairs :: "'d dma_ops \<Rightarrow> 'x buf_ops \<Rightarrow> u16 \<Rightarrow> nat list \<Rightarrow> ('x, 'd) svc \<Rightarrow> fault + ('x, 'd) svc" where
  "fetch_pairs ops bo flags [] s = Inr s"
| "fetch_pairs ops bo flags (i # is) s =
     (case svc_flush_d2m ops s (of_nat DAO_DMA_MAX_POINTER) of (ok, s1) \<Rightarrow>
        if \<not> ok then Inr s1
        else rbind (fetch_rx_queue bo i s1) (\<lambda>s2.
          case svc_flush_d2m ops s2 (of_nat DAO_DMA_MAX_POINTER) of (ok, s3) \<Rightarrow>
            if \<not> ok then Inr s3
            else rbind (fetch_tx_queue bo flags i s3) (\<lambda>s4. fetch_pairs ops bo flags is s4)))"

fun mark_tx_pairs :: "'d dma_ops \<Rightarrow> u16 \<Rightarrow> nat list \<Rightarrow> ('x, 'd) svc \<Rightarrow> fault + ('x, 'd) svc" where
  "mark_tx_pairs ops flags [] s = Inr s"
| "mark_tx_pairs ops flags (i # is) s =
     rbind (svc_queue s (i * 2 + 1)) (\<lambda>q.
       let off = sv_cells s (nq_last_off q)
       in if nq_compl_off q = off then mark_tx_pairs ops flags is s
          else case svc_flush_m2d ops s 1 of (ok, s1) \<Rightarrow>
            if \<not> ok then Inr s1
            else rbind (mark_deq_compl q (sv_mem2dev s1) (nq_compl_off q) (desc_off_diff off (nq_compl_off q) (nq_q_sz q)) flags (sv_mem s1)) (\<lambda>(v, m).
              mark_tx_pairs ops flags is
                (s1\<lparr>sv_mem2dev := v, sv_mem := m, sv_qs := (sv_qs s1)[i * 2 + 1 := Some (q\<lparr>nq_compl_off := off\<rparr>)]\<rparr>)))"

text \<open>The interrupt of a receive queue: the notification word of the queue and the interrupt register of the device.\<close>

definition raise_interrupt :: "virtio_net_queue \<Rightarrow> vchan_state \<Rightarrow> memory \<Rightarrow> virtio_net_queue \<times> memory" where
  "raise_interrupt q v m =
     (case nq_cb_intr_addr q of
        None \<Rightarrow> (q, m)
      | Some a \<Rightarrow>
          if nq_pend_compl q \<and> dao_dma_op_status v (nq_pend_compl_idx q)
          then (q\<lparr>nq_pend_compl := False\<rparr>, store64 (store32 m (nq_cb_notify_addr q) 1) a (push_bit 59 1))
          else (q, m))"

fun mark_rx_pairs :: "'d dma_ops \<Rightarrow> 'x buf_ops \<Rightarrow> u16 \<Rightarrow> nat list \<Rightarrow> ('x, 'd) svc \<Rightarrow> fault + ('x, 'd) svc" where
  "mark_rx_pairs ops bo flags [] s = Inr s"
| "mark_rx_pairs ops bo flags (i # is) s =
     rbind (svc_queue s (i * 2)) (\<lambda>q0.
       case raise_interrupt q0 (sv_mem2dev s) (sv_mem s) of (q, m) \<Rightarrow>
       let s = s\<lparr>sv_mem := m, sv_qs := (sv_qs s)[i * 2 := Some q]\<rparr>;
           off = sv_cells s (nq_sd_mbuf_off q)
       in if nq_compl_off q = off then mark_rx_pairs ops bo flags is s
          else case svc_flush_m2d ops s 2 of (ok, s1) \<Rightarrow>
            if \<not> ok then Inr s1
            else rbind (mark_enq_compl bo q (sv_mem2dev s1) (nq_compl_off q) off flags (sv_x s1)) (\<lambda>(v, x).
              mark_rx_pairs ops bo flags is
                (s1\<lparr>sv_mem2dev := v, sv_x := x, sv_qs := (sv_qs s1)[i * 2 :=
                  Some (q\<lparr>nq_compl_off := off, nq_pend_compl_idx := tail v, nq_pend_compl := True\<rparr>)]\<rparr>)))"

definition svc_check_compl :: "'d dma_ops \<Rightarrow> ('x, 'd) svc \<Rightarrow> fault + ('x, 'd) svc" where
  "svc_check_compl ops s =
     rbind (dao_dma_check_meta_compl ops (sv_dev2mem s) True (sv_cells s) (sv_d s)) (\<lambda>(v, c, d).
     rbind (dao_dma_check_meta_compl ops (sv_mem2dev s) True c d) (\<lambda>(w, c, d).
       Inr (s\<lparr>sv_dev2mem := v, sv_mem2dev := w, sv_cells := c, sv_d := d\<rparr>)))"

text \<open>The channels of the state are the ones of the first queue of the device; a count of zero pairs reads in front of the array.\<close>

definition virtio_net_desc_manage ::
  "'d dma_ops \<Rightarrow> 'x buf_ops \<Rightarrow> u16 \<Rightarrow> u16 \<Rightarrow> ('x, 'd) svc \<Rightarrow> fault + int \<times> ('x, 'd) svc" where
  "virtio_net_desc_manage ops bo qp_count flags s =
     (let n = unat qp_count; is = [0..<n]
      in if n = 0 \<or> length (sv_qs s) \<le> n * 2 - 1 then Inl OutOfBounds
         else if sv_qs s ! (n * 2 - 1) = None then Inr (0, s)
         else rbind (svc_queue s 0) (\<lambda>_.
           rbind (svc_check_compl ops s) (\<lambda>s1.
           rbind (fetch_pairs ops bo flags is s1) (\<lambda>s2.
           rbind (mark_tx_pairs ops flags is s2) (\<lambda>s3.
           rbind (mark_rx_pairs ops bo flags is s3) (\<lambda>s4. Inr (0, s4)))))))"

section \<open>The descriptor check of debug builds\<close>

definition desc_bad :: "u64 \<Rightarrow> u16 \<Rightarrow> bool \<Rightarrow> bool" where
  "desc_bad fl off used \<longleftrightarrow>
     (let a = (fl AND VIRT_PACKED_RING_DESC_F_AVAIL \<noteq> 0); u = (fl AND VIRT_PACKED_RING_DESC_F_USED \<noteq> 0)
      in a \<noteq> (ucast off AND RTE_BIT64 15 \<noteq> 0) \<or> fl = 0 \<or> (u \<noteq> a \<and> used) \<or> (u = a \<and> \<not> used))"

fun virtio_net_desc_validate :: "virtio_net_queue \<Rightarrow> u16 \<Rightarrow> nat list \<Rightarrow> bool \<Rightarrow> bool \<Rightarrow> memory \<Rightarrow> fault + memory" where
  "virtio_net_desc_validate q start [] avail used m = Inr m"
| "virtio_net_desc_validate q start (i # is) avail used m =
     (let off = desc_off_add start (of_nat i) (nq_q_sz q);
          a = DESC_PTR_OFF (nq_sd_desc_base q) off 8
      in if \<not> avail then virtio_net_desc_validate q start is avail used (store64 m a 0)
         else if desc_bad (load64 m a) off used then Inl AssertFailed
         else virtio_net_desc_validate q start is avail used m)"

end
