(* ===== verification/Net_Ext.thy ===== *)
theory Net_Ext
  imports Net_Queue
begin

text \<open>
  The worker side of the virtio net device with external buffers, \<^verbatim>\<open>lib/virtio_net/virtio_net_deq_ext.c\<close> and
  \<^verbatim>\<open>virtio_net_enq_ext.c\<close>, and the functions of all four files that flush a queue at a reset.  A buffer starts with two words about its
  descriptor, behind them the virtio header.
\<close>

definition VIRTIO_NET_DEQ_OFFLOAD_NOINOR :: u16 where "VIRTIO_NET_DEQ_OFFLOAD_NOINOR = 2"

section \<open>Flushing\<close>

text \<open>The two calls that return the buffers between two offsets of the ring, the second one when its count \<open>n2\<close> is not zero.\<close>

definition flush_range ::
  "(u64 list \<Rightarrow> 'x \<Rightarrow> 'x) \<Rightarrow> u64 list \<Rightarrow> u16 \<Rightarrow> u16 \<Rightarrow> nat \<Rightarrow> u16 \<Rightarrow> 'x \<Rightarrow> fault + 'x" where
  "flush_range free arr start n n2 qn x =
     rbind (slots_at arr (unat (DESC_OFF start)) (unat n)) (\<lambda>bs.
       let x1 = free bs x;
           start2 = desc_off_add start n qn
       in if n2 = 0 then Inr x1
          else rbind (slots_at arr (unat (DESC_OFF start2)) n2) (\<lambda>bs2. Inr (free bs2 x1)))"

text \<open>The count of the second call is of 16 bits when sending and of 32 bits when receiving.\<close>

definition flush_enq_queue :: "(u64 list \<Rightarrow> 'x \<Rightarrow> 'x) \<Rightarrow> virtio_net_queue \<Rightarrow> cells \<Rightarrow> 'x \<Rightarrow> fault + cells \<times> 'x" where
  "flush_enq_queue free q c x =
     (if nq_auto_free q then Inr (c, x)
      else
        let sd = c (nq_sd_mbuf_off q); l = c (nq_last_off q)
        in if sd = l then Inr (c, x)
           else
             let pend = desc_off_diff_no_wrap l sd (nq_q_sz q);
                 sd2 = desc_off_add sd pend (nq_q_sz q);
                 pend2 = l - sd2;
                 sd3 = (if pend2 \<noteq> 0 then desc_off_add sd2 pend2 (nq_q_sz q) else sd2)
             in rbind (flush_range free (nq_buf_arr q) sd pend (unat pend2) (nq_q_sz q) x) (\<lambda>x1.
                Inr (c(nq_sd_mbuf_off q := sd3, nq_pend_sd_mbuf q := 0), x1)))"

definition flush_deq_queue :: "(u64 list \<Rightarrow> 'x \<Rightarrow> 'x) \<Rightarrow> virtio_net_queue \<Rightarrow> cells \<Rightarrow> 'x \<Rightarrow> fault + cells \<times> 'x" where
  "flush_deq_queue free q c x =
     (let pend = c (nq_pend_sd_mbuf q); sd = c (nq_sd_mbuf_off q); l = c (nq_last_off q)
      in if pend = 0 \<or> c (nq_sd_desc_off q) = sd then Inr (c, x)
         else
           let sd2 = desc_off_add sd pend (nq_q_sz q);
               c1 = c(nq_sd_mbuf_off q := sd2, nq_pend_sd_mbuf q := 0);
               n = desc_off_diff_no_wrap sd2 l (nq_q_sz q)
           in if n = 0 then Inr (c1, x)
              else
                let n2 = ucast sd2 - ucast (desc_off_add l n (nq_q_sz q)) :: u32
                in rbind (flush_range free (nq_buf_arr q) l n (unat n2) (nq_q_sz q) x) (\<lambda>x1. Inr (c1, x1)))"

definition virtio_net_flush_enq :: "'x buf_ops \<Rightarrow> virtio_net_queue \<Rightarrow> cells \<Rightarrow> 'x \<Rightarrow> fault + cells \<times> 'x" where
  "virtio_net_flush_enq bo = flush_enq_queue (pktmbuf_free_bulk bo)"

definition virtio_net_flush_enq_ext :: "'x buf_ops \<Rightarrow> virtio_net_queue \<Rightarrow> cells \<Rightarrow> 'x \<Rightarrow> fault + cells \<times> 'x" where
  "virtio_net_flush_enq_ext bo q = flush_enq_queue (extbuf_put bo (nq_netdev_id q)) q"

definition virtio_net_flush_deq :: "'x buf_ops \<Rightarrow> virtio_net_queue \<Rightarrow> cells \<Rightarrow> 'x \<Rightarrow> fault + cells \<times> 'x" where
  "virtio_net_flush_deq bo = flush_deq_queue (pktmbuf_free_bulk bo)"

definition virtio_net_flush_deq_ext :: "'x buf_ops \<Rightarrow> virtio_net_queue \<Rightarrow> cells \<Rightarrow> 'x \<Rightarrow> fault + cells \<times> 'x" where
  "virtio_net_flush_deq_ext bo q = flush_deq_queue (extbuf_put bo (nq_netdev_id q)) q"

section \<open>Receiving from the host\<close>

text \<open>The descriptor flags with the used bit equal to the available bit.\<close>

definition avail_used :: "u64 \<Rightarrow> u64" where
  "avail_used fl =
     (let avail = (if fl AND VIRT_PACKED_RING_DESC_F_AVAIL \<noteq> 0 then 1 else 0)
      in push_bit 55 avail OR push_bit 63 avail OR (fl AND NOT VIRT_PACKED_RING_DESC_F_AVAIL_USED))"

text \<open>The loop that chains further buffers for the \<open>pend\<close> bytes that do not fit: \<open>n\<close> is the number of destination slots that are
  left.\<close>

fun ext_segs ::
  "'x buf_ops \<Rightarrow> virtio_net_queue \<Rightarrow> nat \<Rightarrow> u64 \<Rightarrow> u32 \<Rightarrow> vchan_state \<Rightarrow> memory \<Rightarrow> 'x \<Rightarrow> fault + vchan_state \<times> memory \<times> 'x" where
  "ext_segs bo q n buf pend v m x =
     (if pend = 0 then Inr (v, m, x)
      else case n of
        0 \<Rightarrow> Inl OutOfBounds
      | Suc n' \<Rightarrow>
          (case extbuf_get bo (nq_netdev_id q) 1 x of (_, bs, x1) \<Rightarrow>
             let nb = hd bs;
                 dlen = (if pend > ucast (nq_buf_len q) then ucast (nq_buf_len q) else pend);
                 m1 = store64 (store64 (store64 m nb 0) (nb + 8) (ucast dlen)) buf nb
             in rbind (dao_dma_enq_dst_x1 v \<lparr>addr = nb + 16, len = dlen\<rparr>) (\<lambda>v1.
                ext_segs bo q n' nb (pend - dlen) v1 m1 x1)))"

declare ext_segs.simps [simp del]

text \<open>One descriptor: its data goes to the buffer of its slot.  The destination that is stored first is counted only after the loop for
  the further buffers.\<close>

definition ext_fetch_one ::
  "'x buf_ops \<Rightarrow> virtio_net_queue \<Rightarrow> u16 \<Rightarrow> u16 \<Rightarrow> vchan_state \<Rightarrow> memory \<Rightarrow> 'x \<Rightarrow> fault + vchan_state \<times> memory \<times> 'x" where
  "ext_fetch_one bo q flags off v m x =
     (if length (nq_buf_arr q) \<le> unat off then Inl OutOfBounds
      else
        let buf = nq_buf_arr q ! unat off;
            a = DESC_PTR_OFF (nq_sd_desc_base q) off 8;
            fl = load64 m a;
            slen = ucast fl :: u32;
            noinor = (flags AND VIRTIO_NET_DEQ_OFFLOAD_NOINOR \<noteq> 0);
            m1 = (if noinor then store64 m a (avail_used fl) else m);
            fl1 = (if noinor then fl AND NOT VIRT_PACKED_RING_DESC_F_AVAIL_USED else fl);
            long = (slen > ucast (nq_buf_len q));
            pend = (if long then slen - ucast (nq_buf_len q) else 0);
            dlen = (if long then ucast (nq_buf_len q) else slen)
        in rbind (put_src v (unat (src_i v)) \<lparr>addr = load64 m1 (DESC_PTR_OFF (nq_sd_desc_base q) off 0), len = slen\<rparr>) (\<lambda>v1.
           rbind (put_dst v1 (unat (dst_i v1)) \<lparr>addr = buf + 16, len = dlen\<rparr>) (\<lambda>v2.
           let m2 = store64 (store64 m1 buf 0) (buf + 8) (ucast dlen OR (fl1 AND 0xFFFF000000000000))
           in rbind (ext_segs bo q (length (dst v2) - unat (dst_i v2)) buf pend v2 m2 x) (\<lambda>(v3, m3, x1).
              Inr (v3\<lparr>src_i := src_i v3 + 1, dst_i := dst_i v3 + 1\<rparr>, m3, x1)))))"

text \<open>The loop over \<open>k\<close> descriptors; the result has the number that was processed and the operation of the last one.\<close>

fun ext_fetch_loop ::
  "'d dma_ops \<Rightarrow> 'x buf_ops \<Rightarrow> virtio_net_queue \<Rightarrow> u16 \<Rightarrow> nat \<Rightarrow> u16 \<Rightarrow> u16 \<Rightarrow> u16 \<Rightarrow> vchan_state \<Rightarrow> memory \<Rightarrow> 'x \<Rightarrow> 'd \<Rightarrow>
    fault + u16 \<times> u16 \<times> vchan_state \<times> memory \<times> 'x \<times> 'd" where
  "ext_fetch_loop ops bo q flags 0 off done idx v m x d = Inr (done, idx, v, m, x, d)"
| "ext_fetch_loop ops bo q flags (Suc k) off done idx v m x d =
     rbind (ext_fetch_one bo q flags off v m x) (\<lambda>(v1, m1, x1).
       case dao_dma_flush ops v1 1 d of (ok, v2, d1) \<Rightarrow>
         if \<not> ok then Inr (done + 1, tail v1, v2, m1, x1, d1)
         else ext_fetch_loop ops bo q flags k ((off + 1) AND (nq_q_sz q - 1)) (done + 1) (tail v1) v2 m1 x1 d1)"

record ('x, 'd) net_st =
  ns_q :: virtio_net_queue
  ns_v :: vchan_state
  ns_c :: cells
  ns_m :: memory
  ns_x :: 'x
  ns_d :: 'd

definition ext_fetch_host_data :: "'d dma_ops \<Rightarrow> 'x buf_ops \<Rightarrow> u16 \<Rightarrow> u16 \<Rightarrow> ('x, 'd) net_st \<Rightarrow> fault + u16 \<times> ('x, 'd) net_st" where
  "ext_fetch_host_data ops bo hint flags s =
     (let q = ns_q s; c = ns_c s; pend = c (nq_pend_sd_mbuf q);
          fin = (pend \<noteq> 0 \<and> dao_dma_op_status (ns_v s) (nq_pend_sd_mbuf_idx q));
          sd = (if fin then desc_off_add (c (nq_sd_mbuf_off q)) pend (nq_q_sz q) else c (nq_sd_mbuf_off q));
          pend1 = (if fin then 0 else pend);
          c1 = (if fin then c(nq_sd_mbuf_off q := sd, nq_pend_sd_mbuf q := 0) else c);
          s1 = s\<lparr>ns_c := c1\<rparr>;
          desc = c1 (nq_sd_desc_off q)
      in if pend1 \<noteq> 0 \<or> desc = sd then Inr (sd, s1)
         else
           let nb = min (desc_off_diff desc sd (nq_q_sz q)) hint
           in case dao_dma_flush ops (ns_v s) 1 (ns_d s) of (ok, v, d) \<Rightarrow>
                if \<not> ok then Inr (sd, s1\<lparr>ns_v := v, ns_d := d\<rparr>)
                else rbind (ext_fetch_loop ops bo q flags (unat nb) (ucast (DESC_OFF sd)) 0 0 v (ns_m s) (ns_x s) d)
                  (\<lambda>(done, idx, v1, m1, x1, d1).
                     let s2 = s1\<lparr>ns_v := v1, ns_m := m1, ns_x := x1, ns_d := d1\<rparr>
                     in Inr (sd, if done \<noteq> 0
                                 then s2\<lparr>ns_c := (ns_c s2)(nq_pend_sd_mbuf q := done), ns_q := q\<lparr>nq_pend_sd_mbuf_idx := idx\<rparr>\<rparr>
                                 else s2)))"

text \<open>The result is the list of the buffers that are handed to the caller.\<close>

definition virtio_net_deq_ext :: "'d dma_ops \<Rightarrow> 'x buf_ops \<Rightarrow> u16 \<Rightarrow> u16 \<Rightarrow> ('x, 'd) net_st \<Rightarrow> fault + u64 list \<times> ('x, 'd) net_st" where
  "virtio_net_deq_ext ops bo nb_bufs flags s =
     (case dao_dma_check_compl ops (ns_v s) (ns_d s) of (v, d) \<Rightarrow>
        rbind (ext_fetch_host_data ops bo 256 flags (s\<lparr>ns_v := v, ns_d := d\<rparr>)) (\<lambda>(sd, s1).
          let q = ns_q s1; l = ns_c s1 (nq_last_off q);
              avail = desc_off_diff_no_wrap sd l (nq_q_sz q)
          in if avail = 0 then Inr ([], s1)
             else
               let nb = min nb_bufs avail
               in rbind (slots_at (nq_buf_arr q) (unat (DESC_OFF l)) (unat nb)) (\<lambda>bs.
                  Inr (bs, s1\<lparr>ns_c := (ns_c s1)(nq_last_off q := desc_off_add l nb (nq_q_sz q))\<rparr>))))"

section \<open>Sending to the host\<close>

definition process_enq_compl :: "('x, 'd) net_st \<Rightarrow> ('x, 'd) net_st" where
  "process_enq_compl s =
     (let q = ns_q s; c = ns_c s; l = c (nq_last_off q)
      in if c (nq_sd_mbuf_off q) \<noteq> l \<and> dao_dma_op_status (ns_v s) (nq_pend_sd_mbuf_idx q)
         then s\<lparr>ns_c := c(nq_sd_mbuf_off q := l, nq_pend_sd_mbuf q := 0)\<rparr>
         else s)"

text \<open>One buffer: the descriptor of the slot gets the length, and the virtio header and the data go to the address in it.  The result has
  the number of descriptors the header of the buffer claims.\<close>

definition ext_push_one ::
  "virtio_net_queue \<Rightarrow> u16 \<Rightarrow> u64 \<Rightarrow> vchan_state \<Rightarrow> memory \<Rightarrow> fault + virtio_net_queue \<times> vchan_state \<times> memory \<times> u16" where
  "ext_push_one q off dhdr v m =
     (if length (nq_buf_arr q) \<le> unat off then Inl OutOfBounds
      else
        let data_off = scast (ucast (load64 m dhdr) :: u16) :: u64;
            a = DESC_PTR_OFF (nq_sd_desc_base q) off 8;
            fl = load64 m a;
            buf_len = ucast fl :: u32;
            len1 = ucast (load64 m (dhdr + 8)) :: u32;
            l = (if len1 > buf_len then buf_len else len1);
            m1 = store64 m a (avail_used (fl AND 0xFFFFFFFF00000000) OR ucast l);
            q1 = q\<lparr>nq_buf_arr := (nq_buf_arr q)[unat off := dhdr + data_off]\<rparr>
        in rbind (dao_dma_enq_x1 v \<lparr>addr = dhdr + 16, len = l\<rparr>
                    \<lparr>addr = load64 m1 (DESC_PTR_OFF (nq_sd_desc_base q) off 0), len = l\<rparr>) (\<lambda>v1.
           Inr (q1, v1, m1, load16 m1 (dhdr + 26))))"

fun ext_push_loop ::
  "'d dma_ops \<Rightarrow> u64 list \<Rightarrow> u16 \<Rightarrow> u16 \<Rightarrow> u16 \<Rightarrow> u16 \<Rightarrow> virtio_net_queue \<Rightarrow> vchan_state \<Rightarrow> memory \<Rightarrow> 'd \<Rightarrow>
    fault + u16 \<times> u16 \<times> u16 \<times> virtio_net_queue \<times> vchan_state \<times> memory \<times> 'd" where
  "ext_push_loop ops [] off i used idx q v m d = Inr (i, used, idx, q, v, m, d)"
| "ext_push_loop ops (b # bs) off i used idx q v m d =
     rbind (ext_push_one q off b v m) (\<lambda>(q1, v1, m1, nbuf).
       case dao_dma_flush ops v1 1 d of (ok, v2, d1) \<Rightarrow>
         if \<not> ok then Inr (i + 1, used + nbuf, tail v1, q1, v2, m1, d1)
         else ext_push_loop ops bs ((off + 1) AND (nq_q_sz q - 1)) (i + 1) (used + nbuf) (tail v1) q1 v2 m1 d1)"

definition push_enq_ext_data :: "'d dma_ops \<Rightarrow> u64 list \<Rightarrow> ('x, 'd) net_st \<Rightarrow> fault + u16 \<times> ('x, 'd) net_st" where
  "push_enq_ext_data ops vbufs s =
     (case dao_dma_flush ops (ns_v s) 1 (ns_d s) of (ok, v, d) \<Rightarrow>
        if \<not> ok then Inr (0, s\<lparr>ns_v := v, ns_d := d\<rparr>)
        else
          let q = ns_q s; c = ns_c s; l = c (nq_last_off q)
          in rbind (ext_push_loop ops vbufs (ucast (DESC_OFF l)) 0 0 0 q v (ns_m s) d) (\<lambda>(i, used, idx, q1, v1, m1, d1).
             let s1 = s\<lparr>ns_v := v1, ns_m := m1, ns_d := d1, ns_q := q1\<rparr>
             in Inr (i, if used \<noteq> 0
                        then s1\<lparr>ns_c := c(nq_last_off q := desc_off_add l used (nq_q_sz q),
                                           nq_pend_sd_mbuf q := c (nq_pend_sd_mbuf q) + used),
                                ns_q := q1\<lparr>nq_pend_sd_mbuf_idx := idx\<rparr>\<rparr>
                        else s1)))"

definition virtio_net_enq_ext :: "'d dma_ops \<Rightarrow> u64 list \<Rightarrow> ('x, 'd) net_st \<Rightarrow> fault + u16 \<times> ('x, 'd) net_st" where
  "virtio_net_enq_ext ops vbufs s =
     (case dao_dma_check_compl ops (ns_v s) (ns_d s) of (v, d) \<Rightarrow>
        let s1 = process_enq_compl (s\<lparr>ns_v := v, ns_d := d\<rparr>);
            q = ns_q s1; c = ns_c s1;
            n1 = unat (desc_off_diff (c (nq_sd_desc_off q)) (c (nq_last_off q)) (nq_q_sz q));
            n2 = min n1 (length vbufs);
            count = unat (word_of_int (min (int n2) (uint (nq_q_sz q) - uint (c (nq_pend_sd_mbuf q)))) :: u16)
        in if count = 0 then Inr (0, s1)
           else if length vbufs < count then Inl OutOfBounds
           else push_enq_ext_data ops (take count vbufs) s1)"

end
