(* ===== verification/Net_Facts.thy ===== *)
theory Net_Facts
  imports Net_Ext Dma_Stream
begin

text \<open>
  The parts of a ring the descriptor management works on: how a range of positions is split where the ring wraps, which addresses the DMA
  gets for it, and which buffers are taken and returned for it.
\<close>

declare fetch_loop.simps [simp del]

section \<open>Ranges of a ring\<close>

text \<open>The runs of consecutive indices for \<open>k\<close> positions from index \<open>i\<close> on in a ring of \<open>n\<close>.\<close>

definition runs :: "nat \<Rightarrow> nat \<Rightarrow> nat \<Rightarrow> (nat \<times> nat) list" where
  "runs n i k = (if i + k \<le> n then [(i, k)] else [(i, n - i), (0, i + k - n)])"

lemma runs_cover:
  assumes "i < n" and "k \<le> n"
  shows "concat (map (\<lambda>(a, l). [a..<a + l]) (runs n i k)) = map (\<lambda>p. (i + p) mod n) [0..<k]"
proof (cases "i + k \<le> n")
  case True
  then have "map (\<lambda>p. (i + p) mod n) [0..<k] = [i..<i + k]" by (intro nth_equalityI) auto
  then show ?thesis using True by (simp add: runs_def)
next
  case False
  have "map (\<lambda>p. (i + p) mod n) [0..<k] = map (\<lambda>p. (i + p) mod n) [0..<n - i] @ map (\<lambda>p. (i + p) mod n) [n - i..<k]"
  proof -
    have "[0..<k] = [0..<n - i] @ [n - i..<k]" using False upt_add_eq_append [of 0 "n - i" "k - (n - i)"] by simp
    then show ?thesis by (metis map_append)
  qed
  moreover have "map (\<lambda>p. (i + p) mod n) [0..<n - i] = [i..<n]"
    using assms by (intro nth_equalityI) auto
  moreover have "map (\<lambda>p. (i + p) mod n) [n - i..<k] = [0..<i + k - n]"
  proof (rule nth_equalityI)
    fix p
    assume "p < length (map (\<lambda>p. (i + p) mod n) [n - i..<k])"
    then have p: "p < k - (n - i)" by simp
    then have "(i + (n - i + p)) mod n = p" using assms by (simp add: mod_if)
    then show "map (\<lambda>p. (i + p) mod n) [n - i..<k] ! p = [0..<i + k - n] ! p" using p assms by simp
  qed (use False assms in simp)
  ultimately show ?thesis using False assms by (simp add: runs_def)
qed

lemma and_ring_mask: "ring_size n \<Longrightarrow> (x :: u16) AND (n - 1) = of_nat (unat x mod unat n)"
proof -
  assume "ring_size n"
  then obtain k where k: "k \<le> 15" "n = 2 ^ k" "unat n = 2 ^ k" by (rule ring_sizeE)
  have "x AND (n - 1) = take_bit k x" unfolding k(2) by (simp add: take_bit_eq_mask mask_eq_exp_minus_1)
  moreover have "unat (take_bit k x) = unat x mod unat n" unfolding k(3) unsigned_take_bit_eq by (simp add: take_bit_eq_mod)
  moreover have "take_bit k x = of_nat (unat (take_bit k x))" by simp
  ultimately show ?thesis by simp
qed

lemma desc_ptr_index: "DESC_PTR_OFF b a 0 = b + 16 * of_nat (off_index a)"
  by (simp add: DESC_PTR_OFF_def DESC_SZ_def DESC_ENTRY_SZ_def DESC_OFF_index(1) [unfolded DESC_OFF_def])

lemma off_index_small: "unat a < 32768 \<Longrightarrow> off_index a = unat a"
  by (simp add: off_index_def)

lemma unat_DESC_OFF: "unat (ucast (DESC_OFF a) :: u16) = off_index a"
  unfolding DESC_OFF_index by (rule ucast_of_nat_64) (simp add: off_index_def order_less_trans [OF mod_less_divisor])

text \<open>The descriptors of a run, as one entry of a DMA operation.\<close>

definition desc_sge :: "u64 \<Rightarrow> nat \<times> nat \<Rightarrow> sge" where
  "desc_sge b r = \<lparr>addr = b + 16 * of_nat (fst r), len = of_nat (16 * snd r)\<rparr>"

lemma put_slots_one: "i < length xs \<Longrightarrow> xs[i := a] = put_slots xs i [a]"
  by (simp add: put_slots_def upd_conv_take_nth_drop)

lemma put_slots_two: "Suc i < length xs \<Longrightarrow> put_slots (put_slots xs i [a]) (Suc i) [b] = put_slots xs i [a, b]"
  by (simp add: put_slots_def min_def Suc_diff_le drop_Suc_Cons)

lemma length_put_slots [simp]: "i + length bs \<le> length xs \<Longrightarrow> length (put_slots xs i bs) = length xs"
  by (simp add: put_slots_def)

text \<open>The channel with the entries of some runs behind the ones it holds.\<close>

definition filled :: "virtio_net_queue \<Rightarrow> (nat \<times> nat) list \<Rightarrow> vchan_state \<Rightarrow> vchan_state" where
  "filled q rs v = v\<lparr>src := put_slots (src v) (unat (src_i v)) (map (desc_sge (nq_desc_base q)) rs),
     dst := put_slots (dst v) (unat (dst_i v)) (map (desc_sge (nq_sd_desc_base q)) rs)\<rparr>"

lemma uint_unat_int: "uint w = int (unat w)"
  by simp

lemma fetch_last:
  assumes "unat off + k \<le> unat (nq_q_sz q)" and "unat off < 32768"
    and "unat (src_i v) + j < length (src v)" and "unat (dst_i v) + j < length (dst v)"
  shows "fetch_loop q v off (int k) j n =
    Inr (v\<lparr>src := (src v)[unat (src_i v) + j := desc_sge (nq_desc_base q) (unat off, k)],
      dst := (dst v)[unat (dst_i v) + j := desc_sge (nq_sd_desc_base q) (unat off, k)]\<rparr>, j + 1, n + int k)"
proof -
  have "\<not> uint off + int k > uint (nq_q_sz q)" unfolding uint_unat_int using assms(1) by linarith
  note c = if_not_P [OF this]
  have l: "word_of_int (int k * 16) = (of_nat (16 * k) :: u32)" by (simp add: mult.commute)
  have r: "\<not> (length (src v) \<le> unat (src_i v) + j \<or> length (dst v) \<le> unat (dst_i v) + j)" using assms(3,4) by simp
  show ?thesis
    unfolding fetch_loop.simps [of q v off] Let_def c if_not_P [OF r] l desc_ptr_index off_index_small [OF assms(2)]
    by (simp add: desc_sge_def)
qed

lemma fetch_wrap:
  assumes "ring_size (nq_q_sz q)" and "unat off < unat (nq_q_sz q)" and "unat (nq_q_sz q) < unat off + k"
    and "unat (src_i v) + j < length (src v)" and "unat (dst_i v) + j < length (dst v)"
  defines "l \<equiv> unat (nq_q_sz q) - unat off"
  shows "fetch_loop q v off (int k) j n =
    fetch_loop q (v\<lparr>src := (src v)[unat (src_i v) + j := desc_sge (nq_desc_base q) (unat off, l)],
      dst := (dst v)[unat (dst_i v) + j := desc_sge (nq_sd_desc_base q) (unat off, l)]\<rparr>) 0 (int (k - l)) (j + 1) (n + int l)"
proof -
  have "uint off + int k > uint (nq_q_sz q)" unfolding uint_unat_int using assms(3) by linarith
  moreover have "uint (nq_q_sz q) - uint off = int l" unfolding uint_unat_int l_def using assms(2) by linarith
  ultimately have c: "(if uint off + int k > uint (nq_q_sz q) then uint (nq_q_sz q) - uint off else int k) = int l" by presburger
  have e: "word_of_int (int l * 16) = (of_nat (16 * l) :: u32)" by (simp add: mult.commute)
  have r: "\<not> (length (src v) \<le> unat (src_i v) + j \<or> length (dst v) \<le> unat (dst_i v) + j)" using assms(4,5) by simp
  have k: "int k - int l = int (k - l)" "\<not> int (k - l) = 0" unfolding l_def using assms(2,3) by linarith+
  have "off + word_of_int (int l) = nq_q_sz q" using assms(2) by (simp add: l_def of_nat_diff)
  then have nx: "(off + word_of_int (int l)) AND (nq_q_sz q - 1) = 0" using and_ring_mask [OF assms(1), of "nq_q_sz q"] by simp
  have o: "unat off < 32768" using assms(2) ring_size_le [OF assms(1)] by simp
  show ?thesis
    unfolding fetch_loop.simps [of q v off] Let_def c if_not_P [OF r] e desc_ptr_index off_index_small [OF o] k(1) if_not_P [OF k(2)] nx
    by (simp add: desc_sge_def)
qed

lemma fetch_loop_runs:
  assumes "ring_size (nq_q_sz q)" and "unat off < unat (nq_q_sz q)" and "k \<le> unat (nq_q_sz q)"
    and "unat (src_i v) + 2 \<le> length (src v)" and "unat (dst_i v) + 2 \<le> length (dst v)"
  shows "fetch_loop q v off (int k) 0 0 =
    Inr (filled q (runs (unat (nq_q_sz q)) (unat off) k) v, length (runs (unat (nq_q_sz q)) (unat off) k), int k)"
proof (cases "unat off + k \<le> unat (nq_q_sz q)")
  case True
  have "unat off < 32768" using assms(2) ring_size_le [OF assms(1)] by simp
  then show ?thesis using fetch_last [OF True, of v 0 0] True assms(4,5) by (simp add: runs_def filled_def put_slots_one)
next
  case False
  let ?n = "unat (nq_q_sz q)"
  have l: "k - (?n - unat off) = unat off + k - ?n" using False assms(2) by simp
  have s: "unat (src_i v) + 0 < length (src v)" "unat (dst_i v) + 0 < length (dst v)" using assms(4,5) by simp_all
  have w: "fetch_loop q v off (int k) 0 0 = fetch_loop q (v\<lparr>src := (src v)[unat (src_i v) := desc_sge (nq_desc_base q) (unat off, ?n - unat off)],
      dst := (dst v)[unat (dst_i v) := desc_sge (nq_sd_desc_base q) (unat off, ?n - unat off)]\<rparr>) 0 (int (unat off + k - ?n)) 1 (int (?n - unat off))"
    using fetch_wrap [OF assms(1,2) _ s, of k 0] False l by simp
  show ?thesis
    unfolding w by (subst fetch_last) (use False assms in \<open>simp_all add: runs_def filled_def put_slots_one put_slots_two of_nat_diff\<close>)
qed

section \<open>Fetching\<close>

text \<open>Room for the entries and for what the completion of the operation shall store.\<close>

definition meta_room :: "vchan_state \<Rightarrow> bool" where
  "meta_room v \<longleftrightarrow> (let i = unat (tail v) mod DAO_DMA_MAX_INFLIGHT_MDATA; md = mdata v ! i; j = unat (cnt md)
     in i < length (mdata v) \<and> j < length (ptr md) \<and> j < length (val md) \<and> j < length (pend_ptr md) \<and> j < length (pend_val md))"

definition fetch_room :: "vchan_state \<Rightarrow> bool" where
  "fetch_room v \<longleftrightarrow> unat (src_i v) + 2 \<le> length (src v) \<and> unat (dst_i v) + 2 \<le> length (dst v) \<and> meta_room v"

text \<open>What is stored when the operation completes, as the last entry of its meta data.\<close>

definition last_meta :: "vchan_state \<Rightarrow> u64 \<times> u16 \<times> u64 \<times> u16" where
  "last_meta v = (let md = mdata v ! (unat (tail v) mod DAO_DMA_MAX_INFLIGHT_MDATA); j = unat (cnt md - 1)
     in (ptr md ! j, val md ! j, pend_ptr md ! j, pend_val md ! j))"

lemma update_meta_room:
  assumes "meta_room v"
  shows "\<exists>v'. dao_dma_update_cmpl_meta v p x pp px (tail v) = Inr v' \<and> v' = v\<lparr>mdata := mdata v'\<rparr> \<and> last_meta v' = (p, x, pp, px)"
proof -
  let ?i = "unat (tail v) mod DAO_DMA_MAX_INFLIGHT_MDATA"
  let ?md = "mdata v ! ?i"
  have c: "unat (cnt ?md + 1 - 1) = unat (cnt ?md)" by simp
  show ?thesis
    using assms by (simp add: dao_dma_update_cmpl_meta_def meta_room_def Let_def last_meta_def c)
qed

text \<open>The offsets of a queue whose descriptors are being fetched: \<open>n\<close> descriptors are available behind the shadow offset, and the first
  \<open>p\<close> of them are already on their way.\<close>

definition fetch_state :: "virtio_net_queue \<Rightarrow> cells \<Rightarrow> u16 \<Rightarrow> u16 \<Rightarrow> bool" where
  "fetch_state q c n p \<longleftrightarrow> ring_size (nq_q_sz q) \<and> ring_off (nq_q_sz q) (c (nq_sd_desc_off q)) \<and>
     c (nq_pend_sd_desc q) = p \<and> unat p \<le> unat n \<and> unat n \<le> unat (nq_q_sz q) \<and> nq_pend_sd_desc q \<noteq> nq_sd_desc_off q"

lemma fetch_stateD:
  assumes "fetch_state q c n p"
  shows "ring_size (nq_q_sz q)" and "ring_off (nq_q_sz q) (c (nq_sd_desc_off q))" and "c (nq_pend_sd_desc q) = p"
    and "unat p \<le> unat n" and "unat n \<le> unat (nq_q_sz q)" and "nq_pend_sd_desc q \<noteq> nq_sd_desc_off q"
  using assms by (simp_all add: fetch_state_def)

lemma fetch_off_index:
  assumes "fetch_state q c n p"
  shows "unat (fetch_off q c) = off_index (desc_off_add (c (nq_sd_desc_off q)) p (nq_q_sz q))"
    and "unat (fetch_off q c) < unat (nq_q_sz q)"
proof -
  note f = fetch_stateD [OF assms]
  have le: "unat p \<le> unat (nq_q_sz q)" using f by simp
  show e: "unat (fetch_off q c) = off_index (desc_off_add (c (nq_sd_desc_off q)) p (nq_q_sz q))"
    unfolding fetch_off_def f(3) by (rule unat_DESC_OFF)
  show "unat (fetch_off q c) < unat (nq_q_sz q)"
    unfolding e using desc_off_add_pos(1) [OF f(1,2) le] by (simp add: ring_off_def)
qed

lemma fetch_commit_ok:
  assumes "fetch_state q c n p" and "unat p + k \<le> unat n" and "0 < k" and "fetch_room v"
  defines "rs \<equiv> runs (unat (nq_q_sz q)) (unat (fetch_off q c)) k"
  obtains v' where "fetch_commit q v (fetch_off q c) (int k) c = Inr (length rs, v', c(nq_pend_sd_desc q := p + of_nat k))"
    and "v' = (filled q rs v)\<lparr>mdata := mdata v'\<rparr>"
    and "last_meta v' = (nq_sd_desc_off q, desc_off_add (c (nq_sd_desc_off q)) (p + of_nat k) (nq_q_sz q), nq_pend_sd_desc q, of_nat k)"
proof -
  note f = fetch_stateD [OF assms(1)]
  have k: "k \<le> unat (nq_q_sz q)" using assms(2) f by simp
  have lp: "fetch_loop q v (fetch_off q c) (int k) 0 0 = Inr (filled q rs v, length rs, int k)"
    unfolding rs_def using assms(4) by (intro fetch_loop_runs [OF f(1) fetch_off_index(2) [OF assms(1)] k]) (simp_all add: fetch_room_def)
  have mr: "meta_room (filled q rs v)" "tail (filled q rs v) = tail v" using assms(4) by (simp_all add: fetch_room_def filled_def meta_room_def)
  obtain v' where v': "dao_dma_update_cmpl_meta (filled q rs v) (nq_sd_desc_off q) (desc_off_add (c (nq_sd_desc_off q)) (p + of_nat k) (nq_q_sz q))
      (nq_pend_sd_desc q) (of_nat k) (tail (filled q rs v)) = Inr v'" "v' = (filled q rs v)\<lparr>mdata := mdata v'\<rparr>"
    "last_meta v' = (nq_sd_desc_off q, desc_off_add (c (nq_sd_desc_off q)) (p + of_nat k) (nq_q_sz q), nq_pend_sd_desc q, of_nat k)"
    using update_meta_room [OF mr(1)] by blast
  show thesis
  proof (rule that [OF _ v'(2,3)])
    show "fetch_commit q v (fetch_off q c) (int k) c = Inr (length rs, v', c(nq_pend_sd_desc q := p + of_nat k))"
      unfolding fetch_commit_def lp using v'(1) by (simp add: f(3) Let_def add.commute)
  qed
qed

section \<open>What the channel gets\<close>

lemma room_fetch: "paired v \<Longrightarrow> 2 \<le> room v \<Longrightarrow> meta_room v \<Longrightarrow> fetch_room v"
  by (auto simp: fetch_room_def paired_def room_def)

lemma length_runs: "length (runs n i k) \<le> 2"
  by (simp add: runs_def)

lemma stream_filled:
  assumes "paired v" and "length rs \<le> room v"
  shows "paired (bump ((filled q rs v)\<lparr>mdata := md\<rparr>) (length rs))"
    and "stream sent (bump ((filled q rs v)\<lparr>mdata := md\<rparr>) (length rs)) d =
      stream sent v d @ map (\<lambda>r. (desc_sge (nq_desc_base q) r, desc_sge (nq_sd_desc_base q) r)) rs"
proof -
  let ?i = "unat (src_i v)"
  have i: "?i + length rs \<le> 15" "dst_i v = src_i v" "length (src v) = 15" "length (dst v) = 15" "?i + length rs \<le> unat (flush_thr v)"
    using assms by (auto simp: paired_def room_def DAO_DMA_MAX_POINTER_def)
  have u: "unat (src_i v + of_nat (length rs)) = ?i + length rs"
  proof -
    have "unat (of_nat (length rs) :: u16) = length rs" using i(1) by (intro unat_of_nat_small) simp
    then show ?thesis using i(1) unat_add_small [of "src_i v" "of_nat (length rs)"] by simp
  qed
  show "paired (bump ((filled q rs v)\<lparr>mdata := md\<rparr>) (length rs))"
    using assms(1) i u by (simp add: paired_def bump_def filled_def DAO_DMA_MAX_POINTER_def)
  have t: "take (?i + length ys) (put_slots xs ?i ys) = take ?i xs @ ys" if "length xs = 15" "?i + length ys \<le> 15" for xs ys :: "sge list"
    using that by (simp add: put_slots_def)
  have "pending (bump ((filled q rs v)\<lparr>mdata := md\<rparr>) (length rs)) =
      zip (take ?i (src v) @ map (desc_sge (nq_desc_base q)) rs) (take ?i (dst v) @ map (desc_sge (nq_sd_desc_base q)) rs)"
    using i u t [of "src v" "map (desc_sge (nq_desc_base q)) rs"] t [of "dst v" "map (desc_sge (nq_sd_desc_base q)) rs"]
    by (simp add: pending_def bump_def filled_def)
  also have "\<dots> = pending v @ map (\<lambda>r. (desc_sge (nq_desc_base q) r, desc_sge (nq_sd_desc_base q) r)) rs"
    using i by (simp add: pending_def zip_append zip_map_map zip_same_conv_map)
  finally show "stream sent (bump ((filled q rs v)\<lparr>mdata := md\<rparr>) (length rs)) d =
      stream sent v d @ map (\<lambda>r. (desc_sge (nq_desc_base q) r, desc_sge (nq_sd_desc_base q) r)) rs"
    by (simp add: stream_def) (simp add: bump_def filled_def)
qed

lemma off_index_add:
  assumes "ring_size q" and "ring_off q a" and "unat n \<le> unat q"
  shows "off_index (desc_off_add a n q) = (off_index a + unat n) mod unat q"
proof -
  have r: "ring_off q (desc_off_add a n q)" by (rule desc_off_add_pos(1) [OF assms])
  have p: "ring_pos q b mod unat q = off_index b" if "ring_off q b" for b using that by (auto simp: ring_pos_def ring_off_def)
  have "ring_pos q (desc_off_add a n q) mod unat q = (ring_pos q a + unat n) mod (2 * unat q) mod unat q"
    using desc_off_add_pos(2) [OF assms] by simp
  also have "\<dots> = (ring_pos q a + unat n) mod unat q" by (simp add: mod_mod_cancel)
  also have "\<dots> = (off_index a + unat n) mod unat q" using p [OF assms(2)] by (metis mod_add_left_eq)
  finally show ?thesis using p [OF r] by simp
qed

lemma notified_pending:
  assumes "fetch_state q c n p" and "next = desc_off_add (c (nq_sd_desc_off q)) n (nq_q_sz q)" and "unat p < unat n"
  shows "desc_pending q next c = int (unat n - unat p)" and "next \<noteq> c (nq_sd_desc_off q)"
proof -
  note f = fetch_stateD [OF assms(1)]
  have q0: "0 < unat (nq_q_sz q)" using ring_size_le [OF f(1)] by simp
  have d: "desc_off_diff next (c (nq_sd_desc_off q)) (nq_q_sz q) = n" unfolding assms(2) by (rule ring.diff_add [OF f(1,2,5) q0])
  show "desc_pending q next c = int (unat n - unat p)"
    unfolding desc_pending_def d f(3) uint_unat_int using assms(3) by linarith
  show "next \<noteq> c (nq_sd_desc_off q)"
  proof
    assume "next = c (nq_sd_desc_off q)"
    then have "desc_off_diff next (c (nq_sd_desc_off q)) (nq_q_sz q) = 0" by (simp add: desc_off_diff_def)
    then show False using d assms(3) by simp
  qed
qed

section \<open>Too many descriptors\<close>

lemma fetch_overrun:
  assumes "unat (src_i v) + j + k = length (src v)" and "int k * uint (nq_q_sz q) < nb"
  shows "fetch_loop q v off nb j n = Inl OutOfBounds"
  using assms
proof (induction k arbitrary: v off nb j n)
  case 0
  then show ?case unfolding fetch_loop.simps [of q v] by (simp add: Let_def)
next
  case (Suc k)
  let ?i = "if uint off + nb > uint (nq_q_sz q) then uint (nq_q_sz q) - uint off else nb"
  show ?case
  proof (cases "length (dst v) \<le> unat (dst_i v) + j")
    case True
    then show ?thesis unfolding fetch_loop.simps [of q v] by (simp add: Let_def)
  next
    case False
    have r: "\<not> (length (src v) \<le> unat (src_i v) + j \<or> length (dst v) \<le> unat (dst_i v) + j)" using False Suc(2) by simp
    have lt: "int k * uint (nq_q_sz q) + uint (nq_q_sz q) < nb" using Suc(3) by (simp add: algebra_simps)
    have q0: "0 \<le> uint (nq_q_sz q)" "0 \<le> uint off" "0 \<le> int k * uint (nq_q_sz q)" by simp_all
    then have big: "uint off + nb > uint (nq_q_sz q)" using lt by linarith
    have i: "?i = uint (nq_q_sz q) - uint off" using big by simp
    have nz: "\<not> nb - (uint (nq_q_sz q) - uint off) = 0" using lt q0 by linarith
    have left: "int k * uint (nq_q_sz q) < nb - (uint (nq_q_sz q) - uint off)" using lt q0 by linarith
    show ?thesis
      unfolding fetch_loop.simps [of q v] Let_def i if_not_P [OF r] if_not_P [OF nz]
      by (rule Suc(1)) (use Suc(2) left in simp_all)
  qed
qed

section \<open>Copying back\<close>

lemma ucast_of_nat_64_32: "ucast (of_nat m :: u64) = (of_nat m :: u32)"
  by transfer (simp add: take_bit_of_nat)

lemma copy_back_run:
  assumes "paired v" and "0 < room v" and "ring_off n start" and "ring_size n"
  shows "\<exists>v'. copy_back q v start k = Inr v' \<and> paired v' \<and> room v' = room v - 1 \<and> flush_thr v' = flush_thr v \<and>
    stream sent v' d = stream sent v d @ [(desc_sge (nq_sd_desc_base q) (off_index start, unat k), desc_sge (nq_desc_base q) (off_index start, unat k))]"
proof -
  let ?o = "ucast (DESC_OFF start) :: u16"
  have "off_index start < 32768" by (simp add: off_index_def)
  then have o: "off_index ?o = off_index start" using unat_DESC_OFF [of start] off_index_small [of ?o] by simp
  have "ucast (DESC_ENTRY_SZ * ucast k) = (of_nat (16 * unat k) :: u32)"
  proof -
    have "DESC_ENTRY_SZ * ucast k = (of_nat (16 * unat k) :: u64)" by (simp add: DESC_ENTRY_SZ_def)
    then show ?thesis using ucast_of_nat_64_32 by metis
  qed
  then have e: "copy_back q v start k = dao_dma_enq_x1 v (desc_sge (nq_sd_desc_base q) (off_index start, unat k)) (desc_sge (nq_desc_base q) (off_index start, unat k))"
    by (simp add: copy_back_def desc_ptr_index o desc_sge_def Let_def)
  show ?thesis unfolding e by (rule enq_x1_ok [OF assms(1,2)])
qed

text \<open>Where the range passes the end of the ring: the second part starts at the first descriptor.\<close>

lemma range_wraps:
  assumes "ring_size qn" and "ring_off qn start" and "unat n \<le> unat qn" and "unat qn < off_index start + unat n"
    and "stop = desc_off_add start n qn" and "k = desc_off_diff_no_wrap stop start qn" and "s2 = desc_off_add start k qn"
  shows "unat k = unat qn - off_index start" and "off_index s2 = 0" and "ring_off qn s2" and "stop - s2 = n - k"
    and "n - k \<noteq> 0" and "unat (n - k) = off_index start + unat n - unat qn" and "desc_off_add s2 (n - k) qn = stop"
proof -
  have i: "off_index start < unat qn" using assms(2) by (simp add: ring_off_def)
  have k: "unat k = min (unat n) (unat qn - off_index start)"
    using off_diff_no_wrap [OF assms(1-3) assms(5,6)] by simp
  show uk: "unat k = unat qn - off_index start" using k assms(4) by simp
  have kq: "unat k \<le> unat qn" and le: "unat k \<le> unat n" using uk k by simp_all
  show s2: "off_index s2 = 0" "ring_off qn s2"
    unfolding assms(7) using off_index_add [OF assms(1,2) kq] desc_off_add_pos(1) [OF assms(1,2) kq] uk i by simp_all
  have nk: "unat (n - k) = unat n - unat k" using le by (simp add: unat_sub word_le_nat_alt)
  have add: "stop = desc_off_add s2 (n - k) qn" unfolding assms(5,7) using ring.add_add [OF assms(1,2), of k "n - k"] nk le assms(3) by simp
  then show "desc_off_add s2 (n - k) qn = stop" by simp
  have lt: "unat (n - k) < unat qn" using nk uk assms(3,4) i by linarith
  have ix: "off_index stop = unat (n - k)" "bit stop 15 = bit s2 15"
    unfolding add using desc_off_add_wrap [OF assms(1) s2(2), of "n - k"] s2(1) lt by simp_all
  have "unat stop = unat s2 + unat (n - k)" using off_split [of stop] off_split [of s2] ix s2(1) by simp
  then have "stop = s2 + (n - k)"
    using unat_less_length [of stop] unat_add_small [of s2 "n - k"] by (simp add: word_unat_eq_iff)
  then show "stop - s2 = n - k" by simp
  show e: "unat (n - k) = off_index start + unat n - unat qn" using nk uk i by simp
  then have "0 < unat (n - k)" using assms(4) by linarith
  then show "n - k \<noteq> 0" by (metis less_irrefl unat_0)
qed

lemma copy_back_runs:
  assumes "ring_size (nq_q_sz q)" and "ring_off (nq_q_sz q) start" and "unat n \<le> unat (nq_q_sz q)"
    and "paired v" and "2 \<le> room v"
  obtains v' where "copy_back_range q v start (desc_off_add start n (nq_q_sz q)) = Inr v'" and "paired v'"
    and "stream sent v' d = stream sent v d @
      map (\<lambda>r. (desc_sge (nq_sd_desc_base q) r, desc_sge (nq_desc_base q) r)) (runs (unat (nq_q_sz q)) (off_index start) (unat n))"
proof -
  let ?q = "nq_q_sz q"
  let ?stop = "desc_off_add start n ?q"
  define k where "k = desc_off_diff_no_wrap ?stop start ?q"
  have k: "unat k = min (unat n) (unat ?q - off_index start)" "desc_off_diff ?stop (desc_off_add start k ?q) ?q = n - k"
    using off_diff_no_wrap [OF assms(1-3) refl k_def] by simp_all
  have i: "off_index start < unat ?q" using assms(2) by (simp add: ring_off_def)
  obtain v1 where v1: "copy_back q v start k = Inr v1" "paired v1" "room v1 = room v - 1"
    "stream sent v1 d = stream sent v d @ [(desc_sge (nq_sd_desc_base q) (off_index start, unat k), desc_sge (nq_desc_base q) (off_index start, unat k))]"
    using copy_back_run [OF assms(4) _ assms(2,1)] assms(5) by (metis less_le_trans zero_less_numeral)
  show thesis
  proof (cases "off_index start + unat n \<le> unat ?q")
    case True
    then have "k = n" using k(1) by (simp add: word_unat_eq_iff)
    then have "copy_back_range q v start ?stop = Inr v1" using v1(1) by (simp add: copy_back_range_def k_def [symmetric] Let_def)
    then show thesis using that v1(2,4) True \<open>k = n\<close> by (simp add: runs_def)
  next
    case False
    let ?s2 = "desc_off_add start k ?q"
    have "unat ?q < off_index start + unat n" using False by simp
    note w = range_wraps [OF assms(1-3) this refl k_def refl]
    obtain v2 where v2: "copy_back q v1 ?s2 (n - k) = Inr v2" "paired v2"
      "stream sent v2 d = stream sent v1 d @ [(desc_sge (nq_sd_desc_base q) (0, unat (n - k)), desc_sge (nq_desc_base q) (0, unat (n - k)))]"
      using copy_back_run [OF v1(2) _ w(3) assms(1), of q "n - k" sent d] v1(3) assms(5) w(2) by auto
    have "copy_back_range q v start ?stop = Inr v2"
      unfolding copy_back_range_def k_def [symmetric] Let_def v1(1) rbind_simps w(4) if_P [OF w(5)] by (rule v2(1))
    then show thesis using that v1(4) v2(2,3) False w(1,6) by (simp add: runs_def)
  qed
qed

end
