(* ===== verification/Net_Bufs.thy ===== *)
theory Net_Bufs
  imports Net_Facts "HOL-Library.Multiset"
begin

text \<open>
  The buffers of a ring: what is taken for a range of slots is what is returned for it, also when the range wraps and when the pool runs
  dry; and the descriptor word the device writes back.
\<close>

lemma slots_at_ok: "off + n \<le> length arr \<Longrightarrow> slots_at arr off n = Inr (take n (drop off arr))"
  by (simp add: slots_at_def)

lemma slots_put: "off + length bs \<le> length arr \<Longrightarrow> take (length bs) (drop off (put_slots arr off bs)) = bs"
  by (simp add: put_slots_def)

lemma drop_put_front: "length bs \<le> off \<Longrightarrow> drop off (put_slots xs 0 bs) = drop off xs"
  by (simp add: put_slots_def)

lemma first_run_cases:
  assumes "ring_size qn" and "unat off < unat qn" and "unat num \<le> unat qn"
  shows "unat off + unat (first_run off qn num) \<le> unat qn"
    and "unat (num - first_run off qn num) = unat off + unat num - unat qn" and "unat (first_run off qn num) \<le> unat num"
    and "num - first_run off qn num \<noteq> 0 \<Longrightarrow> second_off off qn num = 0"
proof -
  have n: "unat qn \<le> 32768" using ring_size_le [OF assms(1)] by simp
  have d: "unat (qn - off) = unat qn - unat off" using assms(2) by (simp add: unat_sub word_le_nat_alt)
  show a: "unat off + unat (first_run off qn num) \<le> unat qn" using d assms(2) by (auto simp: first_run_def)
  show c: "unat (first_run off qn num) \<le> unat num" using d by (auto simp: first_run_def)
  show b: "unat (num - first_run off qn num) = unat off + unat num - unat qn"
  proof (cases "unat off + unat num > unat qn")
    case True
    then have "unat (num - (qn - off)) = unat num - unat (qn - off)" using d by (simp add: unat_sub word_le_nat_alt)
    then show ?thesis using True d assms(2) by (simp add: first_run_def)
  qed (simp add: first_run_def)
  show "second_off off qn num = 0" if "num - first_run off qn num \<noteq> 0"
  proof -
    have "0 < unat (num - first_run off qn num)" using that by (simp add: unat_gt_0)
    then have "first_run off qn num = qn - off" using b by (simp add: first_run_def)
    then show ?thesis using and_ring_mask [OF assms(1), of qn] by (simp add: second_off_def)
  qed
qed

text \<open>\<open>out\<close> are the buffers a provider has handed out.\<close>

lemma bufs_round_trip:
  fixes out :: "'x \<Rightarrow> u64 multiset"
  assumes "ring_size qn" and "unat off < unat qn" and "unat num \<le> unat qn" and "length arr = unat qn"
    and get: "\<And>n x ok bs x'. get n x = (ok, bs, x') \<Longrightarrow> length bs = n \<and> out x' = (if ok then out x + mset bs else out x)"
    and put: "\<And>bs x. out (put bs x) = out x - mset bs"
  shows "\<exists>n arr' x' y. alloc_bufs get arr off qn num x = Inr (n, arr', x') \<and> unat n \<le> unat num \<and> length arr' = length arr \<and>
    free_bufs put arr' off qn n x' = Inr y \<and> out y = out x"
proof -
  let ?c = "first_run off qn num"
  note r = first_run_cases [OF assms(1-3)]
  obtain ok bs x1 where g1: "get (unat ?c) x = (ok, bs, x1)" by (metis prod_cases3)
  have b: "length bs = unat ?c" "out x1 = (if ok then out x + mset bs else out x)" using get [OF g1] by simp_all
  let ?arr1 = "put_slots arr (unat off) bs"
  have fit: "unat off + unat ?c \<le> length arr" using r(1) assms(4) by simp
  have l1: "length ?arr1 = length arr" using fit b(1) by simp
  have z: "free_bufs put a off qn 0 w = Inr (put [] w)" if "length a = unat qn" for a w
    using that assms(2) by (simp add: free_bufs_def first_run_def slots_at_ok)
  have one: "free_bufs put a off qn ?c w = Inr (put (take (unat ?c) (drop (unat off) a)) w)" if "length a = unat qn" for a w
    using that r(1) by (simp add: free_bufs_def first_run_def [of off qn ?c] slots_at_ok)
  show ?thesis
  proof (cases ok)
    case False
    have "alloc_bufs get arr off qn num x = Inr (0, ?arr1, x1)"
      using fit g1 False by (simp add: alloc_bufs_def slots_at_ok Let_def)
    then show ?thesis using z [of ?arr1] l1 assms(4) b(2) False put by auto
  next
    case True
    show ?thesis
    proof (cases "num - ?c = 0")
      case fin: True
      then have cn: "?c = num" by simp
      have "alloc_bufs get arr off qn num x = Inr (num, ?arr1, x1)"
        using fit g1 True fin by (simp add: alloc_bufs_def slots_at_ok Let_def)
      moreover have "take (unat ?c) (drop (unat off) ?arr1) = bs" using slots_put [of "unat off" bs arr] fit b(1) by simp
      ultimately show ?thesis using one [of ?arr1 x1] l1 assms(4) b(2) True put cn by auto
    next
      case more: False
      let ?c2 = "num - ?c"
      have o2: "second_off off qn num = 0" by (rule r(4) [OF more])
      obtain ok2 bs2 x2 where g2: "get (unat ?c2) x1 = (ok2, bs2, x2)" by (metis prod_cases3)
      have b2: "length bs2 = unat ?c2" "out x2 = (if ok2 then out x1 + mset bs2 else out x1)" using get [OF g2] by simp_all
      have c2: "unat ?c2 \<le> unat off" using r(2) assms(2,3) by simp
      let ?arr2 = "put_slots ?arr1 0 bs2"
      have fit2: "unat ?c2 \<le> length ?arr1" using c2 l1 fit by simp
      have l2: "length ?arr2 = length arr" using fit2 b2(1) l1 by simp
      have al: "alloc_bufs get arr off qn num x = Inr (if ok2 then num else num - ?c2, ?arr2, x2)"
        using fit g1 True more o2 g2 fit2 by (simp add: alloc_bufs_def slots_at_ok Let_def)
      have s1: "take (unat ?c) (drop (unat off) ?arr2) = bs"
      proof -
        have "drop (unat off) ?arr2 = drop (unat off) ?arr1" using c2 b2(1) by (intro drop_put_front) simp
        then show ?thesis using slots_put [of "unat off" bs arr] fit b(1) by simp
      qed
      have s2: "take (unat ?c2) ?arr2 = bs2" using slots_put [of 0 bs2 ?arr1] fit2 b2(1) by simp
      show ?thesis
      proof (cases ok2)
        case True
        have "free_bufs put ?arr2 off qn num x2 = Inr (put bs2 (put bs x2))"
          using more o2 s1 s2 r(1) c2 l2 fit assms(4) by (simp add: free_bufs_def slots_at_ok Let_def)
        moreover have "out (put bs2 (put bs x2)) = out x" using put b(2) b2(2) \<open>ok\<close> True by simp
        ultimately show ?thesis using al l2 True by auto
      next
        case False
        then have "num - ?c2 = ?c" by simp
        then show ?thesis using al one [of ?arr2 x2] l2 assms(4) s1 False put b(2) b2(2) \<open>ok\<close> r(3) by auto
      qed
    qed
  qed
qed

section \<open>Words in memory\<close>

lemma bit_load_bytes:
  "bit (foldr (\<lambda>i w. push_bit 8 w OR ucast (f i :: u8)) [j..<j + n] 0 :: u64) k \<longleftrightarrow> k < 64 \<and> k div 8 < n \<and> bit (f (j + k div 8)) (k mod 8)"
proof (induction n arbitrary: j k)
  case (Suc n)
  have u: "[j..<j + Suc n] = j # [Suc j..<Suc j + n]" by (simp add: upt_conv_Cons)
  have b8: "bit (f j) k \<Longrightarrow> k < 8" using bit_imp_le_length [of "f j" k] by simp
  show ?case
  proof (cases "k < 8")
    case True
    then show ?thesis unfolding u by (simp add: bit_or_iff bit_push_bit_iff bit_unsigned_iff)
  next
    case False
    then have d: "k div 8 = Suc ((k - 8) div 8)" "(k - 8) mod 8 = k mod 8" by (simp_all add: le_div_geq le_mod_geq)
    show ?thesis unfolding u using False Suc.IH [of "Suc j" "k - 8"] b8 d
      by (auto simp: bit_or_iff bit_push_bit_iff bit_unsigned_iff)
  qed
qed simp

lemma bit_load64: "bit (load64 m a) k \<longleftrightarrow> k < 64 \<and> bit (m (a + of_nat (k div 8))) (k mod 8)"
proof -
  have "bit (load64 m a) k \<longleftrightarrow> k < 64 \<and> k div 8 < 8 \<and> bit (m (a + of_nat (k div 8))) (k mod 8)"
    using bit_load_bytes [of "\<lambda>i. m (a + of_nat i)" 0 8 k] by (simp add: load64_def)
  then show ?thesis by auto
qed

lemma load_store64: "load64 (store64 m a v) a = v"
proof (rule bit_eqI)
  fix k
  show "bit (load64 (store64 m a v) a) k \<longleftrightarrow> bit v k"
  proof (cases "k < 64")
    case True
    then have "k div 8 < 8" by auto
    then have u: "unat (of_nat (k div 8) :: u64) = k div 8" by (simp add: unat_of_nat)
    have "8 * (k div 8) + k mod 8 = k" by simp
    then show ?thesis unfolding bit_load64 using True u \<open>k div 8 < 8\<close>
      by (simp add: store64_def bit_ucast_iff bit_drop_bit_eq)
  next
    case False
    then show ?thesis using bit_imp_le_length [of v k] by (auto simp: bit_load64)
  qed
qed

lemma store64_other: "\<not> unat (x - a) < 8 \<Longrightarrow> store64 m a v x = m x"
  by (simp add: store64_def)

end
