(* ===== verification/Net_Order.thy ===== *)
theory Net_Order
  imports Net_Bufs
begin

text \<open>
  The order of the offsets of a queue.  For a receive queue of the host the device acknowledges up to the completion offset, has sent up to
  the buffer offset, has started to send up to the last offset, and has fetched descriptors up to the shadow offset.  The worker side keeps
  this order, and it does not leave any array while it does.
\<close>

section \<open>A receive queue\<close>

text \<open>The offsets behind the completion offset \<open>co\<close>, as distances.\<close>

definition rx_dist :: "virtio_net_queue \<Rightarrow> cells \<Rightarrow> u16 \<Rightarrow> u16 \<Rightarrow> u16 \<Rightarrow> u16 \<Rightarrow> bool" where
  "rx_dist q c co k1 k2 k3 \<longleftrightarrow> ring_size (nq_q_sz q) \<and> ring_off (nq_q_sz q) co \<and>
     unat k1 \<le> unat k2 \<and> unat k2 \<le> unat k3 \<and> unat k3 \<le> unat (nq_q_sz q) \<and>
     c (nq_sd_mbuf_off q) = desc_off_add co k1 (nq_q_sz q) \<and> c (nq_last_off q) = desc_off_add co k2 (nq_q_sz q) \<and>
     c (nq_sd_desc_off q) = desc_off_add co k3 (nq_q_sz q) \<and> c (nq_pend_sd_mbuf q) = k2 - k1"

definition cells_apart :: "virtio_net_queue \<Rightarrow> bool" where
  "cells_apart q \<longleftrightarrow> distinct [nq_sd_desc_off q, nq_pend_sd_desc q, nq_sd_mbuf_off q, nq_pend_sd_mbuf q, nq_last_off q]"

text \<open>A buffer whose header says that it takes one descriptor, and whose header is not in the shadow ring.\<close>

definition one_desc :: "virtio_net_queue \<Rightarrow> memory \<Rightarrow> u64 \<Rightarrow> bool" where
  "one_desc q m b \<longleftrightarrow> load16 m (b + 26) = 1 \<and>
     (\<forall>i < unat (nq_q_sz q). \<not> unat (b + 26 - (nq_sd_desc_base q + 16 * of_nat i + 8)) < 8 \<and>
        \<not> unat (b + 26 + 1 - (nq_sd_desc_base q + 16 * of_nat i + 8)) < 8)"

lemma desc_ptr_index8: "DESC_PTR_OFF b a 8 = b + 16 * of_nat (off_index a) + 8"
  using desc_ptr_index [of b a] by (simp add: DESC_PTR_OFF_def)

lemma load16_store:
  "\<not> unat (x - a) < 8 \<Longrightarrow> \<not> unat (x + 1 - a) < 8 \<Longrightarrow> load16 (store64 m a w) x = load16 m x"
  unfolding load16_def by (simp only: store64_other not_False_eq_True)

lemma one_desc_store:
  assumes "one_desc q m b" and "unat off < unat (nq_q_sz q)" and "ring_size (nq_q_sz q)"
  shows "one_desc q (store64 m (DESC_PTR_OFF (nq_sd_desc_base q) off 8) w) b"
proof -
  have o: "off_index off = unat off" using assms(2) ring_size_le [OF assms(3)] by (intro off_index_small) simp
  have "\<forall>i < unat (nq_q_sz q). \<not> unat (b + 26 - (nq_sd_desc_base q + 16 * of_nat i + 8)) < 8 \<and>
        \<not> unat (b + 26 + 1 - (nq_sd_desc_base q + 16 * of_nat i + 8)) < 8" using assms(1) unfolding one_desc_def by (rule conjunct2)
  from this [rule_format, OF assms(2)]
  have "load16 (store64 m (DESC_PTR_OFF (nq_sd_desc_base q) off 8) w) (b + 26) = load16 m (b + 26)"
    unfolding desc_ptr_index8 o by (intro load16_store) (rule conjunct1, assumption, rule conjunct2, assumption)
  then show ?thesis using assms(1) unfolding one_desc_def by presburger
qed

text \<open>Queues that differ in the buffers of their slots only.\<close>

definition same_queue :: "virtio_net_queue \<Rightarrow> virtio_net_queue \<Rightarrow> bool" where
  "same_queue q q' \<longleftrightarrow> (\<exists>arr. q' = q\<lparr>nq_buf_arr := arr\<rparr> \<and> length arr = length (nq_buf_arr q))"

lemma push_one_ok:
  assumes "paired v" and "0 < room v" and "unat off < length (nq_buf_arr q)" and "unat off < unat (nq_q_sz q)" and "ring_size (nq_q_sz q)"
    and "one_desc q m b"
  obtains q' v' m' where "ext_push_one q off b v m = Inr (q', v', m', 1)" and "same_queue q q'" and "paired v'"
    and "flush_thr v' = flush_thr v" and "\<forall>b'. one_desc q m b' \<longrightarrow> one_desc q m' b'"
proof -
  define a where "a = DESC_PTR_OFF (nq_sd_desc_base q) off 8"
  define l where "l = (if ucast (load64 m (b + 8)) > (ucast (load64 m a) :: u32) then ucast (load64 m a) else (ucast (load64 m (b + 8)) :: u32))"
  define m1 where "m1 = store64 m a (avail_used (load64 m a AND 0xFFFFFFFF00000000) OR ucast l)"
  obtain v' where v': "dao_dma_enq_x1 v \<lparr>addr = b + 16, len = l\<rparr> \<lparr>addr = load64 m1 (DESC_PTR_OFF (nq_sd_desc_base q) off 0), len = l\<rparr> = Inr v'"
    "paired v'" "flush_thr v' = flush_thr v"
    using enq_x1_ok [OF assms(1,2), where sent = "\<lambda>_ :: unit. \<lambda>_. []" and d = "()"] by blast
  have k: "one_desc q m1 b'" if "one_desc q m b'" for b' unfolding m1_def a_def by (rule one_desc_store [OF that assms(4,5)])
  have one: "load16 m1 (b + 26) = 1" using k [OF assms(6)] by (simp add: one_desc_def)
  have le: "\<not> length (nq_buf_arr q) \<le> unat off" using assms(3) by simp
  show thesis
  proof (rule that [OF _ _ v'(2,3)])
    show "\<forall>b'. one_desc q m b' \<longrightarrow> one_desc q m1 b'" using k by blast
    show "ext_push_one q off b v m =
      Inr (q\<lparr>nq_buf_arr := (nq_buf_arr q)[unat off := b + scast (ucast (load64 m b) :: u16)]\<rparr>, v', m1, 1)"
      unfolding ext_push_one_def if_not_P [OF le] Let_def a_def [symmetric] l_def [symmetric] m1_def [symmetric] v'(1) rbind_simps one ..
  qed (auto simp: same_queue_def)
qed

lemma same_queueD:
  assumes "same_queue q q'"
  shows "nq_q_sz q' = nq_q_sz q" and "nq_sd_desc_base q' = nq_sd_desc_base q" and "length (nq_buf_arr q') = length (nq_buf_arr q)"
    and "one_desc q' = one_desc q" and "nq_last_off q' = nq_last_off q" and "nq_sd_mbuf_off q' = nq_sd_mbuf_off q"
    and "nq_sd_desc_off q' = nq_sd_desc_off q" and "nq_pend_sd_mbuf q' = nq_pend_sd_mbuf q" and "nq_pend_sd_desc q' = nq_pend_sd_desc q"
  using assms by (auto simp: same_queue_def one_desc_def fun_eq_iff)

lemma same_queue_refl: "same_queue q q"
  unfolding same_queue_def by (intro exI [of _ "nq_buf_arr q"]) simp

lemma same_queue_trans: "same_queue q q1 \<Longrightarrow> same_queue q1 q2 \<Longrightarrow> same_queue q q2"
  by (auto simp: same_queue_def)

lemma next_slot:
  assumes "ring_size n"
  shows "unat ((off + 1) AND (n - 1) :: u16) < unat n"
proof -
  have "unat (off + 1) mod unat n < unat n" "unat n < 2 ^ 16" using ring_size_le [OF assms] by simp_all
  then show ?thesis unfolding and_ring_mask [OF assms] by (simp add: unat_of_nat_small)
qed

lemma push_loop_ok:
  assumes "copy_laws ops sent" and "paired v" and "0 < room v" and "0 < flush_thr v" and "ring_size (nq_q_sz q)"
    and "length (nq_buf_arr q) = unat (nq_q_sz q)" and "unat off < unat (nq_q_sz q)" and "\<forall>b \<in> set bs. one_desc q m b"
  shows "\<exists>k idx' q' v' m' d'. ext_push_loop ops bs off i u idx q v m d = Inr (i + of_nat k, u + of_nat k, idx', q', v', m', d') \<and>
    k \<le> length bs \<and> (bs \<noteq> [] \<longrightarrow> 0 < k) \<and> same_queue q q' \<and> paired v' \<and> flush_thr v' = flush_thr v"
  using assms(2-)
proof (induction bs arbitrary: off i u idx q v m d)
  case Nil
  have "ext_push_loop ops [] off i u idx q v m d = Inr (i + of_nat 0, u + of_nat 0, idx, q, v, m, d)" by simp
  moreover have "0 \<le> length ([] :: u64 list)" "([] :: u64 list) \<noteq> [] \<longrightarrow> 0 < (0 :: nat)" by simp_all
  ultimately show ?case using Nil(1) same_queue_refl by blast
next
  case (Cons b bs)
  have ol: "unat off < length (nq_buf_arr q)" and od: "one_desc q m b" using Cons.prems(5-7) by simp_all
  obtain q1 v1 m1 where p: "ext_push_one q off b v m = Inr (q1, v1, m1, 1)" "same_queue q q1" "paired v1" "flush_thr v1 = flush_thr v"
    "\<forall>b'. one_desc q m b' \<longrightarrow> one_desc q m1 b'"
    by (rule push_one_ok [OF Cons.prems(1,2) ol Cons.prems(6,4) od])
  note sq = same_queueD [OF p(2)]
  obtain ok v2 d1 where f: "dao_dma_flush ops v1 1 d = (ok, v2, d1)" by (metis prod_cases3)
  have v2: "paired v2" "flush_thr v2 = flush_thr v" using flush_ok [OF p(3) assms(1) f] p(4) by simp_all
  show ?case
  proof (cases ok)
    case False
    have "ext_push_loop ops (b # bs) off i u idx q v m d = Inr (i + of_nat 1, u + of_nat 1, tail v1, q1, v2, m1, d1)"
      using p(1) f False by simp
    moreover have "1 \<le> length (b # bs)" "b # bs \<noteq> [] \<longrightarrow> 0 < (1 :: nat)" by simp_all
    ultimately show ?thesis using p(2) v2 by blast
  next
    case True
    have "0 < unat (flush_thr v)" using Cons.prems(3) by (simp add: word_less_nat_alt)
    then have t: "unat (1 :: u8) \<le> unat (flush_thr v1)" using p(4) by simp
    have r: "0 < room v2" using flush_room [OF p(3) assms(1) f [unfolded eqTrueI [OF True]] t] by simp
    let ?off = "(off + 1) AND (nq_q_sz q - 1)"
    have o: "unat ?off < unat (nq_q_sz q1)" unfolding sq(1) by (rule next_slot [OF Cons.prems(4)])
    have "\<exists>k idx' q' v' m' d'. ext_push_loop ops bs ?off (i + 1) (u + 1) (tail v1) q1 v2 m1 d1 =
        Inr (i + 1 + of_nat k, u + 1 + of_nat k, idx', q', v', m', d') \<and> k \<le> length bs \<and> (bs \<noteq> [] \<longrightarrow> 0 < k) \<and> same_queue q1 q' \<and> paired v' \<and> flush_thr v' = flush_thr v2"
    proof (rule Cons.IH)
      show "0 < flush_thr v2" using v2(2) Cons.prems(3) by simp
      show "ring_size (nq_q_sz q1)" "length (nq_buf_arr q1) = unat (nq_q_sz q1)" using Cons.prems(4,5) sq by simp_all
      show "\<forall>b \<in> set bs. one_desc q1 m1 b" using Cons.prems(7) p(5) sq(4) by simp
    qed (use v2 r o in simp_all)
    then obtain k idx' q' v' m' d' where "ext_push_loop ops bs ?off (i + 1) (u + 1) (tail v1) q1 v2 m1 d1 =
        Inr (i + 1 + of_nat k, u + 1 + of_nat k, idx', q', v', m', d')" "k \<le> length bs" "same_queue q1 q'" "paired v'" "flush_thr v' = flush_thr v"
      using v2(2) by metis
    moreover from this(1) have "ext_push_loop ops (b # bs) off i u idx q v m d = Inr (i + of_nat (Suc k), u + of_nat (Suc k), idx', q', v', m', d')"
      using p(1) f True by (simp add: add.assoc)
    moreover have "same_queue q q'" "Suc k \<le> length (b # bs)" "b # bs \<noteq> [] \<longrightarrow> 0 < Suc k"
      using same_queue_trans [OF p(2) calculation(3)] calculation(2) by simp_all
    ultimately show ?thesis by blast
  qed
qed

lemma check_compl_paired:
  "dao_dma_check_compl ops v d = (v', d') \<Longrightarrow> paired v \<Longrightarrow> paired v' \<and> flush_thr v' = flush_thr v"
  by (auto simp: dao_dma_check_compl_def paired_def Let_def split: prod.splits if_splits)

lemma rx_distD:
  assumes "rx_dist q c co k1 k2 k3"
  shows "ring_size (nq_q_sz q)" and "ring_off (nq_q_sz q) co" and "unat k1 \<le> unat k2" and "unat k2 \<le> unat k3"
    and "unat k3 \<le> unat (nq_q_sz q)" and "c (nq_sd_mbuf_off q) = desc_off_add co k1 (nq_q_sz q)"
    and "c (nq_last_off q) = desc_off_add co k2 (nq_q_sz q)" and "c (nq_sd_desc_off q) = desc_off_add co k3 (nq_q_sz q)"
    and "c (nq_pend_sd_mbuf q) = k2 - k1"
  using assms unfolding rx_dist_def by blast+

lemma rx_dist_finished:
  assumes "rx_dist q c co k1 k2 k3" and "cells_apart q"
  shows "rx_dist q (c(nq_sd_mbuf_off q := c (nq_last_off q), nq_pend_sd_mbuf q := 0)) co k2 k2 k3"
  using rx_distD [OF assms(1)] assms(2) by (auto simp: rx_dist_def cells_apart_def)

lemma rx_dist_pushed:
  assumes "rx_dist q c co k1 k2 k3" and "cells_apart q" and "k \<le> unat k3 - unat k2" and "same_queue q q'"
  shows "rx_dist q' (c(nq_last_off q := desc_off_add (c (nq_last_off q)) (of_nat k) (nq_q_sz q),
      nq_pend_sd_mbuf q := c (nq_pend_sd_mbuf q) + of_nat k)) co k1 (k2 + of_nat k) k3"
    and "unat (k2 + of_nat k) = unat k2 + k"
proof -
  note r = rx_distD [OF assms(1)] and s = same_queueD [OF assms(4)]
  have q: "unat (nq_q_sz q) \<le> 32768" using ring_size_le [OF r(1)] by simp
  have k: "unat (of_nat k :: u16) = k" using assms(3) r(5) q by (intro unat_of_nat_small) simp
  then show u: "unat (k2 + of_nat k) = unat k2 + k"
    using unat_add_small [of k2 "of_nat k"] assms(3) r(4,5) q by simp
  have "desc_off_add (c (nq_last_off q)) (of_nat k) (nq_q_sz q) = desc_off_add co (k2 + of_nat k) (nq_q_sz q)"
    unfolding r(7) using k assms(3) r(4,5) by (intro ring.add_add [OF r(1,2)]) simp
  then show "rx_dist q' (c(nq_last_off q := desc_off_add (c (nq_last_off q)) (of_nat k) (nq_q_sz q),
      nq_pend_sd_mbuf q := c (nq_pend_sd_mbuf q) + of_nat k)) co k1 (k2 + of_nat k) k3"
    using r assms(2,3) u unfolding rx_dist_def s by (auto simp: cells_apart_def)
qed

text \<open>How many buffers are sent.\<close>

lemma enq_count:
  assumes "rx_dist q c co k1 k2 k3" and "n < 2 ^ 16"
  shows "unat (word_of_int (min (int (min (unat (desc_off_diff (c (nq_sd_desc_off q)) (c (nq_last_off q)) (nq_q_sz q))) n))
      (uint (nq_q_sz q) - uint (c (nq_pend_sd_mbuf q)))) :: u16) =
    min (min (unat k3 - unat k2) n) (unat (nq_q_sz q) - (unat k2 - unat k1))"
proof -
  note r = rx_distD [OF assms(1)]
  have q0: "0 < unat (nq_q_sz q)" using ring_size_le [OF r(1)] by simp
  have d: "unat (desc_off_diff (c (nq_sd_desc_off q)) (c (nq_last_off q)) (nq_q_sz q)) = unat k3 - unat k2"
    unfolding r(7,8) ring.diff_add_add [OF r(1,2,4,5) q0] using r(4) by (simp add: unat_sub word_le_nat_alt)
  have p: "unat (c (nq_pend_sd_mbuf q)) = unat k2 - unat k1" unfolding r(9) using r(3) by (simp add: unat_sub word_le_nat_alt)
  have "uint (nq_q_sz q) - uint (c (nq_pend_sd_mbuf q)) = int (unat (nq_q_sz q) - (unat k2 - unat k1))"
    unfolding uint_unat_int p using r(4,5) by linarith
  then have "min (int (min (unat k3 - unat k2) n)) (uint (nq_q_sz q) - uint (c (nq_pend_sd_mbuf q))) =
      int (min (min (unat k3 - unat k2) n) (unat (nq_q_sz q) - (unat k2 - unat k1)))" by linarith
  moreover have "min (min (unat k3 - unat k2) n) (unat (nq_q_sz q) - (unat k2 - unat k1)) < 2 ^ 16" using assms(2) by simp
  ultimately show ?thesis unfolding d by (simp add: unat_of_nat_small)
qed

text \<open>The state of a worker on a receive queue.\<close>

definition rx_ready :: "'d dma_ops \<Rightarrow> 'd sent \<Rightarrow> ('x, 'd) net_st \<Rightarrow> bool" where
  "rx_ready ops sent s \<longleftrightarrow> copy_laws ops sent \<and> cells_apart (ns_q s) \<and> paired (ns_v s) \<and> 0 < flush_thr (ns_v s) \<and>
     length (nq_buf_arr (ns_q s)) = unat (nq_q_sz (ns_q s))"

lemma push_ext_ok:
  assumes "rx_ready ops sent s" and "rx_dist (ns_q s) (ns_c s) co k1 k2 k3" and "\<forall>b \<in> set bs. one_desc (ns_q s) (ns_m s) b"
    and "length bs \<le> unat k3 - unat k2" and "bs \<noteq> []"
  shows "\<exists>k s'. push_enq_ext_data ops bs s = Inr (of_nat k, s') \<and> k \<le> length bs \<and> rx_dist (ns_q s') (ns_c s') co k1 (k2 + of_nat k) k3 \<and>
    unat (k2 + of_nat k) = unat k2 + k \<and> rx_ready ops sent s'"
proof -
  let ?q = "ns_q s" and ?c = "ns_c s"
  have a: "copy_laws ops sent" "cells_apart ?q" "paired (ns_v s)" "0 < flush_thr (ns_v s)" "length (nq_buf_arr ?q) = unat (nq_q_sz ?q)"
    using assms(1) by (simp_all add: rx_ready_def)
  note r = rx_distD [OF assms(2)]
  obtain ok v d where f: "dao_dma_flush ops (ns_v s) 1 (ns_d s) = (ok, v, d)" by (metis prod_cases3)
  have v: "paired v" "flush_thr v = flush_thr (ns_v s)" using flush_ok [OF a(3,1) f] by simp_all
  show ?thesis
  proof (cases ok)
    case False
    have "push_enq_ext_data ops bs s = Inr (of_nat 0, s\<lparr>ns_v := v, ns_d := d\<rparr>)" using f False by (simp add: push_enq_ext_data_def)
    then show ?thesis using assms(2) v a by (intro exI [of _ 0] exI [of _ "s\<lparr>ns_v := v, ns_d := d\<rparr>"]) (simp add: rx_ready_def)
  next
    case True
    have t: "unat (1 :: u8) \<le> unat (flush_thr (ns_v s))" using a(4) by (simp add: word_less_nat_alt Suc_le_eq)
    have rm: "0 < room v" using flush_room [OF a(3,1) f [unfolded eqTrueI [OF True]] t] by simp
    have le: "unat k2 \<le> unat (nq_q_sz ?q)" using r(4,5) by simp
    have o: "unat (ucast (DESC_OFF (?c (nq_last_off ?q))) :: u16) < unat (nq_q_sz ?q)"
      unfolding unat_DESC_OFF r(7) using desc_off_add_pos(1) [OF r(1,2) le] by (simp add: ring_off_def)
    have th: "0 < flush_thr v" using a(4) v(2) by simp
    obtain k idx q' v' m' d' where p: "ext_push_loop ops bs (ucast (DESC_OFF (?c (nq_last_off ?q)))) 0 0 0 ?q v (ns_m s) d =
        Inr (0 + of_nat k, 0 + of_nat k, idx, q', v', m', d')" "k \<le> length bs" "bs \<noteq> [] \<longrightarrow> 0 < k" "same_queue ?q q'" "paired v'" "flush_thr v' = flush_thr v"
      using push_loop_ok [OF a(1) v(1) rm th r(1) a(5) o assms(3), of 0 0 0 d] by blast
    note s = same_queueD [OF p(4)]
    have k: "k \<le> unat k3 - unat k2" "0 < k" using p(2,3) assms(4,5) by simp_all
    have "k < 65536" using k r(5) ring_size_le [OF r(1)] by linarith
    then have "unat (of_nat k :: u16) = k" by (intro unat_of_nat_small) simp
    then have nz: "(of_nat k :: u16) \<noteq> 0" using k(2) by (metis less_irrefl unat_0)
    let ?c' = "?c(nq_last_off ?q := desc_off_add (?c (nq_last_off ?q)) (of_nat k) (nq_q_sz ?q), nq_pend_sd_mbuf ?q := ?c (nq_pend_sd_mbuf ?q) + of_nat k)"
    let ?s = "s\<lparr>ns_v := v', ns_m := m', ns_d := d', ns_q := q'\<lparr>nq_pend_sd_mbuf_idx := idx\<rparr>, ns_c := ?c'\<rparr>"
    have "push_enq_ext_data ops bs s = Inr (of_nat k, ?s)"
      using f True p(1) nz by (simp add: push_enq_ext_data_def Let_def)
    moreover have d: "rx_dist q' ?c' co k1 (k2 + of_nat k) k3" and "unat (k2 + of_nat k) = unat k2 + k" by (rule rx_dist_pushed [OF assms(2) a(2) k(1) p(4)])+
    moreover have "rx_dist (ns_q ?s) (ns_c ?s) co k1 (k2 + of_nat k) k3" using rx_distD [OF d] unfolding rx_dist_def by simp
    moreover have "rx_ready ops sent ?s" using p(5,6) a s v(2) by (simp add: rx_ready_def cells_apart_def)
    ultimately show ?thesis using p(2) by blast
  qed
qed

lemma enq_ext_ok:
  assumes "rx_ready ops sent s" and "rx_dist (ns_q s) (ns_c s) co k1 k2 k3" and "\<forall>b \<in> set bs. one_desc (ns_q s) (ns_m s) b"
    and "length bs < 2 ^ 16"
  obtains k k1' s' where "virtio_net_enq_ext ops bs s = Inr (of_nat k, s')" and "k \<le> length bs" and "unat k1 \<le> unat k1'"
    and "rx_dist (ns_q s') (ns_c s') co k1' (k2 + of_nat k) k3" and "unat (k2 + of_nat k) = unat k2 + k" and "rx_ready ops sent s'"
proof -
  let ?q = "ns_q s"
  obtain v d where cc: "dao_dma_check_compl ops (ns_v s) (ns_d s) = (v, d)" by fastforce
  have a: "copy_laws ops sent" "cells_apart ?q" "paired v" "0 < flush_thr v" "length (nq_buf_arr ?q) = unat (nq_q_sz ?q)"
    using assms(1) check_compl_paired [OF cc] by (simp_all add: rx_ready_def)
  define s1 where "s1 = process_enq_compl (s\<lparr>ns_v := v, ns_d := d\<rparr>)"
  obtain k1' where s1: "ns_q s1 = ?q" "ns_m s1 = ns_m s" "ns_v s1 = v" "rx_dist ?q (ns_c s1) co k1' k2 k3" "unat k1 \<le> unat k1'"
  proof (cases "ns_c s (nq_sd_mbuf_off ?q) \<noteq> ns_c s (nq_last_off ?q) \<and> dao_dma_op_status v (nq_pend_sd_mbuf_idx ?q)")
    case True
    then show thesis using that [of k2] rx_dist_finished [OF assms(2) a(2)] rx_distD(3) [OF assms(2)] by (simp add: s1_def process_enq_compl_def Let_def)
  next
    case False
    then show thesis using that [of k1] assms(2) by (auto simp: s1_def process_enq_compl_def Let_def)
  qed
  define n where "n = min (min (unat k3 - unat k2) (length bs)) (unat (nq_q_sz ?q) - (unat k2 - unat k1'))"
  have e: "virtio_net_enq_ext ops bs s = (if n = 0 then Inr (0, s1) else push_enq_ext_data ops (take n bs) s1)"
  proof -
    have "\<not> length bs < n" by (simp add: n_def)
    then show ?thesis
      unfolding virtio_net_enq_ext_def cc prod.case s1_def [symmetric] Let_def s1(1) enq_count [OF s1(4) assms(4)] n_def [symmetric] by simp
  qed
  have ready: "rx_ready ops sent s1" using a s1 by (simp add: rx_ready_def)
  show thesis
  proof (cases "n = 0")
    case True
    then show thesis using that [of 0 s1 k1'] e s1 ready by simp
  next
    case False
    have "\<forall>b \<in> set (take n bs). one_desc (ns_q s1) (ns_m s1) b" using assms(3) s1 by (auto dest: in_set_takeD)
    moreover have "length (take n bs) \<le> unat k3 - unat k2" "take n bs \<noteq> []" "length (take n bs) \<le> length bs" using False by (auto simp: n_def)
    ultimately obtain k s' where "push_enq_ext_data ops (take n bs) s1 = Inr (of_nat k, s')" "k \<le> length (take n bs)"
      "rx_dist (ns_q s') (ns_c s') co k1' (k2 + of_nat k) k3" "unat (k2 + of_nat k) = unat k2 + k" "rx_ready ops sent s'"
      using push_ext_ok [OF ready, of co k1' k2 k3 "take n bs"] s1 by metis
    then show thesis using that [of k s' k1'] e False s1(5) by simp
  qed
qed

end
