(* ===== verification/Net_Deq.thy ===== *)
theory Net_Deq
  imports Net_Order
begin

text \<open>
  The worker side of a queue the host sends on: descriptors that fit into a buffer are copied without a fault, the offsets keep their order,
  and the buffers come out in ring order.
\<close>

section \<open>A transmit queue\<close>

text \<open>The offsets of a queue the host sends on: the buffers up to the last offset were handed to the application, the data up to the buffer
  offset has arrived, and descriptors were fetched up to the shadow offset.\<close>

definition tx_dist :: "virtio_net_queue \<Rightarrow> cells \<Rightarrow> u16 \<Rightarrow> u16 \<Rightarrow> u16 \<Rightarrow> u16 \<Rightarrow> bool" where
  "tx_dist q c co k1 k2 k3 \<longleftrightarrow> ring_size (nq_q_sz q) \<and> ring_off (nq_q_sz q) co \<and>
     unat k1 \<le> unat k2 \<and> unat k2 + unat (c (nq_pend_sd_mbuf q)) \<le> unat k3 \<and> unat k3 \<le> unat (nq_q_sz q) \<and>
     c (nq_last_off q) = desc_off_add co k1 (nq_q_sz q) \<and> c (nq_sd_mbuf_off q) = desc_off_add co k2 (nq_q_sz q) \<and>
     c (nq_sd_desc_off q) = desc_off_add co k3 (nq_q_sz q)"

lemma tx_distD:
  assumes "tx_dist q c co k1 k2 k3"
  shows "ring_size (nq_q_sz q)" and "ring_off (nq_q_sz q) co" and "unat k1 \<le> unat k2"
    and "unat k2 + unat (c (nq_pend_sd_mbuf q)) \<le> unat k3" and "unat k3 \<le> unat (nq_q_sz q)"
    and "c (nq_last_off q) = desc_off_add co k1 (nq_q_sz q)" and "c (nq_sd_mbuf_off q) = desc_off_add co k2 (nq_q_sz q)"
    and "c (nq_sd_desc_off q) = desc_off_add co k3 (nq_q_sz q)"
  using assms unfolding tx_dist_def by blast+

lemma tx_dist_finished:
  assumes "tx_dist q c co k1 k2 k3" and "cells_apart q"
  defines "p \<equiv> c (nq_pend_sd_mbuf q)"
  shows "tx_dist q (c(nq_sd_mbuf_off q := desc_off_add (c (nq_sd_mbuf_off q)) p (nq_q_sz q), nq_pend_sd_mbuf q := 0)) co k1 (k2 + p) k3"
    and "unat (k2 + p) = unat k2 + unat p"
proof -
  note r = tx_distD [OF assms(1)]
  have q: "unat (nq_q_sz q) \<le> 32768" using ring_size_le [OF r(1)] by simp
  show u: "unat (k2 + p) = unat k2 + unat p" using r(4,5) q by (intro unat_add_small) (simp add: p_def)
  have "desc_off_add (c (nq_sd_mbuf_off q)) p (nq_q_sz q) = desc_off_add co (k2 + p) (nq_q_sz q)"
    unfolding r(7) using r(4,5) by (intro ring.add_add [OF r(1,2)]) (simp add: p_def)
  then show "tx_dist q (c(nq_sd_mbuf_off q := desc_off_add (c (nq_sd_mbuf_off q)) p (nq_q_sz q), nq_pend_sd_mbuf q := 0)) co k1 (k2 + p) k3"
    using r assms(2) u unfolding tx_dist_def by (auto simp: cells_apart_def p_def)
qed

section \<open>Descriptors that fit\<close>

text \<open>The length of the data of a descriptor is in the low half of its second word.\<close>

definition short_descs :: "virtio_net_queue \<Rightarrow> memory \<Rightarrow> bool" where
  "short_descs q m \<longleftrightarrow> (\<forall>i < unat (nq_q_sz q).
     (ucast (load64 m (nq_sd_desc_base q + 16 * of_nat i + 8)) :: u32) \<le> ucast (nq_buf_len q))"

text \<open>The headers of the buffers are not in the shadow ring.\<close>

definition bufs_apart :: "virtio_net_queue \<Rightarrow> bool" where
  "bufs_apart q \<longleftrightarrow> (\<forall>b \<in> set (nq_buf_arr q). \<forall>i < unat (nq_q_sz q). \<forall>l < 4.
     \<not> unat (nq_sd_desc_base q + 16 * of_nat i + 8 + of_nat l - b) < 16)"

lemma low_half_cong:
  assumes "\<forall>l < 4. m (a + of_nat l) = m' (a + of_nat l)"
  shows "(ucast (load64 m a) :: u32) = ucast (load64 m' a)"
proof (rule bit_word_eqI)
  fix n assume "n < LENGTH(32)"
  then have "n div 8 < 4" by simp
  then have "m (a + of_nat (n div 8)) = m' (a + of_nat (n div 8))" using assms by blast
  then show "bit (ucast (load64 m a) :: u32) n = bit (ucast (load64 m' a) :: u32) n" by (simp only: bit_ucast_iff bit_load64)
qed

lemma low_half_store:
  "\<forall>l < 4. \<not> unat (a + of_nat l - b) < 8 \<Longrightarrow> (ucast (load64 (store64 m b w) a) :: u32) = ucast (load64 m a)"
  by (rule low_half_cong) (simp add: store64_other)

lemma near_split:
  assumes "unat (x - (b + 8) :: u64) < 8"
  shows "unat (x - b) < 16"
proof -
  define y where "y = x - (b + 8)"
  have "unat (y + 8) = unat y + 8" using assms unfolding y_def [symmetric] by (simp add: unat_word_ariths)
  moreover have "x - b = y + 8" by (simp add: y_def)
  ultimately show ?thesis using assms unfolding y_def [symmetric] by simp
qed

lemma short_descs_header:
  assumes "short_descs q m" and "bufs_apart q" and "b \<in> set (nq_buf_arr q)"
  shows "short_descs q (store64 (store64 m b w) (b + 8) w')"
proof -
  have n: "\<not> unat (nq_sd_desc_base q + 16 * of_nat i + 8 + of_nat l - b) < 16" if "i < unat (nq_q_sz q)" "l < 4" for i l
    using assms(2,3) that unfolding bufs_apart_def by blast
  have "(ucast (load64 (store64 (store64 m b w) (b + 8) w') (nq_sd_desc_base q + 16 * of_nat i + 8)) :: u32) =
      ucast (load64 m (nq_sd_desc_base q + 16 * of_nat i + 8))" if "i < unat (nq_q_sz q)" for i
  proof -
    have "\<forall>l < 4. \<not> unat (nq_sd_desc_base q + 16 * of_nat i + 8 + of_nat l - (b + 8)) < 8" using n [OF that] near_split by blast
    moreover have "\<forall>l < 4. \<not> unat (nq_sd_desc_base q + 16 * of_nat i + 8 + of_nat l - b) < 8" using n [OF that] by fastforce
    ultimately show ?thesis by (simp only: low_half_store)
  qed
  then show ?thesis using assms(1) unfolding short_descs_def by simp
qed

lemma slots_spaced:
  assumes "i < 32768" and "j < 32768" and "i \<noteq> j" and "l < 4"
  shows "\<not> unat ((B + 16 * of_nat i + 8) + of_nat l - (B + 16 * of_nat j + 8) :: u64) < 8"
proof -
  have e: "(B + 16 * of_nat i + 8) + of_nat l - (B + 16 * of_nat j + 8) = (of_nat (16 * i + l) - of_nat (16 * j) :: u64)" by (simp add: algebra_simps)
  have u: "unat (of_nat (16 * i + l) :: u64) = 16 * i + l" "unat (of_nat (16 * j) :: u64) = 16 * j"
    using assms by (intro unat_of_nat_small; simp)+
  show ?thesis
  proof (cases "j < i")
    case True
    then have "unat (of_nat (16 * i + l) - of_nat (16 * j) :: u64) = 16 * i + l - 16 * j" using u by (subst unat_sub) (simp_all add: word_le_nat_alt)
    then show ?thesis unfolding e using True by simp
  next
    case False
    then have "16 * i + l < 16 * j" using assms by simp
    then have "unat (of_nat (16 * i + l) - of_nat (16 * j) :: u64) = 2 ^ 64 + (16 * i + l) - 16 * j"
      using u assms by (subst unat_sub_if_size) (simp add: word_size)
    then show ?thesis unfolding e using assms by simp
  qed
qed

lemma avail_used_low: "(ucast (avail_used w) :: u32) = ucast w"
proof (rule bit_word_eqI)
  fix n assume n: "n < LENGTH(32)"
  have e: "VIRT_PACKED_RING_DESC_F_AVAIL_USED = push_bit 55 257" by (simp add: VIRT_PACKED_RING_DESC_F_AVAIL_USED_def push_bit_eq_mult)
  have "\<not> bit VIRT_PACKED_RING_DESC_F_AVAIL_USED n" unfolding e bit_push_bit_iff using n by simp
  then show "bit (ucast (avail_used w) :: u32) n = bit (ucast w :: u32) n"
    using n by (simp add: avail_used_def Let_def bit_ucast_iff bit_or_iff bit_push_bit_iff bit_and_iff bit_not_iff)
qed

lemma short_descs_flags:
  assumes "short_descs q m" and "unat off < unat (nq_q_sz q)" and "ring_size (nq_q_sz q)"
  shows "short_descs q (store64 m (DESC_PTR_OFF (nq_sd_desc_base q) off 8) (avail_used (load64 m (DESC_PTR_OFF (nq_sd_desc_base q) off 8))))"
    (is "short_descs q (store64 m ?a ?w)")
proof -
  have q: "unat (nq_q_sz q) \<le> 32768" using ring_size_le [OF assms(3)] by simp
  have o: "off_index off = unat off" using assms(2) q by (intro off_index_small) simp
  have "(ucast (load64 (store64 m ?a ?w) (nq_sd_desc_base q + 16 * of_nat i + 8)) :: u32) =
      ucast (load64 m (nq_sd_desc_base q + 16 * of_nat i + 8))" if i: "i < unat (nq_q_sz q)" for i
  proof (cases "i = unat off")
    case True
    have a: "nq_sd_desc_base q + 16 * of_nat i + 8 = ?a" unfolding desc_ptr_index8 o True ..
    show ?thesis unfolding a load_store64 by (rule avail_used_low)
  next
    case False
    have "\<forall>l < 4. \<not> unat (nq_sd_desc_base q + 16 * of_nat i + 8 + of_nat l - ?a) < 8"
      unfolding desc_ptr_index8 o using slots_spaced [OF _ _ False] i assms(2) q by simp
    then show ?thesis by (rule low_half_store)
  qed
  then show ?thesis using assms(1) unfolding short_descs_def by simp
qed

lemma fetch_one_ok:
  assumes "paired v" and "0 < room v" and "unat off < length (nq_buf_arr q)" and "unat off < unat (nq_q_sz q)" and "ring_size (nq_q_sz q)"
    and "short_descs q m" and "bufs_apart q"
  obtains v' m' where "ext_fetch_one bo q flags off v m x = Inr (v', m', x)" and "paired v'" and "flush_thr v' = flush_thr v"
    and "short_descs q m'"
proof -
  define a where "a = DESC_PTR_OFF (nq_sd_desc_base q) off 8"
  define buf where "buf = nq_buf_arr q ! unat off"
  define ni where "ni = (flags AND VIRTIO_NET_DEQ_OFFLOAD_NOINOR \<noteq> 0)"
  define fl where "fl = load64 m a"
  define slen where "slen = (ucast fl :: u32)"
  define m1 where "m1 = (if ni then store64 m a (avail_used fl) else m)"
  define fl1 where "fl1 = (if ni then fl AND NOT VIRT_PACKED_RING_DESC_F_AVAIL_USED else fl)"
  define w where "w = ucast slen OR (fl1 AND 0xFFFF000000000000)"
  have le: "\<not> length (nq_buf_arr q) \<le> unat off" using assms(3) by simp
  have o: "off_index off = unat off" using assms(4) ring_size_le [OF assms(5)] by (intro off_index_small) simp
  have "slen \<le> ucast (nq_buf_len q)" using assms(4,6) unfolding slen_def fl_def a_def desc_ptr_index8 o short_descs_def by blast
  then have sh: "(slen > ucast (nq_buf_len q)) = False" by (simp add: not_less)
  have m1: "short_descs q m1" unfolding m1_def fl_def a_def using assms(6) short_descs_flags [OF assms(6,4,5)] by simp
  let ?s = "\<lparr>addr = load64 m1 (DESC_PTR_OFF (nq_sd_desc_base q) off 0), len = slen\<rparr>" and ?t = "\<lparr>addr = buf + 16, len = slen\<rparr>"
  let ?m' = "store64 (store64 m1 buf 0) (buf + 8) w"
  obtain v' where v': "dao_dma_enq_x1 v ?s ?t = Inr v'" "paired v'" "flush_thr v' = flush_thr v"
    using enq_x1_ok [OF assms(1,2), where sent = "\<lambda>_ :: unit. \<lambda>_. []" and d = "()"] by blast
  have i: "unat (src_i v) < length (src v)" "unat (dst_i v) < length (dst v)"
    using assms(1,2) by (auto simp: paired_def room_def DAO_DMA_MAX_POINTER_def)
  have e: "ext_fetch_one bo q flags off v m x = Inr (v', ?m', x)"
    unfolding ext_fetch_one_def if_not_P [OF le] Let_def a_def [symmetric] buf_def [symmetric] ni_def [symmetric]
      fl_def [symmetric] slen_def [symmetric] m1_def [symmetric] fl1_def [symmetric] sh if_False w_def [symmetric]
    using v'(1) i by (cases v) (simp add: put_src_def put_dst_def dao_dma_enq_x1_def ext_segs.simps)
  have "short_descs q ?m'" using assms(3) by (intro short_descs_header [OF m1 assms(7)]) (simp add: buf_def)
  then show thesis by (rule that [OF e v'(2,3)])
qed

lemma fetch_loop_ok:
  assumes "copy_laws ops sent" and "paired v" and "0 < room v" and "0 < flush_thr v" and "ring_size (nq_q_sz q)"
    and "length (nq_buf_arr q) = unat (nq_q_sz q)" and "unat off < unat (nq_q_sz q)" and "short_descs q m" and "bufs_apart q"
  shows "\<exists>j idx' v' m' d'. ext_fetch_loop ops bo q flags k off i idx v m x d = Inr (i + of_nat j, idx', v', m', x, d') \<and>
    j \<le> k \<and> paired v' \<and> flush_thr v' = flush_thr v \<and> short_descs q m'"
  using assms(2-4,7,8)
proof (induction k arbitrary: off i idx v m d)
  case 0
  have "ext_fetch_loop ops bo q flags 0 off i idx v m x d = Inr (i + of_nat 0, idx, v, m, x, d)" by simp
  then show ?case using 0 by blast
next
  case (Suc k)
  have ol: "unat off < length (nq_buf_arr q)" using Suc.prems(4) assms(6) by simp
  obtain v1 m1 where p: "ext_fetch_one bo q flags off v m x = Inr (v1, m1, x)" "paired v1" "flush_thr v1 = flush_thr v" "short_descs q m1"
    by (rule fetch_one_ok [OF Suc.prems(1,2) ol Suc.prems(4) assms(5) Suc.prems(5) assms(9)])
  obtain ok v2 d1 where f: "dao_dma_flush ops v1 1 d = (ok, v2, d1)" by (metis prod_cases3)
  have v2: "paired v2" "flush_thr v2 = flush_thr v" using flush_ok [OF p(2) assms(1) f] p(3) by simp_all
  show ?case
  proof (cases ok)
    case False
    have "ext_fetch_loop ops bo q flags (Suc k) off i idx v m x d = Inr (i + of_nat 1, tail v1, v2, m1, x, d1)" using p(1) f False by simp
    moreover have "1 \<le> Suc k" by simp
    ultimately show ?thesis using p(4) v2 by blast
  next
    case True
    have "0 < unat (flush_thr v)" using Suc.prems(3) by (simp add: word_less_nat_alt)
    then have t: "unat (1 :: u8) \<le> unat (flush_thr v1)" using p(3) by simp
    have r: "0 < room v2" using flush_room [OF p(2) assms(1) f [unfolded eqTrueI [OF True]] t] by simp
    let ?off = "(off + 1) AND (nq_q_sz q - 1)"
    have o: "unat ?off < unat (nq_q_sz q)" by (rule next_slot [OF assms(5)])
    have th: "0 < flush_thr v2" using v2(2) Suc.prems(3) by simp
    obtain j idx' v' m' d' where "ext_fetch_loop ops bo q flags k ?off (i + 1) (tail v1) v2 m1 x d1 = Inr (i + 1 + of_nat j, idx', v', m', x, d')"
      "j \<le> k" "paired v'" "flush_thr v' = flush_thr v" "short_descs q m'"
      using Suc.IH [OF v2(1) r th o p(4)] v2(2) by metis
    moreover from this(1) have "ext_fetch_loop ops bo q flags (Suc k) off i idx v m x d = Inr (i + of_nat (Suc j), idx', v', m', x, d')"
      using p(1) f True by (simp add: add.assoc)
    moreover have "Suc j \<le> Suc k" using calculation(2) by simp
    ultimately show ?thesis by blast
  qed
qed

text \<open>The state of a worker on a transmit queue whose descriptors fit.\<close>

definition tx_ready :: "'d dma_ops \<Rightarrow> 'd sent \<Rightarrow> ('x, 'd) net_st \<Rightarrow> bool" where
  "tx_ready ops sent s \<longleftrightarrow> rx_ready ops sent s \<and> short_descs (ns_q s) (ns_m s) \<and> bufs_apart (ns_q s)"

lemma tx_readyD:
  assumes "tx_ready ops sent s"
  shows "copy_laws ops sent" and "cells_apart (ns_q s)" and "paired (ns_v s)" and "0 < flush_thr (ns_v s)"
    and "length (nq_buf_arr (ns_q s)) = unat (nq_q_sz (ns_q s))" and "short_descs (ns_q s) (ns_m s)" and "bufs_apart (ns_q s)"
  using assms unfolding tx_ready_def rx_ready_def by blast+

lemma tx_dist_idx: "tx_dist (q\<lparr>nq_pend_sd_mbuf_idx := i\<rparr>) = tx_dist q"
  by (simp add: tx_dist_def fun_eq_iff)

lemma tx_ready_idx:
  "tx_ready ops sent (s\<lparr>ns_q := ns_q s\<lparr>nq_pend_sd_mbuf_idx := i\<rparr>\<rparr>) = tx_ready ops sent s"
  by (simp add: tx_ready_def rx_ready_def cells_apart_def short_descs_def bufs_apart_def)

text \<open>Starting to copy from the second distance on: nothing was pending there.\<close>

lemma tx_fetch_start:
  fixes hint :: u16
  assumes "tx_ready ops sent s" and "tx_dist (ns_q s) (ns_c s) co k1 k2 k3" and "ns_c s (nq_pend_sd_mbuf (ns_q s)) = 0"
    and "ns_c s (nq_sd_mbuf_off (ns_q s)) = sd"
  defines "nb \<equiv> min (desc_off_diff (ns_c s (nq_sd_desc_off (ns_q s))) sd (nq_q_sz (ns_q s))) hint"
  assumes "dao_dma_flush ops (ns_v s) 1 (ns_d s) = (True, v, d)"
  shows "\<exists>j idx v' m' d'. ext_fetch_loop ops bo (ns_q s) flags (unat nb) (ucast (DESC_OFF sd)) 0 0 v (ns_m s) (ns_x s) d =
      Inr (j, idx, v', m', ns_x s, d') \<and> unat k2 + unat j \<le> unat k3 \<and> paired v' \<and> flush_thr v' = flush_thr (ns_v s) \<and> short_descs (ns_q s) m'"
proof -
  let ?q = "ns_q s"
  note a = tx_readyD [OF assms(1)] and r = tx_distD [OF assms(2)]
  have q0: "0 < unat (nq_q_sz ?q)" "unat (nq_q_sz ?q) \<le> 32768" using ring_size_le [OF r(1)] by simp_all
  have le: "unat k2 \<le> unat k3" "unat k2 \<le> unat (nq_q_sz ?q)" using r(4,5) by simp_all
  have "unat (desc_off_diff (ns_c s (nq_sd_desc_off ?q)) sd (nq_q_sz ?q)) = unat k3 - unat k2"
    unfolding assms(4) [symmetric] r(7,8) ring.diff_add_add [OF r(1,2) le(1) r(5) q0(1)] using le by (simp add: unat_sub word_le_nat_alt)
  then have nb: "unat nb \<le> unat k3 - unat k2" unfolding nb_def by (simp add: min_def word_le_nat_alt)
  have v: "paired v" "flush_thr v = flush_thr (ns_v s)" using flush_ok [OF a(3,1) assms(6)] by simp_all
  have t: "unat (1 :: u8) \<le> unat (flush_thr (ns_v s))" using a(4) by (simp add: word_less_nat_alt Suc_le_eq)
  have rm: "0 < room v" using flush_room [OF a(3,1) assms(6) t] by simp
  have th: "0 < flush_thr v" using a(4) v(2) by simp
  have o: "unat (ucast (DESC_OFF sd) :: u16) < unat (nq_q_sz ?q)"
    unfolding unat_DESC_OFF assms(4) [symmetric] r(7) using desc_off_add_pos(1) [OF r(1,2) le(2)] by (simp add: ring_off_def)
  obtain j idx v' m' d' where p: "ext_fetch_loop ops bo ?q flags (unat nb) (ucast (DESC_OFF sd)) 0 0 v (ns_m s) (ns_x s) d =
      Inr (0 + of_nat j, idx, v', m', ns_x s, d')" "j \<le> unat nb" "paired v'" "flush_thr v' = flush_thr v" "short_descs ?q m'"
    using fetch_loop_ok [OF a(1) v(1) rm th r(1) a(5) o a(6,7), of bo flags "unat nb" 0 0 "ns_x s" d] by blast
  have "j < 65536" using p(2) nb r(5) q0(2) by linarith
  then have "unat (of_nat j :: u16) = j" by (intro unat_of_nat_small) simp
  then have "unat k2 + unat (of_nat j :: u16) \<le> unat k3" using p(2) nb le(1) by simp
  then show ?thesis using p v(2) by auto
qed

text \<open>How far the data has arrived when the completions \<open>v\<close> are known: past the pending descriptors when the operation they were queued with has
  completed.\<close>

definition arrived :: "vchan_state \<Rightarrow> ('x, 'd) net_st \<Rightarrow> u16 \<Rightarrow> u16" where
  "arrived v s k = (if ns_c s (nq_pend_sd_mbuf (ns_q s)) \<noteq> 0 \<and> dao_dma_op_status v (nq_pend_sd_mbuf_idx (ns_q s))
     then k + ns_c s (nq_pend_sd_mbuf (ns_q s)) else k)"

lemma host_data_ok:
  assumes "tx_ready ops sent s" and "tx_dist (ns_q s) (ns_c s) co k1 k2 k3"
  defines "k2' \<equiv> arrived (ns_v s) s k2"
  shows "\<exists>i s'. ext_fetch_host_data ops bo hint flags s = Inr (ns_c s' (nq_sd_mbuf_off (ns_q s)), s') \<and>
    tx_dist (ns_q s) (ns_c s') co k1 k2' k3 \<and> tx_ready ops sent s' \<and> ns_q s' = ns_q s\<lparr>nq_pend_sd_mbuf_idx := i\<rparr> \<and> ns_x s' = ns_x s"
proof -
  let ?q = "ns_q s" and ?c = "ns_c s"
  let ?fin = "?c (nq_pend_sd_mbuf ?q) \<noteq> 0 \<and> dao_dma_op_status (ns_v s) (nq_pend_sd_mbuf_idx ?q)"
  note a = tx_readyD [OF assms(1)]
  have qi: "?q\<lparr>nq_pend_sd_mbuf_idx := nq_pend_sd_mbuf_idx ?q\<rparr> = ?q" by simp
  define sd where "sd = (if ?fin then desc_off_add (?c (nq_sd_mbuf_off ?q)) (?c (nq_pend_sd_mbuf ?q)) (nq_q_sz ?q) else ?c (nq_sd_mbuf_off ?q))"
  define c1 where "c1 = (if ?fin then ?c(nq_sd_mbuf_off ?q := sd, nq_pend_sd_mbuf ?q := 0) else ?c)"
  define pend1 where "pend1 = (if ?fin then 0 else ?c (nq_pend_sd_mbuf ?q))"
  have k2': "tx_dist ?q c1 co k1 k2' k3"
  proof (cases ?fin)
    case True
    then have "c1 = ?c(nq_sd_mbuf_off ?q := desc_off_add (?c (nq_sd_mbuf_off ?q)) (?c (nq_pend_sd_mbuf ?q)) (nq_q_sz ?q), nq_pend_sd_mbuf ?q := 0)"
      unfolding c1_def sd_def by simp
    moreover have "k2' = k2 + ?c (nq_pend_sd_mbuf ?q)" unfolding k2'_def arrived_def by (rule if_P [OF True])
    ultimately show ?thesis using tx_dist_finished(1) [OF assms(2) a(2)] by simp
  next
    case False
    then have "c1 = ?c" unfolding c1_def by (rule if_not_P)
    moreover have "k2' = k2" unfolding k2'_def arrived_def by (rule if_not_P [OF False])
    ultimately show ?thesis using assms(2) by simp
  qed
  have c1: "c1 (nq_sd_mbuf_off ?q) = sd" "c1 (nq_pend_sd_mbuf ?q) = pend1" using a(2) by (auto simp: c1_def sd_def pend1_def cells_apart_def)
  let ?s1 = "s\<lparr>ns_c := c1\<rparr>"
  have t1: "tx_ready ops sent ?s1" using assms(1) by (simp add: tx_ready_def rx_ready_def)
  show ?thesis
  proof (cases "pend1 \<noteq> 0 \<or> c1 (nq_sd_desc_off ?q) = sd")
    case True
    then have "ext_fetch_host_data ops bo hint flags s = Inr (sd, ?s1)"
      unfolding ext_fetch_host_data_def Let_def sd_def [symmetric] c1_def [symmetric] pend1_def [symmetric] by simp
    then show ?thesis using k2' t1 c1(1) qi by (intro exI [of _ "nq_pend_sd_mbuf_idx ?q"] exI [of _ ?s1]) simp
  next
    case False
    obtain ok v d where f: "dao_dma_flush ops (ns_v s) 1 (ns_d s) = (ok, v, d)" by (metis prod_cases3)
    show ?thesis
    proof (cases ok)
      case nok: False
      let ?s2 = "?s1\<lparr>ns_v := v, ns_d := d\<rparr>"
      have "ext_fetch_host_data ops bo hint flags s = Inr (sd, ?s2)"
        unfolding ext_fetch_host_data_def Let_def sd_def [symmetric] c1_def [symmetric] pend1_def [symmetric] using f nok False by simp
      moreover have "tx_ready ops sent ?s2" using t1 flush_ok [OF a(3,1) f] by (simp add: tx_ready_def rx_ready_def)
      ultimately show ?thesis using k2' c1(1) qi by (intro exI [of _ "nq_pend_sd_mbuf_idx ?q"] exI [of _ ?s2]) simp
    next
      case True
      have p0: "pend1 = 0" using False by simp
      have d1: "tx_dist (ns_q ?s1) (ns_c ?s1) co k1 k2' k3" and z: "ns_c ?s1 (nq_pend_sd_mbuf (ns_q ?s1)) = 0" "ns_c ?s1 (nq_sd_mbuf_off (ns_q ?s1)) = sd"
        and f1: "dao_dma_flush ops (ns_v ?s1) 1 (ns_d ?s1) = (True, v, d)"
        using k2' c1 p0 f True by simp_all
      obtain j idx v' m' d' where l: "ext_fetch_loop ops bo ?q flags (unat (min (desc_off_diff (c1 (nq_sd_desc_off ?q)) sd (nq_q_sz ?q)) hint)) (ucast (DESC_OFF sd)) 0 0 v (ns_m s) (ns_x s) d =
          Inr (j, idx, v', m', ns_x s, d')" "unat k2' + unat j \<le> unat k3" "paired v'" "flush_thr v' = flush_thr (ns_v s)" "short_descs ?q m'"
        using tx_fetch_start [OF t1 d1 z f1, of bo flags hint] by auto
      let ?i = "if j \<noteq> 0 then idx else nq_pend_sd_mbuf_idx ?q"
      let ?s2 = "?s1\<lparr>ns_v := v', ns_m := m', ns_d := d', ns_c := c1(nq_pend_sd_mbuf ?q := j), ns_q := ?q\<lparr>nq_pend_sd_mbuf_idx := ?i\<rparr>\<rparr>"
      have c0: "c1(nq_pend_sd_mbuf ?q := 0) = c1" using c1(2) p0 by (simp add: fun_upd_idem)
      have "ext_fetch_host_data ops bo hint flags s = Inr (sd, ?s2)"
        unfolding ext_fetch_host_data_def Let_def sd_def [symmetric] c1_def [symmetric] pend1_def [symmetric] using f True False l(1) c0 qi by (cases "j = 0") simp_all
      moreover have "tx_dist ?q (c1(nq_pend_sd_mbuf ?q := j)) co k1 k2' k3" using tx_distD [OF k2'] l(2) a(2) unfolding tx_dist_def cells_apart_def by auto
      moreover have "tx_ready ops sent ?s2" using t1 l(3-5) by (simp add: tx_ready_def rx_ready_def cells_apart_def short_descs_def bufs_apart_def)
      moreover have "(c1(nq_pend_sd_mbuf ?q := j)) (nq_sd_mbuf_off ?q) = sd" using c1(1) a(2) by (auto simp: cells_apart_def)
      ultimately show ?thesis by (intro exI [of _ ?i] exI [of _ ?s2]) simp
    qed
  qed
qed

lemma deq_ext_ok:
  fixes nb :: u16
  assumes "tx_ready ops sent s" and "tx_dist (ns_q s) (ns_c s) co k1 k2 k3"
  defines "i \<equiv> off_index (ns_c s (nq_last_off (ns_q s)))" and "k2' \<equiv> arrived (fst (dao_dma_check_compl ops (ns_v s) (ns_d s))) s k2"
  defines "j \<equiv> min (unat nb) (min (unat k2' - unat k1) (unat (nq_q_sz (ns_q s)) - i))"
  obtains s' where "virtio_net_deq_ext ops bo nb flags s = Inr (take j (drop i (nq_buf_arr (ns_q s))), s')"
    and "i + j \<le> length (nq_buf_arr (ns_q s))" and "unat (k1 + of_nat j) = unat k1 + j"
    and "tx_dist (ns_q s') (ns_c s') co (k1 + of_nat j) k2' k3" and "tx_ready ops sent s'"
proof -
  let ?q = "ns_q s"
  let ?l = "ns_c s (nq_last_off ?q)"
  obtain v d where cc: "dao_dma_check_compl ops (ns_v s) (ns_d s) = (v, d)" by fastforce
  let ?s0 = "s\<lparr>ns_v := v, ns_d := d\<rparr>"
  have t0: "tx_ready ops sent ?s0" using assms(1) check_compl_paired [OF cc] by (simp add: tx_ready_def rx_ready_def)
  have d0: "tx_dist (ns_q ?s0) (ns_c ?s0) co k1 k2 k3" using assms(2) by simp
  have "arrived (ns_v ?s0) ?s0 k2 = k2'" unfolding k2'_def cc by (simp add: arrived_def)
  then obtain ix s1 where h: "ext_fetch_host_data ops bo 256 flags ?s0 = Inr (ns_c s1 (nq_sd_mbuf_off ?q), s1)" "tx_dist ?q (ns_c s1) co k1 k2' k3"
    "tx_ready ops sent s1" "ns_q s1 = ?q\<lparr>nq_pend_sd_mbuf_idx := ix\<rparr>"
    using host_data_ok [OF t0 d0, of bo 256 flags] by auto
  note r = tx_distD [OF h(2)] and a = tx_readyD [OF h(3)]
  have l: "ns_c s1 (nq_last_off ?q) = ?l" unfolding r(6) using tx_distD(6) [OF assms(2)] by simp
  have q: "unat (nq_q_sz ?q) \<le> 32768" using ring_size_le [OF r(1)] by simp
  have k1: "unat k1 \<le> unat (nq_q_sz ?q)" using r(3,4,5) by linarith
  have lo: "ring_off (nq_q_sz ?q) ?l" unfolding l [symmetric] r(6) by (rule desc_off_add_pos(1) [OF r(1,2) k1])
  have k21: "unat (k2' - k1) = unat k2' - unat k1" using r(3) by (simp add: unat_sub word_le_nat_alt)
  define sd where "sd = ns_c s1 (nq_sd_mbuf_off ?q)"
  have sd: "sd = desc_off_add ?l (k2' - k1) (nq_q_sz ?q)"
    unfolding sd_def l [symmetric] r(6,7) using ring.add_add [OF r(1,2), of k1 "k2' - k1"] k21 r(3-5) by simp
  define av where "av = desc_off_diff_no_wrap sd ?l (nq_q_sz ?q)"
  have "unat (k2' - k1) \<le> unat (nq_q_sz ?q)" using k21 r(4,5) by simp
  from conjunct1 [OF off_diff_no_wrap [OF r(1) lo this sd av_def]]
  have av: "unat av = min (unat k2' - unat k1) (unat (nq_q_sz ?q) - off_index ?l)" unfolding k21 .
  define n where "n = (if av = 0 then 0 else min nb av)"
  have nj: "unat n = min (unat nb) (unat av)" by (auto simp: n_def min_def word_le_nat_alt)
  then have n: "unat n \<le> unat av" by simp
  have jn: "j = unat n" unfolding nj av j_def i_def ..
  have il: "off_index ?l < unat (nq_q_sz ?q)" using lo by (simp add: ring_off_def)
  have arr: "nq_buf_arr (ns_q s1) = nq_buf_arr ?q" "length (nq_buf_arr ?q) = unat (nq_q_sz ?q)" using h(4) a(5) by simp_all
  have nm: "unat n \<le> unat k2' - unat k1" "unat n \<le> unat (nq_q_sz ?q) - off_index ?l" using n av by simp_all
  have nl: "off_index ?l + unat n \<le> length (nq_buf_arr ?q)" unfolding arr(2) using nm(2) il by linarith
  have kn: "unat k1 + unat n \<le> unat k2'" "unat k1 + unat n \<le> unat (nq_q_sz ?q)" using nm(1) r(3-5) by linarith+
  have "unat k1 + unat n < 2 ^ LENGTH(16)" using kn(2) q by simp
  then have u: "unat (k1 + n) = unat k1 + unat n" by (rule unat_add_small)
  let ?c' = "(ns_c s1)(nq_last_off ?q := desc_off_add ?l n (nq_q_sz ?q))"
  have "desc_off_add ?l n (nq_q_sz ?q) = desc_off_add co (k1 + n) (nq_q_sz ?q)"
    unfolding l [symmetric] r(6) by (rule ring.add_add [OF r(1,2) kn(2)])
  then have d': "tx_dist ?q ?c' co (k1 + n) k2' k3" using r kn u a(2) h(4) unfolding tx_dist_def cells_apart_def by auto
  have e: "virtio_net_deq_ext ops bo nb flags s =
      Inr (take (unat n) (drop (off_index ?l) (nq_buf_arr ?q)), if av = 0 then s1 else s1\<lparr>ns_c := ?c'\<rparr>)"
  proof -
    have o: "unat (DESC_OFF ?l) = off_index ?l" by (simp add: DESC_OFF_index unat_of_nat off_index_def)
    show ?thesis
      unfolding virtio_net_deq_ext_def cc prod.case h(1) rbind_simps sd_def [symmetric] Let_def
      using h(4) l av_def arr nl o n_def slots_at_ok [OF nl] by (cases "av = 0") simp_all
  qed
  have t': "tx_ready ops sent (if av = 0 then s1 else s1\<lparr>ns_c := ?c'\<rparr>)" using h(3) by (simp add: tx_ready_def rx_ready_def)
  have "of_nat (unat n) = n" by simp
  then have "tx_dist (ns_q (if av = 0 then s1 else s1\<lparr>ns_c := ?c'\<rparr>)) (ns_c (if av = 0 then s1 else s1\<lparr>ns_c := ?c'\<rparr>)) co (k1 + of_nat (unat n)) k2' k3"
    using d' h(2,4) n_def by (cases "av = 0") (simp_all add: tx_dist_idx)
  then show thesis using that [of "if av = 0 then s1 else s1\<lparr>ns_c := ?c'\<rparr>"] e nl t' u unfolding jn i_def by simp
qed

end
