(* ===== verification/Net_Props.thy ===== *)
theory Net_Props
  imports Net_Deq
begin

text \<open>
  What the descriptor path of the virtio net device guarantees: which descriptors are fetched and copied back, that no buffer is lost, that
  the workers keep the order of the offsets and stay in the arrays, and what a host can break.
\<close>

section \<open>Laws and instances\<close>

text \<open>What the callbacks for external buffers promise.  \<open>out\<close> are the buffers that are handed out: a successful call hands out as many as
  were asked for, a failed one none, and the slots it was given are filled either way.\<close>

definition extbuf_laws :: "'x buf_ops \<Rightarrow> ('x \<Rightarrow> u64 multiset) \<Rightarrow> bool" where
  "extbuf_laws bo out \<longleftrightarrow>
     (\<forall>i n x rc bs x'. extbuf_get bo i n x = (rc, bs, x') \<longrightarrow> length bs = n \<and> out x' = (if rc < 0 then out x else out x + mset bs)) \<and>
     (\<forall>i bs x. out (extbuf_put bo i bs x) = out x - mset bs)"

text \<open>A pool that hands out the next free addresses, as long as there are any.\<close>

definition counting_pool :: "(nat \<times> u64 multiset) buf_ops" where
  "counting_pool = \<lparr>
     extbuf_get = (\<lambda>_ n (k, o'). if n \<le> k then (0, map (\<lambda>i. of_nat (4096 * (i + 1))) [0..<n], (k - n, o' + mset (map (\<lambda>i. of_nat (4096 * (i + 1))) [0..<n])))
                   else (-1, replicate n 0, (k, o'))),
     extbuf_put = (\<lambda>_ bs (k, o'). (k + length bs, o' - mset bs)),
     mempool_get_bulk = (\<lambda>_ n x. (-1, replicate n 0, x)), mempool_put_bulk = (\<lambda>_ _ x. x),
     pktmbuf_free_bulk = (\<lambda>_ x. x), mbuf_pool = (\<lambda>_ _. 0)\<rparr>"

lemma counting_pool_laws: "extbuf_laws counting_pool snd"
  by (auto simp: extbuf_laws_def counting_pool_def split: if_splits)

definition net_queue :: virtio_net_queue where
  "net_queue = \<lparr>nq_desc_base = 0x100000, nq_notify_addr = 0x2000, nq_data_off = 0, nq_buf_len = 256, nq_q_sz = 8, nq_dma_vchan = 0,
     nq_netdev_id = 0, nq_virtio_hdr_sz = 12, nq_auto_free = True, nq_qid = 0, nq_pend_sd_mbuf_idx = 0, nq_pend_sd_desc_idx = 0,
     nq_pend_compl_idx = 0, nq_pend_compl = False, nq_compl_off = 0, nq_cb_notify_addr = 0, nq_cb_intr_addr = None, nq_mp = 0,
     nq_buf_arr = replicate 8 0x40000, nq_driver_area = 0, nq_sd_driver_area = 0, nq_sd_desc_base = 0x1000, nq_sd_desc_off = 1,
     nq_pend_sd_desc = 2, nq_sd_mbuf_off = 3, nq_pend_sd_mbuf = 4, nq_last_off = 5\<rparr>"

lemma ring_net_queue: "ring_size (nq_q_sz net_queue)"
  using ring_size_8 by (simp add: net_queue_def)

lemma chan8_room: "room chan8 = 8" "meta_room chan8" "flush_thr chan8 = 8"
  by (simp_all add: room_def meta_room_def chan8_def zero_vchan_def zero_mdata_def DAO_DMA_MAX_INFLIGHT_MDATA_def Let_def)

section \<open>Fetching\<close>

text \<open>C5: when the host has made the first \<open>n\<close> descriptors behind the shadow offset available and \<open>p\<close> of them are already on their way,
  \<^verbatim>\<open>virtio_net_fetch_enq_desc_prep\<close> hands exactly the positions \<open>p\<close> to \<open>n - 1\<close> of the ring to the DMA, in order and in at most two runs, from the
  ring of the host to the shadow ring; the completion will move the shadow offset to the notified one.\<close>

theorem fetch_covers_new:
  assumes "fetch_state q c n p" and "notified m q = desc_off_add (c (nq_sd_desc_off q)) n (nq_q_sz q)" and "unat p < unat n"
    and "paired v" and "2 \<le> room v" and "meta_room v"
  shows "\<exists>rs q' v'. fetch_enq_desc_prep q v m c = Inr (length rs, q', v', c(nq_pend_sd_desc q := n)) \<and>
    stream sent (bump v' (length rs)) d =
      stream sent v d @ map (\<lambda>r. (desc_sge (nq_desc_base q) r, desc_sge (nq_sd_desc_base q) r)) rs \<and>
    concat (map (\<lambda>(a, l). [a..<a + l]) rs) = map (\<lambda>k. (off_index (c (nq_sd_desc_off q)) + k) mod unat (nq_q_sz q)) [unat p..<unat n] \<and>
    last_meta v' = (nq_sd_desc_off q, notified m q, nq_pend_sd_desc q, n - p)"
proof -
  note f = fetch_stateD [OF assms(1)]
  let ?k = "unat n - unat p"
  let ?rs = "runs (unat (nq_q_sz q)) (unat (fetch_off q c)) ?k"
  have w: "p + of_nat ?k = n" "of_nat ?k = n - p"
    using f(4) by (simp_all add: of_nat_diff)
  have nz: "int ?k \<noteq> 0" using assms(3) by linarith
  note np = notified_pending [OF assms(1,2,3)]
  obtain v' where v': "fetch_commit q v (fetch_off q c) (int ?k) c = Inr (length ?rs, v', c(nq_pend_sd_desc q := p + of_nat ?k))"
      "v' = (filled q ?rs v)\<lparr>mdata := mdata v'\<rparr>"
      "last_meta v' = (nq_sd_desc_off q, desc_off_add (c (nq_sd_desc_off q)) (p + of_nat ?k) (nq_q_sz q), nq_pend_sd_desc q, of_nat ?k)"
    by (rule fetch_commit_ok [OF assms(1) _ _ room_fetch [OF assms(4-6)], of ?k]) (use assms(3) f(4) in auto)
  have "fetch_enq_desc_prep q v m c = Inr (length ?rs, q\<lparr>nq_pend_sd_desc_idx := tail v\<rparr>, v', c(nq_pend_sd_desc q := n))"
    unfolding fetch_enq_desc_prep_def Let_def np(1) if_not_P [OF np(2)] if_not_P [OF nz] v'(1) w(1) by simp
  moreover have "stream sent (bump v' (length ?rs)) d = stream sent v d @ map (\<lambda>r. (desc_sge (nq_desc_base q) r, desc_sge (nq_sd_desc_base q) r)) ?rs"
    by (subst v'(2)) (rule stream_filled(2) [OF assms(4) order_trans [OF length_runs assms(5)]])
  moreover have "concat (map (\<lambda>(a, l). [a..<a + l]) ?rs) = map (\<lambda>k. (off_index (c (nq_sd_desc_off q)) + k) mod unat (nq_q_sz q)) [unat p..<unat n]"
  proof -
    have le: "?k \<le> unat (nq_q_sz q)" "unat p \<le> unat (nq_q_sz q)" using f(4,5) by simp_all
    have "unat (fetch_off q c) = (off_index (c (nq_sd_desc_off q)) + unat p) mod unat (nq_q_sz q)"
      unfolding fetch_off_index(1) [OF assms(1)] by (rule off_index_add [OF f(1,2) le(2)])
    then show ?thesis
      unfolding runs_cover [OF fetch_off_index(2) [OF assms(1)] le(1)]
      by (intro nth_equalityI) (simp_all add: mod_add_left_eq add.assoc)
  qed
  moreover have "last_meta v' = (nq_sd_desc_off q, notified m q, nq_pend_sd_desc q, n - p)" unfolding v'(3) w(1) assms(2) unfolding w(2) ..
  ultimately show ?thesis by blast
qed

theorem fetch_covers_new_witness:
  "\<exists>rs q' v'. fetch_enq_desc_prep net_queue chan8 (store32 (\<lambda>_. 0) 0x2000 0x60000) ((\<lambda>_. 0)(2 := 2)) = Inr (length rs, q', v', (\<lambda>_. 0)(2 := 6)) \<and>
     concat (map (\<lambda>(a, l). [a..<a + l]) rs) = [2, 3, 4, 5]"
proof -
  let ?c = "(\<lambda>_. 0)(2 := 2) :: cells" and ?m = "store32 (\<lambda>_. 0) 0x2000 0x60000"
  have f: "fetch_state net_queue ?c 6 2" using ring_net_queue by (simp add: fetch_state_def net_queue_def ring_off_def off_index_def)
  have n: "notified ?m net_queue = 6" "desc_off_add 0 6 8 = 6" by code_simp+
  have u: "[unat (2 :: u16)..<unat (6 :: u16)] = [2, 3, 4, 5]" by (simp add: upt_rec)
  show ?thesis
    using fetch_covers_new [OF f, of ?m chan8 "\<lambda>d. d" "\<lambda>_. []"] n u chan8_room paired_chan8
    by (fastforce simp: net_queue_def off_index_def)
qed

text \<open>C24: the offset a host notifies is not checked against the size of the ring.  When it is more than fifteen rings ahead, the loop of
  \<^verbatim>\<open>virtio_net_fetch_enq_desc_prep\<close> writes behind the pointer arrays of the DMA channel.\<close>

theorem notify_overrun:
  assumes "paired v" and "c (nq_sd_desc_off q) = 0" and "c (nq_pend_sd_desc q) = 0"
    and "15 * unat (nq_q_sz q) < unat (notified m q)" and "unat (notified m q) < 32768"
  shows "fetch_enq_desc_prep q v m c = Inl OutOfBounds"
proof -
  have i: "unat (src_i v) \<le> 15" "length (src v) = 15" using assms(1) by (simp_all add: paired_def DAO_DMA_MAX_POINTER_def)
  have b: "\<not> bit (notified m q) 15"
  proof
    assume "bit (notified m q) 15"
    then have "32768 \<le> unat (notified m q)" using off_split [of "notified m q"] by simp
    then show False using assms(5) by simp
  qed
  have o: "off_index (notified m q) = unat (notified m q)" using assms(5) by (rule off_index_small)
  have d: "desc_off_diff (notified m q) 0 (nq_q_sz q) = notified m q"
    unfolding desc_off_diff_def same_wrap DESC_OFF_index o using b ucast_of_nat_64 [of "unat (notified m q)"] assms(5)
    by (simp add: off_index_def word_unat_eq_iff)
  have p: "desc_pending q (notified m q) c = int (unat (notified m q))" unfolding desc_pending_def assms(2,3) d by simp
  have nz: "notified m q \<noteq> c (nq_sd_desc_off q)" using assms(2,4) by auto
  have nz0: "int (unat (notified m q)) \<noteq> 0" using assms(4) by linarith
  have "int (15 - unat (src_i v)) * uint (nq_q_sz q) \<le> 15 * uint (nq_q_sz q)" by (intro mult_right_mono) simp_all
  then have lt: "int (15 - unat (src_i v)) * uint (nq_q_sz q) < int (unat (notified m q))" using assms(4) unfolding uint_unat_int by linarith
  have "fetch_loop q v (fetch_off q c) (int (unat (notified m q))) 0 0 = Inl OutOfBounds"
    by (rule fetch_overrun [OF _ lt]) (use i in simp)
  then show ?thesis
    unfolding fetch_enq_desc_prep_def Let_def p if_not_P [OF nz] if_not_P [OF nz0] by (simp add: fetch_commit_def)
qed

theorem notify_overrun_witness:
  "fetch_enq_desc_prep net_queue chan8 (store32 (\<lambda>_. 0) 0x2000 0x1000000) (\<lambda>_. 0) = Inl OutOfBounds"
proof -
  have n: "notified (store32 (\<lambda>_. 0) 0x2000 0x1000000) net_queue = 0x100" by code_simp
  show ?thesis
    by (rule notify_overrun [OF paired_chan8]) (simp_all add: n, simp add: net_queue_def)
qed

section \<open>Marking\<close>

lemma in_order_word:
  fixes x y :: u64
  shows "bit (((x AND NOT 0xFFFF00000000) AND NOT (RTE_BIT64 63)) OR push_bit 63 (drop_bit 55 (x AND NOT 0xFFFF00000000) AND 1) OR
      push_bit 32 (drop_bit 32 y AND 0xFFFF)) k =
    (if k = 63 then bit x 55 else if 32 \<le> k \<and> k < 48 then bit y k else bit x k)"
proof (cases "k < 64")
  case True
  have m: "0xFFFF00000000 = (push_bit 32 (mask 16) :: u64)" "0xFFFF = (mask 16 :: u64)" "(1 :: u64) = mask 1"
    by (simp_all add: mask_eq_exp_minus_1 push_bit_eq_mult)
  have b: "bit (RTE_BIT64 63) k \<longleftrightarrow> k = 63" using True unfolding RTE_BIT64_def bit_push_bit_iff by (auto simp: bit_1_iff)
  show ?thesis
    unfolding m using True b by (auto simp: bit_simps)
next
  case False
  then have "\<not> bit w k" for w :: u64 using bit_imp_le_length [of w k] by auto
  then show ?thesis using False by simp
qed

text \<open>C28: the in-order completion of \<open>n\<close> descriptors by \<^verbatim>\<open>mark_deq_compl\<close> writes one descriptor back: the first one of the range, with the
  identifier of the last one, the used flag equal to the available flag, and every other bit as it was.\<close>

theorem mark_in_order:
  assumes "paired v" and "0 < room v" and "flags AND VIRTIO_NET_DESC_MANAGE_NOINORDER = 0"
    and "a = DESC_PTR_OFF (nq_sd_desc_base q) start 8" and "b = DESC_PTR_OFF (nq_sd_desc_base q) (desc_off_add start (n - 1) (nq_q_sz q)) 8"
  shows "\<exists>v' m'. mark_deq_compl q v start n flags m = Inr (v', m') \<and>
    stream sent v' d = stream sent v d @ [(\<lparr>addr = a, len = 8\<rparr>, \<lparr>addr = DESC_PTR_OFF (nq_desc_base q) start 8, len = 8\<rparr>)] \<and>
    (\<forall>k. bit (load64 m' a) k = (if k = 63 then bit (load64 m a) 55 else if 32 \<le> k \<and> k < 48 then bit (load64 m b) k else bit (load64 m a) k))"
proof -
  let ?w = "((load64 m a AND NOT 0xFFFF00000000) AND NOT (RTE_BIT64 63)) OR push_bit 63 (drop_bit 55 (load64 m a AND NOT 0xFFFF00000000) AND 1) OR
    push_bit 32 (drop_bit 32 (load64 m b) AND 0xFFFF)"
  obtain v' where v': "dao_dma_enq_x1 v \<lparr>addr = a, len = 8\<rparr> \<lparr>addr = DESC_PTR_OFF (nq_desc_base q) start 8, len = 8\<rparr> = Inr v'"
    "stream sent v' d = stream sent v d @ [(\<lparr>addr = a, len = 8\<rparr>, \<lparr>addr = DESC_PTR_OFF (nq_desc_base q) start 8, len = 8\<rparr>)]"
    using enq_x1_ok [OF assms(1,2), where sent = sent and d = d] by metis
  have "mark_deq_compl q v start n flags m = Inr (v', store64 m a ?w)"
    unfolding mark_deq_compl_def Let_def assms(4,5) [symmetric] using assms(3) v'(1) by simp
  moreover have "bit ?w k = (if k = 63 then bit (load64 m a) 55 else if 32 \<le> k \<and> k < 48 then bit (load64 m b) k else bit (load64 m a) k)" for k
    by (rule in_order_word)
  ultimately show ?thesis using v'(2) load_store64 by metis
qed

theorem mark_in_order_witness:
  "\<exists>v' m'. mark_deq_compl net_queue chan8 0 2 0 (store64 (store64 (\<lambda>_. 0) 0x1008 (push_bit 55 1)) 0x1018 (push_bit 32 7)) = Inr (v', m') \<and>
     bit (load64 m' 0x1008) 63 \<and> bit (load64 m' 0x1008) 34"
proof -
  let ?m = "store64 (store64 (\<lambda>_. 0) 0x1008 (push_bit 55 1)) 0x1018 (push_bit 32 7)"
  have a: "DESC_PTR_OFF (nq_sd_desc_base net_queue) 0 8 = 0x1008"
    "DESC_PTR_OFF (nq_sd_desc_base net_queue) (desc_off_add 0 (2 - 1) (nq_q_sz net_queue)) 8 = 0x1018" by code_simp+
  have b: "bit (load64 ?m 0x1008) 55" "bit (load64 ?m 0x1018) 34" by (simp_all add: bit_load64 store64_def bit_simps unat_word_ariths)
  have r: "0 < room chan8" "(0 :: u16) AND VIRTIO_NET_DESC_MANAGE_NOINORDER = 0" using chan8_room by simp_all
  obtain v' m' where w: "mark_deq_compl net_queue chan8 0 2 0 ?m = Inr (v', m')"
    "\<forall>k. bit (load64 m' 0x1008) k = (if k = 63 then bit (load64 ?m 0x1008) 55 else if 32 \<le> k \<and> k < 48 then bit (load64 ?m 0x1018) k else bit (load64 ?m 0x1008) k)"
    using mark_in_order [OF paired_chan8 r a(1) [symmetric] a(2) [symmetric], where m = ?m and sent = "\<lambda>_ :: unit. \<lambda>_. []" and d = "()"] by blast
  show ?thesis using w(1) b spec [OF w(2), of 63] spec [OF w(2), of 34] by simp
qed

lemma rx_dist_acked:
  assumes "rx_dist q c co k1 k2 k3"
  shows "rx_dist (q\<lparr>nq_compl_off := a\<rparr>) c (c (nq_sd_mbuf_off q)) 0 (k2 - k1) (k3 - k1)"
proof -
  note r = rx_distD [OF assms]
  have le: "unat k1 \<le> unat (nq_q_sz q)" using r(3-5) by linarith
  have u: "unat (k2 - k1) = unat k2 - unat k1" "unat (k3 - k1) = unat k3 - unat k1" using r(3,4) by (simp_all add: unat_sub word_le_nat_alt)
  have o: "ring_off (nq_q_sz q) (c (nq_sd_mbuf_off q))" unfolding r(6) by (rule desc_off_add_pos(1) [OF r(1,2) le])
  have z: "desc_off_add b 0 (nq_q_sz q) = b" if b: "ring_off (nq_q_sz q) b" for b
    using ring.pos_inj [OF ring.add_off [OF r(1) b, of 0] b] ring.add_pos [OF r(1) b, of 0] ring.pos_less [OF b] by simp
  have "c (nq_last_off q) = desc_off_add (c (nq_sd_mbuf_off q)) (k2 - k1) (nq_q_sz q)"
    "c (nq_sd_desc_off q) = desc_off_add (c (nq_sd_mbuf_off q)) (k3 - k1) (nq_q_sz q)"
    unfolding r(6-8) using ring.add_add [OF r(1,2), of k1 "k2 - k1"] ring.add_add [OF r(1,2), of k1 "k3 - k1"] u r(3-5) by simp_all
  moreover have "unat k2 - unat k1 \<le> unat k3 - unat k1" "unat k3 - unat k1 \<le> unat (nq_q_sz q)" using r(4,5) by linarith+
  ultimately show ?thesis unfolding rx_dist_def using r(1,9) o z [OF o] u by simp
qed

text \<open>C15: \<^verbatim>\<open>mark_enq_compl\<close> of a receive queue copies exactly the descriptors from the completion offset to the buffer offset back to the host,
  in ring order, and the order of the offsets then holds from the new completion offset on.\<close>

theorem mark_rx_covers:
  assumes "rx_dist q c co k1 k2 k3" and "nq_compl_off q = co" and "nq_auto_free q" and "paired v" and "2 \<le> room v"
  shows "\<exists>v' rs. mark_enq_compl bo q v co (c (nq_sd_mbuf_off q)) flags x = Inr (v', x) \<and>
    stream sent v' d = stream sent v d @ map (\<lambda>r. (desc_sge (nq_sd_desc_base q) r, desc_sge (nq_desc_base q) r)) rs \<and>
    concat (map (\<lambda>(a, l). [a..<a + l]) rs) = map (\<lambda>k. (off_index co + k) mod unat (nq_q_sz q)) [0..<unat k1] \<and>
    rx_dist (q\<lparr>nq_compl_off := c (nq_sd_mbuf_off q)\<rparr>) c (c (nq_sd_mbuf_off q)) 0 (k2 - k1) (k3 - k1)"
proof -
  note r = rx_distD [OF assms(1)]
  let ?n = "nq_q_sz q"
  let ?rs = "runs (unat ?n) (off_index co) (unat k1)"
  have le: "unat k1 \<le> unat ?n" using r(3-5) by linarith
  obtain v' where v': "copy_back_range q v co (desc_off_add co k1 ?n) = Inr v'"
    "stream sent v' d = stream sent v d @ map (\<lambda>r. (desc_sge (nq_sd_desc_base q) r, desc_sge (nq_desc_base q) r)) ?rs"
    by (rule copy_back_runs [OF r(1,2) le assms(4,5)])
  have "mark_enq_compl bo q v co (c (nq_sd_mbuf_off q)) flags x = Inr (v', x)"
    using assms(3) v'(1) by (simp add: mark_enq_compl_def r(6))
  moreover have "concat (map (\<lambda>(a, l). [a..<a + l]) ?rs) = map (\<lambda>k. (off_index co + k) mod unat ?n) [0..<unat k1]"
    using r(2) le by (intro runs_cover) (simp_all add: ring_off_def)
  moreover have "rx_dist (q\<lparr>nq_compl_off := c (nq_sd_mbuf_off q)\<rparr>) c (c (nq_sd_mbuf_off q)) 0 (k2 - k1) (k3 - k1)"
    by (rule rx_dist_acked [OF assms(1)])
  ultimately show ?thesis using v'(2) by blast
qed

theorem mark_rx_covers_witness:
  "\<exists>v' rs. mark_enq_compl counting_pool net_queue chan8 0 2 0 (4, {#}) = Inr (v', 4, {#}) \<and> concat (map (\<lambda>(a, l). [a..<a + l]) rs) = [0, 1] \<and>
     length (stream (\<lambda>_. \<lambda>_. []) v' ()) = length rs"
proof -
  let ?c = "(\<lambda>_. 0)(1 := 6, 3 := 2, 4 := 2, 5 := 4) :: cells"
  have d: "rx_dist net_queue ?c 0 2 4 6"
    using ring_net_queue by (simp add: rx_dist_def net_queue_def ring_off_def off_index_def) code_simp
  have o: "nq_compl_off net_queue = 0" "nq_auto_free net_queue" "2 \<le> room chan8" "stream (\<lambda>_. \<lambda>_. []) chan8 () = []"
    by (simp_all add: net_queue_def chan8_room stream_def pending_def) (simp add: chan8_def zero_vchan_def)
  have u: "map (\<lambda>k. (off_index 0 + k) mod unat (nq_q_sz net_queue)) [0..<unat (2 :: u16)] = [0, 1]"
    "?c (nq_sd_mbuf_off net_queue) = 2" by (simp_all add: net_queue_def off_index_def upt_rec)
  show ?thesis
    using mark_rx_covers [OF d o(1,2) paired_chan8 o(3), of counting_pool 0 "(4, {#})" "\<lambda>_. \<lambda>_. []" "()"] u o(4) by fastforce
qed

text \<open>C23: without in-order completion \<^verbatim>\<open>virtio_net_desc_manage\<close> makes room for one pointer, but a range that passes the end of the ring
  takes two.  With a flush threshold of fifteen, the size of the pointer arrays, the second one is written behind them.\<close>

theorem noinorder_overrun:
  assumes "paired v" and "flush_thr v = 15" and "room v = 1" and "ring_size (nq_q_sz q)" and "ring_off (nq_q_sz q) start"
    and "unat n \<le> unat (nq_q_sz q)" and "unat (nq_q_sz q) < off_index start + unat n" and "flags AND VIRTIO_NET_DESC_MANAGE_NOINORDER \<noteq> 0"
  shows "dao_dma_flush ops v 1 d = (True, v, d) \<and> mark_deq_compl q v start n flags m = Inl OutOfBounds"
proof -
  let ?stop = "desc_off_add start n (nq_q_sz q)"
  define k where "k = desc_off_diff_no_wrap ?stop start (nq_q_sz q)"
  note w = range_wraps [OF assms(4-7) refl k_def refl]
  have i: "unat (src_i v) = 14" "dst_i v = src_i v" using assms(1-3) by (simp_all add: paired_def room_def)
  then have u: "uint (src_i v) = 14" by (simp add: uint_nat)
  have fl: "dao_dma_flush ops v 1 d = (True, v, d)" using assms(2) u i(2) by (simp add: dao_dma_flush_def Let_def)
  obtain v1 where v1: "copy_back q v start k = Inr v1" "paired v1" "room v1 = 0" "flush_thr v1 = 15"
    using copy_back_run [OF assms(1) _ assms(5,4), where sent = "\<lambda>_ :: unit. \<lambda>_. []" and d = "()"] assms(2,3) by fastforce
  have "length (dst v1) \<le> unat (dst_i v1)" using v1(2-4) by (simp add: paired_def room_def DAO_DMA_MAX_POINTER_def)
  then have "copy_back q v1 (desc_off_add start k (nq_q_sz q)) (n - k) = Inl OutOfBounds"
    by (simp add: copy_back_def dao_dma_enq_x1_def put_dst_def Let_def)
  then have "copy_back_range q v start ?stop = Inl OutOfBounds"
    unfolding copy_back_range_def k_def [symmetric] Let_def v1(1) rbind_simps w(4) if_P [OF w(5)] .
  then show ?thesis using fl assms(8) by (simp add: mark_deq_compl_def mark_deq_compl_no_inorder_def)
qed

theorem noinorder_overrun_witness:
  "mark_deq_compl net_queue (chan8\<lparr>flush_thr := 15, src_i := 14, dst_i := 14\<rparr>) 6 4 1 (\<lambda>_. 0) = Inl OutOfBounds"
proof -
  let ?v = "chan8\<lparr>flush_thr := 15, src_i := 14, dst_i := 14\<rparr>"
  have v: "paired ?v" "flush_thr ?v = 15" "room ?v = 1"
    by (simp_all add: paired_def room_def chan8_def zero_vchan_def DAO_DMA_MAX_POINTER_def)
  have s: "ring_off (nq_q_sz net_queue) 6" "unat (4 :: u16) \<le> unat (nq_q_sz net_queue)" "unat (nq_q_sz net_queue) < off_index 6 + unat (4 :: u16)"
    "(1 :: u16) AND VIRTIO_NET_DESC_MANAGE_NOINORDER \<noteq> 0"
    by (simp_all add: net_queue_def ring_off_def off_index_def VIRTIO_NET_DESC_MANAGE_NOINORDER_def)
  show ?thesis using noinorder_overrun [OF v ring_net_queue s, of log_dev "\<lambda>_. []"] by simp
qed

section \<open>Buffers\<close>

text \<open>C13: the buffers that filling a part of the ring takes, also when the provider runs out in between, are exactly the ones that freeing the
  same part returns: after both the provider has handed out what it had before.\<close>

theorem extbufs_round_trip:
  assumes "extbuf_laws bo out" and "ring_size (nq_q_sz q)" and "unat off < unat (nq_q_sz q)" and "unat n \<le> unat (nq_q_sz q)"
    and "length (nq_buf_arr q) = unat (nq_q_sz q)"
  shows "\<exists>k arr x' y. alloc_extbufs bo q off (nq_q_sz q) n x = Inr (k, arr, x') \<and> unat k \<le> unat n \<and> length arr = length (nq_buf_arr q) \<and>
    free_extbufs bo (q\<lparr>nq_buf_arr := arr\<rparr>) off (nq_q_sz q) k x' = Inr y \<and> out y = out x"
proof -
  let ?id = "ucast (ucast (nq_netdev_id q) :: u8) :: u16"
  let ?get = "\<lambda>n x. case extbuf_get bo ?id n x of (rc, bs, x) \<Rightarrow> (\<not> rc < 0, bs, x)"
  have get: "length bs = n \<and> out x' = (if ok then out x + mset bs else out x)" if "?get n x = (ok, bs, x')" for n x ok bs x'
  proof -
    obtain rc bs1 x1 where g: "extbuf_get bo ?id n x = (rc, bs1, x1)" by (metis prod_cases3)
    then have "length bs1 = n \<and> out x1 = (if rc < 0 then out x else out x + mset bs1)" using assms(1) unfolding extbuf_laws_def by blast
    then show ?thesis using that g by auto
  qed
  have put: "out (extbuf_put bo ?id bs x) = out x - mset bs" for bs x using assms(1) by (simp add: extbuf_laws_def)
  show ?thesis
    using bufs_round_trip [OF assms(2-5) get put, where x = x] by (simp add: alloc_extbufs_def free_extbufs_def)
qed

theorem extbufs_round_trip_witness:
  "\<exists>k arr x' y. alloc_extbufs counting_pool net_queue 6 8 4 (5, {#}) = Inr (k, arr, x') \<and>
     free_extbufs counting_pool (net_queue\<lparr>nq_buf_arr := arr\<rparr>) 6 8 k x' = Inr y \<and> snd y = {#}"
proof -
  have s: "unat (6 :: u16) < unat (nq_q_sz net_queue)" "unat (4 :: u16) \<le> unat (nq_q_sz net_queue)"
    "length (nq_buf_arr net_queue) = unat (nq_q_sz net_queue)" "nq_q_sz net_queue = 8" by (simp_all add: net_queue_def)
  show ?thesis
    using extbufs_round_trip [OF counting_pool_laws ring_net_queue s(1-3), of "(5, {#})"] unfolding s(4) by auto
qed

section \<open>Workers\<close>

text \<open>The shadow ring of the sample queue is far from the sample buffer.\<close>

lemma far_below: "unat x < unat b \<Longrightarrow> unat b \<le> 2 ^ 63 \<Longrightarrow> \<not> unat (x - b :: u64) < 16"
  by (subst unat_sub_if_size) (simp add: word_size)

lemma far_above: "unat x + 8 \<le> unat y \<Longrightarrow> \<not> unat (y - x :: u64) < 8"
  by (subst unat_sub) (simp_all add: word_le_nat_alt)

lemma unat_slot: "i < 8 \<Longrightarrow> l < 4 \<Longrightarrow> unat (0x1000 + 16 * of_nat i + 8 + of_nat l :: u64) = 4104 + 16 * i + l"
proof -
  assume a: "i < 8" "l < 4"
  have "(0x1000 + 16 * of_nat i + 8 + of_nat l :: u64) = of_nat (4104 + 16 * i + l)" by simp
  moreover have "unat (of_nat (4104 + 16 * i + l) :: u64) = 4104 + 16 * i + l" using a by (intro unat_of_nat_small) simp
  ultimately show ?thesis by simp
qed

lemma slot_below: "i < 8 \<Longrightarrow> l < 4 \<Longrightarrow> unat (0x1000 + 16 * of_nat i + 8 + of_nat l :: u64) < unat (0x40000 :: u64)"
  unfolding unat_slot by simp

lemma slot_above: "i < 8 \<Longrightarrow> y = 0x4001A \<or> y = 0x4001B \<Longrightarrow> unat (0x1000 + 16 * of_nat i + 8 :: u64) + 8 \<le> unat (y :: u64)"
  using unat_slot [of i 0] by auto

text \<open>C4: \<^verbatim>\<open>virtio_net_enq_ext\<close> with buffers of one descriptor each returns without a fault, sends at most what the host made available,
  advances the last offset by that number, and keeps the order of the offsets of the queue, for every behaviour of the device.\<close>

theorem enq_ext_keeps_order:
  assumes "rx_ready ops sent s" and "rx_dist (ns_q s) (ns_c s) co k1 k2 k3" and "\<forall>b \<in> set bs. one_desc (ns_q s) (ns_m s) b"
    and "length bs < 2 ^ 16"
  shows "\<exists>k k1' s'. virtio_net_enq_ext ops bs s = Inr (of_nat k, s') \<and> k \<le> length bs \<and> unat k1 \<le> unat k1' \<and>
    rx_dist (ns_q s') (ns_c s') co k1' (k2 + of_nat k) k3 \<and> unat (k2 + of_nat k) = unat k2 + k \<and> rx_ready ops sent s'"
  by (rule enq_ext_ok [OF assms]) blast

definition net_worker :: "cells \<Rightarrow> memory \<Rightarrow> (unit, int \<times> u8 \<Rightarrow> (sge \<times> sge) list) net_st" where
  "net_worker c m = \<lparr>ns_q = net_queue, ns_v = chan8, ns_c = c, ns_m = m, ns_x = (), ns_d = (\<lambda>_. [])\<rparr>"

lemma rx_ready_worker: "rx_ready log_dev (\<lambda>d. d) (net_worker c m)"
  using paired_chan8 log_dev_laws chan8_room by (simp add: rx_ready_def net_worker_def) (simp add: cells_apart_def net_queue_def)

theorem enq_ext_keeps_order_witness:
  "\<exists>k s'. virtio_net_enq_ext log_dev [0x40000] (net_worker ((\<lambda>_. 0)(1 := 6)) ((\<lambda>_. 0)(0x4001A := 1))) = Inr (of_nat k, s') \<and> k \<le> 1 \<and>
     6 \<le> unat (nq_q_sz (ns_q s'))"
proof -
  let ?c = "(\<lambda>_. 0)(1 := 6) :: cells" and ?m = "(\<lambda>_. 0)(0x4001A := 1) :: memory"
  let ?s = "net_worker ?c ?m"
  have d: "rx_dist (ns_q ?s) (ns_c ?s) 0 0 0 6"
    using ring_net_queue by (simp add: rx_dist_def net_worker_def net_queue_def ring_off_def off_index_def) code_simp
  have f: "\<not> unat (0x40000 + 26 - (0x1000 + 16 * of_nat i + 8) :: u64) < 8 \<and> \<not> unat (0x40000 + 26 + 1 - (0x1000 + 16 * of_nat i + 8) :: u64) < 8"
    if "i < 8" for i using that by (intro conjI far_above slot_above) simp_all
  have q: "nq_sd_desc_base net_queue = 0x1000" "unat (nq_q_sz net_queue) = 8" by (simp_all add: net_queue_def)
  have "one_desc net_queue ?m 0x40000" unfolding one_desc_def q using f by (intro conjI allI impI) (simp_all add: load16_def)
  then have o: "\<forall>b \<in> set [0x40000]. one_desc (ns_q ?s) (ns_m ?s) b" by (simp add: net_worker_def)
  have l: "length [0x40000 :: u64] < 2 ^ 16" by simp
  obtain k k1' s' where e: "virtio_net_enq_ext log_dev [0x40000] ?s = Inr (of_nat k, s')" "k \<le> length [0x40000 :: u64]"
      "rx_dist (ns_q s') (ns_c s') 0 k1' (0 + of_nat k) 6"
    using enq_ext_keeps_order [OF rx_ready_worker d o l] by blast
  show ?thesis using e(1,2) rx_distD(5) [OF e(3)] by auto
qed

text \<open>C8: \<^verbatim>\<open>virtio_net_deq_ext\<close> on a queue whose descriptors all fit into one buffer (\<open>short_descs\<close>) and whose buffers do not lie in the shadow ring
  (\<open>bufs_apart\<close>) returns without a fault.  The data it hands out is what has arrived: up to the buffer offset, and past the pending descriptors exactly
  when the DMA operation they were queued with has completed by now.  Of these it hands out, in ring order from the last offset on, as many buffers
  as asked for, up to the end of the ring, and the last offset moves by their number; the order of the offsets is kept.\<close>

theorem deq_ext_in_order:
  assumes "tx_ready ops sent s" and "tx_dist (ns_q s) (ns_c s) co k1 k2 k3"
    and "i = off_index (ns_c s (nq_last_off (ns_q s)))"
    and "k2' = arrived (fst (dao_dma_check_compl ops (ns_v s) (ns_d s))) s k2"
    and "n = min (unat nb) (min (unat k2' - unat k1) (unat (nq_q_sz (ns_q s)) - i))"
  shows "\<exists>s'. virtio_net_deq_ext ops bo nb flags s = Inr (take n (drop i (nq_buf_arr (ns_q s))), s') \<and>
    i + n \<le> length (nq_buf_arr (ns_q s)) \<and> unat (k1 + of_nat n) = unat k1 + n \<and>
    tx_dist (ns_q s') (ns_c s') co (k1 + of_nat n) k2' k3 \<and> tx_ready ops sent s'"
  unfolding assms(3-5) by (rule deq_ext_ok [OF assms(1,2)]) blast

theorem deq_ext_in_order_witness:
  "\<exists>s'. virtio_net_deq_ext log_dev (undefined :: unit buf_ops) 4 0 (net_worker ((\<lambda>_. 0)(1 := 6, 3 := 4, 5 := 2)) (\<lambda>_. 0)) =
     Inr ([0x40000, 0x40000], s') \<and> tx_dist (ns_q s') (ns_c s') 0 4 4 6"
proof -
  let ?s = "net_worker ((\<lambda>_. 0)(1 := 6, 3 := 4, 5 := 2)) (\<lambda>_. 0)"
  have d: "tx_dist (ns_q ?s) (ns_c ?s) 0 2 4 6"
    using ring_net_queue by (simp add: tx_dist_def net_worker_def net_queue_def ring_off_def off_index_def) code_simp
  have a: "load64 (\<lambda>_. 0) b = 0" for b by (simp add: load64_def upt_rec)
  have "bufs_apart net_queue"
    unfolding bufs_apart_def using far_below [OF slot_below] by (simp add: net_queue_def)
  then have "bufs_apart (ns_q ?s)" by (simp add: net_worker_def)
  then have t: "tx_ready log_dev (\<lambda>d. d) ?s" using rx_ready_worker by (simp add: tx_ready_def short_descs_def net_worker_def a)
  have i: "2 = off_index (ns_c ?s (nq_last_off (ns_q ?s)))" "nq_buf_arr (ns_q ?s) = replicate 8 0x40000" "nq_q_sz (ns_q ?s) = 8"
    "ns_c ?s (nq_pend_sd_mbuf (ns_q ?s)) = 0"
    by (simp_all add: net_worker_def net_queue_def off_index_def)
  have k: "(4 :: u16) = arrived (fst (dao_dma_check_compl log_dev (ns_v ?s) (ns_d ?s))) ?s 4" by (simp add: arrived_def i(4))
  have n: "(2 :: nat) = min (unat (4 :: u16)) (min (unat (4 :: u16) - unat (2 :: u16)) (unat (nq_q_sz (ns_q ?s)) - 2))" by (simp add: i(3))
  have l: "take 2 (drop 2 (nq_buf_arr (ns_q ?s))) = [0x40000, 0x40000]" by (simp add: i(2) eval_nat_numeral)
  show ?thesis using deq_ext_in_order [OF t d i(1) k n, of undefined 0] unfolding l by auto
qed

text \<open>C29: for a descriptor that needs two buffers \<^verbatim>\<open>virtio_net_deq_ext\<close> stores the destination of the second buffer over the one of the first
  and counts two destinations: the first buffer gets no data, and the entry behind is one of an earlier operation.\<close>

theorem long_desc_drops_first:
  assumes "unat off < length (nq_buf_arr q)" and "slen = (ucast (load64 m (DESC_PTR_OFF (nq_sd_desc_base q) off 8)) :: u32)"
    and "ucast (nq_buf_len q) < slen" and "slen - ucast (nq_buf_len q) \<le> ucast (nq_buf_len q)"
    and "unat (src_i v) < length (src v)" and "unat (dst_i v) < length (dst v)"
    and "extbuf_get bo (nq_netdev_id q) 1 x = (rc, [nb], x')"
  shows "\<exists>v' m'. ext_fetch_one bo q flags off v m x = Inr (v', m', x') \<and> src_i v' = src_i v + 1 \<and> dst_i v' = dst_i v + 2 \<and>
    dst v' = (dst v)[unat (dst_i v) := \<lparr>addr = nb + 16, len = slen - ucast (nq_buf_len q)\<rparr>]"
proof -
  let ?p = "slen - ucast (nq_buf_len q)"
  obtain g where g: "length (dst v) - unat (dst_i v) = Suc g" using assms(6) by (metis Suc_diff_Suc)
  have p: "?p \<noteq> 0" "\<not> ?p > ucast (nq_buf_len q)" using assms(3,4) by auto
  have le: "\<not> length (nq_buf_arr q) \<le> unat off" using assms(1) by simp
  show ?thesis
    unfolding ext_fetch_one_def if_not_P [OF le] Let_def assms(2) [symmetric]
    using assms(3,5,6,7) g p by (simp add: put_src_def put_dst_def ext_segs.simps dao_dma_enq_dst_x1_def Let_def)
qed

theorem long_desc_drops_first_witness:
  "\<exists>v' m' x'. ext_fetch_one counting_pool net_queue 0 0 chan8 (store64 (\<lambda>_. 0) 0x1008 300) (1, {#}) = Inr (v', m', x') \<and> dst_i v' = 2 \<and>
     dst v' ! 0 = \<lparr>addr = 0x1010, len = 44\<rparr>"
proof -
  let ?m = "store64 (\<lambda>_. 0) 0x1008 300"
  have l: "300 = (ucast (load64 ?m (DESC_PTR_OFF (nq_sd_desc_base net_queue) 0 8)) :: u32)" by code_simp
  have s: "unat (0 :: u16) < length (nq_buf_arr net_queue)" "ucast (nq_buf_len net_queue) < (300 :: u32)"
    "300 - ucast (nq_buf_len net_queue) \<le> (ucast (nq_buf_len net_queue) :: u32)" "300 - ucast (nq_buf_len net_queue) = (44 :: u32)"
    by (simp_all add: net_queue_def)
  have c: "unat (src_i chan8) < length (src chan8)" "unat (dst_i chan8) < length (dst chan8)" "dst_i chan8 = 0" "0 < length (dst chan8)"
    by (simp_all add: chan8_def zero_vchan_def DAO_DMA_MAX_POINTER_def)
  have e: "extbuf_get counting_pool (nq_netdev_id net_queue) 1 (1, {#}) = (0, [0x1000], (0, {#0x1000#}))"
    by (simp add: counting_pool_def)
  show ?thesis
    using long_desc_drops_first [OF s(1) l s(2,3) c(1,2) e, of 0] unfolding s(4) using c(3,4) by fastforce
qed

end
