(* ===== verification/Net_Dev.thy ===== *)
theory Net_Dev
  imports Net_Ext Virtio_Init
begin

text \<open>
  The slow path of the virtio net device, \<^verbatim>\<open>lib/virtio_net/virtio_netdev.c\<close>: setting up and releasing the queues, the commands of the
  control queue, the reactions to the device status, and initialisation.

  The callbacks of the application are parameters; one that is not registered is \<open>None\<close>.  The structure \<^verbatim>\<open>virtio_netdev\<close> starts with the
  \<^verbatim>\<open>virtio_dev\<close> of the transport, which is passed separately here; the arrays \<^verbatim>\<open>qs\<close> of \<^verbatim>\<open>virtio_netdev\<close> and of \<^verbatim>\<open>dao_virtio_netdev\<close> are always
  written together and are one list.  Constants of the packet buffer library and the layout of a queue in memory are parameters.
\<close>

section \<open>Data\<close>

record virtio_netdev =
  nd_qs :: "virtio_net_queue option list"
  nd_deq_fn_id :: u16
  nd_enq_fn_id :: u16
  nd_mgmt_fn_id :: u16
  nd_vq_pairs_set :: u16
  nd_flags :: u16
  nd_pool :: u64
  nd_dataroom_size :: u16
  nd_auto_free_en :: bool
  nd_reta_size :: u16
  nd_hash_key_size :: u16
  nd_hash_report_addr :: u64
  nd_hash_report :: "u8 list"

text \<open>A pointer to a structure in the command is its address.\<close>

record 'x netdev_cbs =
  status_cb :: "(u16 \<Rightarrow> u8 \<Rightarrow> 'x world \<Rightarrow> int \<times> 'x world) option"
  rss_cb :: "(u16 \<Rightarrow> u64 option \<Rightarrow> 'x world \<Rightarrow> int \<times> 'x world) option"
  promisc_cb :: "(u16 \<Rightarrow> u8 \<Rightarrow> 'x world \<Rightarrow> int \<times> 'x world) option"
  allmulti_cb :: "(u16 \<Rightarrow> u8 \<Rightarrow> 'x world \<Rightarrow> int \<times> 'x world) option"
  mac_set :: "(u16 \<Rightarrow> u8 list \<Rightarrow> 'x world \<Rightarrow> int \<times> 'x world) option"
  mac_add :: "(u16 \<Rightarrow> u64 \<Rightarrow> u8 \<Rightarrow> 'x world \<Rightarrow> int \<times> 'x world) option"
  mq_configure :: "(u16 \<Rightarrow> bool \<Rightarrow> 'x world \<Rightarrow> int \<times> 'x world) option"
  vlan_add :: "(u16 \<Rightarrow> u16 \<Rightarrow> 'x world \<Rightarrow> int \<times> 'x world) option"
  vlan_del :: "(u16 \<Rightarrow> u16 \<Rightarrow> 'x world \<Rightarrow> int \<times> 'x world) option"

text \<open>The packet types of the packet buffer library, its sizes, and the layout of \<^verbatim>\<open>struct virtio_net_queue\<close>: the size up to the shadow
  ring and the places of the offsets.\<close>

record ptypes =
  L3_IPV4 :: u32
  L3_IPV4_EXT :: u32
  L3_IPV4_EXT_UNKNOWN :: u32
  L3_IPV6 :: u32
  L3_IPV6_EXT :: u32
  L3_IPV6_EXT_UNKNOWN :: u32
  L4_TCP :: u32
  L4_UDP :: u32

record net_layout =
  mbuf_sz :: u16
  headroom :: u16
  elt_size :: "u64 \<Rightarrow> u32"
  priv_size :: "u64 \<Rightarrow> u16"
  queue_sz :: u64
  off_sd_desc_off :: u64
  off_pend_sd_desc :: u64
  off_sd_mbuf_off :: u64
  off_pend_sd_mbuf :: u64
  off_last_off :: u64

definition DAO_VIRTIO_NETDEV_EXTBUF :: u16 where "DAO_VIRTIO_NETDEV_EXTBUF = 1"
definition DAO_HASH_REPORT_INDEX_MAX :: nat where "DAO_HASH_REPORT_INDEX_MAX = 256"
definition RING_EVENT_FLAGS_DISABLE :: int where "RING_EVENT_FLAGS_DISABLE = 1"

definition VIRTIO_NET_DEQ_OFFLOAD_CHECKSUM :: u16 where "VIRTIO_NET_DEQ_OFFLOAD_CHECKSUM = 1"
definition VIRTIO_NET_DEQ_OFFLOAD_GSO :: u16 where "VIRTIO_NET_DEQ_OFFLOAD_GSO = 4"
definition VIRTIO_NET_ENQ_OFFLOAD_NOFF :: u16 where "VIRTIO_NET_ENQ_OFFLOAD_NOFF = 1"
definition VIRTIO_NET_ENQ_OFFLOAD_CHECKSUM :: u16 where "VIRTIO_NET_ENQ_OFFLOAD_CHECKSUM = 2"
definition VIRTIO_NET_ENQ_OFFLOAD_MSEG :: u16 where "VIRTIO_NET_ENQ_OFFLOAD_MSEG = 4"
definition VIRTIO_NET_ENQ_OFFLOAD_HASH_REPORT :: u16 where "VIRTIO_NET_ENQ_OFFLOAD_HASH_REPORT = 8"

definition VIRTIO_NET_F_CSUM :: nat where "VIRTIO_NET_F_CSUM = 0"
definition VIRTIO_NET_F_GUEST_CSUM :: nat where "VIRTIO_NET_F_GUEST_CSUM = 1"
definition VIRTIO_NET_F_MTU :: nat where "VIRTIO_NET_F_MTU = 3"
definition VIRTIO_NET_F_MAC :: nat where "VIRTIO_NET_F_MAC = 5"
definition VIRTIO_NET_F_HOST_TSO4 :: nat where "VIRTIO_NET_F_HOST_TSO4 = 11"
definition VIRTIO_NET_F_HOST_TSO6 :: nat where "VIRTIO_NET_F_HOST_TSO6 = 12"
definition VIRTIO_NET_F_MRG_RXBUF :: nat where "VIRTIO_NET_F_MRG_RXBUF = 15"
definition VIRTIO_NET_F_STATUS :: nat where "VIRTIO_NET_F_STATUS = 16"
definition VIRTIO_NET_F_CTRL_VQ :: nat where "VIRTIO_NET_F_CTRL_VQ = 17"
definition VIRTIO_NET_F_CTRL_RX :: nat where "VIRTIO_NET_F_CTRL_RX = 18"
definition VIRTIO_NET_F_CTRL_VLAN :: nat where "VIRTIO_NET_F_CTRL_VLAN = 19"
definition VIRTIO_NET_F_MQ :: nat where "VIRTIO_NET_F_MQ = 22"
definition VIRTIO_NET_F_CTRL_MAC_ADDR :: nat where "VIRTIO_NET_F_CTRL_MAC_ADDR = 23"
definition VIRTIO_F_IN_ORDER :: nat where "VIRTIO_F_IN_ORDER = 35"
definition VIRTIO_NET_F_HASH_REPORT :: nat where "VIRTIO_NET_F_HASH_REPORT = 57"
definition VIRTIO_NET_F_GUEST_HDRLEN :: nat where "VIRTIO_NET_F_GUEST_HDRLEN = 59"
definition VIRTIO_NET_F_RSS :: nat where "VIRTIO_NET_F_RSS = 60"
definition VIRTIO_NET_F_SPEED_DUPLEX :: nat where "VIRTIO_NET_F_SPEED_DUPLEX = 63"

section \<open>Features\<close>

text \<open>The loop over the bits only writes to the log.\<close>

definition virtio_netdev_feature_validate :: "virtio_dev \<Rightarrow> u64 \<Rightarrow> int" where
  "virtio_netdev_feature_validate dev bits = (if bits OR dev_feature_bits dev \<noteq> dev_feature_bits dev then - EINVAL else 0)"

definition virtio_netdev_cq_id_get :: "virtio_dev \<Rightarrow> u64 \<Rightarrow> u16" where
  "virtio_netdev_cq_id_get dev bits =
     (if bits AND RTE_BIT64 VIRTIO_NET_F_MQ \<noteq> 0 then word_of_int (max_virtio_queues dev - 1) else 2)"

definition virtio_netdev_hdr_size :: "virtio_dev \<Rightarrow> u8" where
  "virtio_netdev_hdr_size dev =
     (if \<not> features_ok dev then 0
      else if feature_bits dev AND RTE_BIT64 VIRTIO_NET_F_HASH_REPORT \<noteq> 0 then 20
      else 12)"

section \<open>Hash reports\<close>

definition VIRTIO_NET_HASH_REPORT_IPv4 :: u8 where "VIRTIO_NET_HASH_REPORT_IPv4 = 1"
definition VIRTIO_NET_HASH_REPORT_TCPv4 :: u8 where "VIRTIO_NET_HASH_REPORT_TCPv4 = 2"
definition VIRTIO_NET_HASH_REPORT_UDPv4 :: u8 where "VIRTIO_NET_HASH_REPORT_UDPv4 = 3"
definition VIRTIO_NET_HASH_REPORT_IPv6 :: u8 where "VIRTIO_NET_HASH_REPORT_IPv6 = 4"
definition VIRTIO_NET_HASH_REPORT_TCPv6 :: u8 where "VIRTIO_NET_HASH_REPORT_TCPv6 = 5"
definition VIRTIO_NET_HASH_REPORT_UDPv6 :: u8 where "VIRTIO_NET_HASH_REPORT_UDPv6 = 6"
definition VIRTIO_NET_HASH_REPORT_IPv6_EX :: u8 where "VIRTIO_NET_HASH_REPORT_IPv6_EX = 7"
definition VIRTIO_NET_HASH_REPORT_TCPv6_EX :: u8 where "VIRTIO_NET_HASH_REPORT_TCPv6_EX = 8"
definition VIRTIO_NET_HASH_REPORT_UDPv6_EX :: u8 where "VIRTIO_NET_HASH_REPORT_UDPv6_EX = 9"

definition report_index :: "u32 \<Rightarrow> nat" where
  "report_index ty = unat (drop_bit 4 ty)"

text \<open>The stores of one block: every listed packet type gets the report \<open>v\<close>.\<close>

fun set_reports :: "u32 list \<Rightarrow> u8 \<Rightarrow> u8 list \<Rightarrow> fault + u8 list" where
  "set_reports [] v tb = Inr tb"
| "set_reports (ty # tys) v tb =
     (if length tb \<le> report_index ty then Inl OutOfBounds else set_reports tys v (tb[report_index ty := v]))"

definition report_block :: "u64 \<Rightarrow> nat \<Rightarrow> u32 list \<Rightarrow> u8 \<Rightarrow> u8 list \<Rightarrow> fault + u8 list" where
  "report_block types k tys v tb = (if bit types k then set_reports tys v tb else Inr tb)"

definition virtio_hash_types_to_hash_report :: "ptypes \<Rightarrow> u64 \<Rightarrow> fault + u8 list" where
  "virtio_hash_types_to_hash_report pt types =
     (let v4 = L3_IPV4 pt; v6 = L3_IPV6 pt; ex = L3_IPV6_EXT pt; eu = L3_IPV6_EXT_UNKNOWN pt; tcp = L4_TCP pt; udp = L4_UDP pt
      in rbind (report_block types 0 [v4, L3_IPV4_EXT pt, L3_IPV4_EXT_UNKNOWN pt, v4 OR tcp, v4 OR udp] VIRTIO_NET_HASH_REPORT_IPv4
           (replicate DAO_HASH_REPORT_INDEX_MAX 0)) (\<lambda>tb.
         rbind (report_block types 1 [v4 OR tcp] VIRTIO_NET_HASH_REPORT_TCPv4 tb) (\<lambda>tb.
         rbind (report_block types 2 [v4 OR udp] VIRTIO_NET_HASH_REPORT_UDPv4 tb) (\<lambda>tb.
         rbind (report_block types 3 [v6, ex, eu, v6 OR tcp, v6 OR udp, eu OR tcp, ex OR udp] VIRTIO_NET_HASH_REPORT_IPv6 tb) (\<lambda>tb.
         rbind (report_block types 4 [v6 OR tcp, eu OR tcp, ex OR tcp] VIRTIO_NET_HASH_REPORT_TCPv6 tb) (\<lambda>tb.
         rbind (report_block types 5 [v6 OR udp, eu OR udp, ex OR udp] VIRTIO_NET_HASH_REPORT_UDPv6 tb) (\<lambda>tb.
         rbind (report_block types 6 [ex, eu, ex OR tcp, eu OR tcp, ex OR udp, eu OR udp] VIRTIO_NET_HASH_REPORT_IPv6_EX tb) (\<lambda>tb.
         rbind (report_block types 7 [ex OR tcp, eu OR tcp] VIRTIO_NET_HASH_REPORT_TCPv6_EX tb) (\<lambda>tb.
           report_block types 8 [ex OR udp, eu OR udp] VIRTIO_NET_HASH_REPORT_UDPv6_EX tb)))))))))"

section \<open>Queues\<close>

text \<open>The event suppression structure of the driver, fetched by DMA; the flags are its second half word.\<close>

definition virtio_queue_driver_event_flag :: "'x virtio_ops \<Rightarrow> virtio_dev \<Rightarrow> virtio_net_queue \<Rightarrow> 'x world \<Rightarrow> int \<times> 'x world" where
  "virtio_queue_driver_event_flag ops dev q w =
     (let d = dao_dma_ctrl_dev2mem (ctrl_dma ops) in
      case ctrl_copy ops d (dma_vchan dev) (nq_driver_area q) (nq_sd_driver_area q) 4 w of (rc, w1) \<Rightarrow>
      if rc < 0 then (rc, w1)
      else case dma_wait ops d (dma_vchan dev) VIRTIO_DMA_TMO_MS w1 of
        (False, w2) \<Rightarrow> (- EFAULT, w2)
      | (True, w2) \<Rightarrow> (uint (load16 (wmem w2) (nq_sd_driver_area q + 2)), w2))"

text \<open>The number of data queues, computed in 32 bits.\<close>

definition max_vqs :: "virtio_dev \<Rightarrow> nat" where
  "max_vqs dev = unat (word_of_int (max_virtio_queues dev - 1) :: u32)"

fun interrupt_loop :: "virtio_dev \<Rightarrow> nat list \<Rightarrow> nat \<Rightarrow> virtio_net_queue option list \<Rightarrow> memory \<Rightarrow>
    fault + virtio_net_queue option list \<times> memory" where
  "interrupt_loop dev [] idx qs m = Inr (qs, m)"
| "interrupt_loop dev (i # is) idx qs m =
     (if length qs \<le> i then Inl OutOfBounds
      else case qs ! i of
        None \<Rightarrow> interrupt_loop dev is idx qs m
      | Some q \<Rightarrow>
          if odd i then interrupt_loop dev is idx qs m
          else if length (cb_intr_addr dev) \<le> idx then Inl OutOfBounds
          else
            let q1 = q\<lparr>nq_cb_intr_addr := cb_intr_addr dev ! idx, nq_cb_notify_addr := nq_notify_addr q + 4\<rparr>;
                m1 = store32 m (nq_cb_notify_addr q1) 0
            in if nb_cb_intrs dev = 0 then Inl DivideByZero
               else interrupt_loop dev is ((idx + 1) mod unat (nb_cb_intrs dev)) (qs[i := Some q1]) m1)"

definition virtio_netdev_cb_interrupt_conf :: "virtio_dev \<Rightarrow> virtio_netdev \<Rightarrow> 'x world \<Rightarrow> fault + virtio_netdev \<times> 'x world" where
  "virtio_netdev_cb_interrupt_conf dev nd w =
     rbind (interrupt_loop dev [0..<max_vqs dev] 0 (nd_qs nd) (wmem w)) (\<lambda>(qs, m). Inr (nd\<lparr>nd_qs := qs\<rparr>, w\<lparr>wmem := m\<rparr>))"

text \<open>The queue that is set up at address \<open>a\<close>.\<close>

definition netdev_buf_len :: "net_layout \<Rightarrow> virtio_netdev \<Rightarrow> u16" where
  "netdev_buf_len ly nd =
     (if nd_flags nd AND DAO_VIRTIO_NETDEV_EXTBUF = 0
      then ucast (elt_size ly (nd_pool nd)) - mbuf_sz ly - headroom ly - priv_size ly (nd_pool nd)
      else nd_dataroom_size nd)"

definition netdev_queue :: "net_layout \<Rightarrow> virtio_dev \<Rightarrow> virtio_netdev \<Rightarrow> u16 \<Rightarrow> virtio_queue_conf \<Rightarrow> u64 \<Rightarrow> virtio_net_queue" where
  "netdev_queue ly dev nd qid qc a =
     (let ext = (nd_flags nd AND DAO_VIRTIO_NETDEV_EXTBUF \<noteq> 0);
          sd = a + queue_sz ly
      in \<lparr>nq_desc_base = push_bit 32 (ucast (qc_desc_hi qc)) OR ucast (qc_desc_lo qc),
          nq_notify_addr = notify_base dev + ucast qid * notify_off_mltpr dev,
          nq_data_off = (if ext then 0 else mbuf_sz ly + headroom ly + priv_size ly (nd_pool nd)),
          nq_buf_len = netdev_buf_len ly nd, nq_q_sz = qc_size qc, nq_dma_vchan = dma_vchan dev, nq_netdev_id = dev_id dev,
          nq_virtio_hdr_sz = virtio_netdev_hdr_size dev, nq_auto_free = nd_auto_free_en nd, nq_qid = qid,
          nq_pend_sd_mbuf_idx = 0, nq_pend_sd_desc_idx = 0, nq_pend_compl_idx = 0, nq_pend_compl = False, nq_compl_off = 0x8000,
          nq_cb_notify_addr = 0, nq_cb_intr_addr = None, nq_mp = (if ext then 0 else nd_pool nd),
          nq_buf_arr = replicate (unat (qc_size qc)) 0,
          nq_driver_area = push_bit 32 (ucast (qc_avail_hi qc)) OR ucast (qc_avail_lo qc),
          nq_sd_driver_area = sd + ucast (qc_size qc) * 16, nq_sd_desc_base = sd, nq_sd_desc_off = a + off_sd_desc_off ly,
          nq_pend_sd_desc = a + off_pend_sd_desc ly, nq_sd_mbuf_off = a + off_sd_mbuf_off ly,
          nq_pend_sd_mbuf = a + off_pend_sd_mbuf ly, nq_last_off = a + off_last_off ly\<rparr>)"

definition netdev_cells :: "virtio_net_queue \<Rightarrow> cells \<Rightarrow> cells" where
  "netdev_cells q c = c(nq_pend_sd_desc q := 0, nq_pend_sd_mbuf q := 0, nq_sd_desc_off q := 0x8000, nq_sd_mbuf_off q := 0x8000, nq_last_off q := 0x8000)"

definition virtio_netdev_populate_queue_info ::
  "'x virtio_ops \<Rightarrow> net_layout \<Rightarrow> virtio_dev \<Rightarrow> virtio_netdev \<Rightarrow> cells \<Rightarrow> u16 \<Rightarrow> 'x world \<Rightarrow>
    fault + int \<times> virtio_netdev \<times> cells \<times> 'x world" where
  "virtio_netdev_populate_queue_info ops ly dev nd c qid w =
     (if max_vqs dev \<le> unat qid then Inr (- EINVAL, nd, c, w)
      else if length (queue_conf dev) \<le> unat qid \<or> length (nd_qs nd) \<le> unat qid then Inl OutOfBounds
      else
        let qc = queue_conf dev ! unat qid in
        if qc_enable qc = 0 \<or> nd_qs nd ! unat qid \<noteq> None then Inr (0, nd, c, w)
        else
          let shadow = ALIGN64 (ucast (qc_size qc) * 16 + 8) (of_nat (cache_line ops));
              mbufs = ALIGN64 (ucast (qc_size qc) * 8) (of_nat (cache_line ops))
          in case heap_zmalloc ops (unat (queue_sz ly) + unat shadow + unat mbufs) w of (a, w1) \<Rightarrow>
             if a = 0 then Inr (- ENOMEM, nd, c, w1)
             else
               let q = netdev_queue ly dev nd qid qc a;
                   nd1 = nd\<lparr>nd_qs := (nd_qs nd)[unat qid := Some q]\<rparr>;
                   c1 = netdev_cells q c
               in if \<not> driver_ok dev then Inr (0, nd1, c1, w1)
                  else case virtio_queue_driver_event_flag ops dev q w1 of (ev, w2) \<Rightarrow>
                    if ev < 0 then Inr (- 1, nd1, c1, w2)
                    else if ev \<noteq> RING_EVENT_FLAGS_DISABLE
                    then rbind (virtio_netdev_cb_interrupt_conf dev nd1 w2) (\<lambda>(nd2, w3). Inr (0, nd2, c1, w3))
                    else Inr (0, nd1, c1, w2))"

definition virtio_netdev_queue_enable ::
  "'x virtio_ops \<Rightarrow> net_layout \<Rightarrow> virtio_dev \<Rightarrow> virtio_netdev \<Rightarrow> cells \<Rightarrow> u16 \<Rightarrow> 'x world \<Rightarrow>
    fault + int \<times> virtio_netdev \<times> cells \<times> 'x world" where
  "virtio_netdev_queue_enable = virtio_netdev_populate_queue_info"

definition virtio_netdev_flush_enq_queue ::
  "'x world buf_ops \<Rightarrow> virtio_netdev \<Rightarrow> nat \<Rightarrow> cells \<Rightarrow> 'x world \<Rightarrow> fault + cells \<times> 'x world" where
  "virtio_netdev_flush_enq_queue bo nd i c w =
     (if length (nd_qs nd) \<le> i then Inl OutOfBounds
      else case nd_qs nd ! i of
        None \<Rightarrow> Inr (c, w)
      | Some q \<Rightarrow> if nd_mgmt_fn_id nd AND VIRTIO_NET_DESC_MANAGE_EXTBUF = 0 then virtio_net_flush_enq bo q c w
                  else virtio_net_flush_enq_ext bo q c w)"

definition virtio_netdev_flush_deq_queue ::
  "'x world buf_ops \<Rightarrow> virtio_netdev \<Rightarrow> nat \<Rightarrow> cells \<Rightarrow> 'x world \<Rightarrow> fault + cells \<times> 'x world" where
  "virtio_netdev_flush_deq_queue bo nd i c w =
     (if length (nd_qs nd) \<le> i then Inl OutOfBounds
      else case nd_qs nd ! i of
        None \<Rightarrow> Inr (c, w)
      | Some q \<Rightarrow> if nd_mgmt_fn_id nd AND VIRTIO_NET_DESC_MANAGE_EXTBUF = 0 then virtio_net_flush_deq bo q c w
                  else virtio_net_flush_deq_ext bo q c w)"

text \<open>The block of a queue starts in front of its shadow ring.\<close>

fun clear_queues :: "'x virtio_ops \<Rightarrow> 'x world buf_ops \<Rightarrow> net_layout \<Rightarrow> nat list \<Rightarrow> virtio_netdev \<Rightarrow> cells \<Rightarrow> 'x world \<Rightarrow>
    fault + virtio_netdev \<times> cells \<times> 'x world" where
  "clear_queues ops bo ly [] nd c w = Inr (nd, c, w)"
| "clear_queues ops bo ly (i # is) nd c w =
     rbind (if odd i then virtio_netdev_flush_deq_queue bo nd i c w else virtio_netdev_flush_enq_queue bo nd i c w) (\<lambda>(c1, w1).
       let w2 = (case nd_qs nd ! i of None \<Rightarrow> w1 | Some q \<Rightarrow> heap_free ops (nq_sd_desc_base q - queue_sz ly) w1)
       in clear_queues ops bo ly is (nd\<lparr>nd_qs := (nd_qs nd)[i := None]\<rparr>) c1 w2)"

definition virtio_netdev_clear_queue_info ::
  "'x virtio_ops \<Rightarrow> 'x world buf_ops \<Rightarrow> net_layout \<Rightarrow> virtio_dev \<Rightarrow> virtio_netdev \<Rightarrow> cells \<Rightarrow> 'x world \<Rightarrow>
    fault + int \<times> virtio_netdev \<times> cells \<times> 'x world" where
  "virtio_netdev_clear_queue_info ops bo ly dev nd c w =
     rbind (clear_queues ops bo ly [0..<max_vqs dev] nd c w) (\<lambda>(nd1, c1, w1). Inr (0, nd1, c1, w1))"

section \<open>Commands of the control queue\<close>

definition VIRTIO_NET_CTRL_RX :: u8 where "VIRTIO_NET_CTRL_RX = 0"
definition VIRTIO_NET_CTRL_MAC :: u8 where "VIRTIO_NET_CTRL_MAC = 1"
definition VIRTIO_NET_CTRL_VLAN :: u8 where "VIRTIO_NET_CTRL_VLAN = 2"
definition VIRTIO_NET_CTRL_MQ :: u8 where "VIRTIO_NET_CTRL_MQ = 4"
definition VIRTIO_NET_ERR :: int where "VIRTIO_NET_ERR = 1"

text \<open>The \<open>n\<close> bytes at offset \<open>k\<close> of the command, which is in a block of \<open>len s\<close> bytes.\<close>

definition cmd_bytes :: "sge \<Rightarrow> nat \<Rightarrow> nat \<Rightarrow> memory \<Rightarrow> fault + u8 list" where
  "cmd_bytes s k n m = (if unat (len s) < k + n then Inl OutOfBounds else Inr (map (\<lambda>i. m (addr s + of_nat (k + i))) [0..<n]))"

definition cmd_u8 :: "sge \<Rightarrow> nat \<Rightarrow> memory \<Rightarrow> fault + u8" where
  "cmd_u8 s k m = rbind (cmd_bytes s k 1 m) (\<lambda>bs. Inr (hd bs))"

definition cmd_u16 :: "sge \<Rightarrow> nat \<Rightarrow> memory \<Rightarrow> fault + u16" where
  "cmd_u16 s k m = rbind (cmd_bytes s k 2 m) (\<lambda>_. Inr (load16 m (addr s + of_nat k)))"

definition cmd_u32 :: "sge \<Rightarrow> nat \<Rightarrow> memory \<Rightarrow> fault + u32" where
  "cmd_u32 s k m = rbind (cmd_bytes s k 4 m) (\<lambda>_. Inr (load32 m (addr s + of_nat k)))"

text \<open>The data starts at offset 2; in \<^verbatim>\<open>struct virtio_net_ctrl_rss\<close> the hash types are at 0 and the number of queues at 264.\<close>

definition net_rss_setup ::
  "ptypes \<Rightarrow> 'x netdev_cbs \<Rightarrow> virtio_dev \<Rightarrow> virtio_netdev \<Rightarrow> sge \<Rightarrow> 'x world \<Rightarrow> fault + int \<times> virtio_netdev \<times> 'x world" where
  "net_rss_setup pt cbs dev nd s w =
     (case rss_cb cbs of
        None \<Rightarrow> Inr (- ENOTSUP, nd, w)
      | Some f \<Rightarrow>
          rbind (cmd_u16 s 266 (wmem w)) (\<lambda>n.
          let nd1 = nd\<lparr>nd_vq_pairs_set := n\<rparr>
          in case f (dev_id dev) None w of (_, w1) \<Rightarrow>
             case f (dev_id dev) (Some (addr s + 2)) w1 of (rc, w2) \<Rightarrow>
             if rc \<noteq> 0 then Inr (rc, nd1, w2)
             else rbind (cmd_u32 s 2 (wmem w2)) (\<lambda>types.
                  rbind (virtio_hash_types_to_hash_report pt (ucast types)) (\<lambda>tb.
                  Inr (rc, nd1\<lparr>nd_hash_report := tb\<rparr>, w2)))))"

definition net_promisc_setup :: "'x netdev_cbs \<Rightarrow> virtio_dev \<Rightarrow> u8 \<Rightarrow> 'x world \<Rightarrow> int \<times> 'x world" where
  "net_promisc_setup cbs dev e w = (case promisc_cb cbs of None \<Rightarrow> (- ENOTSUP, w) | Some f \<Rightarrow> f (dev_id dev) e w)"

definition net_allmulti_setup :: "'x netdev_cbs \<Rightarrow> virtio_dev \<Rightarrow> u8 \<Rightarrow> 'x world \<Rightarrow> int \<times> 'x world" where
  "net_allmulti_setup cbs dev e w = (case allmulti_cb cbs of None \<Rightarrow> (- ENOTSUP, w) | Some f \<Rightarrow> f (dev_id dev) e w)"

definition net_mac_set :: "'x netdev_cbs \<Rightarrow> virtio_dev \<Rightarrow> u8 list \<Rightarrow> 'x world \<Rightarrow> int \<times> 'x world" where
  "net_mac_set cbs dev mac w = (case mac_set cbs of None \<Rightarrow> (- ENOTSUP, w) | Some f \<Rightarrow> f (dev_id dev) mac w)"

definition net_mac_add :: "'x netdev_cbs \<Rightarrow> virtio_dev \<Rightarrow> u64 \<Rightarrow> u8 \<Rightarrow> 'x world \<Rightarrow> int \<times> 'x world" where
  "net_mac_add cbs dev tab ty w = (case mac_add cbs of None \<Rightarrow> (- ENOTSUP, w) | Some f \<Rightarrow> f (dev_id dev) tab ty w)"

definition net_vlan :: "(u16 \<Rightarrow> u16 \<Rightarrow> 'x world \<Rightarrow> int \<times> 'x world) option \<Rightarrow> virtio_dev \<Rightarrow> sge \<Rightarrow> 'x world \<Rightarrow> fault + int \<times> 'x world" where
  "net_vlan fo dev s w =
     (case fo of None \<Rightarrow> Inr (- ENOTSUP, w) | Some f \<Rightarrow> rbind (cmd_u16 s 2 (wmem w)) (\<lambda>tci. Inr (f (dev_id dev) tci w)))"

definition net_vlan_add :: "'x netdev_cbs \<Rightarrow> virtio_dev \<Rightarrow> sge \<Rightarrow> 'x world \<Rightarrow> fault + int \<times> 'x world" where
  "net_vlan_add cbs = net_vlan (vlan_add cbs)"

definition net_vlan_del :: "'x netdev_cbs \<Rightarrow> virtio_dev \<Rightarrow> sge \<Rightarrow> 'x world \<Rightarrow> fault + int \<times> 'x world" where
  "net_vlan_del cbs = net_vlan (vlan_del cbs)"

definition net_mq_configure ::
  "'x netdev_cbs \<Rightarrow> virtio_dev \<Rightarrow> virtio_netdev \<Rightarrow> sge \<Rightarrow> 'x world \<Rightarrow> fault + int \<times> virtio_netdev \<times> 'x world" where
  "net_mq_configure cbs dev nd s w =
     (case mq_configure cbs of
        None \<Rightarrow> Inr (- ENOTSUP, nd, w)
      | Some f \<Rightarrow>
          rbind (cmd_u16 s 2 (wmem w)) (\<lambda>n.
          case f (dev_id dev) False w of (_, w1) \<Rightarrow>
          case f (dev_id dev) True w1 of (rc, w2) \<Rightarrow> Inr (rc, nd\<lparr>nd_vq_pairs_set := n\<rparr>, w2)))"

text \<open>The address of the second table follows from the number of entries the first one claims.\<close>

definition mac_table_set :: "'x netdev_cbs \<Rightarrow> virtio_dev \<Rightarrow> sge \<Rightarrow> u16 \<Rightarrow> 'x world \<Rightarrow> fault + int \<times> 'x world" where
  "mac_table_set cbs dev s nb_desc w =
     (case net_mac_add cbs dev (addr s + 2) 0 w of (rc, w1) \<Rightarrow>
      if rc \<noteq> 0 \<or> nb_desc < 4 then Inr (rc, w1)
      else rbind (cmd_u32 s 2 (wmem w1)) (\<lambda>n.
           let mc = addr s + 2 + 4 + ucast (n * 6)
           in Inr (net_mac_add cbs dev mc 1 w1)))"

definition netdev_command ::
  "ptypes \<Rightarrow> 'x netdev_cbs \<Rightarrow> virtio_dev \<Rightarrow> virtio_netdev \<Rightarrow> sge \<Rightarrow> u16 \<Rightarrow> 'x world \<Rightarrow> fault + int \<times> virtio_netdev \<times> 'x world" where
  "netdev_command pt cbs dev nd s nb_desc w =
     rbind (cmd_u8 s 0 (wmem w)) (\<lambda>cls.
     rbind (cmd_u8 s 1 (wmem w)) (\<lambda>cmd.
       let keep = (\<lambda>(rc, w). Inr (rc, nd, w))
       in if cls = VIRTIO_NET_CTRL_MQ then
            (if cmd = 1 then net_rss_setup pt cbs dev nd s w
             else if cmd = 0 then net_mq_configure cbs dev nd s w
             else Inr (VIRTIO_NET_ERR, nd, w))
          else if cls = VIRTIO_NET_CTRL_RX then
            (if cmd = 0 then rbind (cmd_u8 s 2 (wmem w)) (\<lambda>e. keep (net_promisc_setup cbs dev e w))
             else if cmd = 1 then rbind (cmd_u8 s 2 (wmem w)) (\<lambda>e. keep (net_allmulti_setup cbs dev e w))
             else Inr (VIRTIO_NET_ERR, nd, w))
          else if cls = VIRTIO_NET_CTRL_MAC then
            (if cmd = 1 then rbind (cmd_bytes s 2 6 (wmem w)) (\<lambda>mac. keep (net_mac_set cbs dev mac w))
             else if cmd = 0 then rbind (mac_table_set cbs dev s nb_desc w) keep
             else Inr (VIRTIO_NET_ERR, nd, w))
          else if cls = VIRTIO_NET_CTRL_VLAN then
            (if cmd = 0 then rbind (net_vlan_add cbs dev s w) keep
             else if cmd = 1 then rbind (net_vlan_del cbs dev s w) keep
             else Inr (VIRTIO_NET_ERR, nd, w))
          else Inr (VIRTIO_NET_ERR, nd, w)))"

definition virtio_netdev_cq_cmd_process ::
  "'x virtio_ops \<Rightarrow> ptypes \<Rightarrow> 'x netdev_cbs \<Rightarrow> virtio_dev \<Rightarrow> virtio_netdev \<Rightarrow> sge list \<Rightarrow> sge list \<Rightarrow> u16 \<Rightarrow> 'x world \<Rightarrow>
    fault + virtio_netdev \<times> 'x world" where
  "virtio_netdev_cq_cmd_process ops pt cbs dev nd csrc cdst nb_desc w =
     (if cdst = [] then Inl OutOfBounds
      else
        let s = hd cdst
        in rbind (netdev_command pt cbs dev nd s nb_desc w) (\<lambda>(status, nd1, w1).
           if nb_desc = 0 \<or> length csrc < unat nb_desc then Inl OutOfBounds
           else
             let w2 = w1\<lparr>wmem := (wmem w1)(addr s := word_of_int status)\<rparr>;
                 d = dao_dma_ctrl_mem2dev (ctrl_dma ops)
             in case ctrl_copy ops d (dma_vchan dev) (addr s) (addr (csrc ! (unat nb_desc - 1))) 1 w2 of (rc, w3) \<Rightarrow>
                if rc < 0 then Inr (nd1, w3)
                else Inr (nd1, snd (dma_wait ops d (dma_vchan dev) VIRTIO_DMA_TMO_MS w3))))"

section \<open>Device status\<close>

text \<open>The functions of the fast path that the negotiated features select.\<close>

definition set_flag :: "bool \<Rightarrow> u16 \<Rightarrow> u16 \<Rightarrow> u16" where
  "set_flag b fl x = (if b then (x AND NOT fl) OR fl else x AND NOT fl)"

definition select_fns :: "virtio_dev \<Rightarrow> virtio_netdev \<Rightarrow> virtio_netdev" where
  "select_fns dev nd =
     (let lo = drv_feature_bits_lo dev;
          csum = bit lo VIRTIO_NET_F_CSUM;
          gso = (csum \<and> (bit lo VIRTIO_NET_F_HOST_TSO4 \<or> bit lo VIRTIO_NET_F_HOST_TSO6));
          noinor = (\<not> bit (feature_bits dev) VIRTIO_F_IN_ORDER);
          mseg = bit lo VIRTIO_NET_F_MRG_RXBUF
      in nd\<lparr>nd_deq_fn_id := set_flag noinor VIRTIO_NET_DEQ_OFFLOAD_NOINOR
               (set_flag gso VIRTIO_NET_DEQ_OFFLOAD_GSO (set_flag csum VIRTIO_NET_DEQ_OFFLOAD_CHECKSUM (nd_deq_fn_id nd))),
            nd_enq_fn_id := set_flag (bit (feature_bits dev) VIRTIO_NET_F_HASH_REPORT) VIRTIO_NET_ENQ_OFFLOAD_HASH_REPORT
               (set_flag mseg VIRTIO_NET_ENQ_OFFLOAD_MSEG
                 (set_flag (bit lo VIRTIO_NET_F_GUEST_CSUM) VIRTIO_NET_ENQ_OFFLOAD_CHECKSUM (nd_enq_fn_id nd))),
            nd_mgmt_fn_id := set_flag mseg VIRTIO_NET_DESC_MANAGE_MSEG (set_flag noinor VIRTIO_NET_DESC_MANAGE_NOINORDER (nd_mgmt_fn_id nd))\<rparr>)"

text \<open>Whether one of the queues wants interrupts; a queue whose structure cannot be fetched is skipped.\<close>

fun wants_events :: "'x virtio_ops \<Rightarrow> virtio_dev \<Rightarrow> virtio_net_queue option list \<Rightarrow> 'x world \<Rightarrow> bool \<times> 'x world" where
  "wants_events ops dev [] w = (False, w)"
| "wants_events ops dev (None # qs) w = wants_events ops dev qs w"
| "wants_events ops dev (Some q # qs) w =
     (case virtio_queue_driver_event_flag ops dev q w of (ev, w1) \<Rightarrow>
        if ev < 0 \<or> ev = RING_EVENT_FLAGS_DISABLE then wants_events ops dev qs w1 else (True, w1))"

text \<open>\<open>wait\<close> is waiting for the completions of a DMA channel.\<close>

definition wait_first :: "(u16 \<Rightarrow> 'x world \<Rightarrow> fault + 'x world) \<Rightarrow> virtio_net_queue option list \<Rightarrow> 'x world \<Rightarrow> fault + 'x world" where
  "wait_first wait qs w =
     (case List.find (\<lambda>q. q \<noteq> None) (take (DAO_VIRTIO_MAX_QUEUES - 1) qs) of
        Some (Some q) \<Rightarrow> wait (nq_dma_vchan q) w
      | _ \<Rightarrow> Inr w)"

definition virtio_netdev_status_cb ::
  "'x virtio_ops \<Rightarrow> 'x world buf_ops \<Rightarrow> net_layout \<Rightarrow> (u16 \<Rightarrow> 'x world \<Rightarrow> fault + 'x world) \<Rightarrow> 'x netdev_cbs \<Rightarrow>
    virtio_dev \<Rightarrow> virtio_netdev \<Rightarrow> cells \<Rightarrow> u8 \<Rightarrow> 'x world \<Rightarrow> fault + int \<times> virtio_netdev \<times> cells \<times> 'x world" where
  "virtio_netdev_status_cb ops bo ly wait cbs dev nd c status w =
     (case status_cb cbs of
        None \<Rightarrow> Inr (- ENOTSUP, nd, c, w)
      | Some f \<Rightarrow>
          if status AND VIRTIO_DEV_DRIVER_OK \<noteq> 0 then
            (let n = nat (max_virtio_queues dev - 1)
             in if length (nd_qs nd) < n then Inl OutOfBounds
                else case wants_events ops dev (take n (nd_qs nd)) w of (ev, w1) \<Rightarrow>
                  rbind (if ev then virtio_netdev_cb_interrupt_conf dev nd w1 else Inr (nd, w1)) (\<lambda>(nd1, w2).
                  case f (dev_id dev) status w2 of (rc, w3) \<Rightarrow> Inr (rc, select_fns dev nd1, c, w3)))
          else if status = VIRTIO_DEV_RESET then
            (case f (dev_id dev) status w of (rc, w1) \<Rightarrow>
               rbind (wait_first wait (nd_qs nd) w1) (\<lambda>w2.
               rbind (virtio_netdev_clear_queue_info ops bo ly dev nd c w2) (\<lambda>(_, nd1, c1, w3).
               Inr (rc, nd1\<lparr>nd_vq_pairs_set := 0\<rparr>, c1, w3))))
          else case f (dev_id dev) status w of (rc, w1) \<Rightarrow> Inr (rc, nd, c, w1))"

section \<open>Interface\<close>

record netdev_conf =
  cf_pem_devid :: u16
  cf_flags :: u16
  cf_pool :: u64
  cf_dataroom_size :: u16
  cf_dma_vchan :: u16
  cf_max_virt_qps_limit :: u16
  cf_auto_free_en :: bool
  cf_reta_size :: u16
  cf_hash_key_size :: u16
  cf_mtu :: u16
  cf_mac :: u64
  cf_status :: u16
  cf_speed :: u32
  cf_duplex :: u8
  cf_csum_en :: bool

definition store16 :: "memory \<Rightarrow> u64 \<Rightarrow> u16 \<Rightarrow> memory" where
  "store16 m a v = m(a := ucast v, a + 1 := ucast (drop_bit 8 v))"

definition netdev_features :: "netdev_conf \<Rightarrow> u64" where
  "netdev_features conf =
     (let f = RTE_BIT64 VIRTIO_NET_F_CTRL_VQ OR RTE_BIT64 VIRTIO_NET_F_MQ OR RTE_BIT64 VIRTIO_NET_F_CTRL_RX OR
            RTE_BIT64 VIRTIO_NET_F_STATUS OR RTE_BIT64 VIRTIO_NET_F_MAC OR RTE_BIT64 VIRTIO_NET_F_MRG_RXBUF OR
            RTE_BIT64 VIRTIO_NET_F_SPEED_DUPLEX;
          f = (if cf_reta_size conf \<noteq> 0 then f OR RTE_BIT64 VIRTIO_NET_F_RSS OR RTE_BIT64 VIRTIO_NET_F_HASH_REPORT else f);
          f = f OR RTE_BIT64 VIRTIO_NET_F_CTRL_MAC_ADDR OR RTE_BIT64 VIRTIO_NET_F_CTRL_VLAN;
          f = (if cf_mtu conf \<noteq> 0 then f OR RTE_BIT64 VIRTIO_NET_F_MTU else f)
      in if cf_csum_en conf
         then f OR RTE_BIT64 VIRTIO_NET_F_CSUM OR RTE_BIT64 VIRTIO_NET_F_GUEST_CSUM OR RTE_BIT64 VIRTIO_NET_F_HOST_TSO4 OR
           RTE_BIT64 VIRTIO_NET_F_HOST_TSO6 OR RTE_BIT64 VIRTIO_NET_F_GUEST_HDRLEN
         else f)"

text \<open>The stores to \<^verbatim>\<open>struct virtio_net_config\<close>, a packed structure.\<close>

definition netdev_config :: "netdev_conf \<Rightarrow> virtio_dev \<Rightarrow> memory \<Rightarrow> memory" where
  "netdev_config conf dev m =
     (let a = dev_cfg dev;
          m = (if cf_mtu conf \<noteq> 0 then store16 m (a + 10) (cf_mtu conf) else m);
          m = fst (dao_dev_memcpy m a (cf_mac conf) 6);
          m = store16 m (a + 6) (cf_status conf);
          m = m(a + 16 := cf_duplex conf);
          m = store32 m (a + 12) (cf_speed conf);
          m = store16 m (a + 8) (word_of_int (max_virtio_queues dev div 2));
          m = m(a + 17 := ucast (cf_hash_key_size conf));
          m = store16 m (a + 18) (cf_reta_size conf)
      in store32 m (a + 20) 0x1FF)"

definition dao_virtio_netdev_init ::
  "'x virtio_ops \<Rightarrow> u64 \<Rightarrow> u16 \<Rightarrow> netdev_conf \<Rightarrow> virtio_dev \<Rightarrow> virtio_netdev \<Rightarrow> region_cb pem \<Rightarrow> 'x world \<Rightarrow>
    fault + int \<times> virtio_dev \<times> virtio_netdev \<times> region_cb pem \<times> 'x world" where
  "dao_virtio_netdev_init ops this dev_no conf dev nd p w =
     (let ext = (cf_flags conf AND DAO_VIRTIO_NETDEV_EXTBUF \<noteq> 0);
          dev0 = dev\<lparr>dev_id := dev_no, dev_type := VIRTIO_DEV_TYPE_NET, pem_devid := cf_pem_devid conf, dma_vchan := cf_dma_vchan conf\<rparr>;
          dev1 = (if cf_max_virt_qps_limit conf \<noteq> 0 then dev0\<lparr>max_virtio_queues_limit := cf_max_virt_qps_limit conf * 2 + 1\<rparr> else dev0);
          nd1 = (if ext then nd\<lparr>nd_dataroom_size := cf_dataroom_size conf\<rparr> else nd\<lparr>nd_pool := cf_pool conf\<rparr>);
          nd2 = nd1\<lparr>nd_flags := cf_flags conf, nd_reta_size := cf_reta_size conf, nd_hash_key_size := cf_hash_key_size conf,
                    nd_auto_free_en := cf_auto_free_en conf\<rparr>
      in rbind (virtio_dev_init ops this dev1 p w) (\<lambda>(rc, dev2, p1, w1).
         if rc \<noteq> 0 then Inr (rc, dev2, nd2, p1, w1)
         else
           let dev3 = virtio_dev_feature_bits_set dev2 (netdev_features conf);
               w2 = w1\<lparr>wmem := netdev_config conf dev3 (wmem w1)\<rparr>;
               nd3 = (if cf_auto_free_en conf then nd2 else nd2\<lparr>nd_enq_fn_id := VIRTIO_NET_ENQ_OFFLOAD_NOFF\<rparr>);
               nd4 = nd3\<lparr>nd_mgmt_fn_id := set_flag ext VIRTIO_NET_DESC_MANAGE_EXTBUF (nd_mgmt_fn_id nd3)\<rparr>
           in case heap_zmalloc ops DAO_HASH_REPORT_INDEX_MAX w2 of (a, w3) \<Rightarrow>
              if a = 0 then Inr (- ENOMEM, dev3, nd4\<lparr>nd_hash_report_addr := 0\<rparr>, p1, w3)
              else Inr (0, dev3, nd4\<lparr>nd_hash_report_addr := a, nd_hash_report := replicate DAO_HASH_REPORT_INDEX_MAX 0\<rparr>, p1, w3)))"

definition dao_virtio_netdev_fini ::
  "'x virtio_ops \<Rightarrow> u64 \<Rightarrow> virtio_dev \<Rightarrow> virtio_netdev \<Rightarrow> region_cb pem \<Rightarrow> 'x world \<Rightarrow>
    int \<times> virtio_dev option \<times> region_cb pem \<times> 'x world" where
  "dao_virtio_netdev_fini ops this dev nd p w = virtio_dev_fini ops this (Some dev) p (heap_free ops (nd_hash_report_addr nd) w)"

definition dao_virtio_netdev_queue_count :: "virtio_dev \<Rightarrow> virtio_netdev \<Rightarrow> int" where
  "dao_virtio_netdev_queue_count dev nd =
     (if device_status (common_cfg dev) AND VIRTIO_DEV_DRIVER_OK = 0 then 0
      else if nd_vq_pairs_set nd \<noteq> 0 then uint (nd_vq_pairs_set nd) * 2
      else 2)"

definition dao_virtio_netdev_feature_bits_get :: "virtio_dev \<Rightarrow> u64" where
  "dao_virtio_netdev_feature_bits_get dev =
     (if device_status (common_cfg dev) AND VIRTIO_DEV_DRIVER_OK = 0 then 0 else feature_bits dev)"

definition dao_virtio_netdev_hdrlen_get :: "virtio_dev \<Rightarrow> u8" where
  "dao_virtio_netdev_hdrlen_get dev = virtio_netdev_hdr_size dev"

definition dao_virtio_netdev_queue_count_max :: "region_cb pem \<Rightarrow> u16 \<Rightarrow> fault + int" where
  "dao_virtio_netdev_queue_count_max p dev_no =
     rbind (virtio_dev_max_virtio_queues p dev_no) (\<lambda>rc. Inr (if rc \<le> 0 then rc else rc - 1))"

definition dao_virtio_netdev_link_sts_update :: "virtio_dev \<Rightarrow> u16 \<Rightarrow> u8 \<Rightarrow> u32 \<Rightarrow> memory \<Rightarrow> fault + int \<times> memory" where
  "dao_virtio_netdev_link_sts_update dev st duplex speed m =
     (if cb_intr_addr dev = [] then Inl OutOfBounds
      else case hd (cb_intr_addr dev) of
        None \<Rightarrow> Inr (- ENOTSUP, m)
      | Some a \<Rightarrow>
          let m1 = store32 ((store16 m (dev_cfg dev + 6) st)(dev_cfg dev + 16 := duplex)) (dev_cfg dev + 12) speed
          in Inr (0, store64 (m1(isr dev := 2)) a (push_bit 59 1)))"

end
