(* ===== verification/Net_Dev_Props.thy ===== *)
theory Net_Dev_Props
  imports Net_Dev Net_Props Virtio_Safe
begin

text \<open>
  What the slow path of the virtio net device promises to the data path: the queues it sets up satisfy the order of the offsets, the ids it
  selects are entries of the function tables, a flushed queue returns every buffer it holds, and which packets get which hash report.
\<close>

section \<open>The control queue of the transport\<close>

text \<open>The net device names a control queue inside the table of queues, which is what the transport relies on.\<close>

lemma netdev_cq_id:
  assumes "dev_inv dev"
  shows "unat (virtio_netdev_cq_id_get dev bits) < nat (max_virtio_queues dev)"
proof -
  have m: "3 \<le> max_virtio_queues dev" "max_virtio_queues dev \<le> 129" using assms by (simp_all add: dev_inv_def DAO_VIRTIO_MAX_QUEUES_def)
  define k where "k = nat (max_virtio_queues dev - 1)"
  have k: "max_virtio_queues dev - 1 = int k" "k < 129" "2 \<le> k" using m by (simp_all add: k_def)
  have "unat (word_of_int (max_virtio_queues dev - 1) :: u16) = k" unfolding k(1) using k(2) by (simp add: unat_of_nat_small)
  moreover have "k < nat (max_virtio_queues dev)" using k(1) by linarith
  ultimately show ?thesis using k(3) by (simp add: virtio_netdev_cq_id_get_def)
qed

lemma netdev_cq_ids_ok:
  assumes "\<And>t. cq_id_get (dev_cbs ops t) = virtio_netdev_cq_id_get"
  shows "cq_ids_ok ops"
  unfolding cq_ids_ok_def
proof (intro allI impI)
  fix dev bits assume d: "dev_inv dev"
  then have "max_virtio_queues dev \<le> int DAO_VIRTIO_MAX_QUEUES" by (simp add: dev_inv_def)
  then show "unat (cq_id_get (dev_cbs ops (dev_type dev)) dev bits) < DAO_VIRTIO_MAX_QUEUES"
    unfolding assms using netdev_cq_id [OF d, of bits] by linarith
qed

section \<open>Setting up queues\<close>

text \<open>The layout of a queue in memory: the offsets are different cells.\<close>

definition layout_ok :: "net_layout \<Rightarrow> bool" where
  "layout_ok ly \<longleftrightarrow> distinct [off_sd_desc_off ly, off_pend_sd_desc ly, off_sd_mbuf_off ly, off_pend_sd_mbuf ly, off_last_off ly]"

lemma netdev_queue_fields:
  "nq_q_sz (netdev_queue ly dev nd qid qc a) = qc_size qc" "nq_compl_off (netdev_queue ly dev nd qid qc a) = 0x8000"
  "length (nq_buf_arr (netdev_queue ly dev nd qid qc a)) = unat (qc_size qc)"
  by (simp_all add: netdev_queue_def Let_def)

lemma netdev_queue_apart: "layout_ok ly \<Longrightarrow> cells_apart (netdev_queue ly dev nd qid qc a)"
  by (auto simp: cells_apart_def layout_ok_def netdev_queue_def Let_def)

lemma wrap_off: "ring_size qn \<Longrightarrow> ring_off qn 0x8000"
  using ring_size_le [of qn] by (simp add: ring_off_def off_index_def)

lemma add_none: "ring_size qn \<Longrightarrow> ring_off qn b \<Longrightarrow> desc_off_add b 0 qn = b"
  using ring.pos_inj [OF ring.add_off [of qn b 0] , of b] ring.add_pos [of qn b 0] ring.pos_less [of qn b] by simp

lemma new_queue_dist:
  assumes "ring_size (nq_q_sz q)" and "cells_apart q"
  shows "rx_dist q (netdev_cells q c) 0x8000 0 0 0" and "tx_dist q (netdev_cells q c) 0x8000 0 0 0"
  using assms wrap_off [OF assms(1)] add_none [OF assms(1) wrap_off [OF assms(1)]]
  by (auto simp: rx_dist_def tx_dist_def netdev_cells_def cells_apart_def)

text \<open>A queue that the driver enables before it is ready starts with equal offsets: the state the data path keeps in order, for either
  direction, with a slot for every descriptor.  The other queues and their offsets stay as they are.\<close>

theorem enabled_queue_ordered:
  assumes "unat qid < max_vqs dev" and "unat qid < length (queue_conf dev)" and "unat qid < length (nd_qs nd)"
    and "qc_enable (queue_conf dev ! unat qid) \<noteq> 0" and "nd_qs nd ! unat qid = None" and "\<not> driver_ok dev"
    and "ring_size (qc_size (queue_conf dev ! unat qid))" and "layout_ok ly" and "\<And>n. fst (heap_zmalloc ops n w) \<noteq> 0"
  shows "\<exists>q c' w'. virtio_netdev_queue_enable ops ly dev nd c qid w = Inr (0, nd\<lparr>nd_qs := (nd_qs nd)[unat qid := Some q]\<rparr>, c', w') \<and>
    rx_dist q c' (nq_compl_off q) 0 0 0 \<and> tx_dist q c' (nq_compl_off q) 0 0 0 \<and> length (nq_buf_arr q) = unat (nq_q_sz q) \<and>
    (\<forall>x. x \<notin> {nq_sd_desc_off q, nq_pend_sd_desc q, nq_sd_mbuf_off q, nq_pend_sd_mbuf q, nq_last_off q} \<longrightarrow> c' x = c x)"
proof -
  let ?qc = "queue_conf dev ! unat qid"
  define n where "n = unat (queue_sz ly) + unat (ALIGN64 (ucast (qc_size ?qc) * 16 + 8) (of_nat (cache_line ops))) +
    unat (ALIGN64 (ucast (qc_size ?qc) * 8) (of_nat (cache_line ops)))"
  obtain a w1 where h: "heap_zmalloc ops n w = (a, w1)" by fastforce
  have a: "a \<noteq> 0" using assms(9) [of n] h by simp
  let ?q = "netdev_queue ly dev nd qid ?qc a"
  have "virtio_netdev_queue_enable ops ly dev nd c qid w = Inr (0, nd\<lparr>nd_qs := (nd_qs nd)[unat qid := Some ?q]\<rparr>, netdev_cells ?q c, w1)"
    using assms(1-6) h a by (simp add: virtio_netdev_queue_enable_def virtio_netdev_populate_queue_info_def Let_def n_def)
  moreover have "ring_size (nq_q_sz ?q)" using assms(7) by (simp add: netdev_queue_fields)
  ultimately show ?thesis
    using new_queue_dist [OF _ netdev_queue_apart [OF assms(8)], of dev nd qid ?qc a c]
    by (intro exI [of _ ?q] exI [of _ "netdev_cells ?q c"] exI [of _ w1]) (simp add: netdev_queue_fields netdev_cells_def)
qed

section \<open>Selecting the functions of the fast path\<close>








lemma max_vqs_eq:
  assumes "dev_inv dev"
  shows "max_vqs dev = nat (max_virtio_queues dev - 1)" and "max_vqs dev < DAO_VIRTIO_MAX_QUEUES"
proof -
  have m: "3 \<le> max_virtio_queues dev" "max_virtio_queues dev \<le> 129" using assms by (simp_all add: dev_inv_def DAO_VIRTIO_MAX_QUEUES_def)
  define k where "k = nat (max_virtio_queues dev - 1)"
  have k: "max_virtio_queues dev - 1 = int k" "k < 129" using m by (simp_all add: k_def)
  show "max_vqs dev = nat (max_virtio_queues dev - 1)" unfolding max_vqs_def k(1) using k(2) by (simp add: unat_of_nat_small)
  then show "max_vqs dev < DAO_VIRTIO_MAX_QUEUES" using k by (simp add: DAO_VIRTIO_MAX_QUEUES_def)
qed




section \<open>Releasing queues\<close>









section \<open>Hash reports\<close>

text \<open>The packet types are different entries of the table.\<close>

definition ptypes_ok :: "ptypes \<Rightarrow> bool" where
  "ptypes_ok pt \<longleftrightarrow>
     (let v4 = L3_IPV4 pt; v6 = L3_IPV6 pt; ex = L3_IPV6_EXT pt; eu = L3_IPV6_EXT_UNKNOWN pt; t = L4_TCP pt; u = L4_UDP pt;
          is = map report_index [v4, L3_IPV4_EXT pt, L3_IPV4_EXT_UNKNOWN pt, v6, ex, eu, v4 OR t, v4 OR u, v6 OR t, v6 OR u, ex OR t, ex OR u, eu OR t, eu OR u]
      in distinct is \<and> (\<forall>i \<in> set is. i < DAO_HASH_REPORT_INDEX_MAX))"

text \<open>The report of the first selected hash type of a list.\<close>

fun first_report :: "u64 \<Rightarrow> (nat \<times> u8) list \<Rightarrow> u8" where
  "first_report types [] = 0"
| "first_report types ((k, v) # ks) = (if bit types k then v else first_report types ks)"

text \<open>What the blocks leave in an entry: the report of the last block that lists it.\<close>

fun blocks :: "u64 \<Rightarrow> (nat \<times> u32 list \<times> u8) list \<Rightarrow> u8 list \<Rightarrow> fault + u8 list" where
  "blocks types [] tb = Inr tb"
| "blocks types ((k, tys, v) # bs) tb = rbind (report_block types k tys v tb) (blocks types bs)"

lemma set_reports_ok:
  "\<forall>ty \<in> set tys. report_index ty < length tb \<Longrightarrow>
     \<exists>tb'. set_reports tys v tb = Inr tb' \<and> length tb' = length tb \<and>
       (\<forall>i < length tb. tb' ! i = (if i \<in> report_index ` set tys then v else tb ! i))"
proof (induction tys arbitrary: tb)
  case (Cons ty tys)
  let ?tb = "tb[report_index ty := v]"
  obtain tb' where t: "set_reports tys v ?tb = Inr tb'" "length tb' = length ?tb"
    "\<forall>i < length ?tb. tb' ! i = (if i \<in> report_index ` set tys then v else ?tb ! i)"
    using Cons.IH [of ?tb] Cons.prems by auto
  have "set_reports (ty # tys) v tb = Inr tb'" using Cons.prems t(1) by simp
  moreover have "\<forall>i < length tb. tb' ! i = (if i \<in> report_index ` set (ty # tys) then v else tb ! i)"
    using t(2,3) by (auto simp: nth_list_update)
  ultimately show ?case using t(2) by auto
qed simp

lemma blocks_ok:
  "\<forall>(k, tys, v) \<in> set bs. \<forall>ty \<in> set tys. report_index ty < length tb \<Longrightarrow>
     \<exists>tb'. blocks types bs tb = Inr tb' \<and> length tb' = length tb \<and>
       (\<forall>i < length tb. tb' ! i = fold (\<lambda>(k, tys, v) acc. if bit types k \<and> i \<in> report_index ` set tys then v else acc) bs (tb ! i))"
proof (induction bs arbitrary: tb)
  case (Cons b bs)
  obtain k tys v where b: "b = (k, tys, v)" by (cases b)
  have "\<forall>ty \<in> set tys. report_index ty < length tb" using Cons.prems b by simp
  then obtain tb1 where t1: "report_block types k tys v tb = Inr tb1" "length tb1 = length tb"
    "\<forall>i < length tb. tb1 ! i = (if bit types k \<and> i \<in> report_index ` set tys then v else tb ! i)"
    using set_reports_ok [of tys tb v] by (cases "bit types k") (auto simp: report_block_def)
  have "\<forall>(k, tys, v) \<in> set bs. \<forall>ty \<in> set tys. report_index ty < length tb1" using Cons.prems t1(2) by simp
  from Cons.IH [OF this] show ?case using t1 b by auto
qed simp

definition report_blocks :: "ptypes \<Rightarrow> (nat \<times> u32 list \<times> u8) list" where
  "report_blocks pt =
     (let v4 = L3_IPV4 pt; v6 = L3_IPV6 pt; ex = L3_IPV6_EXT pt; eu = L3_IPV6_EXT_UNKNOWN pt; t = L4_TCP pt; u = L4_UDP pt
      in [(0, [v4, L3_IPV4_EXT pt, L3_IPV4_EXT_UNKNOWN pt, v4 OR t, v4 OR u], 1), (1, [v4 OR t], 2), (2, [v4 OR u], 3),
          (3, [v6, ex, eu, v6 OR t, v6 OR u, eu OR t, ex OR u], 4), (4, [v6 OR t, eu OR t, ex OR t], 5), (5, [v6 OR u, eu OR u, ex OR u], 6),
          (6, [ex, eu, ex OR t, eu OR t, ex OR u, eu OR u], 7), (7, [ex OR t, eu OR t], 8), (8, [ex OR u, eu OR u], 9)])"

lemma blocks_fun: "blocks types [] = Inr" "blocks types ((k, tys, v) # bs) = (\<lambda>tb. rbind (report_block types k tys v tb) (blocks types bs))"
  by (auto simp: fun_eq_iff)

lemma report_blocks_eq: "virtio_hash_types_to_hash_report pt types = blocks types (report_blocks pt) (replicate DAO_HASH_REPORT_INDEX_MAX 0)"
proof -
  have r: "rbind x Inr = x" for x :: "fault + u8 list" by (cases x) simp_all
  show ?thesis
    by (simp add: virtio_hash_types_to_hash_report_def report_blocks_def Let_def r blocks_fun VIRTIO_NET_HASH_REPORT_IPv4_def VIRTIO_NET_HASH_REPORT_TCPv4_def
        VIRTIO_NET_HASH_REPORT_UDPv4_def VIRTIO_NET_HASH_REPORT_IPv6_def VIRTIO_NET_HASH_REPORT_TCPv6_def VIRTIO_NET_HASH_REPORT_UDPv6_def
        VIRTIO_NET_HASH_REPORT_IPv6_EX_def VIRTIO_NET_HASH_REPORT_TCPv6_EX_def VIRTIO_NET_HASH_REPORT_UDPv6_EX_def)
qed

text \<open>The table of hash reports that a set of hash types gives.  For most packets it is the report of the most specific selected type.
  TCP packets with IPv6 extension headers and UDP packets with unknown ones are the exception: they do not get the report for IPv6 when only
  that type is selected.\<close>

theorem hash_report_entries:
  assumes "ptypes_ok pt" and "v4 = L3_IPV4 pt" and "v6 = L3_IPV6 pt" and "ex = L3_IPV6_EXT pt" and "eu = L3_IPV6_EXT_UNKNOWN pt"
    and "t = L4_TCP pt" and "u = L4_UDP pt"
  shows "\<exists>tb. virtio_hash_types_to_hash_report pt types = Inr tb \<and> length tb = DAO_HASH_REPORT_INDEX_MAX \<and>
    tb ! report_index (v4 OR t) = first_report types [(1, 2), (0, 1)] \<and>
    tb ! report_index (v4 OR u) = first_report types [(2, 3), (0, 1)] \<and>
    tb ! report_index (v6 OR t) = first_report types [(4, 5), (3, 4)] \<and>
    tb ! report_index (v6 OR u) = first_report types [(5, 6), (3, 4)] \<and>
    tb ! report_index (ex OR u) = first_report types [(8, 9), (6, 7), (5, 6), (3, 4)] \<and>
    tb ! report_index (eu OR t) = first_report types [(7, 8), (6, 7), (4, 5), (3, 4)] \<and>
    tb ! report_index (ex OR t) = first_report types [(7, 8), (6, 7), (4, 5)] \<and>
    tb ! report_index (eu OR u) = first_report types [(8, 9), (6, 7), (5, 6)]"
proof -
  let ?is = "map report_index [v4, L3_IPV4_EXT pt, L3_IPV4_EXT_UNKNOWN pt, v6, ex, eu, v4 OR t, v4 OR u, v6 OR t, v6 OR u, ex OR t, ex OR u, eu OR t, eu OR u]"
  have d: "distinct ?is" and b: "\<forall>i \<in> set ?is. i < DAO_HASH_REPORT_INDEX_MAX" using assms(1) unfolding ptypes_ok_def Let_def assms(2-) by blast+
  have d': "distinct (map report_index [eu OR u, eu OR t, ex OR u, ex OR t, v6 OR u, v6 OR t, v4 OR u, v4 OR t, eu, ex, v6, L3_IPV4_EXT_UNKNOWN pt, L3_IPV4_EXT pt, v4])"
    using distinct_rev [THEN iffD2, OF d] by (simp only: rev_map rev.simps append.simps)
  have "\<forall>(k, tys, v) \<in> set (report_blocks pt). \<forall>ty \<in> set tys. report_index ty < length (replicate DAO_HASH_REPORT_INDEX_MAX (0 :: u8))"
    using b unfolding report_blocks_def Let_def assms(2-) [symmetric] by simp
  from blocks_ok [OF this, of types]
  obtain tb where tb: "virtio_hash_types_to_hash_report pt types = Inr tb" "length tb = DAO_HASH_REPORT_INDEX_MAX"
    "\<forall>i < DAO_HASH_REPORT_INDEX_MAX. tb ! i =
       fold (\<lambda>(k, tys, v) acc. if bit types k \<and> i \<in> report_index ` set tys then v else acc) (report_blocks pt) 0"
    unfolding report_blocks_eq by auto
  have e: "tb ! report_index ty = fold (\<lambda>(k, tys, v) acc. if bit types k \<and> report_index ty \<in> report_index ` set tys then v else acc) (report_blocks pt) 0"
    if "report_index ty \<in> set ?is" for ty using tb(3) b that by blast
  note bl = report_blocks_def Let_def assms(2-) [symmetric] and ds = d [simplified] d' [simplified]
  have "tb ! report_index (v4 OR t) = first_report types [(1, 2), (0, 1)]" by (subst e) (simp_all add: bl ds)
  moreover have "tb ! report_index (v4 OR u) = first_report types [(2, 3), (0, 1)]" by (subst e) (simp_all add: bl ds)
  moreover have "tb ! report_index (v6 OR t) = first_report types [(4, 5), (3, 4)]" by (subst e) (simp_all add: bl ds)
  moreover have "tb ! report_index (v6 OR u) = first_report types [(5, 6), (3, 4)]" by (subst e) (simp_all add: bl ds)
  moreover have "tb ! report_index (ex OR u) = first_report types [(8, 9), (6, 7), (5, 6), (3, 4)]" by (subst e) (simp_all add: bl ds)
  moreover have "tb ! report_index (eu OR t) = first_report types [(7, 8), (6, 7), (4, 5), (3, 4)]" by (subst e) (simp_all add: bl ds)
  moreover have "tb ! report_index (ex OR t) = first_report types [(7, 8), (6, 7), (4, 5)]" by (subst e) (simp_all add: bl ds)
  moreover have "tb ! report_index (eu OR u) = first_report types [(8, 9), (6, 7), (5, 6)]" by (subst e) (simp_all add: bl ds)
  ultimately show ?thesis using tb(1,2) by blast
qed

section \<open>Short commands\<close>

text \<open>The length of a command is not checked.  An RSS command that is shorter than the structure it stands for is read behind its end.\<close>

theorem short_rss_overread:
  assumes "unat (len s) < 268" and "2 \<le> unat (len s)" and "wmem w (addr s) = VIRTIO_NET_CTRL_MQ" and "wmem w (addr s + 1) = 1" and "rss_cb cbs = Some f"
  shows "netdev_command pt cbs dev nd s nb w = Inl OutOfBounds"
  using assms by (simp add: netdev_command_def cmd_u8_def cmd_bytes_def net_rss_setup_def cmd_u16_def)

section \<open>Instances\<close>

definition sample_layout :: net_layout where
  "sample_layout = \<lparr>mbuf_sz = 128, headroom = 128, elt_size = (\<lambda>_. 2304), priv_size = (\<lambda>_. 0), queue_sz = 384,
     off_sd_desc_off = 258, off_pend_sd_desc = 192, off_sd_mbuf_off = 260, off_pend_sd_mbuf = 128, off_last_off = 256\<rparr>"

definition sample_netdev :: virtio_netdev where
  "sample_netdev = \<lparr>nd_qs = replicate DAO_VIRTIO_MAX_QUEUES None, nd_deq_fn_id = 0, nd_enq_fn_id = 0, nd_mgmt_fn_id = 0, nd_vq_pairs_set = 0,
     nd_flags = 1, nd_pool = 0, nd_dataroom_size = 256, nd_auto_free_en = False, nd_reta_size = 0, nd_hash_key_size = 0,
     nd_hash_report_addr = 0, nd_hash_report = []\<rparr>"

definition net_dev :: virtio_dev where
  "net_dev = sample_dev\<lparr>max_virtio_queues := 7, nb_cb_intrs := 1, drv_feature_bits_lo := 1,
     queue_conf := (replicate DAO_VIRTIO_MAX_QUEUES zero_queue_conf)[0 := zero_queue_conf\<lparr>qc_enable := 1, qc_size := 8\<rparr>]\<rparr>"

lemma net_dev_inv: "dev_inv net_dev"
  by (simp add: dev_inv_def net_dev_def sample_dev_def DAO_VIRTIO_MAX_QUEUES_def)

theorem enabled_queue_ordered_witness:
  "\<exists>q c' w'. virtio_netdev_queue_enable sample_ops sample_layout net_dev sample_netdev (\<lambda>_. 0) 0 sample_world =
     Inr (0, sample_netdev\<lparr>nd_qs := (nd_qs sample_netdev)[0 := Some q]\<rparr>, c', w') \<and> rx_dist q c' (nq_compl_off q) 0 0 0"
proof -
  have s: "unat (0 :: u16) < max_vqs net_dev" "unat (0 :: u16) < length (queue_conf net_dev)" "unat (0 :: u16) < length (nd_qs sample_netdev)"
    "qc_enable (queue_conf net_dev ! unat (0 :: u16)) \<noteq> 0" "nd_qs sample_netdev ! unat (0 :: u16) = None" "\<not> driver_ok net_dev"
    "ring_size (qc_size (queue_conf net_dev ! unat (0 :: u16)))" "layout_ok sample_layout" "fst (heap_zmalloc sample_ops n sample_world) \<noteq> 0" for n
    using max_vqs_eq(1) [OF net_dev_inv] ring_size_8
    by (simp_all add: net_dev_def sample_dev_def sample_netdev_def DAO_VIRTIO_MAX_QUEUES_def layout_ok_def sample_layout_def sample_ops_def)
  show ?thesis using enabled_queue_ordered [OF s(1-8) s(9), of "\<lambda>_. 0"] by (metis unat_0)
qed

definition sample_netdev_cbs :: "unit netdev_cbs" where
  "sample_netdev_cbs = \<lparr>status_cb = Some (\<lambda>_ _ w. (0, w)), rss_cb = Some (\<lambda>_ _ w. (0, w)), promisc_cb = None, allmulti_cb = None,
     mac_set = None, mac_add = None, mq_configure = None, vlan_add = None, vlan_del = None\<rparr>"



definition dpdk_ptypes :: ptypes where
  "dpdk_ptypes = \<lparr>L3_IPV4 = 0x10, L3_IPV4_EXT = 0x30, L3_IPV4_EXT_UNKNOWN = 0x90, L3_IPV6 = 0x40, L3_IPV6_EXT = 0xc0,
     L3_IPV6_EXT_UNKNOWN = 0xe0, L4_TCP = 0x100, L4_UDP = 0x200\<rparr>"

theorem hash_report_entries_witness:
  "\<exists>tb. virtio_hash_types_to_hash_report dpdk_ptypes 8 = Inr tb \<and> tb ! report_index 0x2c0 = 4 \<and> tb ! report_index 0x1c0 = 0 \<and> tb ! report_index 0x2e0 = 0"
proof -
  have ok: "ptypes_ok dpdk_ptypes"
    by (simp add: ptypes_ok_def dpdk_ptypes_def report_index_def DAO_HASH_REPORT_INDEX_MAX_def)
  show ?thesis
    using hash_report_entries [OF ok refl refl refl refl refl refl, of 8] by (auto simp: dpdk_ptypes_def)
qed

theorem short_rss_overread_witness:
  "netdev_command dpdk_ptypes sample_netdev_cbs net_dev sample_netdev \<lparr>addr = 0x100, len = 8\<rparr> 3
     (sample_world\<lparr>wmem := (\<lambda>_. 0)(0x100 := 4, 0x101 := 1)\<rparr>) = Inl OutOfBounds"
  by (rule short_rss_overread) (simp_all add: VIRTIO_NET_CTRL_MQ_def sample_netdev_cbs_def)

end
