(* ===== verification/Spec2Isabelle.thy ===== *)
theory Spec2Isabelle
  imports Prelude Util Bitmap Ring Dma Dma_Stream Dma_Compl Dma_Lcore Dstring Dstring_Facts
    Dstring_Text Dstring_Hex Pem Pem_Facts Virtio_Dev Virtio_Init Virtio_Facts Virtio_Safe
    Virtio_Props Virtio_Layout Slots Port_Group Port_Group_Props Portq_Group Workers Workers_Facts
    Workers_Props Barrier Feature_Arc Feature_Chain Feature_Facts Feature_Disable Feature_Props
    Net_Queue Net_Ext Net_Facts Net_Bufs Net_Order Net_Deq Net_Props Net_Dev Net_Dev_Props
begin

text \<open>
  Verification of DAO, the data path accelerator offload libraries (\<^verbatim>\<open>src/lib\<close>), on top of DPDK.

  \<^bold>\<open>The program.\<close>  A DPU presents virtio devices to a host over PCIe.  The PEM library divides the register window of the endpoint among the
  virtual functions and polls registered parts of it for changes.  The virtio device library is one client of that polling: it reacts to the
  registers the host writes, negotiates features, sets up queues and serves the control queue.  The virtio net library moves packets between
  the rings of the host and buffers of the application: a service core copies descriptors with the DMA helper, workers copy data.  Port
  groups, port queue groups, the worker table with its barrier, feature arcs, dynamic strings and the index bitmap are libraries the
  applications use beside this.

  \<^bold>\<open>How C is represented.\<close>  Integers keep their width (\<open>u8\<close>, \<open>u16\<close>, \<open>u32\<close>, \<open>u64\<close>) and wrap as in C; a return code is an \<open>int\<close>.  A
  structure is a record, and a function that changes one returns it.  A statement that would leave an array, dereference a pointer without
  an object, divide by zero, shift too far, or fail an assertion is a value \<open>Inl\<close> of type \<open>fault\<close>, so a theorem that a call gives \<open>Inr\<close>
  says that none of this happens.  Code of DPDK, of the kernel and of the application is a parameter, a record of functions such as \<open>dma_ops\<close>,
  \<open>bitmap_ops\<close>, \<open>virtio_ops\<close> or \<open>buf_ops\<close>; what a theorem needs of it is a named predicate such as \<open>bitmap_laws\<close> or \<open>extbuf_laws\<close>, shown to be
  satisfiable by a concrete instance.

  \<^bold>\<open>Theories.\<close>
  \<^item> \<open>Prelude\<close>: integers, faults, error codes, list and word lemmas, the interfaces \<open>slot_table\<close> and \<open>invariant_system\<close>.
  \<^item> \<open>Util\<close>, \<open>Bitmap\<close>, \<open>Dstring\<close> with \<open>Dstring_Facts\<close>, \<open>Dstring_Text\<close> and \<open>Dstring_Hex\<close>: \<^verbatim>\<open>lib/common\<close> besides the DMA helper (\<^verbatim>\<open>dao_util.c\<close>,
    \<^verbatim>\<open>dao_net.h\<close>, \<^verbatim>\<open>dao_bitmap.c\<close>, \<^verbatim>\<open>dao_dynamic_string.c\<close>).  The allocator of indexes refines a set of free indexes.  Every operation that
    appends to a string keeps the buffer well formed and appends exactly its text; a dump has the exact text of its rows.
  \<^item> \<open>Dma\<close>, \<open>Dma_Stream\<close>, \<open>Dma_Compl\<close>, \<open>Dma_Lcore\<close>: \<^verbatim>\<open>dao_dma.h\<close> and \<^verbatim>\<open>dma.c\<close>.  The pointers enqueued on a channel reach the device in order, once
    each and without leaving the arrays; completions apply their meta data in order; waiting for a channel ends when the device finishes.
  \<^item> \<open>Pem\<close>, \<open>Pem_Facts\<close>: \<^verbatim>\<open>pem.c\<close> and \<^verbatim>\<open>sdp.c\<close>.  Registration of polled regions refines a table that takes the first free slot; the windows of
    different virtual functions do not overlap.
  \<^item> \<open>Ring\<close>: the offsets of \<^verbatim>\<open>virtio_dev_priv.h\<close>, shown to be positions modulo twice the ring (interface \<open>ring_offset\<close>).
  \<^item> \<open>Virtio_Dev\<close>, \<open>Virtio_Init\<close>: \<^verbatim>\<open>virtio_dev.c\<close> and \<^verbatim>\<open>virtio_mbox.c\<close>; \<open>Virtio_Facts\<close> and \<open>Virtio_Safe\<close>: device and host as a step relation,
    with the invariant that makes the configuration callback safe against any host; \<open>Virtio_Props\<close>: negotiation, reset, queue selection and
    the control queue; \<open>Virtio_Layout\<close>: the capabilities as a PCI driver reads them.
  \<^item> \<open>Slots\<close>, \<open>Port_Group\<close>, \<open>Port_Group_Props\<close>, \<open>Portq_Group\<close>: \<^verbatim>\<open>lib/portgroup\<close>.  Adding and finding ports, iteration over all of them, and
    that the lists of different cores do not touch each other.
  \<^item> \<open>Workers\<close>, \<open>Workers_Facts\<close>, \<open>Workers_Props\<close>: \<^verbatim>\<open>dao_workers_init\<close> and the lookups; \<open>Barrier\<close>: the barrier as an interleaving of the control
    core and the workers, with what it guarantees and when a second use may hang.
  \<^item> \<open>Feature_Arc\<close>: \<^verbatim>\<open>lib/featurearc\<close>; \<open>Feature_Chain\<close>, \<open>Feature_Facts\<close>, \<open>Feature_Disable\<close>, \<open>Feature_Props\<close>: the chain of enabled features,
    what enabling, disabling and adding return on every branch, and what the fast path then visits.
  \<^item> \<open>Net_Queue\<close>, \<open>Net_Ext\<close>: the descriptor management and the workers with external buffers of \<^verbatim>\<open>lib/virtio_net\<close>; \<open>Net_Facts\<close>, \<open>Net_Bufs\<close>,
    \<open>Net_Order\<close>, \<open>Net_Deq\<close>, \<open>Net_Props\<close>: which descriptors are copied, that no buffer is lost, the order of the offsets, and what a host can
    break; \<open>Net_Dev\<close>, \<open>Net_Dev_Props\<close>: the slow path of \<^verbatim>\<open>virtio_netdev.c\<close>, with the selection of the fast path functions, the flush at a reset,
    and the commands of the control queue.

  \<^bold>\<open>Interfaces.\<close>  \<open>slot_table\<close> is interpreted by the region table, the port groups and the port queue groups; \<open>invariant_system\<close> by the runs of
  the virtio device and of the barrier; \<open>ring_offset\<close> by the offset functions; \<open>dma_channel\<close> by the channel of the DMA helper; \<open>appender\<close> by the
  three ways of appending to a string.

  \<^bold>\<open>Loops and bounds.\<close>  A loop that ends for every input is a total function.  Loops that poll hardware with a time-out take the number of
  polls the code makes, \<open>VIRTIO_DMA_TMO_MS\<close>, so running out is the time-out of the code.  \<open>compl_drain\<close>, which has no time-out, is a partial function;
  that it returns is proved from the device finishing its operations.  The barrier is a step relation without a bound; its progress is
  stated as reachability.

  \<^bold>\<open>Assumptions of the model.\<close>  The words of the barrier are accessed sequentially consistently, which is more than relaxed atomics
  promise.  A callback of the polling thread runs without interruption between its own reads, while the host may write before and after it.  Lengths of
  dynamic strings stay below the width of \<^verbatim>\<open>size_t\<close>.  The layout of structures that only the compiler knows is a parameter.

  \<^bold>\<open>Not modelled.\<close>  The workers with packet buffers (\<^verbatim>\<open>virtio_net_deq.c\<close> and \<^verbatim>\<open>virtio_net_enq.c\<close> besides their flush functions), which are vector
  code over the layout of \<^verbatim>\<open>rte_mbuf\<close>; the flow, netlink and platform libraries and the functions of the VFIO library, whose effects are calls of
  \<^verbatim>\<open>rte_flow\<close>, \<^verbatim>\<open>rte_acl\<close>, libnl and the kernel; logging; the applications, the kernel module, the test programs and the build files; the
  specification of virtio crypto, which nothing uses.
\<close>

end
